(* ===== verification/Prelude.thy ===== *)
theory Prelude
  imports Main "HOL-Library.Word" "HOL-Library.List_Lexorder" "HOL-Library.Product_Lexorder"
begin

text \<open>
  Shared vocabulary of the development: results of fallible Go functions as sums, the
  database transaction wrapper, dynamically typed JSON trees (Go's \<^verbatim>\<open>any\<close>),
  instants and durations, and the generic facts on lists, sums and folds that the component
  theories use. The collections declared here are:
  \<^item> \<open>result_simps\<close>: elimination of the result combinators;
  \<^item> \<open>queue_defs\<close>: the definitions of the operations of the durable job queue;
  \<^item> \<open>row_simps\<close>: what each SQL statement of the queue does to one row.
\<close>

named_theorems result_simps \<open>elimination of results of fallible calls\<close>
named_theorems queue_defs \<open>definitions of the job queue operations\<close>
named_theorems row_simps \<open>effect of the queue's SQL statements on one row\<close>

section \<open>Results\<close>

text \<open>A Go function that returns a value and an error returns \<open>Inl\<close> of the error or
  \<open>Inr\<close> of the value.\<close>

definition bindE :: "'e + 'a \<Rightarrow> ('a \<Rightarrow> 'e + 'b) \<Rightarrow> 'e + 'b" where
  "bindE r f = (case r of Inl e \<Rightarrow> Inl e | Inr x \<Rightarrow> f x)"

lemma bindE_Inr_eq [result_simps]:
  "bindE r f = Inr y \<longleftrightarrow> (\<exists>x. r = Inr x \<and> f x = Inr y)"
  by (auto simp: bindE_def split: sum.splits)

lemma bindE_Inl_eq [result_simps]:
  "bindE r f = Inl e \<longleftrightarrow> r = Inl e \<or> (\<exists>x. r = Inr x \<and> f x = Inl e)"
  by (auto simp: bindE_def split: sum.splits)

lemma bindE_simps [simp]: "bindE (Inl e) f = Inl e" "bindE (Inr x) f = f x"
  by (simp_all add: bindE_def)

definition isOk :: "'e + 'a \<Rightarrow> bool" where
  "isOk r \<longleftrightarrow> (case r of Inl _ \<Rightarrow> False | Inr _ \<Rightarrow> True)"

lemma isOk_simps [simp]: "\<not> isOk (Inl e)" "isOk (Inr x)"
  by (simp_all add: isOk_def)

text \<open>A guard that turns a failed condition into an early error return.\<close>

definition ensureE :: "bool \<Rightarrow> 'e \<Rightarrow> 'e + unit" where
  "ensureE b e = (if b then Inr () else Inl e)"

lemma ensureE_eqs [result_simps]:
  "ensureE b e = Inr u \<longleftrightarrow> b"
  "ensureE b e = Inl e' \<longleftrightarrow> \<not> b \<and> e' = e"
  by (auto simp: ensureE_def)

section \<open>Transactions\<close>

text \<open>
  A transaction body maps the state to an error or to the new state and a value. The
  wrapper commits the new state or leaves the old one, and hands the caller the value or the
  error.
\<close>

type_synonym ('s, 'e, 'a) txn = "'s \<Rightarrow> 'e + ('s \<times> 'a)"
type_synonym ('s, 'e, 'a) action = "'s \<Rightarrow> 's \<times> ('e + 'a)"

section \<open>Instants, durations, identifiers\<close>

text \<open>
  A database instant is a number of microseconds, a Go instant and a Go duration a number of
  nanoseconds.
\<close>

type_synonym pgtime = int
type_synonym gotime = int
type_synonym duration = int
type_synonym byte = "8 word"

text \<open>\<^verbatim>\<open>Duration.Microseconds\<close>: integer division of the nanoseconds, truncated towards
  zero.\<close>

definition Microseconds :: "duration \<Rightarrow> int" where
  "Microseconds d = sgn d * (\<bar>d\<bar> div 1000)"

lemma Microseconds_pos_iff: "0 < Microseconds d \<longleftrightarrow> 1000 \<le> d"
proof (cases "d \<ge> 0")
  case True
  then show ?thesis by (cases "d = 0") (auto simp: Microseconds_def pos_imp_zdiv_pos_iff)
next
  case False
  have "0 \<le> \<bar>d\<bar> div 1000" by simp
  then show ?thesis using False by (simp add: Microseconds_def mult_less_0_iff)
qed

section \<open>Dynamically typed values\<close>

text \<open>
  The values the program keeps as \<^verbatim>\<open>any\<close> and encodes as JSON. An object is an
  association list with distinct keys; a number keeps its literal text, as
  \<^verbatim>\<open>json.Number\<close> does; \<open>GOpaque\<close> stands for a Go value that the JSON
  encoder refuses.
\<close>

datatype gval =
    GNull
  | GBool bool
  | GNumber string
  | GString string
  | GArray "gval list"
  | GObject "(string \<times> gval) list"
  | GOpaque

text \<open>The encoder succeeds exactly on trees without an unsupported value.\<close>

fun marshalable :: "gval \<Rightarrow> bool" where
  "marshalable GNull = True"
| "marshalable (GBool b) = True"
| "marshalable (GNumber n) = True"
| "marshalable (GString s) = True"
| "marshalable (GArray xs) = list_all marshalable xs"
| "marshalable (GObject kvs) = list_all (\<lambda>kv. marshalable (snd kv)) kvs"
| "marshalable GOpaque = False"

section \<open>Lists\<close>

lemma length_filter_map_le:
  assumes "\<And>x. x \<in> set xs \<Longrightarrow> P (f x) \<Longrightarrow> P x"
  shows "length (filter P (map f xs)) \<le> length (filter P xs)"
  using assms
proof (induction xs)
  case Nil
  then show ?case by simp
next
  case (Cons x xs)
  have "length (filter P (map f xs)) \<le> length (filter P xs)"
    using Cons by simp
  then show ?case using Cons.prems [of x] by auto
qed

lemma length_filter_map_less:
  assumes imp: "\<And>x. x \<in> set xs \<Longrightarrow> P (f x) \<Longrightarrow> P x"
    and y: "y \<in> set xs" "P y" "\<not> P (f y)"
  shows "length (filter P (map f xs)) < length (filter P xs)"
  using assms
proof (induction xs)
  case Nil
  then show ?case by simp
next
  case (Cons x xs)
  have le: "length (filter P (map f xs)) \<le> length (filter P xs)"
    using Cons.prems(1) by (intro length_filter_map_le) auto
  show ?case
  proof (cases "x = y")
    case True
    with le Cons.prems(3,4) show ?thesis by simp
  next
    case False
    then have "y \<in> set xs" using Cons.prems(2) by simp
    then have "length (filter P (map f xs)) < length (filter P xs)"
      using Cons by simp
    then show ?thesis using Cons.prems(1) [of x] by auto
  qed
qed

lemma length_filter_mono:
  "(\<And>x. x \<in> set xs \<Longrightarrow> P x \<Longrightarrow> Q x) \<Longrightarrow>
    length (filter P xs) \<le> length (filter Q xs)"
  by (induction xs) auto

lemma distinct_map_filter_map:
  assumes "\<And>x. x \<in> set xs \<Longrightarrow> P (f x) \<Longrightarrow> P x"
    and "\<And>x. x \<in> set xs \<Longrightarrow> k (f x) = k x"
    and "distinct (map k (filter P xs))"
  shows "distinct (map k (filter P (map f xs)))"
  using assms
proof (induction xs)
  case Nil
  then show ?case by simp
next
  case (Cons x xs)
  have "distinct (map k (filter P xs))"
    using Cons.prems(3) by (auto split: if_splits)
  then have d: "distinct (map k (filter P (map f xs)))"
    using Cons by simp
  have sub: "k ` set (filter P (map f xs)) \<subseteq> k ` set (filter P xs)"
    using Cons.prems(1,2) by (auto simp: image_iff)
  show ?case
  proof (cases "P (f x)")
    case True
    then have "P x" using Cons.prems(1) [of x] by simp
    then have "k x \<notin> k ` set (filter P xs)" using Cons.prems(3) by simp
    with sub have "k (f x) \<notin> k ` set (filter P (map f xs))"
      using Cons.prems(2) [of x] by auto
    then show ?thesis using True d by simp
  next
    case False
    then show ?thesis using d by simp
  qed
qed

end
