(* ===== verification/JobTypes.thy ===== *)
theory JobTypes
  imports Prelude
begin

text \<open>
  The types of the durable job queue (\<^verbatim>\<open>internal/jobs/types.go\<close>): job types, statuses,
  identifiers with their textual form, commands, permits and their validation, and the
  pagination guard of \<^verbatim>\<open>read.go\<close>.
\<close>

section \<open>Job types and statuses\<close>

definition validTypes :: "string list" where
  "validTypes = [''VALIDATE_SOURCE'', ''SYNC_SOURCE'', ''PREPARE_RUN'', ''PLAN_RUN'',
     ''GENERATE_PAGE'', ''FINALIZE_RUN'', ''DISCOVER_ENDPOINT'', ''PROBE_MODEL'',
     ''REFRESH_DISCORD'', ''PURGE_KNOWLEDGE_BASE'', ''APPLY_RETENTION'']"

definition ValidType :: "string \<Rightarrow> bool" where
  "ValidType value \<longleftrightarrow> value \<in> set validTypes"

datatype Status = Pending | Leased | Succeeded | RetryWait | Failed | CancelRequested | Cancelled

fun statusName :: "Status \<Rightarrow> string" where
  "statusName Pending = ''PENDING''"
| "statusName Leased = ''LEASED''"
| "statusName Succeeded = ''SUCCEEDED''"
| "statusName RetryWait = ''RETRY_WAIT''"
| "statusName Failed = ''FAILED''"
| "statusName CancelRequested = ''CANCEL_REQUESTED''"
| "statusName Cancelled = ''CANCELLED''"

definition ValidStatus :: "string \<Rightarrow> bool" where
  "ValidStatus value \<longleftrightarrow>
     value \<in> set (map statusName
       [Pending, Leased, Succeeded, RetryWait, Failed, CancelRequested, Cancelled])"

lemma statusName_inject [simp]: "statusName a = statusName b \<longleftrightarrow> a = b"
  by (cases a; cases b) simp_all

lemma ValidStatus_iff: "ValidStatus v \<longleftrightarrow> (\<exists>s. v = statusName s)"
proof
  assume "ValidStatus v"
  then show "\<exists>s. v = statusName s" by (auto simp: ValidStatus_def simp del: statusName.simps)
next
  assume "\<exists>s. v = statusName s"
  then obtain s where "v = statusName s" ..
  then show "ValidStatus v" by (cases s) (simp_all add: ValidStatus_def)
qed

text \<open>The statuses of the partial unique index on \<^verbatim>\<open>operation_key\<close> and of
  \<^verbatim>\<open>FindActiveJobIDByOperationKey\<close>; those that hold a lease; and the final ones.\<close>

definition activeStatus :: "Status \<Rightarrow> bool" where
  "activeStatus s \<longleftrightarrow> s \<in> {Pending, Leased, RetryWait, CancelRequested}"

definition heldStatus :: "Status \<Rightarrow> bool" where
  "heldStatus s \<longleftrightarrow> s \<in> {Leased, CancelRequested}"

lemma activeStatus_simps [simp]:
  "activeStatus Pending" "activeStatus Leased" "activeStatus RetryWait"
  "activeStatus CancelRequested" "\<not> activeStatus Succeeded" "\<not> activeStatus Failed"
  "\<not> activeStatus Cancelled"
  by (simp_all add: activeStatus_def)

lemma heldStatus_simps [simp]:
  "\<not> heldStatus Pending" "heldStatus Leased" "\<not> heldStatus RetryWait"
  "heldStatus CancelRequested" "\<not> heldStatus Succeeded" "\<not> heldStatus Failed"
  "\<not> heldStatus Cancelled"
  by (simp_all add: heldStatus_def)

lemma heldStatus_active: "heldStatus s \<Longrightarrow> activeStatus s"
  by (cases s) simp_all

section \<open>Identifiers\<close>

type_synonym UUID = "byte list"
type_synonym JobID = UUID
type_synonym WorkerID = string

text \<open>The hexadecimal codec of \<^verbatim>\<open>encoding/hex\<close>: lower-case output, either case accepted,
  an odd number of digits refused.\<close>

definition hextable :: string where
  "hextable = ''0123456789abcdef''"

fun hexValue :: "char \<Rightarrow> nat option" where
  "hexValue c = (let n = of_char c :: nat in
     if 48 \<le> n \<and> n \<le> 57 then Some (n - 48)
     else if 97 \<le> n \<and> n \<le> 102 then Some (n - 87)
     else if 65 \<le> n \<and> n \<le> 70 then Some (n - 55)
     else None)"

fun hexEncode :: "byte list \<Rightarrow> string" where
  "hexEncode [] = []"
| "hexEncode (b # bs) =
     (hextable ! (unat b div 16)) # (hextable ! (unat b mod 16)) # hexEncode bs"

fun hexDecode :: "string \<Rightarrow> byte list option" where
  "hexDecode [] = Some []"
| "hexDecode [c] = None"
| "hexDecode (c # d # rest) =
     (case (hexValue c, hexValue d) of
        (Some hi, Some lo) \<Rightarrow> map_option (\<lambda>bs. of_nat (16 * hi + lo) # bs) (hexDecode rest)
      | _ \<Rightarrow> None)"

text \<open>
  \<^verbatim>\<open>ParseUUID\<close> checks the length and the four dashes, deletes every dash and decodes into
  a zeroed array of sixteen bytes: what the decoder does not write stays zero.
\<close>

definition ParseUUID :: "string \<Rightarrow> string + UUID" where
  "ParseUUID value =
     (if length value \<noteq> 36 \<or> value ! 8 \<noteq> CHR ''-'' \<or> value ! 13 \<noteq> CHR ''-'' \<or>
         value ! 18 \<noteq> CHR ''-'' \<or> value ! 23 \<noteq> CHR ''-''
      then Inl ''UUID must use canonical form''
      else let raw = filter (\<lambda>c. c \<noteq> CHR ''-'') value in
        case hexDecode raw of
          None \<Rightarrow> Inl ''UUID must use canonical form''
        | Some bs \<Rightarrow> Inr (bs @ replicate (16 - length bs) 0))"

definition uuidString :: "UUID \<Rightarrow> string" where
  "uuidString uid = (let raw = hexEncode uid in
     take 8 raw @ ''-'' @ take 4 (drop 8 raw) @ ''-'' @ take 4 (drop 12 raw) @ ''-'' @
     take 4 (drop 16 raw) @ ''-'' @ drop 20 raw)"

subsection \<open>The codec and the textual form\<close>

lemma hextable_digits:
  "list_all (\<lambda>n. hexValue (hextable ! n) = Some n \<and> hextable ! n \<noteq> CHR ''-'') [0..<16]"
  by (simp add: upt_rec [of 0] upt_rec [of "Suc 0"] upt_rec_numeral hextable_def numeral_2_eq_2 [symmetric])

lemma hexValue_hextable: "n < 16 \<Longrightarrow> hexValue (hextable ! n) = Some n"
  using hextable_digits by (simp add: list_all_iff)

lemma hextable_not_dash: "n < 16 \<Longrightarrow> hextable ! n \<noteq> CHR ''-''"
  using hextable_digits by (simp add: list_all_iff)

lemma unat_byte_bound: "unat (b :: byte) < 256"
  using unsigned_less [of b, where 'a = nat] by simp

lemma length_hexEncode [simp]: "length (hexEncode bs) = 2 * length bs"
  by (induction bs) auto

lemma hexEncode_no_dash: "CHR ''-'' \<notin> set (hexEncode bs)"
proof (induction bs)
  case Nil
  then show ?case by simp
next
  case (Cons b bs)
  have "unat b div 16 < 16" "unat b mod 16 < 16"
    using unat_byte_bound [of b] by auto
  then show ?case using Cons hextable_not_dash by (auto dest: sym)
qed

lemma hexDecode_hexEncode: "hexDecode (hexEncode bs) = Some bs"
proof (induction bs)
  case Nil
  then show ?case by simp
next
  case (Cons b bs)
  have "unat b div 16 < 16" "unat b mod 16 < 16"
    using unat_byte_bound [of b] by auto
  moreover have "of_nat (16 * (unat b div 16) + unat b mod 16) = b"
    by simp
  ultimately show ?case using Cons
    by (simp add: hexValue_hextable del: hexValue.simps of_nat_add of_nat_mult)
qed

lemma filter_not_dash: "filter (\<lambda>c. c \<noteq> CHR ''-'') (hexEncode bs) = hexEncode bs"
  using hexEncode_no_dash [of bs] by (auto simp: filter_id_conv)

lemma filter_dash_id: "CHR ''-'' \<notin> set xs \<Longrightarrow> filter (\<lambda>c. c \<noteq> CHR ''-'') xs = xs"
  by (auto simp: filter_id_conv)

lemma filter_uuidString:
  "filter (\<lambda>c. c \<noteq> CHR ''-'') (uuidString uid) = hexEncode uid"
proof -
  define raw where "raw = hexEncode uid"
  have nd: "CHR ''-'' \<notin> set raw" by (simp add: raw_def hexEncode_no_dash)
  have parts: "CHR ''-'' \<notin> set (take k (drop n raw))" "CHR ''-'' \<notin> set (drop n raw)"
    "CHR ''-'' \<notin> set (take k raw)" for k n
    using nd by (auto dest: in_set_takeD in_set_dropD)
  have "raw = take 8 raw @ take 4 (drop 8 raw) @ take 4 (drop 12 raw) @
      take 4 (drop 16 raw) @ drop 20 raw"
    using append_take_drop_id [of 8 raw] append_take_drop_id [of 4 "drop 8 raw"]
      append_take_drop_id [of 4 "drop 12 raw"] append_take_drop_id [of 4 "drop 16 raw"]
    by (simp only: drop_drop) simp
  then show ?thesis
    by (simp add: uuidString_def Let_def raw_def [symmetric] parts [THEN filter_dash_id]
       )
qed

lemma length_uuidString: "length uid = 16 \<Longrightarrow> length (uuidString uid) = 36"
  by (simp add: uuidString_def Let_def)

lemma uuidString_dashes:
  assumes "length uid = 16"
  shows "uuidString uid ! 8 = CHR ''-''" "uuidString uid ! 13 = CHR ''-''"
    "uuidString uid ! 18 = CHR ''-''" "uuidString uid ! 23 = CHR ''-''"
  using assms by (simp_all add: uuidString_def Let_def nth_append)

lemma ParseUUID_uuidString: "length uid = 16 \<Longrightarrow> ParseUUID (uuidString uid) = Inr uid"
  by (simp add: ParseUUID_def length_uuidString uuidString_dashes filter_uuidString
      hexDecode_hexEncode)

lemma length_hexDecode: "hexDecode s = Some bs \<Longrightarrow> length s = 2 * length bs"
  by (induction s arbitrary: bs rule: hexDecode.induct)
     (auto split: option.splits simp del: hexValue.simps)

section \<open>Commands and permits\<close>

record Command =
  cmd_Type :: string
  cmd_TargetType :: string
  cmd_TargetID :: UUID
  cmd_Payload :: "(string \<times> gval) list option"
  cmd_OperationKey :: string
  cmd_MaxAttempts :: int
  cmd_NotBefore :: "gotime option"
  cmd_ConcurrencyKey :: string
  cmd_ConcurrencyLimit :: int

datatype jobError =
    ErrStalePermit
  | ErrJobNotFound
  | ErrJobConflict Status
  | ErrInvalid string
  | ErrCallback string
  | ErrDatabase

definition commandValidate :: "Command \<Rightarrow> jobError + unit" where
  "commandValidate command =
     (if \<not> ValidType (cmd_Type command) then Inl (ErrInvalid ''invalid job type'')
      else if cmd_TargetType command = [] then Inl (ErrInvalid ''target type must not be empty'')
      else if cmd_OperationKey command = [] then Inl (ErrInvalid ''operation key must not be empty'')
      else if cmd_MaxAttempts command \<le> 0 then Inl (ErrInvalid ''max attempts must be positive'')
      else if cmd_ConcurrencyKey command = [] \<and> cmd_ConcurrencyLimit command \<noteq> 0 \<or>
         cmd_ConcurrencyKey command \<noteq> [] \<and>
           (length (cmd_ConcurrencyKey command) > 512 \<or> cmd_ConcurrencyLimit command < 1 \<or>
            cmd_ConcurrencyLimit command > 32)
      then Inl (ErrInvalid ''job concurrency key and limit are invalid'')
      else Inr ())"

record Permit =
  permit_JobID :: JobID
  permit_WorkerID :: WorkerID
  permit_LeaseGeneration :: int

definition permitValidate :: "Permit \<Rightarrow> jobError + unit" where
  "permitValidate permit =
     (if permit_WorkerID permit = [] then Inl (ErrInvalid ''worker ID must not be empty'')
      else if permit_LeaseGeneration permit \<le> 0
      then Inl (ErrInvalid ''lease generation must be positive'')
      else Inr ())"

definition retryStatus :: "int \<Rightarrow> int \<Rightarrow> Status" where
  "retryStatus attemptCount maxAttempts =
     (if attemptCount < maxAttempts then RetryWait else Failed)"

record Snapshot =
  snap_ID :: JobID
  snap_Type :: string
  snap_TargetType :: string
  snap_TargetID :: UUID
  snap_Status :: Status
  snap_AttemptCount :: int
  snap_MaxAttempts :: int
  snap_Progress :: int
  snap_LeaseOwner :: "string option"
  snap_LeaseExpiresAt :: "pgtime option"
  snap_LeaseGeneration :: int
  snap_NotBefore :: "pgtime option"
  snap_Result :: "(string \<times> gval) list option"
  snap_SanitizedError :: "string option"
  snap_CreatedAt :: pgtime
  snap_UpdatedAt :: pgtime
  snap_StartedAt :: "pgtime option"
  snap_FinishedAt :: "pgtime option"

lemma commandValidate_ok_iff:
  "commandValidate c = Inr u \<longleftrightarrow>
     ValidType (cmd_Type c) \<and> cmd_TargetType c \<noteq> [] \<and> cmd_OperationKey c \<noteq> [] \<and>
     0 < cmd_MaxAttempts c \<and>
     (if cmd_ConcurrencyKey c = [] then cmd_ConcurrencyLimit c = 0
      else length (cmd_ConcurrencyKey c) \<le> 512 \<and> 1 \<le> cmd_ConcurrencyLimit c \<and>
        cmd_ConcurrencyLimit c \<le> 32)"
  by (auto simp: commandValidate_def)

lemma permitValidate_ok_iff [result_simps]:
  "permitValidate p = Inr u \<longleftrightarrow> permit_WorkerID p \<noteq> [] \<and> 0 < permit_LeaseGeneration p"
  by (auto simp: permitValidate_def)

end
