(* ===== verification/GoStd.thy ===== *)
theory GoStd
  imports Prelude
begin

text \<open>
  What the sources use of Go's standard library on byte strings: UTF-8 decoding
  (\<^verbatim>\<open>unicode/utf8\<close>), the splitting, trimming and searching functions of
  \<^verbatim>\<open>strings\<close>, and lexical path cleaning. A Go string is a list of bytes, so it is a
  HOL \<open>string\<close>; a rune is a natural number.
\<close>

section \<open>UTF-8\<close>

abbreviation code :: "char \<Rightarrow> nat" where
  "code c \<equiv> of_char c"

definition contByte :: "char \<Rightarrow> bool" where
  "contByte c \<longleftrightarrow> 0x80 \<le> code c \<and> code c \<le> 0xBF"

definition runeError :: nat where
  "runeError = 0xFFFD"

text \<open>
  \<^verbatim>\<open>utf8.DecodeRune\<close>: the first rune of a nonempty string and the number of bytes it
  takes. A byte that starts no valid encoding is the error rune of width one.
\<close>

definition decodeRune :: "string \<Rightarrow> nat \<times> nat" where
  "decodeRune s = (case s of
     [] \<Rightarrow> (runeError, 0)
   | a # t \<Rightarrow>
       let x = code a in
       if x < 0x80 then (x, 1)
       else if 0xC2 \<le> x \<and> x \<le> 0xDF then
         (case t of
            b # _ \<Rightarrow> if contByte b then ((x - 0xC0) * 64 + (code b - 0x80), 2) else (runeError, 1)
          | [] \<Rightarrow> (runeError, 1))
       else if 0xE0 \<le> x \<and> x \<le> 0xEF then
         (case t of
            b # c # _ \<Rightarrow>
              if contByte b \<and> contByte c \<and> (x = 0xE0 \<longrightarrow> 0xA0 \<le> code b) \<and> (x = 0xED \<longrightarrow> code b \<le> 0x9F)
              then ((x - 0xE0) * 4096 + (code b - 0x80) * 64 + (code c - 0x80), 3) else (runeError, 1)
          | _ \<Rightarrow> (runeError, 1))
       else if 0xF0 \<le> x \<and> x \<le> 0xF4 then
         (case t of
            b # c # d # _ \<Rightarrow>
              if contByte b \<and> contByte c \<and> contByte d \<and> (x = 0xF0 \<longrightarrow> 0x90 \<le> code b) \<and>
                 (x = 0xF4 \<longrightarrow> code b \<le> 0x8F)
              then ((x - 0xF0) * 262144 + (code b - 0x80) * 4096 + (code c - 0x80) * 64 + (code d - 0x80), 4)
              else (runeError, 1)
          | _ \<Rightarrow> (runeError, 1))
       else (runeError, 1))"

lemma decodeRune_width:
  assumes "s \<noteq> []"
  shows "1 \<le> snd (decodeRune s)" "snd (decodeRune s) \<le> length s" "snd (decodeRune s) \<le> 4"
  using assms by (auto simp: decodeRune_def Let_def split: list.splits)

lemma decodeRune_ascii [simp]: "code a < 0x80 \<Longrightarrow> decodeRune (a # t) = (code a, 1)"
  by (simp add: decodeRune_def)

text \<open>The runes of a string, each with the bytes it was decoded from: what a \<^verbatim>\<open>range\<close>
  loop over the string visits.\<close>

function runes :: "string \<Rightarrow> (nat \<times> string) list" where
  "runes [] = []"
| "runes (a # t) =
     (let w = snd (decodeRune (a # t))
      in (fst (decodeRune (a # t)), take w (a # t)) # runes (drop w (a # t)))"
  by pat_completeness auto
termination
proof (relation "measure length", goal_cases)
  case 1
  then show ?case by simp
next
  case (2 a t w)
  then show ?case using decodeRune_width(1) [of "a # t"] by simp
qed

declare runes.simps(2) [simp del]

lemma runes_ascii: "code a < 0x80 \<Longrightarrow> runes (a # t) = (code a, [a]) # runes t"
  by (simp add: runes.simps(2))

lemma runes_all_ascii: "\<forall>c \<in> set s. code c < 0x80 \<Longrightarrow> runes s = map (\<lambda>c. (code c, [c])) s"
  by (induction s) (auto simp: runes_ascii)

lemma runes_concat: "concat (map snd (runes s)) = s"
proof (induction s rule: runes.induct)
  case 1
  then show ?case by simp
next
  case (2 a t)
  then show ?case by (simp add: runes.simps(2) Let_def)
qed

lemma runes_eq_Nil [simp]: "runes s = [] \<longleftrightarrow> s = []"
  by (cases s) (auto simp: runes.simps(2) Let_def)

lemma runes_chunk_pos: "x \<in> set (runes s) \<Longrightarrow> snd x \<noteq> []"
proof (induction s rule: runes.induct)
  case 1
  then show ?case by simp
next
  case (2 a t)
  then show ?case
    using decodeRune_width(1) [of "a # t"] by (auto simp: runes.simps(2) Let_def)
qed

lemma length_runes_le: "length (runes s) \<le> length s"
proof (induction s rule: runes.induct)
  case 1
  then show ?case by simp
next
  case (2 a t)
  then show ?case
    using decodeRune_width(1,2) [of "a # t"] by (auto simp: runes.simps(2) Let_def)
qed

definition RuneCountInString :: "string \<Rightarrow> nat" where
  "RuneCountInString s = length (runes s)"

definition utf8Valid :: "string \<Rightarrow> bool" where
  "utf8Valid s \<longleftrightarrow> (\<forall>x \<in> set (runes s). \<not> (fst x = runeError \<and> length (snd x) = 1))"

lemma RuneCount_le_length: "RuneCountInString s \<le> length s"
  by (simp add: RuneCountInString_def length_runes_le)

lemma RuneCount_ascii: "\<forall>c \<in> set s. code c < 0x80 \<Longrightarrow> RuneCountInString s = length s"
  by (simp add: RuneCountInString_def runes_all_ascii)

section \<open>Strings\<close>

definition HasPrefix :: "string \<Rightarrow> string \<Rightarrow> bool" where
  "HasPrefix s p \<longleftrightarrow> take (length p) s = p"

definition HasSuffix :: "string \<Rightarrow> string \<Rightarrow> bool" where
  "HasSuffix s p \<longleftrightarrow> length p \<le> length s \<and> drop (length s - length p) s = p"

definition TrimPrefix :: "string \<Rightarrow> string \<Rightarrow> string" where
  "TrimPrefix s p = (if HasPrefix s p then drop (length p) s else s)"

definition TrimSuffix :: "string \<Rightarrow> string \<Rightarrow> string" where
  "TrimSuffix s p = (if HasSuffix s p then take (length s - length p) s else s)"

fun Contains :: "string \<Rightarrow> string \<Rightarrow> bool" where
  "Contains [] p \<longleftrightarrow> p = []"
| "Contains (c # s) p \<longleftrightarrow> HasPrefix (c # s) p \<or> Contains s p"

text \<open>\<^verbatim>\<open>strings.Split\<close> at a single byte: one more piece than there are separators.\<close>

fun splitOn :: "char \<Rightarrow> string \<Rightarrow> string list" where
  "splitOn sep [] = [[]]"
| "splitOn sep (c # s) =
     (if c = sep then [] # splitOn sep s
      else (case splitOn sep s of [] \<Rightarrow> [[c]] | p # ps \<Rightarrow> (c # p) # ps))"

fun joinWith :: "char \<Rightarrow> string list \<Rightarrow> string" where
  "joinWith sep [] = []"
| "joinWith sep [p] = p"
| "joinWith sep (p # q # ps) = p @ sep # joinWith sep (q # ps)"

lemma splitOn_not_Nil [simp]: "splitOn sep s \<noteq> []"
  by (induction s) (auto split: list.splits)

lemma splitOn_no_sep: "p \<in> set (splitOn sep s) \<Longrightarrow> sep \<notin> set p"
  by (induction s arbitrary: p) (auto split: list.splits if_splits)

lemma join_splitOn: "joinWith sep (splitOn sep s) = s"
proof (induction s)
  case Nil
  then show ?case by simp
next
  case (Cons c s)
  obtain p ps where p: "splitOn sep s = p # ps" using splitOn_not_Nil by (metis list.exhaust)
  then show ?case using Cons by (cases ps) auto
qed

lemma splitOn_id: "sep \<notin> set s \<Longrightarrow> splitOn sep s = [s]"
  by (induction s) auto

lemma splitOn_append: "sep \<notin> set p \<Longrightarrow> splitOn sep (p @ sep # s) = p # splitOn sep s"
  by (induction p) auto

lemma split_joinWith:
  "ps \<noteq> [] \<Longrightarrow> (\<forall>p \<in> set ps. sep \<notin> set p) \<Longrightarrow> splitOn sep (joinWith sep ps) = ps"
  by (induction sep ps rule: joinWith.induct) (auto simp: splitOn_id splitOn_append)

lemma length_splitOn: "length (splitOn sep s) = Suc (count_list s sep)"
  by (induction s) (auto split: list.splits)

definition isSpaceRune :: "nat \<Rightarrow> bool" where
  "isSpaceRune r \<longleftrightarrow> r \<in> {9, 10, 11, 12, 13, 32, 0x85, 0xA0, 0x1680, 0x2028, 0x2029, 0x202F, 0x205F, 0x3000} \<or>
     0x2000 \<le> r \<and> r \<le> 0x200A"

definition TrimFunc :: "(nat \<Rightarrow> bool) \<Rightarrow> string \<Rightarrow> string" where
  "TrimFunc p s = (let f = dropWhile (\<lambda>x. p (fst x)) in concat (map snd (rev (f (rev (f (runes s)))))))"

definition TrimSpace :: "string \<Rightarrow> string" where
  "TrimSpace s = (let f = dropWhile (\<lambda>x. isSpaceRune (fst x))
     in concat (map snd (rev (f (rev (f (runes s)))))))"

lemma TrimSpace_set: "set (TrimSpace s) \<subseteq> set s"
proof -
  have "set (TrimSpace s) \<subseteq> set (concat (map snd (runes s)))"
    by (auto simp: TrimSpace_def Let_def dest!: set_dropWhileD)
  then show ?thesis by (simp only: runes_concat)
qed

definition lowerByte :: "char \<Rightarrow> char" where
  "lowerByte c = (if 65 \<le> code c \<and> code c \<le> 90 then char_of (code c + 32) else c)"

section \<open>Numbers\<close>

text \<open>\<^verbatim>\<open>strconv.ParseInt\<close> in base ten to 64 bits, which is also \<^verbatim>\<open>strconv.Atoi\<close>: an optional sign and digits, within range.\<close>

definition decimalDigits :: "string \<Rightarrow> int option" where
  "decimalDigits s = (if s \<noteq> [] \<and> list_all (\<lambda>c. 48 \<le> code c \<and> code c \<le> 57) s
     then Some (foldl (\<lambda>n c. n * 10 + int (code c - 48)) 0 s) else None)"

definition ParseInt64 :: "string \<Rightarrow> int option" where
  "ParseInt64 s =
     (case (case s of
              c # rest \<Rightarrow> if c = CHR ''-'' then map_option uminus (decimalDigits rest)
                else if c = CHR ''+'' then decimalDigits rest else decimalDigits s
            | [] \<Rightarrow> None) of
        None \<Rightarrow> None
      | Some n \<Rightarrow> if - (2 ^ 63) \<le> n \<and> n < 2 ^ 63 then Some n else None)"

text \<open>\<^verbatim>\<open>strconv.FormatInt\<close> in base ten.\<close>

fun natDigits :: "nat \<Rightarrow> string" where
  "natDigits n = (if n < 10 then [char_of (48 + n)] else natDigits (n div 10) @ [char_of (48 + n mod 10)])"

declare natDigits.simps [simp del]

definition decimal :: "int \<Rightarrow> string" where
  "decimal i = (if i < 0 then CHR ''-'' # natDigits (nat (- i)) else natDigits (nat i))"

lemma decimalDigits_snoc:
  "decimalDigits xs = Some n \<Longrightarrow> 48 \<le> code c \<Longrightarrow> code c \<le> 57 \<Longrightarrow>
    decimalDigits (xs @ [c]) = Some (n * 10 + int (code c - 48))"
  by (auto simp: decimalDigits_def split: if_splits)

lemma decimalDigits_natDigits: "decimalDigits (natDigits n) = Some (int n)"
proof (induction n rule: natDigits.induct)
  case (1 n)
  show ?case
  proof (cases "n < 10")
    case True
    then show ?thesis by (simp add: natDigits.simps [of n] decimalDigits_def)
  next
    case False
    then have "decimalDigits (natDigits (n div 10)) = Some (int (n div 10))" using 1 by simp
    from decimalDigits_snoc [OF this, of "char_of (48 + n mod 10)"]
    have "decimalDigits (natDigits n) = Some (int (n div 10) * 10 + int (n mod 10))"
      using False by (simp add: natDigits.simps [of n])
    also have "int (n div 10) * 10 + int (n mod 10) = int n"
      using div_mult_mod_eq [of n 10] by (metis of_nat_add of_nat_mult of_nat_numeral)
    finally show ?thesis .
  qed
qed

lemma natDigits_set: "c \<in> set (natDigits n) \<Longrightarrow> 48 \<le> code c \<and> code c \<le> 57"
  using decimalDigits_natDigits [of n] by (auto simp: decimalDigits_def list_all_iff split: if_splits)

lemma natDigits_nonempty [simp]: "natDigits n \<noteq> []"
  by (simp add: natDigits.simps [of n])

lemma ParseInt64_decimal:
  assumes "- (2 ^ 63) \<le> i" "i < 2 ^ 63"
  shows "ParseInt64 (decimal i) = Some i"
proof (cases "i < 0")
  case True
  then show ?thesis using assms by (simp add: ParseInt64_def decimal_def decimalDigits_natDigits)
next
  case False
  obtain c cs where ds: "natDigits (nat i) = c # cs" by (meson natDigits_nonempty list.exhaust)
  then have "c \<noteq> CHR ''-''" "c \<noteq> CHR ''+''" using natDigits_set [of c "nat i"] by auto
  then show ?thesis using False assms ds decimalDigits_natDigits [of "nat i"]
    by (simp add: ParseInt64_def decimal_def)
qed

section \<open>Lexical path cleaning\<close>

text \<open>\<^verbatim>\<open>filepath.Clean\<close> on a Unix system: repeated separators and dots vanish, a double dot
  removes the element before it, and at the root it vanishes.\<close>

fun cleanParts :: "bool \<Rightarrow> string list \<Rightarrow> string list \<Rightarrow> string list" where
  "cleanParts rooted acc [] = rev acc"
| "cleanParts rooted acc (p # ps) =
     (if p = [] \<or> p = ''.'' then cleanParts rooted acc ps
      else if p = ''..'' then
        (case acc of
           [] \<Rightarrow> if rooted then cleanParts rooted [] ps else cleanParts rooted [''..''] ps
         | a # acc' \<Rightarrow> if a = ''..'' then cleanParts rooted (''..'' # acc) ps
             else cleanParts rooted acc' ps)
      else cleanParts rooted (p # acc) ps)"

definition Clean :: "string \<Rightarrow> string" where
  "Clean path =
     (let rooted = HasPrefix path ''/'';
          parts = cleanParts rooted [] (splitOn CHR ''/'' path);
          body = joinWith CHR ''/'' parts
      in if rooted then CHR ''/'' # body else if body = [] then ''.'' else body)"

definition IsAbs :: "string \<Rightarrow> bool" where
  "IsAbs path \<longleftrightarrow> HasPrefix path ''/''"

lemma cleanParts_rooted_no_dots:
  assumes "''..'' \<notin> set acc" "''.'' \<notin> set acc" "[] \<notin> set acc"
  shows "''..'' \<notin> set (cleanParts True acc ps)" "''.'' \<notin> set (cleanParts True acc ps)"
    "[] \<notin> set (cleanParts True acc ps)"
  using assms by (induction True acc ps rule: cleanParts.induct) (auto split: list.splits)

lemma cleanParts_clean:
  "(\<forall>p \<in> set ps. p \<noteq> [] \<and> p \<noteq> ''.'' \<and> p \<noteq> ''..'') \<Longrightarrow> cleanParts rooted acc ps = rev acc @ ps"
  by (induction ps arbitrary: acc) auto

lemma Clean_rooted: "HasPrefix path ''/'' \<Longrightarrow> IsAbs (Clean path)"
  by (simp add: Clean_def Let_def IsAbs_def HasPrefix_def)

lemma cleanParts_subset: "set (cleanParts rooted acc ps) \<subseteq> set acc \<union> set ps \<union> {''..''}"
  by (induction rooted acc ps rule: cleanParts.induct) (auto split: list.splits if_splits)

text \<open>\<^verbatim>\<open>filepath.Dir\<close>, \<^verbatim>\<open>filepath.Base\<close> and \<^verbatim>\<open>filepath.Join\<close> of two elements.\<close>

definition Dir :: "string \<Rightarrow> string" where
  "Dir path = Clean (rev (dropWhile (\<lambda>c. c \<noteq> CHR ''/'') (rev path)))"

definition Base :: "string \<Rightarrow> string" where
  "Base path =
     (if path = [] then ''.''
      else let stripped = rev (dropWhile (\<lambda>c. c = CHR ''/'') (rev path))
           in if stripped = [] then ''/'' else rev (takeWhile (\<lambda>c. c \<noteq> CHR ''/'') (rev stripped)))"

definition Join :: "string \<Rightarrow> string \<Rightarrow> string" where
  "Join a b = (if a = [] \<and> b = [] then []
               else Clean (joinWith CHR ''/'' (filter (\<lambda>e. e \<noteq> []) [a, b])))"

end
