(* ===== verification/Postgres.thy ===== *)
theory Postgres
  imports GoStd
begin

text \<open>
  What the columns of \<^verbatim>\<open>db/migrations/00001_baseline.sql\<close> accept, as PostgreSQL documents it: text,
  text of limited length, and the JSON that \<^verbatim>\<open>encoding/json\<close> writes into a \<^verbatim>\<open>jsonb\<close> column.
\<close>

text \<open>A text value of the database is valid UTF-8 without a zero byte. A column of limited length
  takes more characters only where the excess is blanks, which it drops.\<close>

definition pgText :: "string \<Rightarrow> bool" where
  "pgText s \<longleftrightarrow> utf8Valid s \<and> list_all (\<lambda>c. code c \<noteq> 0) s"

definition varchar :: "nat \<Rightarrow> string \<Rightarrow> string option" where
  "varchar n s =
     (if \<not> pgText s then None
      else if list_all (\<lambda>x. fst x = 32) (drop n (runes s)) then Some (concat (map snd (take n (runes s)))) else None)"

text \<open>A JSON number is stored as a \<^verbatim>\<open>numeric\<close>: at most 131072 digits before the decimal point and
  16383 after it.\<close>

definition pgDigit :: "char \<Rightarrow> bool" where
  "pgDigit c \<longleftrightarrow> 48 \<le> code c \<and> code c \<le> 57"

definition pgNumeric :: "string \<Rightarrow> bool" where
  "pgNumeric n =
     (let u = dropWhile (\<lambda>c. c = CHR ''-'') n;
          whole = takeWhile pgDigit u;
          rest = dropWhile pgDigit u;
          fraction = (case rest of [] \<Rightarrow> [] | c # r \<Rightarrow> if c = CHR ''.'' then takeWhile pgDigit r else []);
          zeros = length (takeWhile (\<lambda>c. c = CHR ''0'') (whole @ fraction))
      in case (case dropWhile (\<lambda>c. pgDigit c \<or> c = CHR ''.'') rest of [] \<Rightarrow> Some 0 | _ # e \<Rightarrow> ParseInt64 e) of
           None \<Rightarrow> False
         | Some e \<Rightarrow>
             (zeros = length (whole @ fraction) \<or> int (length whole) + e - int zeros \<le> 131072) \<and>
             int (length fraction) - e \<le> 16383)"

text \<open>The encoder replaces invalid UTF-8 and escapes control characters; the column refuses the
  escape of the zero character.\<close>

fun pgJson :: "gval \<Rightarrow> bool" where
  "pgJson GNull = True"
| "pgJson (GBool b) = True"
| "pgJson (GNumber n) = pgNumeric n"
| "pgJson (GString s) = list_all (\<lambda>c. code c \<noteq> 0) s"
| "pgJson (GArray xs) = list_all pgJson xs"
| "pgJson (GObject kvs) = list_all (\<lambda>kv. list_all (\<lambda>c. code c \<noteq> 0) (fst kv) \<and> pgJson (snd kv)) kvs"
| "pgJson GOpaque = False"

lemma pgText_ascii: "\<forall>c \<in> set s. code c < 0x80 \<and> code c \<noteq> 0 \<Longrightarrow> pgText s"
  by (auto simp: pgText_def utf8Valid_def runes_all_ascii list_all_iff runeError_def)

lemma varchar_fits: "pgText s \<Longrightarrow> RuneCountInString s \<le> n \<Longrightarrow> varchar n s = Some s"
  by (simp add: varchar_def RuneCountInString_def runes_concat)

lemma varchar_ascii: "\<forall>c \<in> set s. code c < 0x80 \<and> code c \<noteq> 0 \<Longrightarrow> length s \<le> n \<Longrightarrow> varchar n s = Some s"
  by (intro varchar_fits pgText_ascii) (simp_all add: RuneCount_ascii)

lemma varchar_pgText: "varchar n s = Some t \<Longrightarrow> pgText s"
  by (auto simp: varchar_def split: if_splits)

lemma varchar_nonempty:
  assumes "varchar n s = Some t" "s \<noteq> []" "0 < n"
  shows "t \<noteq> []"
proof -
  obtain x xs where "runes s = x # xs" using assms(2) by (cases "runes s") auto
  then show ?thesis
    using assms runes_chunk_pos [of x s] by (auto simp: varchar_def take_Cons' split: if_splits)
qed

end
