(* ===== verification/JobStore.thy ===== *)
theory JobStore
  imports JobTypes Postgres
begin

text \<open>
  The durable job queue: the tables it owns, the SQL statements of
  \<^verbatim>\<open>internal/database/sqlc/jobs.sql.go\<close> as functions on those tables, and the
  operations of \<^verbatim>\<open>internal/jobs/store.go\<close> composed from them. A statement sees one
  clock instant; an operation is a transaction, so an error leaves the tables as they were.
  Rows locked by other transactions (\<^verbatim>\<open>SKIP LOCKED\<close>) and the terminal callback of the
  domain packages are arguments.
\<close>

section \<open>Tables\<close>

record Job =
  row_id :: JobID
  job_type :: string
  target_type :: string
  target_id :: UUID
  payload :: "(string \<times> gval) list"
  operation_key :: string
  concurrency_key :: string
  concurrency_limit :: int
  status :: Status
  attempt_count :: int
  max_attempts :: int
  progress :: int
  lease_owner :: "string option"
  lease_expires_at :: "pgtime option"
  lease_generation :: int
  not_before :: "pgtime option"
  job_result :: "(string \<times> gval) list option"
  sanitized_error :: "string option"
  created_at :: pgtime
  updated_at :: pgtime
  started_at :: "pgtime option"
  finished_at :: "pgtime option"

record JobAttempt =
  att_job_id :: JobID
  att_attempt_number :: int
  att_lease_generation :: int
  att_worker_id :: string
  att_heartbeat_at :: pgtime
  att_outcome :: "string option"
  att_sanitized_error :: "string option"
  att_started_at :: pgtime
  att_finished_at :: "pgtime option"

record JobEvent =
  ev_job_id :: JobID
  ev_attempt_number :: "int option"
  ev_event_kind :: string
  ev_status :: Status
  ev_created_at :: pgtime

record ResourceEvent =
  rev_event_type :: string
  rev_resource_id :: JobID
  rev_snapshot :: Snapshot
  rev_created_at :: pgtime

record CallLease =
  call_id :: UUID
  call_endpoint_id :: UUID
  call_expires_at :: pgtime

text \<open>A model profile joined with its current version: \<open>None\<close> when it has none.\<close>

record ModelProfile =
  profile_id :: UUID
  profile_endpoint_id :: UUID
  profile_max_concurrent_tasks :: "int option"

record 'w db =
  jobs :: "Job list"
  job_attempts :: "JobAttempt list"
  job_events :: "JobEvent list"
  event_log :: "ResourceEvent list"
  provider_call_leases :: "CallLease list"
  model_profiles :: "ModelProfile list"
  domain_tables :: 'w

text \<open>
  The terminal callback reads the tables and the snapshot of the finished job; it may fail,
  change the domain tables, and enqueue further jobs, each given with the identifier the
  database generates for it and the time it is written at.
\<close>

record 'w Store =
  terminalCallback ::
    "(Snapshot \<Rightarrow> 'w db \<Rightarrow> string + ('w \<times> (Command \<times> JobID \<times> pgtime) list)) option"
  encodeTime :: "gotime \<Rightarrow> pgtime"

definition snapshot :: "Job \<Rightarrow> Snapshot" where
  "snapshot row = \<lparr>
     snap_ID = row_id row, snap_Type = job_type row, snap_TargetType = target_type row,
     snap_TargetID = target_id row, snap_Status = status row,
     snap_AttemptCount = attempt_count row, snap_MaxAttempts = max_attempts row,
     snap_Progress = progress row, snap_LeaseOwner = lease_owner row,
     snap_LeaseExpiresAt = lease_expires_at row, snap_LeaseGeneration = lease_generation row,
     snap_NotBefore = not_before row, snap_Result = job_result row,
     snap_SanitizedError = sanitized_error row, snap_CreatedAt = created_at row,
     snap_UpdatedAt = updated_at row, snap_StartedAt = started_at row,
     snap_FinishedAt = finished_at row \<rparr>"

section \<open>Statements\<close>

text \<open>\<^verbatim>\<open>UPDATE jobs SET ... WHERE id = i\<close>, and the same for the attempts of one lease. A statement
  that takes text or JSON from its caller is \<open>None\<close> when a column refuses the value.\<close>

definition updateJobs :: "JobID \<Rightarrow> (Job \<Rightarrow> Job) \<Rightarrow> 'w db \<Rightarrow> 'w db" where
  "updateJobs i f s = s\<lparr>jobs := map (\<lambda>r. if row_id r = i then f r else r) (jobs s)\<rparr>"

definition updateAttempts ::
  "JobID \<Rightarrow> int \<Rightarrow> (JobAttempt \<Rightarrow> JobAttempt) \<Rightarrow> 'w db \<Rightarrow> 'w db" where
  "updateAttempts i g f s = s\<lparr>job_attempts :=
     map (\<lambda>a. if att_job_id a = i \<and> att_lease_generation a = g then f a else a)
       (job_attempts s)\<rparr>"

definition selectJob :: "JobID \<Rightarrow> 'w db \<Rightarrow> Job option" where
  "selectJob i s = find (\<lambda>r. row_id r = i) (jobs s)"

definition cancelRow :: "pgtime \<Rightarrow> Job \<Rightarrow> Job" where
  "cancelRow now r = r\<lparr>status := Cancelled, lease_owner := None, lease_expires_at := None,
     not_before := None, job_result := None, sanitized_error := None, updated_at := now,
     finished_at := Some now\<rparr>"

definition CancelJob :: "pgtime \<Rightarrow> JobID \<Rightarrow> 'w db \<Rightarrow> 'w db" where
  "CancelJob now i = updateJobs i (cancelRow now)"

definition finishRow ::
  "Status \<Rightarrow> pgtime option \<Rightarrow> (string \<times> gval) list option \<Rightarrow> string option \<Rightarrow> pgtime \<Rightarrow> bool \<Rightarrow>
   Job \<Rightarrow> Job" where
  "finishRow st nb res err now terminal r = r\<lparr>status := st,
     progress := (if st = Succeeded then 100 else progress r),
     lease_owner := None, lease_expires_at := None, not_before := nb, job_result := res,
     sanitized_error := err, updated_at := now,
     finished_at := (if terminal then Some now else None)\<rparr>"

definition storable :: "string option \<Rightarrow> (string \<times> gval) list option \<Rightarrow> bool" where
  "storable err res \<longleftrightarrow> (case err of None \<Rightarrow> True | Some e \<Rightarrow> pgText e) \<and>
     (case res of None \<Rightarrow> True | Some v \<Rightarrow> pgJson (GObject v))"

definition FinishJob ::
  "Status \<Rightarrow> pgtime option \<Rightarrow> (string \<times> gval) list option \<Rightarrow> string option \<Rightarrow> pgtime \<Rightarrow> bool \<Rightarrow>
   JobID \<Rightarrow> 'w db \<Rightarrow> 'w db option" where
  "FinishJob st nb res err now terminal i s =
     (if storable err res then Some (updateJobs i (finishRow st nb res err now terminal) s) else None)"

definition heartbeatRow :: "pgtime \<Rightarrow> int \<Rightarrow> Job \<Rightarrow> Job" where
  "heartbeatRow now us r = r\<lparr>lease_expires_at := Some (now + us), updated_at := now\<rparr>"

definition HeartbeatJob :: "pgtime \<Rightarrow> int \<Rightarrow> JobID \<Rightarrow> 'w db \<Rightarrow> 'w db" where
  "HeartbeatJob now us i = updateJobs i (heartbeatRow now us)"

definition leaseRow :: "int \<Rightarrow> string \<Rightarrow> pgtime \<Rightarrow> int \<Rightarrow> int \<Rightarrow> Job \<Rightarrow> Job" where
  "leaseRow attempt w now us gen r = r\<lparr>status := Leased, attempt_count := attempt,
     lease_owner := Some w, lease_expires_at := Some (now + us), lease_generation := gen,
     not_before := None, updated_at := now,
     started_at := (case started_at r of None \<Rightarrow> Some now | Some t \<Rightarrow> Some t)\<rparr>"

definition LeaseJob ::
  "int \<Rightarrow> WorkerID \<Rightarrow> pgtime \<Rightarrow> int \<Rightarrow> int \<Rightarrow> JobID \<Rightarrow> 'w db \<Rightarrow> 'w db option" where
  "LeaseJob attempt w now us gen i s =
     map_option (\<lambda>owner. updateJobs i (leaseRow attempt owner now us gen) s) (varchar 255 w)"

definition requestRow :: "pgtime \<Rightarrow> Job \<Rightarrow> Job" where
  "requestRow now r = r\<lparr>status := CancelRequested, updated_at := now\<rparr>"

definition RequestJobCancellation :: "pgtime \<Rightarrow> JobID \<Rightarrow> 'w db \<Rightarrow> 'w db" where
  "RequestJobCancellation now i = updateJobs i (requestRow now)"

definition FinishAttempt ::
  "pgtime \<Rightarrow> string \<Rightarrow> string option \<Rightarrow> JobID \<Rightarrow> int \<Rightarrow> 'w db \<Rightarrow> 'w db" where
  "FinishAttempt now outcome err i gen = updateAttempts i gen (\<lambda>a. a\<lparr>att_heartbeat_at := now,
     att_outcome := Some outcome, att_sanitized_error := err, att_finished_at := Some now\<rparr>)"

definition ExpireAttempt :: "pgtime \<Rightarrow> string option \<Rightarrow> JobID \<Rightarrow> int \<Rightarrow> 'w db \<Rightarrow> 'w db" where
  "ExpireAttempt now err i gen = updateAttempts i gen (\<lambda>a. a\<lparr>att_heartbeat_at := now,
     att_outcome := Some ''LEASE_EXPIRED'', att_sanitized_error := err,
     att_finished_at := Some now\<rparr>)"

definition HeartbeatAttempt :: "pgtime \<Rightarrow> JobID \<Rightarrow> int \<Rightarrow> 'w db \<Rightarrow> 'w db" where
  "HeartbeatAttempt now i gen = updateAttempts i gen (\<lambda>a. a\<lparr>att_heartbeat_at := now\<rparr>)"

definition addAttempt :: "JobAttempt \<Rightarrow> 'w db \<Rightarrow> 'w db" where
  "addAttempt a s = s\<lparr>job_attempts := job_attempts s @ [a]\<rparr>"

definition newAttempt :: "JobID \<Rightarrow> int \<Rightarrow> int \<Rightarrow> string \<Rightarrow> pgtime \<Rightarrow> JobAttempt" where
  "newAttempt i attempt gen worker now =
     \<lparr>att_job_id = i, att_attempt_number = attempt, att_lease_generation = gen,
      att_worker_id = worker, att_heartbeat_at = now, att_outcome = None,
      att_sanitized_error = None, att_started_at = now, att_finished_at = None\<rparr>"

definition InsertJobAttempt ::
  "JobID \<Rightarrow> int \<Rightarrow> int \<Rightarrow> WorkerID \<Rightarrow> pgtime \<Rightarrow> 'w db \<Rightarrow> 'w db option" where
  "InsertJobAttempt i attempt gen w now s =
     map_option (\<lambda>worker. addAttempt (newAttempt i attempt gen worker now) s) (varchar 255 w)"

definition lowerChar :: "char \<Rightarrow> char" where
  "lowerChar c = (if 65 \<le> (of_char c :: nat) \<and> (of_char c :: nat) \<le> 90
     then char_of (of_char c + 32 :: nat) else c)"

definition InsertJobEvent :: "int option \<Rightarrow> string \<Rightarrow> pgtime \<Rightarrow> JobID \<Rightarrow> 'w db \<Rightarrow> 'w db" where
  "InsertJobEvent attempt kind now i s = s\<lparr>job_events := job_events s @
     map (\<lambda>r. \<lparr>ev_job_id = row_id r, ev_attempt_number = attempt, ev_event_kind = kind,
       ev_status = status r, ev_created_at = now\<rparr>) (filter (\<lambda>r. row_id r = i) (jobs s))\<rparr>"

definition InsertJobResourceEvent :: "string \<Rightarrow> pgtime \<Rightarrow> JobID \<Rightarrow> 'w db \<Rightarrow> 'w db" where
  "InsertJobResourceEvent kind now i s = s\<lparr>event_log := event_log s @
     map (\<lambda>r. \<lparr>rev_event_type = ''job.'' @ map lowerChar kind, rev_resource_id = row_id r,
       rev_snapshot = snapshot r, rev_created_at = now\<rparr>)
       (filter (\<lambda>r. row_id r = i) (jobs s))\<rparr>"

text \<open>\<^verbatim>\<open>INSERT ... ON CONFLICT (operation_key) WHERE status IN (...) DO NOTHING RETURNING id\<close>:
  the columns not named take the defaults of the schema. The database refuses values its columns
  do not take; \<open>Inr None\<close> is the row that conflicts.\<close>

definition InsertJob ::
  "Command \<Rightarrow> pgtime option \<Rightarrow> pgtime \<Rightarrow> JobID \<Rightarrow> 'w db \<Rightarrow> jobError + 'w db option" where
  "InsertJob command nb now newid s =
     (let commandPayload = (case cmd_Payload command of None \<Rightarrow> [] | Some p \<Rightarrow> p) in
      case (varchar 64 (cmd_TargetType command), varchar 512 (cmd_OperationKey command),
            varchar 512 (cmd_ConcurrencyKey command)) of
        (Some targetType, Some operationKey, Some concurrencyKey) \<Rightarrow>
          if \<not> pgJson (GObject commandPayload) then Inl ErrDatabase
          else if \<exists>r \<in> set (jobs s). operation_key r = operationKey \<and> activeStatus (status r)
          then Inr None
          else Inr (Some (s\<lparr>jobs := jobs s @ [\<lparr>row_id = newid, job_type = cmd_Type command,
            target_type = targetType, target_id = cmd_TargetID command,
            payload = commandPayload, operation_key = operationKey,
            concurrency_key = concurrencyKey,
            concurrency_limit = cmd_ConcurrencyLimit command,
            status = Pending, attempt_count = 0, max_attempts = cmd_MaxAttempts command,
            progress = 0, lease_owner = None, lease_expires_at = None, lease_generation = 0,
            not_before = nb, job_result = None, sanitized_error = None, created_at = now,
            updated_at = now, started_at = None, finished_at = None\<rparr>]\<rparr>))
      | _ \<Rightarrow> Inl ErrDatabase)"

definition FindActiveJobIDByOperationKey :: "string \<Rightarrow> 'w db \<Rightarrow> JobID option" where
  "FindActiveJobIDByOperationKey key s = map_option row_id
     (find (\<lambda>r. operation_key r = key \<and> activeStatus (status r)) (jobs s))"

subsection \<open>Eligibility\<close>

definition activeAt :: "pgtime \<Rightarrow> Job \<Rightarrow> bool" where
  "activeAt now r \<longleftrightarrow> heldStatus (status r) \<and>
     (case lease_expires_at r of None \<Rightarrow> False | Some t \<Rightarrow> now < t)"

definition activeOnKey :: "pgtime \<Rightarrow> string \<Rightarrow> 'w db \<Rightarrow> nat" where
  "activeOnKey now key s =
     length (filter (\<lambda>r. concurrency_key r = key \<and> activeAt now r) (jobs s))"

definition modelKey :: "ModelProfile \<Rightarrow> string" where
  "modelKey p = ''model-profile:'' @ uuidString (profile_id p)"

definition endpointOccupied :: "pgtime \<Rightarrow> UUID \<Rightarrow> 'w db \<Rightarrow> nat" where
  "endpointOccupied now endpoint s =
     length (filter (\<lambda>c. call_endpoint_id c = endpoint \<and> now < call_expires_at c)
       (provider_call_leases s)) +
     length (filter (\<lambda>(r, m). concurrency_key r = modelKey m \<and>
         profile_endpoint_id m = endpoint \<and> activeAt now r)
       (List.product (jobs s) (model_profiles s)))"

fun minOption :: "int option list \<Rightarrow> int option" where
  "minOption [] = None"
| "minOption (None # xs) = minOption xs"
| "minOption (Some x # xs) = (case minOption xs of None \<Rightarrow> Some x | Some y \<Rightarrow> Some (min x y))"

definition endpointCapacity :: "UUID \<Rightarrow> 'w db \<Rightarrow> int option" where
  "endpointCapacity endpoint s = minOption (map profile_max_concurrent_tasks
     (filter (\<lambda>m. profile_endpoint_id m = endpoint) (model_profiles s)))"

definition eligibleStatus :: "pgtime \<Rightarrow> Job \<Rightarrow> bool" where
  "eligibleStatus now r \<longleftrightarrow>
     (status r = Pending \<and> attempt_count r < max_attempts r \<and>
       (case not_before r of None \<Rightarrow> True | Some t \<Rightarrow> t \<le> now)) \<or>
     (status r = RetryWait \<and> attempt_count r < max_attempts r \<and>
       (case not_before r of None \<Rightarrow> False | Some t \<Rightarrow> t \<le> now)) \<or>
     (heldStatus (status r) \<and>
       (case lease_expires_at r of None \<Rightarrow> False | Some t \<Rightarrow> t \<le> now))"

definition endpointFull :: "pgtime \<Rightarrow> ModelProfile \<Rightarrow> 'w db \<Rightarrow> bool" where
  "endpointFull now p s \<longleftrightarrow>
     (case endpointCapacity (profile_endpoint_id p) s of
        None \<Rightarrow> False
      | Some c \<Rightarrow> c \<le> int (endpointOccupied now (profile_endpoint_id p) s))"

definition eligible :: "pgtime \<Rightarrow> 'w db \<Rightarrow> Job \<Rightarrow> bool" where
  "eligible now s r \<longleftrightarrow> eligibleStatus now r \<and>
     (concurrency_key r = [] \<or>
       int (activeOnKey now (concurrency_key r) s) < concurrency_limit r) \<and>
     \<not> (\<exists>p \<in> set (model_profiles s). concurrency_key r = modelKey p \<and> endpointFull now p s)"

text \<open>\<^verbatim>\<open>ORDER BY created_at, id LIMIT 1\<close>.\<close>

definition claimKey :: "Job \<Rightarrow> pgtime \<times> JobID" where
  "claimKey r = (created_at r, row_id r)"

fun earliest :: "Job list \<Rightarrow> Job option" where
  "earliest [] = None"
| "earliest (r # rs) = (case earliest rs of None \<Rightarrow> Some r
     | Some q \<Rightarrow> if claimKey r \<le> claimKey q then Some r else Some q)"

definition LockEligibleJob :: "pgtime \<Rightarrow> (JobID \<Rightarrow> bool) \<Rightarrow> 'w db \<Rightarrow> Job option" where
  "LockEligibleJob now locked s =
     earliest (filter (\<lambda>r. eligible now s r \<and> \<not> locked (row_id r)) (jobs s))"

end
