(* ===== verification/JobOps.thy ===== *)
theory JobOps
  imports JobStore
begin

text \<open>
  The operations of the job store (\<^verbatim>\<open>internal/jobs/store.go\<close>, \<^verbatim>\<open>read.go\<close>,
  \<^verbatim>\<open>model_calls.go\<close>), statement by statement, as transaction bodies and as the
  transactions that wrap them.
\<close>

section \<open>Transactions and the permit check\<close>

definition transaction :: "('s, 'e, 'a) txn \<Rightarrow> ('s, 'e, 'a) action" where
  "transaction operation s =
     (case operation s of Inl e \<Rightarrow> (s, Inl e) | Inr (s', a) \<Rightarrow> (s', Inr a))"

definition containsStatus :: "Status list \<Rightarrow> Status \<Rightarrow> bool" where
  "containsStatus values wanted \<longleftrightarrow> wanted \<in> set values"

definition lockPermit :: "Permit \<Rightarrow> Status list \<Rightarrow> pgtime \<Rightarrow> 'w db \<Rightarrow> jobError + Job" where
  "lockPermit permit statuses now s =
     bindE (permitValidate permit) (\<lambda>_.
       case selectJob (permit_JobID permit) s of
         None \<Rightarrow> Inl ErrStalePermit
       | Some row \<Rightarrow>
           if \<not> containsStatus statuses (status row) \<or>
              lease_owner row \<noteq> Some (permit_WorkerID permit) \<or>
              lease_generation row \<noteq> permit_LeaseGeneration permit \<or>
              (case lease_expires_at row of None \<Rightarrow> True | Some t \<Rightarrow> \<not> now < t)
           then Inl ErrStalePermit else Inr row)"

definition AssertPermit :: "Permit \<Rightarrow> pgtime \<Rightarrow> 'w db \<Rightarrow> jobError + unit" where
  "AssertPermit permit now s = bindE (lockPermit permit [Leased] now s) (\<lambda>_. Inr ())"

definition recordEvent :: "JobID \<Rightarrow> int option \<Rightarrow> string \<Rightarrow> pgtime \<Rightarrow> 'w db \<Rightarrow> 'w db" where
  "recordEvent i attempt kind now s =
     InsertJobResourceEvent kind now i (InsertJobEvent attempt kind now i s)"

section \<open>Enqueue\<close>

text \<open>
  The loop of \<^verbatim>\<open>enqueueTx\<close>. Between the insert that met a conflict and the search for
  the active job, other transactions may commit: \<open>others\<close> lists what they do to the tables,
  one entry per round, and after the last entry nothing interferes. A search that still finds
  nothing then, because the column cut blanks off the key, finds nothing in any later round: the
  loop ends with the failure of its context.
\<close>

fun enqueueLoop ::
  "('w db \<Rightarrow> 'w db) list \<Rightarrow> Command \<Rightarrow> pgtime option \<Rightarrow> pgtime \<Rightarrow> JobID \<Rightarrow> 'w db \<Rightarrow>
   jobError + ('w db \<times> JobID)" where
  "enqueueLoop others command nb now newid s =
     (case InsertJob command nb now newid s of
        Inl e \<Rightarrow> Inl e
      | Inr (Some s') \<Rightarrow> Inr (recordEvent newid None ''ENQUEUED'' now s', newid)
      | Inr None \<Rightarrow>
          (case others of
             [] \<Rightarrow> (case FindActiveJobIDByOperationKey (cmd_OperationKey command) s of
                      Some i \<Rightarrow> Inr (s, i)
                    | None \<Rightarrow> Inl ErrDatabase)
           | other # rest \<Rightarrow>
               (case FindActiveJobIDByOperationKey (cmd_OperationKey command) (other s) of
                  Some i \<Rightarrow> Inr (other s, i)
                | None \<Rightarrow> enqueueLoop rest command nb now newid (other s))))"

declare enqueueLoop.simps [simp del]

text \<open>The defaults the operation fills in before it validates the command.\<close>

definition withDefaults :: "Command \<Rightarrow> Command" where
  "withDefaults command = command\<lparr>
     cmd_MaxAttempts := (if cmd_MaxAttempts command = 0 then 3 else cmd_MaxAttempts command),
     cmd_Payload := Some (case cmd_Payload command of None \<Rightarrow> [] | Some p \<Rightarrow> p)\<rparr>"

definition enqueueTx ::
  "('w, 'z) Store_scheme \<Rightarrow> ('w db \<Rightarrow> 'w db) list \<Rightarrow> Command \<Rightarrow> pgtime \<Rightarrow> JobID \<Rightarrow>
   ('w db, jobError, JobID) txn" where
  "enqueueTx st others command0 now newid s =
     (let command = withDefaults command0
      in bindE (commandValidate command) (\<lambda>_.
         bindE (ensureE (case cmd_Payload command of None \<Rightarrow> True | Some p \<Rightarrow> marshalable (GObject p))
           (ErrInvalid ''job payload is not valid JSON'')) (\<lambda>_.
         enqueueLoop others command (map_option (encodeTime st) (cmd_NotBefore command))
           now newid s)))"

definition Enqueue ::
  "('w, 'z) Store_scheme \<Rightarrow> ('w db \<Rightarrow> 'w db) list \<Rightarrow> Command \<Rightarrow> pgtime \<Rightarrow> JobID \<Rightarrow>
   ('w db, jobError, JobID) action" where
  "Enqueue st others command now newid = transaction (enqueueTx st others command now newid)"

section \<open>Terminal transitions\<close>

fun enqueueAll ::
  "('w, 'z) Store_scheme \<Rightarrow> (Command \<times> JobID \<times> pgtime) list \<Rightarrow> 'w db \<Rightarrow> jobError + 'w db" where
  "enqueueAll st [] s = Inr s"
| "enqueueAll st ((c, i, now) # cs) s =
     (case enqueueTx st [] c now i s of
        Inl e \<Rightarrow> Inl e
      | Inr (s', j) \<Rightarrow> enqueueAll st cs s')"

definition notifyTerminal :: "'w Store \<Rightarrow> JobID \<Rightarrow> 'w db \<Rightarrow> jobError + 'w db" where
  "notifyTerminal st i s =
     (case terminalCallback st of
        None \<Rightarrow> Inr s
      | Some callback \<Rightarrow>
          (case selectJob i s of
             None \<Rightarrow> Inl (ErrInvalid ''no rows in result set'')
           | Some row \<Rightarrow>
               (case callback (snapshot row) s of
                  Inl e \<Rightarrow> Inl (ErrCallback e)
                | Inr (w, cs) \<Rightarrow> enqueueAll st cs (s\<lparr>domain_tables := w\<rparr>))))"

definition cancelLocked ::
  "'w Store \<Rightarrow> JobID \<Rightarrow> int \<Rightarrow> int \<Rightarrow> pgtime \<Rightarrow> bool \<Rightarrow> 'w db \<Rightarrow> jobError + 'w db" where
  "cancelLocked st i attemptCount gen now finishAttempt s =
     (let s1 = (if finishAttempt then FinishAttempt now ''CANCELLED'' None i gen s else s);
          s2 = CancelJob now i s1;
          s3 = recordEvent i (if finishAttempt then Some attemptCount else None)
                 ''CANCELLED'' now s2
      in notifyTerminal st i s3)"

definition expireExhausted :: "'w Store \<Rightarrow> Job \<Rightarrow> pgtime \<Rightarrow> 'w db \<Rightarrow> jobError + 'w db" where
  "expireExhausted st row now s =
     (let message = ''lease expired after final attempt'';
          s1 = ExpireAttempt now (Some message) (row_id row) (lease_generation row) s
      in case FinishJob Failed None None (Some message) now True (row_id row) s1 of
           None \<Rightarrow> Inl ErrDatabase
         | Some s2 \<Rightarrow> notifyTerminal st (row_id row)
             (recordEvent (row_id row) (Some (attempt_count row)) ''FAILED'' now s2))"

definition finish ::
  "'w Store \<Rightarrow> Permit \<Rightarrow> int \<Rightarrow> Status \<Rightarrow> string \<Rightarrow> pgtime \<Rightarrow> (string \<times> gval) list option \<Rightarrow>
   string option \<Rightarrow> pgtime option \<Rightarrow> 'w db \<Rightarrow> jobError + 'w db" where
  "finish st permit attemptNumber stat outcome now res err nb s =
     (let terminal = (stat = Succeeded \<or> stat = Failed \<or> stat = Cancelled);
          i = permit_JobID permit
      in case FinishJob stat nb res err now terminal i s of
           None \<Rightarrow> Inl ErrDatabase
         | Some s1 \<Rightarrow>
             let s2 = FinishAttempt now outcome err i (permit_LeaseGeneration permit) s1;
                 s3 = recordEvent i (Some attemptNumber) (statusName stat) now s2
             in if stat = Failed \<or> stat = Cancelled then notifyTerminal st i s3 else Inr s3)"

section \<open>Claim\<close>

text \<open>
  The last part of the claim loop: the row gets a new lease, an attempt is recorded, and a
  permit names the new generation.
\<close>

definition leaseClaimed ::
  "WorkerID \<Rightarrow> duration \<Rightarrow> pgtime \<Rightarrow> Job \<Rightarrow> 'w db \<Rightarrow> jobError + ('w db \<times> Permit)" where
  "leaseClaimed w d now row s =
     (let i = row_id row;
          attemptNumber = attempt_count row + 1;
          gen = lease_generation row + 1;
          s1 = (if status row = Leased then ExpireAttempt now None i (lease_generation row) s else s)
      in case LeaseJob attemptNumber w now (Microseconds d) gen i s1 of
           None \<Rightarrow> Inl ErrDatabase
         | Some s2 \<Rightarrow>
             (case InsertJobAttempt i attemptNumber gen w now s2 of
                None \<Rightarrow> Inl ErrDatabase
              | Some s3 \<Rightarrow> Inr (recordEvent i (Some attemptNumber) ''CLAIMED'' now s3,
                  \<lparr>permit_JobID = i, permit_WorkerID = w, permit_LeaseGeneration = gen\<rparr>)))"

text \<open>The tables it leaves, given the worker's name as the database stores it.\<close>

definition leasedTables :: "string \<Rightarrow> duration \<Rightarrow> pgtime \<Rightarrow> Job \<Rightarrow> 'w db \<Rightarrow> 'w db" where
  "leasedTables owner d now row s =
     (let i = row_id row; n = attempt_count row + 1; g = lease_generation row + 1;
          s1 = (if status row = Leased then ExpireAttempt now None i (lease_generation row) s else s)
      in recordEvent i (Some n) ''CLAIMED'' now (addAttempt (newAttempt i n g owner now)
           (updateJobs i (leaseRow n owner now (Microseconds d) g) s1)))"

lemma leaseClaimed_eq:
  "leaseClaimed w d now row s = (case varchar 255 w of None \<Rightarrow> Inl ErrDatabase
     | Some owner \<Rightarrow> Inr (leasedTables owner d now row s, \<lparr>permit_JobID = row_id row,
         permit_WorkerID = w, permit_LeaseGeneration = lease_generation row + 1\<rparr>))"
  by (simp add: leaseClaimed_def leasedTables_def LeaseJob_def InsertJobAttempt_def Let_def
      split: option.splits)

definition heldCount :: "'w db \<Rightarrow> nat" where
  "heldCount s = length (filter (\<lambda>r. heldStatus (status r)) (jobs s))"

subsection \<open>What the statements leave alone\<close>

lemma updateAttempts_simps [simp]:
  "jobs (updateAttempts i g f s) = jobs s"
  "job_events (updateAttempts i g f s) = job_events s"
  "event_log (updateAttempts i g f s) = event_log s"
  "provider_call_leases (updateAttempts i g f s) = provider_call_leases s"
  "model_profiles (updateAttempts i g f s) = model_profiles s"
  "domain_tables (updateAttempts i g f s) = domain_tables s"
  by (simp_all add: updateAttempts_def)

lemma updateJobs_simps [simp]:
  "jobs (updateJobs i f s) = map (\<lambda>r. if row_id r = i then f r else r) (jobs s)"
  "job_attempts (updateJobs i f s) = job_attempts s"
  "job_events (updateJobs i f s) = job_events s"
  "event_log (updateJobs i f s) = event_log s"
  "provider_call_leases (updateJobs i f s) = provider_call_leases s"
  "model_profiles (updateJobs i f s) = model_profiles s"
  "domain_tables (updateJobs i f s) = domain_tables s"
  by (simp_all add: updateJobs_def)

lemma recordEvent_simps [simp]:
  "jobs (recordEvent i a k now s) = jobs s"
  "job_attempts (recordEvent i a k now s) = job_attempts s"
  "provider_call_leases (recordEvent i a k now s) = provider_call_leases s"
  "model_profiles (recordEvent i a k now s) = model_profiles s"
  "domain_tables (recordEvent i a k now s) = domain_tables s"
  by (simp_all add: recordEvent_def InsertJobEvent_def InsertJobResourceEvent_def)

lemma addAttempt_simps [simp]:
  "jobs (addAttempt a s) = jobs s"
  "provider_call_leases (addAttempt a s) = provider_call_leases s"
  "model_profiles (addAttempt a s) = model_profiles s"
  by (simp_all add: addAttempt_def)

lemma attempt_statements_simps [simp]:
  "jobs (FinishAttempt now out err i g s) = jobs s"
  "jobs (ExpireAttempt now err i g s) = jobs s"
  "jobs (HeartbeatAttempt now i g s) = jobs s"
  "provider_call_leases (FinishAttempt now out err i g s) = provider_call_leases s"
  "provider_call_leases (ExpireAttempt now err i g s) = provider_call_leases s"
  "provider_call_leases (HeartbeatAttempt now i g s) = provider_call_leases s"
  "model_profiles (FinishAttempt now out err i g s) = model_profiles s"
  "model_profiles (ExpireAttempt now err i g s) = model_profiles s"
  "model_profiles (HeartbeatAttempt now i g s) = model_profiles s"
  by (simp_all add: FinishAttempt_def ExpireAttempt_def HeartbeatAttempt_def)

lemma InsertJob_SomeD:
  assumes "InsertJob c nb now i s = Inr (Some s')"
  obtains r where "s' = s\<lparr>jobs := jobs s @ [r]\<rparr>" "row_id r = i" "status r = Pending"
    "attempt_count r = 0" "lease_generation r = 0" "lease_owner r = None"
    "lease_expires_at r = None" "max_attempts r = cmd_MaxAttempts c" "progress r = 0"
    "varchar 512 (cmd_OperationKey c) = Some (operation_key r)"
    "varchar 512 (cmd_ConcurrencyKey c) = Some (concurrency_key r)"
    "concurrency_limit r = cmd_ConcurrencyLimit c" "job_type r = cmd_Type c"
    "varchar 64 (cmd_TargetType c) = Some (target_type r)" "not_before r = nb"
    "job_result r = None" "finished_at r = None" "created_at r = now"
    "\<forall>q \<in> set (jobs s). operation_key q = operation_key r \<longrightarrow> \<not> activeStatus (status q)"
proof -
  obtain target where v1: "varchar 64 (cmd_TargetType c) = Some target"
    using assms by (cases "varchar 64 (cmd_TargetType c)") (simp_all add: InsertJob_def Let_def)
  obtain key where v2: "varchar 512 (cmd_OperationKey c) = Some key"
    using assms v1 by (cases "varchar 512 (cmd_OperationKey c)") (simp_all add: InsertJob_def Let_def)
  obtain limited where v3: "varchar 512 (cmd_ConcurrencyKey c) = Some limited"
    using assms v1 v2 by (cases "varchar 512 (cmd_ConcurrencyKey c)") (simp_all add: InsertJob_def Let_def)
  show thesis
    by (rule that [where r = "last (jobs s')"])
       (use assms v1 v2 v3 in \<open>auto simp: InsertJob_def Let_def split: if_splits\<close>)
qed

lemma finish_ok:
  assumes "finish st p n stat out now res err nb s = Inr s'"
  shows "storable err res"
  using assms by (auto simp: finish_def FinishJob_def Let_def split: if_splits)

lemma expiry_message [simp]: "storable (Some ''lease expired after final attempt'') None"
  by (simp add: storable_def pgText_ascii)

lemma heldCount_recordEvent [simp]: "heldCount (recordEvent i a k now s) = heldCount s"
  by (simp add: heldCount_def)

text \<open>Enqueueing inserts at most one pending row.\<close>

lemma enqueueLoop_serial_cases:
  assumes "enqueueLoop [] c nb now i s = Inr (s', j)"
  obtains (inserted) s1 where "InsertJob c nb now i s = Inr (Some s1)" "j = i"
      "s' = recordEvent i None ''ENQUEUED'' now s1"
  | (adopted) "InsertJob c nb now i s = Inr None" "s' = s"
      "FindActiveJobIDByOperationKey (cmd_OperationKey c) s = Some j"
  using assms by (auto simp: enqueueLoop.simps split: option.splits sum.splits)

lemma withDefaults_simps [simp]:
  "cmd_ConcurrencyKey (withDefaults c) = cmd_ConcurrencyKey c"
  "cmd_ConcurrencyLimit (withDefaults c) = cmd_ConcurrencyLimit c"
  "cmd_OperationKey (withDefaults c) = cmd_OperationKey c"
  "cmd_NotBefore (withDefaults c) = cmd_NotBefore c"
  "cmd_Type (withDefaults c) = cmd_Type c"
  "cmd_TargetType (withDefaults c) = cmd_TargetType c"
  by (simp_all add: withDefaults_def)

lemma enqueueTx_serial_cases:
  assumes "enqueueTx st [] c now i s = Inr (s', j)"
  obtains (inserted) s1 where
      "InsertJob (withDefaults c) (map_option (encodeTime st) (cmd_NotBefore c)) now i s = Inr (Some s1)"
      "j = i" "s' = recordEvent i None ''ENQUEUED'' now s1"
      "commandValidate (withDefaults c) = Inr ()"
  | (adopted) "s' = s" "FindActiveJobIDByOperationKey (cmd_OperationKey c) s = Some j"
  using assms unfolding enqueueTx_def Let_def
  by (auto simp: result_simps elim!: enqueueLoop_serial_cases)

lemma heldCount_enqueueTx:
  "enqueueTx st [] c now i s = Inr (s', j) \<Longrightarrow> heldCount s' = heldCount s"
  by (erule enqueueTx_serial_cases) (auto elim!: InsertJob_SomeD simp: heldCount_def)

lemma heldCount_enqueueAll: "enqueueAll st cs s = Inr s' \<Longrightarrow> heldCount s' = heldCount s"
  by (induction st cs s rule: enqueueAll.induct)
     (auto split: sum.splits dest: heldCount_enqueueTx)

lemma heldCount_notifyTerminal:
  "notifyTerminal st i s = Inr s' \<Longrightarrow> heldCount s' = heldCount s"
  by (auto simp: notifyTerminal_def heldCount_def [of "domain_tables_update _ _"]
      split: option.splits sum.splits dest!: heldCount_enqueueAll) (auto simp: heldCount_def)

lemma heldCount_updateJobs_less:
  assumes "row \<in> set (jobs s)" "heldStatus (status row)" "\<And>r. \<not> heldStatus (status (f r))"
  shows "heldCount (updateJobs (row_id row) f s) < heldCount s"
  unfolding heldCount_def updateJobs_simps
  by (rule length_filter_map_less [of _ _ _ row]) (use assms in \<open>auto split: if_splits\<close>)

lemma cancelLocked_heldCount:
  assumes "cancelLocked st (row_id row) ac g now fin s = Inr s'"
    and "row \<in> set (jobs s)" "heldStatus (status row)"
  shows "heldCount s' < heldCount s"
proof -
  let ?s1 = "if fin then FinishAttempt now ''CANCELLED'' None (row_id row) g s else s"
  have "heldCount s' = heldCount (CancelJob now (row_id row) ?s1)"
    using assms(1) by (auto simp: cancelLocked_def Let_def dest!: heldCount_notifyTerminal)
  also have "\<dots> < heldCount ?s1" unfolding CancelJob_def
    by (rule heldCount_updateJobs_less) (use assms in \<open>auto simp: cancelRow_def\<close>)
  also have "heldCount ?s1 = heldCount s" by (simp add: heldCount_def)
  finally show ?thesis .
qed

lemma expireExhausted_heldCount:
  assumes "expireExhausted st row now s = Inr s'" "row \<in> set (jobs s)" "heldStatus (status row)"
  shows "heldCount s' < heldCount s"
proof -
  let ?m = "Some ''lease expired after final attempt''"
  let ?s1 = "ExpireAttempt now ?m (row_id row) (lease_generation row) s"
  have "heldCount s' = heldCount (updateJobs (row_id row) (finishRow Failed None None ?m now True) ?s1)"
    using assms(1)
    by (auto simp: expireExhausted_def Let_def FinishJob_def dest!: heldCount_notifyTerminal)
  also have "\<dots> < heldCount ?s1"
    by (rule heldCount_updateJobs_less) (use assms in \<open>auto simp: finishRow_def\<close>)
  also have "heldCount ?s1 = heldCount s" by (simp add: heldCount_def)
  finally show ?thesis .
qed

lemma earliest_in_set: "earliest rs = Some r \<Longrightarrow> r \<in> set rs"
  by (induction rs arbitrary: r) (auto split: option.splits if_splits)

lemma earliest_least: "earliest rs = Some r \<Longrightarrow> q \<in> set rs \<Longrightarrow> claimKey r \<le> claimKey q"
proof (induction rs arbitrary: r)
  case Nil
  then show ?case by simp
next
  case (Cons a rs)
  show ?case
  proof (cases "earliest rs")
    case None
    then have "rs = []" by (cases rs) (auto split: option.splits if_splits)
    then show ?thesis using Cons.prems by simp
  next
    case (Some b)
    then show ?thesis using Cons by (fastforce split: if_splits)
  qed
qed

lemma earliest_None_iff [simp]: "earliest rs = None \<longleftrightarrow> rs = []"
  by (cases rs) (auto split: option.splits if_splits)

lemma LockEligibleJob_SomeD:
  "LockEligibleJob now locked s = Some r \<Longrightarrow>
     r \<in> set (jobs s) \<and> eligible now s r \<and> \<not> locked (row_id r)"
  unfolding LockEligibleJob_def by (drule earliest_in_set) auto

text \<open>
  The claim loop. Round \<open>k\<close> evaluates the candidate query at clock reading \<open>2 * k\<close> and
  writes at the next one. A round that does not return finishes a row whose lease was held,
  so the number of held rows is a measure.
\<close>

function claimLoop ::
  "'w Store \<Rightarrow> (nat \<Rightarrow> pgtime) \<Rightarrow> (JobID \<Rightarrow> bool) \<Rightarrow> WorkerID \<Rightarrow> duration \<Rightarrow> nat \<Rightarrow> 'w db \<Rightarrow>
   jobError + ('w db \<times> Permit option)" where
  "claimLoop st clock locked w d k s =
     (case LockEligibleJob (clock (2 * k)) locked s of
        None \<Rightarrow> Inr (s, None)
      | Some row \<Rightarrow>
          let now = clock (2 * k + 1) in
          if status row = CancelRequested then
            (case cancelLocked st (row_id row) (attempt_count row) (lease_generation row) now True s of
               Inl e \<Rightarrow> Inl e
             | Inr s' \<Rightarrow> claimLoop st clock locked w d (Suc k) s')
          else if status row = Leased \<and> attempt_count row \<ge> max_attempts row then
            (case expireExhausted st row now s of
               Inl e \<Rightarrow> Inl e
             | Inr s' \<Rightarrow> claimLoop st clock locked w d (Suc k) s')
          else (case leaseClaimed w d now row s of
              Inl e \<Rightarrow> Inl e
            | Inr (s', permit) \<Rightarrow> Inr (s', Some permit)))"
  by pat_completeness auto
termination
proof (relation "measure (\<lambda>(st, clock, locked, w, d, k, s). heldCount s)", goal_cases)
  case 1
  then show ?case by simp
next
  case (2 st clock locked w d k s row now s')
  then show ?case
    by (auto dest!: LockEligibleJob_SomeD intro: cancelLocked_heldCount)
next
  case (3 st clock locked w d k s row now s')
  then show ?case
    by (auto dest!: LockEligibleJob_SomeD intro: expireExhausted_heldCount)
qed

declare claimLoop.simps [simp del]

definition Claim ::
  "'w Store \<Rightarrow> (nat \<Rightarrow> pgtime) \<Rightarrow> (JobID \<Rightarrow> bool) \<Rightarrow> WorkerID \<Rightarrow> duration \<Rightarrow>
   ('w db, jobError, Permit option) action" where
  "Claim st clock locked workerID leaseFor s =
     (if workerID = [] then (s, Inl (ErrInvalid ''worker ID must not be empty''))
      else if Microseconds leaseFor \<le> 0
      then (s, Inl (ErrInvalid ''lease duration must be positive''))
      else transaction (claimLoop st clock locked workerID leaseFor 0) s)"

section \<open>Operations under a permit\<close>

definition GetCommand :: "Permit \<Rightarrow> pgtime \<Rightarrow> 'w db \<Rightarrow> jobError + Command" where
  "GetCommand permit now s =
     bindE (lockPermit permit [Leased] now s) (\<lambda>_.
       case selectJob (permit_JobID permit) s of
         None \<Rightarrow> Inl (ErrInvalid ''no rows in result set'')
       | Some row \<Rightarrow> Inr \<lparr>cmd_Type = job_type row, cmd_TargetType = target_type row,
           cmd_TargetID = target_id row, cmd_Payload = Some (payload row),
           cmd_OperationKey = operation_key row, cmd_MaxAttempts = max_attempts row,
           cmd_NotBefore = map_option (\<lambda>t. t * 1000) (not_before row),
           cmd_ConcurrencyKey = concurrency_key row,
           cmd_ConcurrencyLimit = concurrency_limit row\<rparr>)"

definition Heartbeat :: "Permit \<Rightarrow> duration \<Rightarrow> pgtime \<Rightarrow> ('w db, jobError, unit) action" where
  "Heartbeat permit leaseFor now s =
     (if Microseconds leaseFor \<le> 0
      then (s, Inl (ErrInvalid ''lease duration must be positive''))
      else transaction (\<lambda>s. bindE (lockPermit permit [Leased] now s) (\<lambda>row.
        let s1 = HeartbeatJob now (Microseconds leaseFor) (row_id row) s;
            s2 = HeartbeatAttempt now (row_id row) (permit_LeaseGeneration permit) s1
        in Inr (recordEvent (permit_JobID permit) (Some (attempt_count row)) ''HEARTBEAT'' now s2, ())))
        s)"

definition objectJSON :: "(string \<times> gval) list option \<Rightarrow> jobError + (string \<times> gval) list" where
  "objectJSON value = (let v = (case value of None \<Rightarrow> [] | Some o' \<Rightarrow> o') in
     if marshalable (GObject v) then Inr v else Inl (ErrInvalid ''job result is not valid JSON''))"

definition complete ::
  "'w Store \<Rightarrow> Permit \<Rightarrow> (string \<times> gval) list option \<Rightarrow> Status list \<Rightarrow> pgtime \<Rightarrow>
   ('w db, jobError, unit) action" where
  "complete st permit res statuses now s =
     (case objectJSON res of
        Inl e \<Rightarrow> (s, Inl e)
      | Inr encoded \<Rightarrow> transaction (\<lambda>s. bindE (lockPermit permit statuses now s) (\<lambda>row.
          bindE (finish st permit (attempt_count row) Succeeded ''SUCCEEDED'' now (Some encoded)
            None None s) (\<lambda>s'. Inr (s', ())))) s)"

definition Succeed ::
  "'w Store \<Rightarrow> Permit \<Rightarrow> (string \<times> gval) list option \<Rightarrow> pgtime \<Rightarrow> ('w db, jobError, unit) action" where
  "Succeed st permit res = complete st permit res [Leased]"

definition CompleteAcceptedResult ::
  "'w Store \<Rightarrow> Permit \<Rightarrow> (string \<times> gval) list option \<Rightarrow> pgtime \<Rightarrow> ('w db, jobError, unit) action" where
  "CompleteAcceptedResult st permit res = complete st permit res [Leased, CancelRequested]"

definition RetryAt ::
  "'w Store \<Rightarrow> Permit \<Rightarrow> string \<Rightarrow> gotime \<Rightarrow> pgtime \<Rightarrow> ('w db, jobError, Status) action" where
  "RetryAt st permit err notBefore now = transaction (\<lambda>s.
     bindE (lockPermit permit [Leased] now s) (\<lambda>row.
       let stat = retryStatus (attempt_count row) (max_attempts row) in
       bindE (ensureE (\<not> (stat = RetryWait \<and> \<not> now * 1000 < notBefore))
         (ErrInvalid ''not-before must be in the future'')) (\<lambda>_.
       bindE (finish st permit (attempt_count row) stat
           (if stat = RetryWait then ''RETRY'' else ''FAILED'') now None (Some err)
           (if stat = RetryWait then Some (encodeTime st notBefore) else None) s)
         (\<lambda>s'. Inr (s', stat)))))"

definition RetryAfter ::
  "'w Store \<Rightarrow> Permit \<Rightarrow> string \<Rightarrow> duration \<Rightarrow> pgtime \<Rightarrow> ('w db, jobError, Status) action" where
  "RetryAfter st permit err delay now s =
     (if delay \<le> 0 then (s, Inl (ErrInvalid ''retry delay must be positive''))
      else transaction (\<lambda>s.
        bindE (lockPermit permit [Leased] now s) (\<lambda>row.
          let stat = retryStatus (attempt_count row) (max_attempts row) in
          bindE (finish st permit (attempt_count row) stat
              (if stat = RetryWait then ''RETRY'' else ''FAILED'') now None (Some err)
              (if stat = RetryWait then Some (encodeTime st (now * 1000 + delay)) else None) s)
            (\<lambda>s'. Inr (s', stat)))) s)"

definition Fail :: "'w Store \<Rightarrow> Permit \<Rightarrow> string \<Rightarrow> pgtime \<Rightarrow> ('w db, jobError, unit) action" where
  "Fail st permit err now = transaction (\<lambda>s.
     bindE (lockPermit permit [Leased] now s) (\<lambda>row.
       bindE (finish st permit (attempt_count row) Failed ''FAILED'' now None (Some err) None s)
         (\<lambda>s'. Inr (s', ()))))"

definition AcknowledgeCancel ::
  "'w Store \<Rightarrow> Permit \<Rightarrow> pgtime \<Rightarrow> ('w db, jobError, unit) action" where
  "AcknowledgeCancel st permit now = transaction (\<lambda>s.
     bindE (lockPermit permit [CancelRequested] now s) (\<lambda>row.
       bindE (cancelLocked st (row_id row) (attempt_count row) (lease_generation row) now True s)
         (\<lambda>s'. Inr (s', ()))))"

section \<open>Cancellation by an operator\<close>

definition leaseExpired :: "pgtime \<Rightarrow> Job \<Rightarrow> bool" where
  "leaseExpired now row \<longleftrightarrow>
     (case lease_expires_at row of None \<Rightarrow> True | Some t \<Rightarrow> \<not> now < t)"

definition requestCancel ::
  "'w Store \<Rightarrow> JobID \<Rightarrow> pgtime \<Rightarrow> ('w db, jobError, Status) txn" where
  "requestCancel st i now s =
     (case selectJob i s of
        None \<Rightarrow> Inl ErrJobNotFound
      | Some row \<Rightarrow>
          let cancel = (\<lambda>fin. bindE
                (cancelLocked st (row_id row) (attempt_count row) (lease_generation row) now fin s)
                (\<lambda>s'. Inr (s', Cancelled)))
          in (case status row of
                Pending \<Rightarrow> cancel False
              | RetryWait \<Rightarrow> cancel False
              | Leased \<Rightarrow>
                  if leaseExpired now row then cancel True
                  else Inr (recordEvent i (Some (attempt_count row)) ''CANCEL_REQUESTED'' now
                      (RequestJobCancellation now (row_id row) s), CancelRequested)
              | CancelRequested \<Rightarrow>
                  if leaseExpired now row then cancel True else Inr (s, CancelRequested)
              | Cancelled \<Rightarrow> Inr (s, Cancelled)
              | other \<Rightarrow> Inl (ErrJobConflict other)))"

definition RequestCancel ::
  "'w Store \<Rightarrow> JobID \<Rightarrow> pgtime \<Rightarrow> ('w db, jobError, Status) action" where
  "RequestCancel st i now = transaction (requestCancel st i now)"

section \<open>Reads\<close>

definition Get :: "JobID \<Rightarrow> 'w db \<Rightarrow> jobError + Snapshot" where
  "Get i s = (case selectJob i s of None \<Rightarrow> Inl ErrJobNotFound | Some row \<Rightarrow> Inr (snapshot row))"

record ListOptions =
  opt_Limit :: int
  opt_Offset :: int
  opt_Status :: "string option"
  opt_Type :: "string option"

definition listJobs :: "ListOptions \<Rightarrow> 'w db \<Rightarrow> jobError + Snapshot list" where
  "listJobs options s =
     (if opt_Limit options < 1 \<or> opt_Limit options > 100 \<or> opt_Offset options < 0 \<or>
         opt_Offset options > 10000
      then Inl (ErrInvalid ''job page is out of bounds'')
      else if (case opt_Status options of None \<Rightarrow> False | Some v \<Rightarrow> \<not> ValidStatus v)
      then Inl (ErrInvalid ''job status is invalid'')
      else if (case opt_Type options of None \<Rightarrow> False | Some v \<Rightarrow> \<not> ValidType v)
      then Inl (ErrInvalid ''job type is invalid'')
      else Inr (map snapshot (take (nat (opt_Limit options)) (drop (nat (opt_Offset options))
        (sort_key claimKey (filter (\<lambda>r.
           (case opt_Status options of None \<Rightarrow> True | Some v \<Rightarrow> statusName (status r) = v) \<and>
           (case opt_Type options of None \<Rightarrow> True | Some v \<Rightarrow> job_type r = v)) (jobs s)))))))"

section \<open>Shared admission of model calls\<close>

definition tryModelCall ::
  "UUID \<Rightarrow> duration \<Rightarrow> pgtime \<Rightarrow> UUID \<Rightarrow> ('w db, jobError, UUID option) txn" where
  "tryModelCall profileID timeout now newid s =
     (let s1 = s\<lparr>provider_call_leases :=
            filter (\<lambda>c. now < call_expires_at c) (provider_call_leases s)\<rparr> in
      case find (\<lambda>p. profile_id p = profileID) (model_profiles s1) of
        None \<Rightarrow> Inl (ErrInvalid ''no rows in result set'')
      | Some profile \<Rightarrow>
          let endpoint = profile_endpoint_id profile in
          (case endpointCapacity endpoint s1 of
             None \<Rightarrow> Inl (ErrInvalid ''cannot scan NULL into int'')
           | Some capacity \<Rightarrow>
               if int (endpointOccupied now endpoint s1) < capacity
               then Inr (s1\<lparr>provider_call_leases := provider_call_leases s1 @
                   [\<lparr>call_id = newid, call_endpoint_id = endpoint,
                     call_expires_at = now + (timeout + 5000000000) div 1000000 * 1000\<rparr>]\<rparr>,
                   Some newid)
               else Inr (s1, None)))"

definition releaseModelCall :: "UUID \<Rightarrow> 'w db \<Rightarrow> 'w db" where
  "releaseModelCall i s = s\<lparr>provider_call_leases :=
     filter (\<lambda>c. call_id c \<noteq> i) (provider_call_leases s)\<rparr>"

text \<open>
  \<^verbatim>\<open>AcquireModelCall\<close> polls until a lease is granted or the five seconds of waiting are
  over: \<open>polls\<close> lists the states it finds, each with its clock reading, up to the deadline.
\<close>

fun acquirePolls ::
  "UUID \<Rightarrow> duration \<Rightarrow> UUID \<Rightarrow> ('w db \<times> pgtime) list \<Rightarrow> string + (jobError + ('w db \<times> UUID))" where
  "acquirePolls profileID timeout newid [] = Inl ''provider concurrency limit reached''"
| "acquirePolls profileID timeout newid ((s, now) # polls) =
     (case tryModelCall profileID timeout now newid s of
        Inl e \<Rightarrow> Inr (Inl e)
      | Inr (s', Some i) \<Rightarrow> Inr (Inr (s', i))
      | Inr (s', None) \<Rightarrow> acquirePolls profileID timeout newid polls)"

definition AcquireModelCall ::
  "UUID \<Rightarrow> duration \<Rightarrow> UUID \<Rightarrow> ('w db \<times> pgtime) list \<Rightarrow> string + (jobError + ('w db \<times> UUID))" where
  "AcquireModelCall profileID timeout newid polls =
     (if timeout \<le> 0 \<or> timeout > 60000000000
      then Inr (Inl (ErrInvalid ''invalid model call timeout''))
      else acquirePolls profileID timeout newid polls)"

end
