(* ===== verification/JobInvariant.thy ===== *)
theory JobInvariant
  imports JobOps
begin

text \<open>
  The well-formedness invariant of the queue's tables and its preservation by every
  operation. A row satisfies the check constraints of the schema and more: its lease
  generation counts its attempts, a lease is held exactly in the two leased statuses, and a
  finish time is set exactly in the final ones. The attempts of a row are one per generation,
  and the only open attempt is that of the lease now held.
\<close>

section \<open>The invariant\<close>

definition rowInv :: "Job \<Rightarrow> bool" where
  "rowInv r \<longleftrightarrow>
     0 \<le> attempt_count r \<and> attempt_count r \<le> max_attempts r \<and> 0 < max_attempts r \<and>
     lease_generation r = attempt_count r \<and>
     (heldStatus (status r) \<longleftrightarrow> lease_owner r \<noteq> None) \<and>
     (heldStatus (status r) \<longleftrightarrow> lease_expires_at r \<noteq> None) \<and>
     (heldStatus (status r) \<longrightarrow> 0 < attempt_count r) \<and>
     (status r = Pending \<longrightarrow> attempt_count r = 0) \<and>
     (status r = RetryWait \<longrightarrow> not_before r \<noteq> None \<and> attempt_count r < max_attempts r) \<and>
     progress r = (if status r = Succeeded then 100 else 0) \<and>
     (finished_at r \<noteq> None \<longleftrightarrow> \<not> activeStatus (status r)) \<and>
     (if concurrency_key r = [] then concurrency_limit r = 0
      else 1 \<le> concurrency_limit r \<and> concurrency_limit r \<le> 32) \<and>
     ValidType (job_type r) \<and> operation_key r \<noteq> []"

definition attemptsOf :: "JobID \<Rightarrow> 'w db \<Rightarrow> JobAttempt list" where
  "attemptsOf i s = filter (\<lambda>a. att_job_id a = i) (job_attempts s)"

definition wfAttempts :: "Job \<Rightarrow> JobAttempt list \<Rightarrow> bool" where
  "wfAttempts r as \<longleftrightarrow>
     map att_lease_generation as = [1..lease_generation r] \<and>
     (\<forall>a \<in> set as. att_attempt_number a = att_lease_generation a \<and>
        (att_finished_at a = None \<longleftrightarrow>
           heldStatus (status r) \<and> att_lease_generation a = lease_generation r) \<and>
        (att_outcome a = None \<longleftrightarrow> att_finished_at a = None))"

definition dbInv :: "'w db \<Rightarrow> bool" where
  "dbInv s \<longleftrightarrow>
     distinct (map row_id (jobs s)) \<and>
     distinct (map operation_key (filter (\<lambda>r. activeStatus (status r)) (jobs s))) \<and>
     (\<forall>r \<in> set (jobs s). rowInv r \<and> wfAttempts r (attemptsOf (row_id r) s)) \<and>
     (\<forall>a \<in> set (job_attempts s). att_job_id a \<in> row_id ` set (jobs s))"

abbreviation newIds :: "(Command \<times> JobID \<times> pgtime) list \<Rightarrow> JobID list" where
  "newIds cs \<equiv> map (\<lambda>(c, i, t). i) cs"

text \<open>The identifiers a terminal callback enqueues under are fresh, as those of
  \<^verbatim>\<open>gen_random_uuid()\<close> are.\<close>

definition callbackFresh :: "'w Store \<Rightarrow> bool" where
  "callbackFresh st \<longleftrightarrow>
     (\<forall>cb snap s w cs. terminalCallback st = Some cb \<longrightarrow> cb snap s = Inr (w, cs) \<longrightarrow>
        distinct (newIds cs) \<and> set (newIds cs) \<inter> row_id ` set (jobs s) = {})"

section \<open>Lookups\<close>

lemma selectJob_SomeD: "selectJob i s = Some r \<Longrightarrow> r \<in> set (jobs s) \<and> row_id r = i"
  by (auto simp: selectJob_def find_Some_iff)

lemma row_id_unique:
  "distinct (map row_id (jobs s)) \<Longrightarrow> r \<in> set (jobs s) \<Longrightarrow> q \<in> set (jobs s) \<Longrightarrow>
     row_id r = row_id q \<Longrightarrow> r = q"
  by (auto simp: distinct_map inj_on_def)

lemma selectJob_eq:
  assumes "dbInv s" "r \<in> set (jobs s)"
  shows "selectJob (row_id r) s = Some r"
proof (cases "selectJob (row_id r) s")
  case None
  then show ?thesis using assms(2) by (auto simp: selectJob_def find_None_iff)
next
  case (Some q)
  then have "q \<in> set (jobs s)" "row_id q = row_id r" by (auto dest: selectJob_SomeD)
  then show ?thesis using Some assms row_id_unique by (fastforce simp: dbInv_def)
qed

lemma lockPermit_okD:
  assumes "lockPermit p sts now s = Inr r"
  shows "r \<in> set (jobs s)" "row_id r = permit_JobID p" "status r \<in> set sts"
    "lease_owner r = Some (permit_WorkerID p)" "lease_generation r = permit_LeaseGeneration p"
    "\<exists>t. lease_expires_at r = Some t \<and> now < t" "permit_WorkerID p \<noteq> []"
    "0 < permit_LeaseGeneration p"
  using assms
  by (auto simp: lockPermit_def result_simps containsStatus_def dest: selectJob_SomeD
      split: option.splits if_splits)

section \<open>Attempts\<close>

lemma filter_map_if_other:
  "(\<And>a. k (f a) = k a) \<Longrightarrow>
     filter (\<lambda>a. k a = j) (map (\<lambda>a. if k a = i \<and> Q a then f a else a) xs) =
     (if j = i then map (\<lambda>a. if Q a then f a else a) (filter (\<lambda>a. k a = j) xs)
      else filter (\<lambda>a. k a = j) xs)"
  by (induction xs) auto

lemma attemptsOf_updateJobs [simp]: "attemptsOf j (updateJobs i f s) = attemptsOf j s"
  by (simp add: attemptsOf_def)

lemma attemptsOf_recordEvent [simp]: "attemptsOf j (recordEvent i a k now s) = attemptsOf j s"
  by (simp add: attemptsOf_def)

lemma attemptsOf_updateAttempts:
  "(\<And>a. att_job_id (f a) = att_job_id a) \<Longrightarrow>
     attemptsOf j (updateAttempts i g f s) =
     (if j = i then map (\<lambda>a. if att_lease_generation a = g then f a else a) (attemptsOf j s)
      else attemptsOf j s)"
  unfolding attemptsOf_def updateAttempts_def
  using filter_map_if_other [of att_job_id f j i "\<lambda>a. att_lease_generation a = g"] by simp

lemma newAttempt_simps [simp]:
  "att_job_id (newAttempt i n g w now) = i" "att_attempt_number (newAttempt i n g w now) = n"
  "att_lease_generation (newAttempt i n g w now) = g" "att_finished_at (newAttempt i n g w now) = None"
  "att_outcome (newAttempt i n g w now) = None"
  by (simp_all add: newAttempt_def)

lemma attemptsOf_addAttempt:
  "attemptsOf j (addAttempt a s) = attemptsOf j s @ (if att_job_id a = j then [a] else [])"
  by (simp add: attemptsOf_def addAttempt_def)

lemma map_gen_close:
  "(\<And>a. att_lease_generation (f a) = att_lease_generation a) \<Longrightarrow>
     map att_lease_generation (map (\<lambda>a. if att_lease_generation a = g then f a else a) as) =
     map att_lease_generation as"
  by (induction as) auto

text \<open>Closing the current attempt matches leaving the leased statuses.\<close>

lemma wfAttempts_close:
  assumes wf: "wfAttempts r as"
    and f: "\<And>a. att_lease_generation (f a) = att_lease_generation a"
      "\<And>a. att_attempt_number (f a) = att_attempt_number a"
      "\<And>a. att_finished_at (f a) = Some t" "\<And>a. att_outcome (f a) = Some out"
    and r': "lease_generation r' = lease_generation r" "\<not> heldStatus (status r')"
  shows "wfAttempts r' (map (\<lambda>a. if att_lease_generation a = lease_generation r then f a else a) as)"
  using assms map_gen_close [of f "lease_generation r" as]
  unfolding wfAttempts_def by (auto simp del: map_map)

lemma wfAttempts_not_held:
  assumes "wfAttempts r as" "\<not> heldStatus (status r)" "\<not> heldStatus (status r')"
    and "lease_generation r' = lease_generation r"
  shows "wfAttempts r' as"
  using assms by (auto simp: wfAttempts_def)

lemma wfAttempts_still_held:
  assumes "wfAttempts r as" "heldStatus (status r)" "heldStatus (status r')"
    and "lease_generation r' = lease_generation r"
  shows "wfAttempts r' as"
  using assms by (auto simp: wfAttempts_def)

lemma upto_snoc: "0 \<le> g \<Longrightarrow> [1..g + 1] = [1..g] @ [g + 1 :: int]"
  using upto_rec2 [of 1 "g + 1"] by simp

lemma wfAttempts_open:
  assumes wf: "wfAttempts r as" and closed: "\<not> heldStatus (status r)"
    and gen: "0 \<le> lease_generation r"
    and a: "att_lease_generation a = lease_generation r + 1"
      "att_attempt_number a = lease_generation r + 1"
      "att_finished_at a = None" "att_outcome a = None"
    and r': "lease_generation r' = lease_generation r + 1" "heldStatus (status r')"
  shows "wfAttempts r' (as @ [a])"
proof -
  have "att_lease_generation ` set as = {1..lease_generation r}"
    using wf by (metis list.set_map set_upto wfAttempts_def)
  then have "\<forall>b \<in> set as. att_lease_generation b \<in> {1..lease_generation r}" by blast
  then have "\<forall>b \<in> set as. att_lease_generation b \<noteq> lease_generation r + 1" by auto
  then show ?thesis using assms by (auto simp: wfAttempts_def upto_snoc)
qed

section \<open>One row changes\<close>

lemma dbInv_update:
  assumes inv: "dbInv s" and row: "row \<in> set (jobs s)"
    and jobs': "jobs s' = map (\<lambda>r. if row_id r = row_id row then f r else r) (jobs s)"
    and f: "row_id (f row) = row_id row" "operation_key (f row) = operation_key row"
      "activeStatus (status (f row)) \<Longrightarrow> activeStatus (status row)"
      "rowInv (f row)" "wfAttempts (f row) (attemptsOf (row_id row) s')"
    and others: "\<And>j. j \<noteq> row_id row \<Longrightarrow> attemptsOf j s' = attemptsOf j s"
    and atts: "att_job_id ` set (job_attempts s') \<subseteq> insert (row_id row) (att_job_id ` set (job_attempts s))"
  shows "dbInv s'"
proof -
  have dist: "distinct (map row_id (jobs s))" using inv by (simp add: dbInv_def)
  define g where "g = (\<lambda>r. if row_id r = row_id row then f r else r)"
  have g_eq: "g r = (if r = row then f row else r)" if "r \<in> set (jobs s)" for r
    using that row row_id_unique [OF dist] by (auto simp: g_def)
  have js: "jobs s' = map g (jobs s)" by (simp add: jobs' g_def)
  have ids: "map row_id (map g (jobs s)) = map row_id (jobs s)"
    using g_eq f(1) by (auto intro!: map_cong)
  have "distinct (map operation_key (filter (\<lambda>r. activeStatus (status r)) (map g (jobs s))))"
    by (rule distinct_map_filter_map) (use inv g_eq f in \<open>auto simp: dbInv_def split: if_splits\<close>)
  moreover have "rowInv q \<and> wfAttempts q (attemptsOf (row_id q) s')" if "q \<in> set (jobs s')" for q
  proof -
    from that obtain r where r: "r \<in> set (jobs s)" "q = g r" by (auto simp: js)
    show ?thesis
    proof (cases "r = row")
      case True
      then show ?thesis using r g_eq [OF r(1)] f by simp
    next
      case False
      then have "row_id r \<noteq> row_id row" using row_id_unique [OF dist] r row by blast
      then show ?thesis using False r g_eq [OF r(1)] inv others by (simp add: dbInv_def)
    qed
  qed
  moreover have "row_id ` set (jobs s') = row_id ` set (jobs s)"
    using ids by (metis js list.set_map)
  moreover have "att_job_id ` set (job_attempts s') \<subseteq> row_id ` set (jobs s)"
    using atts inv row by (auto simp: dbInv_def)
  moreover have "distinct (map row_id (jobs s'))"
    using ids dist by (simp only: js)
  ultimately show ?thesis
    unfolding dbInv_def by (auto simp: js)
qed

text \<open>A row is inserted.\<close>

lemma dbInv_insert:
  assumes inv: "dbInv s" and fresh: "row_id r \<notin> row_id ` set (jobs s)"
    and key: "\<forall>q \<in> set (jobs s). operation_key q = operation_key r \<longrightarrow> \<not> activeStatus (status q)"
    and r: "rowInv r" "lease_generation r = 0"
  shows "dbInv (s\<lparr>jobs := jobs s @ [r]\<rparr>)"
proof -
  have "\<forall>a \<in> set (job_attempts s). att_job_id a \<noteq> row_id r"
    using inv fresh by (metis dbInv_def)
  then have "attemptsOf (row_id r) s = []" by (auto simp: attemptsOf_def filter_empty_conv)
  then have "wfAttempts r (attemptsOf (row_id r) s)" using r by (simp add: wfAttempts_def)
  then show ?thesis using assms by (auto simp: dbInv_def attemptsOf_def)
qed

lemma dbInv_cong:
  "jobs s' = jobs s \<Longrightarrow> job_attempts s' = job_attempts s \<Longrightarrow> dbInv s' = dbInv s"
  by (simp add: dbInv_def attemptsOf_def)

lemma dbInv_recordEvent [simp]: "dbInv (recordEvent i a k now s) = dbInv s"
  by (rule dbInv_cong) simp_all

section \<open>Enqueueing\<close>

lemma rowInv_inserted:
  assumes "commandValidate c = Inr ()"
    and "status r = Pending" "attempt_count r = 0" "lease_generation r = 0" "lease_owner r = None"
    "lease_expires_at r = None" "max_attempts r = cmd_MaxAttempts c" "progress r = 0"
    "varchar 512 (cmd_OperationKey c) = Some (operation_key r)"
    "varchar 512 (cmd_ConcurrencyKey c) = Some (concurrency_key r)"
    "concurrency_limit r = cmd_ConcurrencyLimit c" "job_type r = cmd_Type c" "finished_at r = None"
  shows "rowInv r"
proof -
  have "operation_key r \<noteq> []"
    using assms by (intro varchar_nonempty [OF assms(9)]) (simp_all add: commandValidate_ok_iff)
  moreover have "concurrency_key r = [] \<longleftrightarrow> cmd_ConcurrencyKey c = []"
    using varchar_nonempty [OF assms(10)] assms(10) by (auto simp: varchar_def split: if_splits)
  ultimately show ?thesis using assms by (auto simp: rowInv_def commandValidate_ok_iff split: if_splits)
qed

lemma dbInv_InsertJob:
  assumes "dbInv s" "InsertJob c nb now i s = Inr (Some s')" "commandValidate c = Inr ()"
    and "i \<notin> row_id ` set (jobs s)"
  shows "dbInv s'"
  using assms(2)
proof (rule InsertJob_SomeD)
  fix r
  assume r: "s' = s\<lparr>jobs := jobs s @ [r]\<rparr>" "row_id r = i" "status r = Pending"
    "attempt_count r = 0" "lease_generation r = 0" "lease_owner r = None"
    "lease_expires_at r = None" "max_attempts r = cmd_MaxAttempts c" "progress r = 0"
    "varchar 512 (cmd_OperationKey c) = Some (operation_key r)"
    "varchar 512 (cmd_ConcurrencyKey c) = Some (concurrency_key r)"
    "concurrency_limit r = cmd_ConcurrencyLimit c" "job_type r = cmd_Type c"
    "varchar 64 (cmd_TargetType c) = Some (target_type r)" "not_before r = nb" "job_result r = None"
    "finished_at r = None" "created_at r = now"
    "\<forall>q \<in> set (jobs s). operation_key q = operation_key r \<longrightarrow> \<not> activeStatus (status q)"
  have "rowInv r" using rowInv_inserted [OF assms(3)] r by blast
  then show ?thesis using dbInv_insert [OF assms(1), of r] assms(4) r by simp
qed

lemma dbInv_enqueueTx:
  assumes "dbInv s" "enqueueTx st [] c now i s = Inr (s', j)" "i \<notin> row_id ` set (jobs s)"
  shows "dbInv s'"
  using assms(2)
  by (rule enqueueTx_serial_cases) (use assms dbInv_InsertJob in fastforce)+

lemma jobs_enqueueTx_subset:
  "enqueueTx st [] c now i s = Inr (s', j) \<Longrightarrow>
     row_id ` set (jobs s') \<subseteq> insert i (row_id ` set (jobs s))"
  by (erule enqueueTx_serial_cases) (auto elim!: InsertJob_SomeD)

lemma dbInv_enqueueAll:
  assumes "dbInv s" "enqueueAll st cs s = Inr s'" "distinct (newIds cs)"
    and "set (newIds cs) \<inter> row_id ` set (jobs s) = {}"
  shows "dbInv s'"
  using assms
proof (induction cs arbitrary: s)
  case Nil
  then show ?case by simp
next
  case (Cons x cs)
  obtain c i now where x: "x = (c, i, now)" by (cases x)
  obtain s1 j where e: "enqueueTx st [] c now i s = Inr (s1, j)"
    and rest: "enqueueAll st cs s1 = Inr s'"
    using Cons.prems(2) by (auto simp: x split: sum.splits)
  have "i \<notin> row_id ` set (jobs s)" using Cons.prems(4) by (simp add: x)
  then have inv1: "dbInv s1" using dbInv_enqueueTx [OF Cons.prems(1) e] by simp
  have "i \<notin> set (newIds cs)" "set (newIds cs) \<inter> row_id ` set (jobs s) = {}"
    using Cons.prems(3,4) by (simp_all add: x)
  then have "set (newIds cs) \<inter> row_id ` set (jobs s1) = {}"
    using jobs_enqueueTx_subset [OF e] by blast
  moreover have "distinct (newIds cs)" using Cons.prems(3) by (simp add: x)
  ultimately show ?case using Cons.IH [OF inv1 rest] by blast
qed

lemma dbInv_notifyTerminal:
  assumes "notifyTerminal st i s = Inr s'" "callbackFresh st" "dbInv s"
  shows "dbInv s'"
  using assms(1) unfolding notifyTerminal_def
proof (auto split: option.splits sum.splits, goal_cases)
  case 1
  then show ?case using assms(3) by simp
next
  case (2 cb row w cs)
  have "dbInv (s\<lparr>domain_tables := w\<rparr>)" using assms(3) by (subst dbInv_cong [of _ s]) simp_all
  moreover have "distinct (newIds cs) \<and> set (newIds cs) \<inter> row_id ` set (jobs s) = {}"
    using assms(2) 2 unfolding callbackFresh_def by blast
  then have "distinct (newIds cs)"
    "set (newIds cs) \<inter> row_id ` set (jobs (s\<lparr>domain_tables := w\<rparr>)) = {}" by simp_all
  ultimately show ?case using dbInv_enqueueAll 2 by blast
qed

section \<open>Row transitions\<close>

lemma rowInv_cancelRow: "rowInv r \<Longrightarrow> activeStatus (status r) \<Longrightarrow> rowInv (cancelRow now r)"
  by (cases "status r") (auto simp: rowInv_def cancelRow_def)

lemma rowInv_finishRow:
  assumes "rowInv r" "activeStatus (status r)" "term \<longleftrightarrow> stat \<noteq> RetryWait"
    and "stat = Succeeded \<or> stat = Failed \<or>
      stat = RetryWait \<and> nb \<noteq> None \<and> attempt_count r < max_attempts r"
  shows "rowInv (finishRow stat nb res err now term r)"
  using assms by (cases "status r") (auto simp: rowInv_def finishRow_def)

lemma rowInv_heartbeatRow: "rowInv r \<Longrightarrow> status r = Leased \<Longrightarrow> rowInv (heartbeatRow now us r)"
  by (auto simp: rowInv_def heartbeatRow_def)

lemma rowInv_requestRow: "rowInv r \<Longrightarrow> status r = Leased \<Longrightarrow> rowInv (requestRow now r)"
  by (auto simp: rowInv_def requestRow_def)

lemma rowInv_leaseRow:
  assumes "rowInv r" "activeStatus (status r)" "attempt_count r < max_attempts r"
  shows "rowInv (leaseRow (attempt_count r + 1) w now us (lease_generation r + 1) r)"
  using assms by (cases "status r") (auto simp: rowInv_def leaseRow_def)

lemma row_frame [row_simps]:
  "row_id (cancelRow now r) = row_id r" "operation_key (cancelRow now r) = operation_key r"
  "row_id (finishRow stat nb res err now b r) = row_id r"
  "operation_key (finishRow stat nb res err now b r) = operation_key r"
  "row_id (heartbeatRow now us r) = row_id r"
  "operation_key (heartbeatRow now us r) = operation_key r"
  "row_id (requestRow now r) = row_id r" "operation_key (requestRow now r) = operation_key r"
  "row_id (leaseRow a w now us g r) = row_id r"
  "operation_key (leaseRow a w now us g r) = operation_key r"
  "status (cancelRow now r) = Cancelled" "status (finishRow stat nb res err now b r) = stat"
  "status (heartbeatRow now us r) = status r" "status (requestRow now r) = CancelRequested"
  "status (leaseRow a w now us g r) = Leased"
  "lease_generation (cancelRow now r) = lease_generation r"
  "lease_generation (finishRow stat nb res err now b r) = lease_generation r"
  "lease_generation (heartbeatRow now us r) = lease_generation r"
  "lease_generation (requestRow now r) = lease_generation r"
  "lease_generation (leaseRow a w now us g r) = g"
  by (simp_all add: cancelRow_def finishRow_def heartbeatRow_def requestRow_def leaseRow_def)

text \<open>The current attempt is closed and the row leaves the leased statuses.\<close>

lemma dbInv_close:
  assumes inv: "dbInv s" and row: "row \<in> set (jobs s)"
    and f: "row_id (f row) = row_id row" "operation_key (f row) = operation_key row"
      "lease_generation (f row) = lease_generation row" "rowInv (f row)"
      "\<not> heldStatus (status (f row))"
      "activeStatus (status (f row)) \<Longrightarrow> activeStatus (status row)"
    and g: "\<And>a. att_job_id (g a) = att_job_id a"
      "\<And>a. att_lease_generation (g a) = att_lease_generation a"
      "\<And>a. att_attempt_number (g a) = att_attempt_number a"
      "\<And>a. att_finished_at (g a) = Some t" "\<And>a. att_outcome (g a) = Some out"
  shows "dbInv (updateJobs (row_id row) f (updateAttempts (row_id row) (lease_generation row) g s))"
    (is "dbInv ?s'")
proof -
  have wf: "wfAttempts row (attemptsOf (row_id row) s)" using inv row by (simp add: dbInv_def)
  show ?thesis
  proof (rule dbInv_update [OF inv row])
    show "jobs ?s' = map (\<lambda>r. if row_id r = row_id row then f r else r) (jobs s)" by simp
    show "wfAttempts (f row) (attemptsOf (row_id row) ?s')"
      using wfAttempts_close [OF wf g(2-5) f(3,5)] by (simp add: attemptsOf_updateAttempts g(1))
    show "attemptsOf j ?s' = attemptsOf j s" if "j \<noteq> row_id row" for j
      using that by (simp add: attemptsOf_updateAttempts g(1))
    show "att_job_id ` set (job_attempts ?s') \<subseteq> insert (row_id row) (att_job_id ` set (job_attempts s))"
      using g(1) by (auto simp: updateAttempts_def)
  qed (use f in auto)
qed

text \<open>A row changes and no attempt does.\<close>

lemma dbInv_row:
  assumes inv: "dbInv s" and row: "row \<in> set (jobs s)"
    and f: "row_id (f row) = row_id row" "operation_key (f row) = operation_key row"
      "lease_generation (f row) = lease_generation row" "rowInv (f row)"
      "heldStatus (status (f row)) \<longleftrightarrow> heldStatus (status row)"
      "activeStatus (status (f row)) \<Longrightarrow> activeStatus (status row)"
  shows "dbInv (updateJobs (row_id row) f s)"
proof (rule dbInv_update [OF inv row])
  have "wfAttempts row (attemptsOf (row_id row) s)" using inv row by (simp add: dbInv_def)
  then show "wfAttempts (f row) (attemptsOf (row_id row) (updateJobs (row_id row) f s))"
    using f by (simp add: wfAttempts_def)
qed (use f in auto)

section \<open>Every operation preserves the invariant\<close>

lemma dbInv_rowInv: "dbInv s \<Longrightarrow> r \<in> set (jobs s) \<Longrightarrow> rowInv r"
  by (simp add: dbInv_def)

lemma dbInv_cancelLocked:
  assumes inv: "dbInv s" and row: "row \<in> set (jobs s)" and fresh: "callbackFresh st"
    and ok: "cancelLocked st (row_id row) ac (lease_generation row) now fin s = Inr s'"
    and act: "activeStatus (status row)" and fin: "heldStatus (status row) \<longleftrightarrow> fin"
  shows "dbInv s'"
proof -
  have ri: "rowInv (cancelRow now row)"
    using rowInv_cancelRow act dbInv_rowInv inv row by blast
  let ?s1 = "if fin then FinishAttempt now ''CANCELLED'' None (row_id row) (lease_generation row) s else s"
  have "dbInv (CancelJob now (row_id row) ?s1)"
  proof (cases fin)
    case True
    have "dbInv (updateJobs (row_id row) (cancelRow now)
        (FinishAttempt now ''CANCELLED'' None (row_id row) (lease_generation row) s))"
      unfolding FinishAttempt_def
      by (rule dbInv_close [OF inv row, of _ _ now "''CANCELLED''"]) (simp_all add: row_simps ri)
    then show ?thesis using True by (simp add: CancelJob_def)
  next
    case False
    have "dbInv (updateJobs (row_id row) (cancelRow now) s)"
      by (rule dbInv_row [OF inv row]) (use False fin in \<open>simp_all add: row_simps ri\<close>)
    then show ?thesis using False by (simp add: CancelJob_def)
  qed
  then show ?thesis
    by (intro dbInv_notifyTerminal [OF ok [unfolded cancelLocked_def Let_def] fresh]) simp
qed

lemma dbInv_expireExhausted:
  assumes inv: "dbInv s" and row: "row \<in> set (jobs s)" and fresh: "callbackFresh st"
    and ok: "expireExhausted st row now s = Inr s'" and held: "heldStatus (status row)"
  shows "dbInv s'"
proof -
  let ?m = "Some ''lease expired after final attempt''"
  have ri: "rowInv (finishRow Failed None None ?m now True row)"
    by (rule rowInv_finishRow) (use dbInv_rowInv inv row held heldStatus_active in auto)
  have "dbInv (updateJobs (row_id row) (finishRow Failed None None ?m now True)
      (ExpireAttempt now ?m (row_id row) (lease_generation row) s))"
    unfolding ExpireAttempt_def
    by (rule dbInv_close [OF inv row, of _ _ now "''LEASE_EXPIRED''"]) (simp_all add: row_simps ri)
  then show ?thesis
    using ok by (auto simp: expireExhausted_def Let_def FinishJob_def intro: dbInv_notifyTerminal [OF _ fresh])
qed

lemma updates_commute:
  "updateJobs i f (updateAttempts j g h s) = updateAttempts j g h (updateJobs i f s)"
  by (simp add: updateJobs_def updateAttempts_def)

lemma dbInv_finish:
  assumes inv: "dbInv s" and row: "row \<in> set (jobs s)" and fresh: "callbackFresh st"
    and p: "permit_JobID p = row_id row" "permit_LeaseGeneration p = lease_generation row"
    and held: "heldStatus (status row)"
    and stat: "stat = Succeeded \<or> stat = Failed \<or>
      stat = RetryWait \<and> nb \<noteq> None \<and> attempt_count row < max_attempts row"
    and ok: "finish st p n stat out now res err nb s = Inr s'"
  shows "dbInv s'"
proof -
  let ?b = "stat = Succeeded \<or> stat = Failed \<or> stat = Cancelled"
  let ?s1 = "updateJobs (row_id row) (finishRow stat nb res err now ?b) s"
  let ?s2 = "FinishAttempt now out err (row_id row) (lease_generation row) ?s1"
  let ?s3 = "recordEvent (row_id row) (Some n) (statusName stat) now ?s2"
  have ri: "rowInv (finishRow stat nb res err now ?b row)"
    by (rule rowInv_finishRow) (use dbInv_rowInv inv row held heldStatus_active stat in auto)
  have "dbInv ?s2"
    unfolding FinishAttempt_def updates_commute [symmetric]
    by (rule dbInv_close [OF inv row, of _ _ now out])
       (use stat held heldStatus_active in \<open>auto simp: row_simps ri\<close>)
  then have inv3: "dbInv ?s3" by simp
  have "(if stat = Failed \<or> stat = Cancelled then notifyTerminal st (row_id row) ?s3 else Inr ?s3) = Inr s'"
    using ok finish_ok [OF ok] by (simp add: finish_def FinishJob_def Let_def p)
  then show ?thesis
    using inv3 dbInv_notifyTerminal [OF _ fresh inv3] by (auto split: if_splits)
qed

lemma dbInv_leased:
  assumes inv: "dbInv s" and row: "row \<in> set (jobs s)"
    and st: "activeStatus (status row)" "status row \<noteq> CancelRequested"
    and max: "attempt_count row < max_attempts row"
  shows "dbInv (leasedTables w d now row s)"
proof -
  let ?i = "row_id row" and ?g = "lease_generation row"
  let ?s1 = "if status row = Leased then ExpireAttempt now None ?i ?g s else s"
  let ?f = "leaseRow (attempt_count row + 1) w now (Microseconds d) (?g + 1)"
  let ?s3 = "addAttempt (newAttempt ?i (attempt_count row + 1) (?g + 1) w now) (updateJobs ?i ?f ?s1)"
  have wf: "wfAttempts row (attemptsOf ?i s)" and ri: "rowInv row"
    using inv row by (auto simp: dbInv_def)
  have gen: "0 \<le> ?g" "?g = attempt_count row" using ri by (auto simp: rowInv_def)
  obtain r0 where r0: "wfAttempts r0 (attemptsOf ?i ?s1)" "\<not> heldStatus (status r0)"
    "lease_generation r0 = ?g"
  proof (cases "status row = Leased")
    case True
    have "wfAttempts (row\<lparr>status := Failed\<rparr>) (attemptsOf ?i ?s1)"
      using wfAttempts_close [OF wf, of "\<lambda>a. a\<lparr>att_heartbeat_at := now,
        att_outcome := Some ''LEASE_EXPIRED'', att_sanitized_error := None,
        att_finished_at := Some now\<rparr>" now "''LEASE_EXPIRED''" "row\<lparr>status := Failed\<rparr>"] True
      by (simp add: ExpireAttempt_def attemptsOf_updateAttempts)
    then show ?thesis using that by simp
  next
    case False
    then have "\<not> heldStatus (status row)" using st by (cases "status row") auto
    then show ?thesis using that [of row] wf False by simp
  qed
  have "dbInv ?s3"
  proof (rule dbInv_update [OF inv row])
    show "jobs ?s3 = map (\<lambda>r. if row_id r = ?i then ?f r else r) (jobs s)" by simp
    show "rowInv (?f row)" by (rule rowInv_leaseRow [OF ri st(1) max])
    show "wfAttempts (?f row) (attemptsOf ?i ?s3)"
      unfolding attemptsOf_addAttempt attemptsOf_updateJobs
      using wfAttempts_open [OF r0(1,2)] r0(3) gen by (simp add: row_simps)
    show "attemptsOf j ?s3 = attemptsOf j s" if "j \<noteq> ?i" for j
      using that by (simp add: attemptsOf_addAttempt ExpireAttempt_def attemptsOf_updateAttempts)
    show "att_job_id ` set (job_attempts ?s3) \<subseteq> insert ?i (att_job_id ` set (job_attempts s))"
      by (auto simp: addAttempt_def ExpireAttempt_def updateAttempts_def)
  qed (use st in \<open>simp_all add: row_simps\<close>)
  then show ?thesis by (simp add: leasedTables_def Let_def)
qed

text \<open>A change that keeps what the invariant reads of an attempt.\<close>

lemma dbInv_touchAttempts:
  assumes inv: "dbInv s"
    and f: "\<And>a. att_job_id (f a) = att_job_id a" "\<And>a. att_lease_generation (f a) = att_lease_generation a"
      "\<And>a. att_attempt_number (f a) = att_attempt_number a"
      "\<And>a. att_finished_at (f a) = att_finished_at a" "\<And>a. att_outcome (f a) = att_outcome a"
  shows "dbInv (updateAttempts i g f s)"
proof -
  have "wfAttempts r (map (\<lambda>a. if att_lease_generation a = g then f a else a) as)"
    if "wfAttempts r as" for r as
    using that f map_gen_close [of f g as] by (auto simp: wfAttempts_def simp del: map_map)
  then have "wfAttempts r (attemptsOf (row_id r) (updateAttempts i g f s))" if "r \<in> set (jobs s)" for r
    using inv that by (auto simp: attemptsOf_updateAttempts f(1) dbInv_def)
  then show ?thesis
    using inv f(1) by (auto simp: dbInv_def) (auto simp: updateAttempts_def split: if_splits)
qed

end
