(* ===== verification/JobQueue.thy ===== *)
theory JobQueue
  imports JobInvariant
begin

text \<open>
  What the operations of the queue do to the rows. A change is \<^emph>\<open>quiet\<close> at an instant when it keeps
  the rows with their generations, activates no lease and appends only rows that hold none. The
  operations that lease no job are quiet at the reading of their clock, and all but the heartbeat
  at every later instant too. The operations under a permit are instances of a contract, stated as
  the locales \<open>fenced_operation\<close> and \<open>releasing_operation\<close>: what a permit must meet, and that a
  superseded one is refused.
\<close>

section \<open>Quiet changes\<close>

definition sameFrame :: "Job \<Rightarrow> Job \<Rightarrow> bool" where
  "sameFrame r r' \<longleftrightarrow> row_id r' = row_id r \<and> concurrency_key r' = concurrency_key r \<and>
     concurrency_limit r' = concurrency_limit r \<and> max_attempts r' = max_attempts r \<and>
     operation_key r' = operation_key r \<and> created_at r' = created_at r \<and> job_type r' = job_type r"

lemma sameFrame_refl [simp]: "sameFrame r r"
  by (simp add: sameFrame_def)

lemma sameFrame_trans: "sameFrame a b \<Longrightarrow> sameFrame b c \<Longrightarrow> sameFrame a c"
  by (simp add: sameFrame_def)

lemma sameFrame_rows [simp]:
  "sameFrame r (cancelRow now r)" "sameFrame r (finishRow stat nb res err now b r)"
  "sameFrame r (heartbeatRow now us r)" "sameFrame r (requestRow now r)"
  "sameFrame r (leaseRow a w now us g r)"
  by (simp_all add: sameFrame_def cancelRow_def finishRow_def heartbeatRow_def requestRow_def
      leaseRow_def)

definition quietRow :: "pgtime \<Rightarrow> Job \<Rightarrow> Job \<Rightarrow> bool" where
  "quietRow now r r' \<longleftrightarrow> sameFrame r r' \<and> lease_generation r' = lease_generation r \<and>
     (activeAt now r' \<longrightarrow> activeAt now r)"

definition quiet :: "pgtime \<Rightarrow> 'w db \<Rightarrow> 'w db \<Rightarrow> bool" where
  "quiet now s s' \<longleftrightarrow>
     (\<exists>h new. jobs s' = map h (jobs s) @ new \<and> (\<forall>r \<in> set (jobs s). quietRow now r (h r)) \<and>
        (\<forall>r \<in> set new. \<not> activeAt now r \<and> lease_generation r = 0)) \<and>
     provider_call_leases s' = provider_call_leases s \<and> model_profiles s' = model_profiles s"

lemma quietRow_refl [simp]: "quietRow now r r"
  by (simp add: quietRow_def)

lemma quiet_same:
  "jobs s' = jobs s \<Longrightarrow> provider_call_leases s' = provider_call_leases s \<Longrightarrow>
     model_profiles s' = model_profiles s \<Longrightarrow> quiet now s s'"
  unfolding quiet_def by (intro conjI exI [of _ "\<lambda>r. r"] exI [of _ "[]"]) auto

lemma quiet_refl [simp]: "quiet now s s"
  by (rule quiet_same) simp_all

lemma not_held_not_active: "\<not> heldStatus (status r) \<Longrightarrow> \<not> activeAt now r"
  by (simp add: activeAt_def)

lemma quiet_trans:
  assumes "quiet now s s1" "quiet now s1 s2"
  shows "quiet now s s2"
proof -
  from assms(1) obtain h new where h: "jobs s1 = map h (jobs s) @ new"
    "\<forall>r \<in> set (jobs s). quietRow now r (h r)" "\<forall>r \<in> set new. \<not> activeAt now r \<and> lease_generation r = 0"
    by (auto simp: quiet_def)
  from assms(2) obtain g new' where g: "jobs s2 = map g (jobs s1) @ new'"
    "\<forall>r \<in> set (jobs s1). quietRow now r (g r)" "\<forall>r \<in> set new'. \<not> activeAt now r \<and> lease_generation r = 0"
    by (auto simp: quiet_def)
  have "jobs s2 = map (g \<circ> h) (jobs s) @ (map g new @ new')" by (simp add: g h)
  moreover have "\<forall>r \<in> set (jobs s). quietRow now r ((g \<circ> h) r)"
    using h g by (auto simp: quietRow_def intro: sameFrame_trans)
  moreover have "\<forall>r \<in> set (map g new @ new'). \<not> activeAt now r \<and> lease_generation r = 0"
    using h g by (auto simp: quietRow_def)
  ultimately show ?thesis using assms unfolding quiet_def by metis
qed

lemma quiet_updateJobs:
  assumes "\<And>r. r \<in> set (jobs s) \<Longrightarrow> row_id r = i \<Longrightarrow> quietRow now r (f r)"
  shows "quiet now s (updateJobs i f s)"
  unfolding quiet_def
  by (intro conjI exI [of _ "\<lambda>r. if row_id r = i then f r else r"] exI [of _ "[]"])
     (use assms in auto)

lemma quietRow_released [simp]:
  "quietRow now r (cancelRow t r)"
  "\<not> heldStatus stat \<Longrightarrow> quietRow now r (finishRow stat nb res err t b r)"
  by (auto simp: quietRow_def activeAt_def row_simps)

lemma quietRow_request: "status r = Leased \<Longrightarrow> quietRow now r (requestRow t r)"
  by (auto simp: quietRow_def activeAt_def row_simps) (simp_all add: requestRow_def)

lemma quietRow_heartbeat: "activeAt now r \<Longrightarrow> quietRow now r (heartbeatRow t us r)"
  by (auto simp: quietRow_def row_simps)

lemma quiet_frame [simp]:
  "quiet now s (recordEvent i a k t s)" "quiet now s (updateAttempts i g f s)"
  "quiet now s (FinishAttempt t out err i g s)" "quiet now s (ExpireAttempt t err i g s)"
  "quiet now s (HeartbeatAttempt t i g s)"
  "quiet now s (addAttempt attempt s)" "quiet now s (s\<lparr>domain_tables := d\<rparr>)"
  by (rule quiet_same; simp)+

lemma quiet_CancelJob [simp]: "quiet now s (CancelJob t i s)"
  unfolding CancelJob_def by (rule quiet_updateJobs) simp

lemma quiet_finished [simp]:
  "\<not> heldStatus stat \<Longrightarrow> quiet now s (updateJobs i (finishRow stat nb res err t b) s)"
  by (rule quiet_updateJobs) simp

lemma quiet_InsertJob: "InsertJob c nb t i s = Inr (Some s') \<Longrightarrow> quiet now s s'"
  unfolding quiet_def
  by (erule InsertJob_SomeD, intro conjI exI [of _ "\<lambda>r. r"])
     (auto intro!: exI [of _ "[_]"] simp: not_held_not_active)

lemma quiet_enqueueTx: "enqueueTx st [] c t i s = Inr (s', j) \<Longrightarrow> quiet now s s'"
  by (erule enqueueTx_serial_cases) (auto intro: quiet_trans quiet_InsertJob)

lemma quiet_enqueueAll: "enqueueAll st cs s = Inr s' \<Longrightarrow> quiet now s s'"
proof (induction cs arbitrary: s)
  case Nil
  then show ?case by simp
next
  case (Cons x cs)
  obtain c i t where x: "x = (c, i, t)" by (cases x)
  from Cons.prems obtain s1 j where "enqueueTx st [] c t i s = Inr (s1, j)"
    "enqueueAll st cs s1 = Inr s'"
    by (auto simp: x split: sum.splits)
  then show ?case using Cons.IH quiet_enqueueTx quiet_trans by blast
qed

lemma quiet_notifyTerminal: "notifyTerminal st i s = Inr s' \<Longrightarrow> quiet now s s'"
  by (auto simp: notifyTerminal_def split: option.splits sum.splits
      dest!: quiet_enqueueAll [where now = now]
      intro: quiet_trans [OF quiet_frame(7)])

text \<open>The statements as steps that end a quiet change.\<close>

lemma quiet_then:
  assumes "quiet now s s1"
  shows "quiet now s (recordEvent i a k t s1)" "quiet now s (FinishAttempt t out err i g s1)"
    "quiet now s (ExpireAttempt t err i g s1)" "quiet now s (HeartbeatAttempt t i g s1)"
    "quiet now s (CancelJob t i s1)"
    "\<not> heldStatus stat \<Longrightarrow> quiet now s (updateJobs i (finishRow stat nb res err t b) s1)"
  by (auto intro: quiet_trans [OF assms])

lemma quiet_cancelLocked: "cancelLocked st i ac g t fin s = Inr s' \<Longrightarrow> quiet now s s'"
  unfolding cancelLocked_def Let_def
  by (drule quiet_notifyTerminal [where now = now], erule quiet_trans [rotated])
     (auto intro!: quiet_then)

lemma quiet_expireExhausted:
  assumes "expireExhausted st row t s = Inr s'"
  shows "quiet now s s'"
proof -
  let ?m = "Some ''lease expired after final attempt''"
  let ?s2 = "recordEvent (row_id row) (Some (attempt_count row)) ''FAILED'' t
    (updateJobs (row_id row) (finishRow Failed None None ?m t True)
      (ExpireAttempt t ?m (row_id row) (lease_generation row) s))"
  have "quiet now s ?s2" by (intro quiet_then quiet_frame) simp
  moreover have "quiet now ?s2 s'"
    using assms by (auto simp: expireExhausted_def Let_def FinishJob_def intro: quiet_notifyTerminal)
  ultimately show ?thesis by (rule quiet_trans)
qed

lemma quiet_finish:
  assumes "finish st p n stat out t res err nb s = Inr s'" "\<not> heldStatus stat"
  shows "quiet now s s'"
proof -
  let ?b = "stat = Succeeded \<or> stat = Failed \<or> stat = Cancelled"
  let ?i = "permit_JobID p"
  let ?s3 = "recordEvent ?i (Some n) (statusName stat) t (FinishAttempt t out err ?i
    (permit_LeaseGeneration p) (updateJobs ?i (finishRow stat nb res err t ?b) s))"
  have "quiet now s ?s3" using assms(2) by (auto intro!: quiet_then)
  moreover have "quiet now ?s3 s'"
    using assms(1) finish_ok [OF assms(1)]
    by (auto simp: finish_def FinishJob_def Let_def split: if_splits intro: quiet_notifyTerminal)
  ultimately show ?thesis by (rule quiet_trans)
qed

section \<open>Operations under a permit: one contract\<close>

lemma transaction_cases:
  assumes "transaction op s = (s', r)"
  obtains (failed) e where "op s = Inl e" "s' = s" "r = Inl e"
  | (committed) a where "op s = Inr (s', a)" "r = Inr a"
  using assms by (auto simp: transaction_def split: sum.splits)

text \<open>
  An operation a worker calls with its permit: \<open>check\<close> is what it demands of its other arguments.
  It refuses with the tables unchanged, and with the error of the permit check, when that check
  fails, keeps the table invariant, and is quiet at its own clock reading.
\<close>

locale fenced_operation =
  fixes st :: "'w Store" and statuses :: "Status list" and check :: "jobError + unit"
    and oper :: "Permit \<Rightarrow> pgtime \<Rightarrow> 'w db \<Rightarrow> 'w db \<times> (jobError + 'a)"
  assumes refuses: "lockPermit p statuses now s = Inl e \<Longrightarrow>
      oper p now s = (s, Inl (case check of Inl e' \<Rightarrow> e' | Inr _ \<Rightarrow> e))"
    and preserves: "callbackFresh st \<Longrightarrow> dbInv s \<Longrightarrow> dbInv (fst (oper p now s))"
    and quiets: "dbInv s \<Longrightarrow> quiet now s (fst (oper p now s))"
begin

lemma needs_lease:
  assumes "isOk (snd (oper p now s))"
  obtains row where "row \<in> set (jobs s)" "row_id row = permit_JobID p"
    "status row \<in> set statuses" "lease_owner row = Some (permit_WorkerID p)"
    "lease_generation row = permit_LeaseGeneration p"
    "\<exists>t. lease_expires_at row = Some t \<and> now < t"
proof (cases "lockPermit p statuses now s")
  case (Inl e)
  then show ?thesis using refuses assms by fastforce
next
  case (Inr row)
  then show ?thesis using that lockPermit_okD [OF Inr] by blast
qed

lemma stale:
  assumes "lockPermit p statuses now s = Inl ErrStalePermit"
  shows "oper p now s = (s, Inl (case check of Inl e \<Rightarrow> e | Inr _ \<Rightarrow> ErrStalePermit))"
  by (rule refuses [OF assms])

lemma superseded:
  assumes "dbInv s" "row \<in> set (jobs s)" "row_id row = permit_JobID p"
    "lease_generation row \<noteq> permit_LeaseGeneration p"
  shows "\<exists>e. oper p now s = (s, Inl e)"
proof -
  have "selectJob (permit_JobID p) s = Some row" using assms selectJob_eq by metis
  then have "\<exists>e. lockPermit p statuses now s = Inl e"
    using assms(4) by (auto simp: lockPermit_def permitValidate_def)
  then show ?thesis using refuses by blast
qed

end

text \<open>All of them but the heartbeat only ever give a lease up: they are quiet at any instant.\<close>

locale releasing_operation = fenced_operation +
  assumes releases: "dbInv s \<Longrightarrow> quiet t s (fst (oper p now s))"

text \<open>The shape all of them share: guards on the other arguments, then a transaction that
  checks the permit first.\<close>

lemma fenced_operationI:
  fixes body :: "Permit \<Rightarrow> pgtime \<Rightarrow> Job \<Rightarrow> ('w db, jobError, 'a) txn"
  assumes shape: "\<And>p now s. oper p now s = (case check of Inl e \<Rightarrow> (s, Inl e)
      | Inr _ \<Rightarrow> transaction (\<lambda>s. bindE (lockPermit p statuses now s) (\<lambda>row. body p now row s)) s)"
    and inv: "\<And>p now s row s' a. callbackFresh st \<Longrightarrow> dbInv s \<Longrightarrow>
      lockPermit p statuses now s = Inr row \<Longrightarrow> body p now row s = Inr (s', a) \<Longrightarrow> dbInv s'"
    and qt: "\<And>p now s row s' a. dbInv s \<Longrightarrow> lockPermit p statuses now s = Inr row \<Longrightarrow>
      body p now row s = Inr (s', a) \<Longrightarrow> quiet now s s'"
  shows "fenced_operation st statuses check oper"
proof
  fix p now e and s :: "'w db"
  assume "lockPermit p statuses now s = Inl e"
  then show "oper p now s = (s, Inl (case check of Inl e' \<Rightarrow> e' | Inr _ \<Rightarrow> e))"
    using shape [of p now s] by (auto simp: transaction_def split: sum.splits)
next
  fix p now and s :: "'w db"
  assume "callbackFresh st" "dbInv s"
  then show "dbInv (fst (oper p now s))"
    using shape [of p now s] inv [of s p now]
    by (auto simp: transaction_def result_simps split: sum.splits)
next
  fix p now and s :: "'w db"
  assume "dbInv s"
  then show "quiet now s (fst (oper p now s))"
    using shape [of p now s] qt [of s p now]
    by (auto simp: transaction_def result_simps split: sum.splits)
qed

lemma releasing_operationI:
  fixes body :: "Permit \<Rightarrow> pgtime \<Rightarrow> Job \<Rightarrow> ('w db, jobError, 'a) txn"
  assumes shape: "\<And>p now s. oper p now s = (case check of Inl e \<Rightarrow> (s, Inl e)
      | Inr _ \<Rightarrow> transaction (\<lambda>s. bindE (lockPermit p statuses now s) (\<lambda>row. body p now row s)) s)"
    and inv: "\<And>p now s row s' a. callbackFresh st \<Longrightarrow> dbInv s \<Longrightarrow>
      lockPermit p statuses now s = Inr row \<Longrightarrow> body p now row s = Inr (s', a) \<Longrightarrow> dbInv s'"
    and qt: "\<And>p now s row s' a t. body p now row s = Inr (s', a) \<Longrightarrow> quiet t s s'"
  shows "releasing_operation st statuses check oper"
proof -
  have "quiet t s (fst (oper p now s))" if "dbInv s" for t p now and s :: "'w db"
    using shape [of p now s] qt [of p now _ s]
    by (auto simp: transaction_def result_simps split: sum.splits)
  then show ?thesis
    using fenced_operationI [OF shape inv qt]
    by (simp add: releasing_operation_def releasing_operation_axioms_def)
qed

lemma lockPermit_held:
  assumes "lockPermit p sts now s = Inr row" "dbInv s"
  shows "heldStatus (status row)" "activeAt now row"
proof -
  have "rowInv row" using assms lockPermit_okD(1) dbInv_rowInv by blast
  then show held: "heldStatus (status row)"
    using lockPermit_okD(4) [OF assms(1)] by (simp add: rowInv_def)
  show "activeAt now row" using held lockPermit_okD(6) [OF assms(1)] by (auto simp: activeAt_def)
qed

lemma finish_under_permit:
  assumes "callbackFresh st" "dbInv s" "lockPermit p sts now s = Inr row"
    and "stat = Succeeded \<or> stat = Failed \<or>
      stat = RetryWait \<and> nb \<noteq> None \<and> attempt_count row < max_attempts row"
    and "finish st p n stat out now res err nb s = Inr s'"
  shows "dbInv s'"
  using dbInv_finish [OF assms(2) lockPermit_okD(1) [OF assms(3)] assms(1) _ _ _ assms(4,5)]
    lockPermit_okD [OF assms(3)] lockPermit_held [OF assms(3,2)] by simp

interpretation heartbeat: fenced_operation st "[Leased]"
  "ensureE (0 < Microseconds d) (ErrInvalid ''lease duration must be positive'')" "\<lambda>p now. Heartbeat p d now" for st d
proof (rule fenced_operationI [where body = "\<lambda>p now row s.
    Inr (recordEvent (permit_JobID p) (Some (attempt_count row)) ''HEARTBEAT'' now
      (HeartbeatAttempt now (row_id row) (permit_LeaseGeneration p)
        (HeartbeatJob now (Microseconds d) (row_id row) s)), ())"], goal_cases)
  case (1 p now s)
  then show ?case by (simp add: Heartbeat_def Let_def ensureE_def)
next
  case (2 p now s row s' a)
  have "dbInv (HeartbeatJob now (Microseconds d) (row_id row) s)" unfolding HeartbeatJob_def
    using 2 lockPermit_okD [OF 2(3)]
    by (intro dbInv_row) (auto simp: row_simps intro: rowInv_heartbeatRow dbInv_rowInv)
  then have "dbInv (HeartbeatAttempt now (row_id row) (permit_LeaseGeneration p)
      (HeartbeatJob now (Microseconds d) (row_id row) s))"
    unfolding HeartbeatAttempt_def by (rule dbInv_touchAttempts) simp_all
  then show ?case using 2(4) by (auto simp: Let_def)
next
  case (3 p now s row s' a)
  have "quiet now s (HeartbeatJob now (Microseconds d) (row_id row) s)" unfolding HeartbeatJob_def
    using 3 lockPermit_okD(1) [OF 3(2)] lockPermit_held(2) [OF 3(2,1)] row_id_unique [of s]
    by (intro quiet_updateJobs) (metis dbInv_def quietRow_heartbeat)
  then show ?case using 3(3) by (auto simp: Let_def intro: quiet_then)
qed

interpretation complete_op: releasing_operation st sts
  "bindE (objectJSON res) (\<lambda>_. Inr ())" "\<lambda>p now. complete st p res sts now" for st sts res
proof (rule releasing_operationI [where body = "\<lambda>p now row s.
    bindE (finish st p (attempt_count row) Succeeded ''SUCCEEDED'' now
      (Some (case res of None \<Rightarrow> [] | Some v \<Rightarrow> v)) None None s) (\<lambda>s'. Inr (s', ()))"], goal_cases)
  case (1 p now s)
  then show ?case by (simp add: complete_def objectJSON_def Let_def)
next
  case (2 p now s row s' a)
  then show ?case by (auto simp: result_simps intro: finish_under_permit [OF 2(1-3)])
next
  case (3 p now s row s' a t)
  then show ?case by (auto simp: result_simps intro: quiet_finish)
qed

interpretation fail_op: releasing_operation st "[Leased]" "Inr ()" "\<lambda>p now. Fail st p err now" for st err
proof (rule releasing_operationI [where body = "\<lambda>p now row s.
    bindE (finish st p (attempt_count row) Failed ''FAILED'' now None (Some err) None s)
      (\<lambda>s'. Inr (s', ()))"], goal_cases)
  case (1 p now s)
  then show ?case by (simp add: Fail_def)
next
  case (2 p now s row s' a)
  then show ?case by (auto simp: result_simps intro: finish_under_permit [OF 2(1-3)])
next
  case (3 p now s row s' a t)
  then show ?case by (auto simp: result_simps intro: quiet_finish)
qed

lemma retryStatus_cases:
  "retryStatus n m = Failed \<or> retryStatus n m = RetryWait \<and> n < m"
  "\<not> heldStatus (retryStatus n m)"
  by (auto simp: retryStatus_def)

lemma finish_retry:
  assumes "callbackFresh st" "dbInv s" "lockPermit p sts now s = Inr row"
    and "finish st p n (retryStatus (attempt_count row) (max_attempts row)) out now res err
      (if retryStatus (attempt_count row) (max_attempts row) = RetryWait then Some t else None) s = Inr s'"
  shows "dbInv s'"
  by (rule finish_under_permit [OF assms(1-3) _ assms(4)])
     (use retryStatus_cases(1) [of "attempt_count row" "max_attempts row"] in auto)

interpretation retryAt: releasing_operation st "[Leased]" "Inr ()" "\<lambda>p now. RetryAt st p err nb now" for st err nb
proof (rule releasing_operationI [where body = "\<lambda>p now row s.
    let stat = retryStatus (attempt_count row) (max_attempts row) in
    bindE (ensureE (\<not> (stat = RetryWait \<and> \<not> now * 1000 < nb))
      (ErrInvalid ''not-before must be in the future'')) (\<lambda>_.
    bindE (finish st p (attempt_count row) stat (if stat = RetryWait then ''RETRY'' else ''FAILED'')
        now None (Some err) (if stat = RetryWait then Some (encodeTime st nb) else None) s)
      (\<lambda>s'. Inr (s', stat)))"], goal_cases)
  case (1 p now s)
  show ?case by (simp add: RetryAt_def)
next
  case (2 p now s row s' a)
  then show ?case by (simp add: result_simps Let_def) (elim conjE exE, rule finish_retry)
next
  case (3 p now s row s' a t)
  then show ?case
    by (simp add: result_simps Let_def) (elim conjE exE, erule quiet_finish, rule retryStatus_cases)
qed

interpretation retryAfter: releasing_operation st "[Leased]"
  "ensureE (0 < d) (ErrInvalid ''retry delay must be positive'')" "\<lambda>p now. RetryAfter st p err d now" for st err d
proof (rule releasing_operationI [where body = "\<lambda>p now row s.
    let stat = retryStatus (attempt_count row) (max_attempts row) in
    bindE (finish st p (attempt_count row) stat (if stat = RetryWait then ''RETRY'' else ''FAILED'')
        now None (Some err)
        (if stat = RetryWait then Some (encodeTime st (now * 1000 + d)) else None) s)
      (\<lambda>s'. Inr (s', stat))"], goal_cases)
  case (1 p now s)
  show ?case by (simp add: RetryAfter_def ensureE_def)
next
  case (2 p now s row s' a)
  then show ?case by (simp add: result_simps Let_def) (elim conjE exE, rule finish_retry)
next
  case (3 p now s row s' a t)
  then show ?case
    by (simp add: result_simps Let_def) (elim conjE exE, erule quiet_finish, rule retryStatus_cases)
qed

interpretation ackCancel: releasing_operation st "[CancelRequested]" "Inr ()" "\<lambda>p now. AcknowledgeCancel st p now" for st
proof (rule releasing_operationI [where body = "\<lambda>p now row s.
    bindE (cancelLocked st (row_id row) (attempt_count row) (lease_generation row) now True s)
      (\<lambda>s'. Inr (s', ()))"], goal_cases)
  case (1 p now s)
  show ?case by (simp add: AcknowledgeCancel_def)
next
  case (2 p now s row s' a)
  then show ?case using lockPermit_okD [OF 2(3)]
    by (auto simp: result_simps intro: dbInv_cancelLocked)
next
  case (3 p now s row s' a t)
  then show ?case by (auto simp: result_simps intro: quiet_cancelLocked)
qed

end
