(* ===== verification/JobRuns.thy ===== *)
theory JobRuns
  imports JobQueue
begin

text \<open>
  Runs of the queue: cancellation and claims in terms of quiet changes, the step relation over
  clock and tables, and the invariants of every run.
\<close>

section \<open>Cancellation and claims\<close>

lemma dbInv_requestCancel:
  assumes "requestCancel st i now s = Inr (s', r)" "dbInv s" "callbackFresh st"
  shows "dbInv s'"
proof -
  obtain row where row: "selectJob i s = Some row"
    using assms(1) by (auto simp: requestCancel_def split: option.splits)
  then have in_jobs: "row \<in> set (jobs s)" and ri: "row_id row = i" "rowInv row"
    using selectJob_SomeD dbInv_rowInv assms(2) by blast+
  have req: "dbInv (RequestJobCancellation now (row_id row) s)" if "status row = Leased"
    unfolding RequestJobCancellation_def
    by (rule dbInv_row [OF assms(2) in_jobs])
       (use that ri in \<open>auto simp: row_simps intro: rowInv_requestRow\<close>)
  show ?thesis
    using assms(1) row req assms(2)
    by (auto simp: requestCancel_def Let_def result_simps split: Status.splits if_splits
        intro: dbInv_cancelLocked [OF assms(2) in_jobs assms(3)])
qed

lemma quiet_requestCancel:
  assumes "requestCancel st i now s = Inr (s', r)" "dbInv s"
  shows "quiet t s s'"
proof -
  obtain row where row: "selectJob i s = Some row"
    using assms(1) by (auto simp: requestCancel_def split: option.splits)
  then have in_jobs: "row \<in> set (jobs s)" and ri: "row_id row = i"
    using selectJob_SomeD by blast+
  have "quiet t s (RequestJobCancellation now (row_id row) s)" if "status row = Leased"
    unfolding RequestJobCancellation_def
    using that in_jobs assms(2) row_id_unique [of s]
    by (intro quiet_updateJobs) (metis dbInv_def quietRow_request)
  then show ?thesis
    using assms(1) row
    by (auto simp: requestCancel_def Let_def result_simps split: Status.splits if_splits
        intro: quiet_then quiet_cancelLocked)
qed

lemma dbInv_claim_round:
  assumes "LockEligibleJob tq locked s = Some row" "dbInv s" "callbackFresh st"
  shows "status row = CancelRequested \<Longrightarrow>
      cancelLocked st (row_id row) n (lease_generation row) now True s = Inr s' \<Longrightarrow> dbInv s'"
    and "status row = Leased \<Longrightarrow> expireExhausted st row now s = Inr s' \<Longrightarrow> dbInv s'"
  using LockEligibleJob_SomeD [OF assms(1)] assms(2,3)
  by (auto intro: dbInv_cancelLocked dbInv_expireExhausted)

definition leasePermit :: "WorkerID \<Rightarrow> Job \<Rightarrow> Permit" where
  "leasePermit w row = \<lparr>permit_JobID = row_id row, permit_WorkerID = w,
     permit_LeaseGeneration = lease_generation row + 1\<rparr>"

lemma leasePermit_simps [simp]:
  "permit_JobID (leasePermit w row) = row_id row" "permit_WorkerID (leasePermit w row) = w"
  "permit_LeaseGeneration (leasePermit w row) = lease_generation row + 1"
  by (simp_all add: leasePermit_def)

text \<open>A claim is a quiet part that keeps the invariant, then nothing or one lease.\<close>

lemma claimLoop_outcome:
  assumes "claimLoop st clock locked w d k s = Inr (s', po)" "dbInv s" "callbackFresh st"
  shows "\<exists>s1 j. k \<le> j \<and> dbInv s1 \<and> (\<forall>t. quiet t s s1) \<and>
    (case LockEligibleJob (clock (2 * j)) locked s1 of
       None \<Rightarrow> s' = s1 \<and> po = None
     | Some row \<Rightarrow> status row \<noteq> CancelRequested \<and>
         \<not> (status row = Leased \<and> attempt_count row \<ge> max_attempts row) \<and>
         (\<exists>owner. varchar 255 w = Some owner \<and> s' = leasedTables owner d (clock (2 * j + 1)) row s1 \<and>
            po = Some (leasePermit w row)))"
  using assms
proof (induction st clock locked w d k s rule: claimLoop.induct)
  case (1 st clock locked w d k s)
  let ?now = "clock (2 * k + 1)"
  show ?case
  proof (cases "LockEligibleJob (clock (2 * k)) locked s")
    case None
    then show ?thesis using "1.prems"
      by (intro exI [of _ s] exI [of _ k]) (simp add: claimLoop.simps)
  next
    case (Some row)
    consider (cancel) "status row = CancelRequested"
      | (expire) "status row = Leased" "attempt_count row \<ge> max_attempts row"
      | (lease) "status row \<noteq> CancelRequested"
        "\<not> (status row = Leased \<and> attempt_count row \<ge> max_attempts row)" by blast
    then show ?thesis
    proof cases
      case cancel
      then obtain s1 where c: "cancelLocked st (row_id row) (attempt_count row)
          (lease_generation row) ?now True s = Inr s1"
        and rest: "claimLoop st clock locked w d (Suc k) s1 = Inr (s', po)"
        using "1.prems"(1) Some by (auto simp: claimLoop.simps [of st clock locked w d k] split: sum.splits)
      have inv: "dbInv s1" using dbInv_claim_round(1) [OF Some "1.prems"(2,3) cancel c] .
      have q: "quiet t s s1" for t using c by (rule quiet_cancelLocked)
      from "1.IH"(1) [OF Some refl cancel c rest inv "1.prems"(3)] show ?thesis
        using q by (auto intro: quiet_trans) (meson Suc_leD quiet_trans)
    next
      case expire
      then obtain s1 where c: "expireExhausted st row ?now s = Inr s1"
        and rest: "claimLoop st clock locked w d (Suc k) s1 = Inr (s', po)"
        using "1.prems"(1) Some by (auto simp: claimLoop.simps [of st clock locked w d k] split: sum.splits)
      have inv: "dbInv s1" using dbInv_claim_round(2) [OF Some "1.prems"(2,3) expire(1) c] .
      have q: "quiet t s s1" for t using c by (rule quiet_expireExhausted)
      have nc: "status row \<noteq> CancelRequested" using expire by simp
      have ex: "status row = Leased \<and> attempt_count row \<ge> max_attempts row" using expire by simp
      from "1.IH"(2) [OF Some refl nc ex c rest inv "1.prems"(3)] show ?thesis
        using q by (auto intro: quiet_trans) (meson Suc_leD quiet_trans)
    next
      case lease
      then show ?thesis using "1.prems" Some
        by (intro exI [of _ s] exI [of _ k])
           (auto simp: claimLoop.simps [of st clock locked w d k] Let_def leaseClaimed_eq leasePermit_def
             split: option.splits)
    qed
  qed
qed

lemma Claim_outcome:
  assumes "Claim st clock locked w d s = (s', r)" "dbInv s" "callbackFresh st"
  obtains (refused) e where "s' = s" "r = Inl e"
  | (idle) "dbInv s'" "\<And>t. quiet t s s'" "r = Inr None"
  | (leased) s1 j row owner where "dbInv s1" "\<And>t. quiet t s s1"
      "LockEligibleJob (clock (2 * j)) locked s1 = Some row"
      "status row \<noteq> CancelRequested"
      "\<not> (status row = Leased \<and> attempt_count row \<ge> max_attempts row)"
      "s' = leasedTables owner d (clock (2 * j + 1)) row s1"
      "r = Inr (Some (leasePermit w row))"
      "w \<noteq> []" "0 < Microseconds d" "varchar 255 w = Some owner"
proof -
  from assms(1) consider (err) e where "s' = s" "r = Inl e"
    | (ok) po where "claimLoop st clock locked w d 0 s = Inr (s', po)" "r = Inr po"
      "w \<noteq> []" "0 < Microseconds d"
    by (auto simp: Claim_def not_le split: if_splits elim: transaction_cases)
  then show thesis
  proof cases
    case err
    then show ?thesis by (rule refused)
  next
    case ok
    from claimLoop_outcome [OF ok(1) assms(2,3)] show ?thesis
      using idle leased ok(2-4) by (auto split: option.splits)
  qed
qed

lemma eligible_attempts_left:
  assumes "LockEligibleJob tq locked s = Some row" "status row \<noteq> CancelRequested"
    "\<not> (status row = Leased \<and> attempt_count row \<ge> max_attempts row)"
  shows "activeStatus (status row)" "attempt_count row < max_attempts row"
    "row \<in> set (jobs s)" "eligible tq s row"
  using LockEligibleJob_SomeD [OF assms(1)] assms(2,3)
  by (cases "status row"; auto simp: eligible_def eligibleStatus_def)+

lemma dbInv_Claim:
  assumes "Claim st clock locked w d s = (s', r)" "dbInv s" "callbackFresh st"
  shows "dbInv s'"
  using assms
proof (rule Claim_outcome)
  fix s1 j row owner
  assume "dbInv s1" and row: "LockEligibleJob (clock (2 * j)) locked s1 = Some row"
      "status row \<noteq> CancelRequested"
      "\<not> (status row = Leased \<and> attempt_count row \<ge> max_attempts row)"
    and s': "s' = leasedTables owner d (clock (2 * j + 1)) row s1"
  then show ?thesis
    using dbInv_leased [OF \<open>dbInv s1\<close>] eligible_attempts_left [OF row] by simp
qed (use assms in auto)

section \<open>Counting active leases\<close>

definition activeCount :: "pgtime \<Rightarrow> (string \<Rightarrow> bool) \<Rightarrow> 'w db \<Rightarrow> nat" where
  "activeCount t Q s = length (filter (\<lambda>r. Q (concurrency_key r) \<and> activeAt t r) (jobs s))"

lemma activeAt_antimono: "t \<le> t' \<Longrightarrow> activeAt t' r \<Longrightarrow> activeAt t r"
  by (auto simp: activeAt_def split: option.splits)

lemma activeCount_antimono: "t \<le> t' \<Longrightarrow> activeCount t' Q s \<le> activeCount t Q s"
  unfolding activeCount_def by (rule length_filter_mono) (auto dest: activeAt_antimono)

lemma activeCount_quiet:
  assumes "quiet t s s'"
  shows "activeCount t Q s' \<le> activeCount t Q s"
proof -
  from assms obtain h new where h: "jobs s' = map h (jobs s) @ new"
    "\<forall>r \<in> set (jobs s). quietRow t r (h r)" "\<forall>r \<in> set new. \<not> activeAt t r"
    by (auto simp: quiet_def)
  have "filter (\<lambda>r. Q (concurrency_key r) \<and> activeAt t r) new = []"
    using h(3) by (auto simp: filter_empty_conv)
  then have "activeCount t Q s' =
      length (filter (\<lambda>r. Q (concurrency_key r) \<and> activeAt t r) (map h (jobs s)))"
    by (simp add: activeCount_def h(1))
  also have "\<dots> \<le> activeCount t Q s" unfolding activeCount_def
    by (rule length_filter_map_le) (use h(2) in \<open>auto simp: quietRow_def sameFrame_def\<close>)
  finally show ?thesis .
qed

lemma length_filter_update_one:
  assumes "distinct (map k xs)"
  shows "length (filter P (map (\<lambda>r. if k r = i then f r else r) xs)) \<le>
    length (filter P xs) + (if \<exists>r \<in> set xs. k r = i \<and> P (f r) then 1 else 0)"
  using assms
proof (induction xs)
  case Nil
  then show ?case by simp
next
  case (Cons x xs)
  show ?case
  proof (cases "k x = i")
    case True
    then have "\<forall>y \<in> set xs. k y \<noteq> i" using Cons.prems by (metis distinct.simps(2) image_eqI list.map(2) list.set_map)
    then have "map (\<lambda>r. if k r = i then f r else r) xs = xs" by (simp add: map_idI)
    then show ?thesis using True by simp
  next
    case False
    then show ?thesis using Cons by (auto split: if_splits)
  qed
qed

lemma jobs_leasedTables:
  "jobs (leasedTables w d now row s) =
     map (\<lambda>r. if row_id r = row_id row then
       leaseRow (attempt_count row + 1) w now (Microseconds d) (lease_generation row + 1) r else r)
       (jobs s)"
  "provider_call_leases (leasedTables w d now row s) = provider_call_leases s"
  "model_profiles (leasedTables w d now row s) = model_profiles s"
  by (auto simp: leasedTables_def Let_def)

lemma activeCount_lease:
  assumes "dbInv s" "row \<in> set (jobs s)"
  shows "activeCount t Q (leasedTables w d now row s) \<le>
    activeCount t Q s + (if Q (concurrency_key row) then 1 else 0)"
proof -
  let ?f = "leaseRow (attempt_count row + 1) w now (Microseconds d) (lease_generation row + 1)"
  have dist: "distinct (map row_id (jobs s))" using assms(1) by (simp add: dbInv_def)
  have "activeCount t Q (leasedTables w d now row s) \<le> activeCount t Q s +
    (if \<exists>r \<in> set (jobs s). row_id r = row_id row \<and> Q (concurrency_key (?f r)) \<and> activeAt t (?f r)
     then 1 else 0)"
    unfolding activeCount_def jobs_leasedTables by (rule length_filter_update_one [OF dist])
  also have "\<dots> \<le> activeCount t Q s + (if Q (concurrency_key row) then 1 else 0)"
    using row_id_unique [OF dist _ assms(2)] sameFrame_rows(5) by (auto simp: sameFrame_def)
  finally show ?thesis .
qed

subsection \<open>The two limits in terms of the count\<close>

lemma activeOnKey_eq: "activeOnKey t key s = activeCount t (\<lambda>k. k = key) s"
  by (simp add: activeOnKey_def activeCount_def)

lemma uuidString_inject: "uuidString a = uuidString b \<Longrightarrow> a = b"
  by (metis filter_uuidString hexDecode_hexEncode option.inject)

lemma modelKey_inject: "modelKey p = modelKey q \<Longrightarrow> profile_id p = profile_id q"
  by (auto simp: modelKey_def dest: uuidString_inject)

definition endpointKey :: "UUID \<Rightarrow> 'w db \<Rightarrow> string \<Rightarrow> bool" where
  "endpointKey e s key \<longleftrightarrow>
     (\<exists>m \<in> set (model_profiles s). key = modelKey m \<and> profile_endpoint_id m = e)"

definition openCalls :: "pgtime \<Rightarrow> UUID \<Rightarrow> 'w db \<Rightarrow> nat" where
  "openCalls t e s = length (filter (\<lambda>c. call_endpoint_id c = e \<and> t < call_expires_at c)
     (provider_call_leases s))"

lemma length_filter_le_one:
  assumes "distinct (map k xs)" "\<And>x y. x \<in> set xs \<Longrightarrow> y \<in> set xs \<Longrightarrow> P x \<Longrightarrow> P y \<Longrightarrow> k x = k y"
  shows "length (filter P xs) = (if \<exists>x \<in> set xs. P x then 1 else 0)"
  using assms
proof (induction xs)
  case Nil
  then show ?case by simp
next
  case (Cons x xs)
  show ?case
  proof (cases "P x")
    case True
    have "\<not> P y" if "y \<in> set xs" for y
      using that True Cons.prems(2) [of x y] Cons.prems(1) by force
    then have "filter P xs = []" by (auto simp: filter_empty_conv)
    then show ?thesis using True by auto
  next
    case False
    then show ?thesis using Cons by auto
  qed
qed

lemma length_filter_product:
  assumes "distinct (map profile_id ms)"
  shows "length (filter (\<lambda>(r, m). concurrency_key r = modelKey m \<and>
       profile_endpoint_id m = e \<and> activeAt t r) (List.product rs ms)) =
    length (filter (\<lambda>r. (\<exists>m \<in> set ms. concurrency_key r = modelKey m \<and> profile_endpoint_id m = e) \<and>
       activeAt t r) rs)"
proof (induction rs)
  case Nil
  then show ?case by simp
next
  case (Cons r rs)
  let ?P = "\<lambda>m. concurrency_key r = modelKey m \<and> profile_endpoint_id m = e \<and> activeAt t r"
  have "length (filter ?P ms) = (if \<exists>m \<in> set ms. ?P m then 1 else 0)"
    by (rule length_filter_le_one [OF assms]) (auto intro: modelKey_inject)
  then show ?case using Cons by (auto simp: filter_map comp_def)
qed

lemma endpointOccupied_eq:
  "distinct (map profile_id (model_profiles s)) \<Longrightarrow>
     endpointOccupied t e s = openCalls t e s + activeCount t (endpointKey e s) s"
  by (simp add: endpointOccupied_def openCalls_def activeCount_def endpointKey_def
      length_filter_product)

section \<open>Steps and runs\<close>

text \<open>
  A configuration is the latest clock instant and the tables. Each rule is one operation that
  another commit does not come between: a permit operation, an enqueue or a cancellation holds the
  lock of its row and happens at its commit, after an earlier reading \<open>u\<close> of the clock; claims and
  model-call admissions exclude each other by the admission lock, and a claim happens at its last
  candidate query, which passes over the rows that others hold locked. Domain packages may rewrite
  their own tables at any moment, and operators may edit the model profiles.
\<close>

inductive qstep :: "'w Store \<Rightarrow> pgtime \<times> 'w db \<Rightarrow> pgtime \<times> 'w db \<Rightarrow> bool" for st where
  enqueue: "t \<le> t' \<Longrightarrow> u \<le> t' \<Longrightarrow> i \<notin> row_id ` set (jobs s) \<Longrightarrow>
     Enqueue st [] c u i s = (s', r) \<Longrightarrow> qstep st (t, s) (t', s')"
| claim: "t \<le> t' \<Longrightarrow> (\<And>n. clock n \<le> t') \<Longrightarrow>
     Claim st clock locked w d s = (s', r1) \<Longrightarrow> qstep st (t, s) (t', s')"
| heartbeat: "t \<le> t' \<Longrightarrow> u \<le> t' \<Longrightarrow> Heartbeat p d u s = (s', r2) \<Longrightarrow> qstep st (t, s) (t', s')"
| complete: "t \<le> t' \<Longrightarrow> u \<le> t' \<Longrightarrow> complete st p res sts u s = (s', r2) \<Longrightarrow> qstep st (t, s) (t', s')"
| retryAt: "t \<le> t' \<Longrightarrow> u \<le> t' \<Longrightarrow> RetryAt st p err nb u s = (s', r3) \<Longrightarrow> qstep st (t, s) (t', s')"
| retryAfter: "t \<le> t' \<Longrightarrow> u \<le> t' \<Longrightarrow> RetryAfter st p err d u s = (s', r3) \<Longrightarrow> qstep st (t, s) (t', s')"
| fail: "t \<le> t' \<Longrightarrow> u \<le> t' \<Longrightarrow> Fail st p err u s = (s', r2) \<Longrightarrow> qstep st (t, s) (t', s')"
| acknowledge: "t \<le> t' \<Longrightarrow> u \<le> t' \<Longrightarrow> AcknowledgeCancel st p u s = (s', r2) \<Longrightarrow> qstep st (t, s) (t', s')"
| cancel: "t \<le> t' \<Longrightarrow> u \<le> t' \<Longrightarrow> RequestCancel st i u s = (s', r3) \<Longrightarrow> qstep st (t, s) (t', s')"
| modelCall: "t \<le> t' \<Longrightarrow> u \<le> t' \<Longrightarrow> transaction (tryModelCall pid d u i) s = (s', r4) \<Longrightarrow>
     qstep st (t, s) (t', s')"
| releaseCall: "t \<le> t' \<Longrightarrow> qstep st (t, s) (t', releaseModelCall i s)"
| domain: "t \<le> t' \<Longrightarrow> qstep st (t, s) (t', s\<lparr>domain_tables := w'\<rparr>)"
| profiles: "t \<le> t' \<Longrightarrow> distinct (map profile_id ps) \<Longrightarrow> qstep st (t, s) (t', s\<lparr>model_profiles := ps\<rparr>)"

text \<open>
  A heartbeat is late when the lease it renews ran out between its reading of the clock and its
  commit. A claim that reads the tables in between still counts that lease as expired.
\<close>

definition lateHeartbeat :: "pgtime \<times> 'w db \<Rightarrow> pgtime \<times> 'w db \<Rightarrow> bool" where
  "lateHeartbeat x y \<longleftrightarrow> (\<exists>p d u. Heartbeat p d u (snd x) = (snd y, Inr ()) \<and>
     (\<exists>row. selectJob (permit_JobID p) (snd x) = Some row \<and> \<not> activeAt (fst y) row))"

inductive qrun :: "'w Store \<Rightarrow> pgtime \<times> 'w db \<Rightarrow> pgtime \<times> 'w db \<Rightarrow> bool" for st where
  stop: "qrun st x x"
| more: "qrun st x y \<Longrightarrow> qstep st y z \<Longrightarrow> qrun st x z"

inductive timelyRun :: "'w Store \<Rightarrow> pgtime \<times> 'w db \<Rightarrow> pgtime \<times> 'w db \<Rightarrow> bool" for st where
  stop: "timelyRun st x x"
| more: "timelyRun st x y \<Longrightarrow> qstep st y z \<Longrightarrow> \<not> lateHeartbeat y z \<Longrightarrow> timelyRun st x z"

lemma timelyRun_qrun: "timelyRun st x y \<Longrightarrow> qrun st x y"
  by (induction rule: timelyRun.induct) (auto intro: qrun.intros)

lemma callLeases_frame:
  "jobs (releaseModelCall i s) = jobs s" "job_attempts (releaseModelCall i s) = job_attempts s"
  "model_profiles (releaseModelCall i s) = model_profiles s"
  by (simp_all add: releaseModelCall_def)

lemma tryModelCall_frame:
  assumes "tryModelCall pid d t i s = Inr (s', r)"
  shows "jobs s' = jobs s" "job_attempts s' = job_attempts s" "model_profiles s' = model_profiles s"
  using assms
  by (auto simp: tryModelCall_def Let_def split: option.splits if_splits)

text \<open>Every step is a claim, changes call leases or profiles only, or keeps the invariant and is
  quiet: at every instant, or at its own if it is a heartbeat.\<close>

lemma qstep_cases_quiet:
  assumes "qstep st (t, s) (t', s')" "dbInv s" "callbackFresh st"
  obtains (claim) clock locked w d r where "t \<le> t'" "\<And>n. clock n \<le> t'"
      "Claim st clock locked w d s = (s', r)"
  | (call) u pid d i r where "t \<le> t'" "u \<le> t'" "tryModelCall pid d u i s = Inr (s', r)"
  | (release) i where "t \<le> t'" "s' = releaseModelCall i s"
  | (profiles) ps where "t \<le> t'" "distinct (map profile_id ps)" "s' = s\<lparr>model_profiles := ps\<rparr>"
  | (heartbeat) p d u where "t \<le> t'" "u \<le> t'" "Heartbeat p d u s = (s', Inr ())" "dbInv s'" "quiet u s s'"
  | (other) "t \<le> t'" "dbInv s'" "\<And>v. quiet v s s'"
  using assms(1)
proof cases
  case (enqueue u i c r)
  then show ?thesis using assms(2) that(6)
    by (auto simp: Enqueue_def elim!: transaction_cases
        intro: dbInv_enqueueTx quiet_enqueueTx)
next
  case (claim clock locked w d r1)
  then show ?thesis using that(1) by blast
next
  case (heartbeat u p d r2)
  show ?thesis
  proof (cases r2)
    case (Inl e)
    then have "s' = s" using heartbeat(3) by (auto simp: Heartbeat_def split: if_splits elim!: transaction_cases)
    then show ?thesis using that(6) heartbeat(1) assms(2) by simp
  next
    case (Inr a)
    then show ?thesis
      using that(5) heartbeat heartbeat.preserves [OF assms(3,2)] heartbeat.quiets [OF assms(2)]
      by (metis (full_types) fst_conv old.unit.exhaust)
  qed
next
  case (complete u p res sts r2)
  then show ?thesis
    using that(6) complete_op.preserves [OF assms(3,2)] complete_op.releases [OF assms(2)] by (metis fst_conv)
next
  case (retryAt u p err nb r3)
  then show ?thesis
    using that(6) retryAt.preserves [OF assms(3,2)] retryAt.releases [OF assms(2)] by (metis fst_conv)
next
  case (retryAfter u p err d r3)
  then show ?thesis
    using that(6) retryAfter.preserves [OF assms(3,2)] retryAfter.releases [OF assms(2)] by (metis fst_conv)
next
  case (fail u p err r2)
  then show ?thesis
    using that(6) fail_op.preserves [OF assms(3,2)] fail_op.releases [OF assms(2)] by (metis fst_conv)
next
  case (acknowledge u p r2)
  then show ?thesis
    using that(6) ackCancel.preserves [OF assms(3,2)] ackCancel.releases [OF assms(2)] by (metis fst_conv)
next
  case (cancel u i r3)
  then show ?thesis using assms(2,3) that(6)
    by (auto simp: RequestCancel_def elim!: transaction_cases
        intro: dbInv_requestCancel quiet_requestCancel)
next
  case (modelCall u pid d i r4)
  then show ?thesis using that(2,6) assms(2) by (auto elim!: transaction_cases)
next
  case (releaseCall i)
  then show ?thesis using that(3) by blast
next
  case (domain w')
  then show ?thesis using that(6) assms(2) dbInv_cong [of s' s] by simp
next
  case (profiles ps)
  then show ?thesis using that(4) by blast
qed

text \<open>Without a late heartbeat, the heartbeats too are quiet at the instant of their commit.\<close>

lemma quiet_timely:
  assumes beat: "Heartbeat p d u s = (s', Inr ())" "u \<le> t'" and inv: "dbInv s"
    and timely: "\<not> lateHeartbeat (t, s) (t', s')"
  shows "quiet t' s s'"
proof -
  from beat(1) obtain row where row: "lockPermit p [Leased] u s = Inr row" and
    s': "s' = recordEvent (permit_JobID p) (Some (attempt_count row)) ''HEARTBEAT'' u
      (HeartbeatAttempt u (row_id row) (permit_LeaseGeneration p)
        (HeartbeatJob u (Microseconds d) (row_id row) s))"
    by (auto simp: Heartbeat_def Let_def result_simps split: if_splits elim!: transaction_cases)
  have sel: "selectJob (permit_JobID p) s = Some row"
    using selectJob_eq [OF inv lockPermit_okD(1) [OF row]] lockPermit_okD(2) [OF row] by simp
  then have "activeAt t' row" using timely beat(1) by (auto simp: lateHeartbeat_def)
  then have "quiet t' s (HeartbeatJob u (Microseconds d) (row_id row) s)" unfolding HeartbeatJob_def
    using inv lockPermit_okD(1) [OF row] row_id_unique [of s]
    by (intro quiet_updateJobs) (metis dbInv_def quietRow_heartbeat)
  then show ?thesis unfolding s' by (auto intro: quiet_then)
qed

lemma timely_cases_quiet:
  assumes "qstep st (t, s) (t', s')" "dbInv s" "callbackFresh st" "\<not> lateHeartbeat (t, s) (t', s')"
  obtains (claim) clock locked w d r where "t \<le> t'" "\<And>n. clock n \<le> t'"
      "Claim st clock locked w d s = (s', r)"
  | (call) u pid d i r where "t \<le> t'" "u \<le> t'" "tryModelCall pid d u i s = Inr (s', r)"
  | (release) i where "t \<le> t'" "s' = releaseModelCall i s"
  | (profiles) ps where "t \<le> t'" "distinct (map profile_id ps)" "s' = s\<lparr>model_profiles := ps\<rparr>"
  | (other) "t \<le> t'" "dbInv s'" "quiet t' s s'"
  using assms(1-3)
proof (cases rule: qstep_cases_quiet)
  case (heartbeat p d u)
  then show ?thesis using that(5) quiet_timely [OF _ _ assms(2,4)] by blast
qed (use that in blast)+

section \<open>What runs keep\<close>

lemma qstep_dbInv:
  assumes "qstep st (t, s) (t', s')" "dbInv s" "callbackFresh st"
  shows "dbInv s'"
  using assms
proof (cases rule: qstep_cases_quiet)
  case (claim clock locked w d r)
  then show ?thesis using dbInv_Claim assms by blast
next
  case (call u pid d i r)
  then show ?thesis using tryModelCall_frame [OF call(3)] assms(2) dbInv_cong by blast
next
  case (release i)
  then show ?thesis using assms(2) dbInv_cong callLeases_frame by metis
next
  case (profiles ps)
  then show ?thesis using assms(2) dbInv_cong [of s' s] by simp
qed

lemma qrun_dbInv:
  "qrun st x y \<Longrightarrow> callbackFresh st \<Longrightarrow> dbInv (snd x) \<Longrightarrow> dbInv (snd y)"
proof (induction rule: qrun.induct)
  case (more x y z)
  then show ?case using qstep_dbInv by (cases y; cases z) fastforce
qed

text \<open>Rows persist, keep their identity and limits, and their generations never go down.\<close>

definition keepsRows :: "'w db \<Rightarrow> 'w db \<Rightarrow> bool" where
  "keepsRows s s' \<longleftrightarrow> (\<forall>r \<in> set (jobs s). \<exists>r' \<in> set (jobs s').
     sameFrame r r' \<and> lease_generation r \<le> lease_generation r')"

lemma keepsRows_trans: "keepsRows a b \<Longrightarrow> keepsRows b c \<Longrightarrow> keepsRows a c"
  unfolding keepsRows_def by (metis order_trans sameFrame_trans)

lemma keepsRows_quiet: "quiet t s s' \<Longrightarrow> keepsRows s s'"
  by (auto simp: quiet_def keepsRows_def quietRow_def)

lemma keepsRows_same: "jobs s' = jobs s \<Longrightarrow> keepsRows s s'"
  by (auto simp: keepsRows_def intro: sameFrame_refl)

lemma keepsRows_lease:
  assumes "dbInv s" "row \<in> set (jobs s)"
  shows "keepsRows s (leasedTables w d now row s)"
  unfolding keepsRows_def jobs_leasedTables
proof
  fix r
  assume r: "r \<in> set (jobs s)"
  let ?f = "leaseRow (attempt_count row + 1) w now (Microseconds d) (lease_generation row + 1)"
  have "r = row" if "row_id r = row_id row"
    using that r assms row_id_unique [of s] by (simp add: dbInv_def)
  then have "sameFrame r (if row_id r = row_id row then ?f r else r) \<and>
      lease_generation r \<le> lease_generation (if row_id r = row_id row then ?f r else r)"
    by (auto simp: row_simps)
  then show "\<exists>r' \<in> set (map (\<lambda>r. if row_id r = row_id row then ?f r else r) (jobs s)).
      sameFrame r r' \<and> lease_generation r \<le> lease_generation r'"
    using r by (intro bexI [of _ "if row_id r = row_id row then ?f r else r"]) simp_all
qed

lemma keepsRows_Claim:
  assumes "Claim st clock locked w d s = (s', r)" "dbInv s" "callbackFresh st"
  shows "keepsRows s s'"
  using assms
proof (cases rule: Claim_outcome)
  case (refused e)
  then show ?thesis by (simp add: keepsRows_same)
next
  case idle
  then show ?thesis using keepsRows_quiet by blast
next
  case (leased s1 j row owner)
  then show ?thesis
    using keepsRows_quiet keepsRows_lease eligible_attempts_left(3) keepsRows_trans by metis
qed

lemma qstep_keepsRows:
  assumes "qstep st (t, s) (t', s')" "dbInv s" "callbackFresh st"
  shows "keepsRows s s'"
  using assms
proof (cases rule: qstep_cases_quiet)
  case (claim clock locked w d r)
  then show ?thesis using keepsRows_Claim assms by blast
next
  case (call u pid d i r)
  then show ?thesis using tryModelCall_frame [OF call(3)] keepsRows_same by blast
next
  case (release i)
  then show ?thesis using keepsRows_same callLeases_frame by metis
next
  case (profiles ps)
  then show ?thesis by (simp add: keepsRows_same)
qed (use keepsRows_quiet in blast)+

lemma qrun_keepsRows:
  assumes "qrun st x y" "callbackFresh st" "dbInv (snd x)"
  shows "keepsRows (snd x) (snd y)"
  using assms
proof (induction rule: qrun.induct)
  case (stop x)
  then show ?case by (simp add: keepsRows_same)
next
  case (more x y z)
  then have "dbInv (snd y)" using qrun_dbInv by blast
  then have "keepsRows (snd y) (snd z)"
    using more.hyps(2) more.prems(1) qstep_keepsRows by (cases y; cases z) fastforce
  then show ?case using more keepsRows_trans by blast
qed

section \<open>Admission\<close>

text \<open>One step adds at most one active lease on keys that satisfy \<open>Q\<close>, and only when the
  eligibility query of a claim admitted it.\<close>

lemma activeCount_claim:
  assumes "Claim st clock locked w d s = (s', r)" "dbInv s" "callbackFresh st"
    and tt: "t \<le> t'" "\<And>n. clock n \<le> t'"
  obtains (same) "activeCount t' Q s' \<le> activeCount t Q s"
  | (one) tq s1 row where "tq \<le> t'" "keepsRows s1 s'" "model_profiles s1 = model_profiles s"
      "provider_call_leases s1 = provider_call_leases s" "row \<in> set (jobs s1)" "eligible tq s1 row"
      "Q (concurrency_key row)" "activeCount t' Q s' \<le> Suc (activeCount tq Q s1)"
  using assms(1-3)
proof (cases rule: Claim_outcome)
  case (refused e)
  then have "activeCount t' Q s' \<le> activeCount t Q s" using activeCount_antimono [OF tt(1), of Q s] by simp
  then show ?thesis by (rule that(1))
next
  case idle
  have "activeCount t' Q s' \<le> activeCount t Q s"
    using activeCount_quiet [OF idle(2), of t' Q] activeCount_antimono [OF tt(1), of Q s] by linarith
  then show ?thesis by (rule that(1))
next
  case (leased s1 j row owner)
  note row = eligible_attempts_left [OF leased(3-5)]
  have le: "activeCount t' Q s' \<le> activeCount t' Q s1 + (if Q (concurrency_key row) then 1 else 0)"
    using activeCount_lease [OF leased(1) row(3)] leased(6) by simp
  show ?thesis
  proof (cases "Q (concurrency_key row)")
    case True
    have "activeCount t' Q s' \<le> Suc (activeCount (clock (2 * j)) Q s1)"
      using le True activeCount_antimono [OF tt(2), of Q s1 "2 * j"] by simp
    then show ?thesis
      using leased(2) [of t] leased(6) keepsRows_lease [OF leased(1) row(3)] row True tt(2)
      by (intro that(2) [of "clock (2 * j)" s1 row]) (simp_all add: quiet_def)
  next
    case False
    have "activeCount t' Q s' \<le> activeCount t Q s"
      using le False activeCount_quiet [OF leased(2), of t' Q] activeCount_antimono [OF tt(1), of Q s]
      by simp
    then show ?thesis by (rule that(1))
  qed
qed

lemma qstep_limit:
  assumes step: "qstep st (t, s) (t', s')" and inv: "dbInv s" and fresh: "callbackFresh st"
    and timely: "\<not> lateHeartbeat (t, s) (t', s')"
    and key: "key \<noteq> []" and bound: "activeOnKey t key s \<le> M"
    and lim: "\<forall>r \<in> set (jobs s'). concurrency_key r = key \<longrightarrow> concurrency_limit r \<le> int M"
  shows "activeOnKey t' key s' \<le> M"
  using step inv fresh timely
proof (cases rule: timely_cases_quiet)
  case (claim clock locked w d r)
  from claim(3) inv fresh claim(1,2) show ?thesis
  proof (cases rule: activeCount_claim [where Q = "\<lambda>k. k = key"])
    case same
    then show ?thesis using bound by (simp add: activeOnKey_eq)
  next
    case (one tq s1 row)
    then obtain r' where "r' \<in> set (jobs s')" "sameFrame row r'" by (auto simp: keepsRows_def)
    then have "concurrency_limit row \<le> int M" using lim one(7) by (auto simp: sameFrame_def)
    then have "activeCount tq (\<lambda>k. k = key) s1 < M"
      using one(6,7) key by (auto simp: eligible_def activeOnKey_eq)
    then show ?thesis using one(8) by (simp add: activeOnKey_eq)
  qed
next
  case (call u pid d i r)
  then show ?thesis using tryModelCall_frame(1) [OF call(3)] bound
      activeCount_antimono [OF call(1), of "\<lambda>k. k = key" s]
    by (simp add: activeOnKey_eq activeCount_def)
next
  case (release i)
  then show ?thesis using bound activeCount_antimono [OF release(1), of "\<lambda>k. k = key" s]
    by (simp add: activeOnKey_eq activeCount_def callLeases_frame)
next
  case (profiles ps)
  then show ?thesis using bound activeCount_antimono [OF profiles(1), of "\<lambda>k. k = key" s]
    by (simp add: activeOnKey_eq activeCount_def)
next
  case other
  then show ?thesis
    using bound activeCount_quiet [OF other(3)] activeCount_antimono [OF other(1)]
    unfolding activeOnKey_eq by (meson order_trans)
qed

lemma timelyRun_limit:
  assumes "timelyRun st x y" "callbackFresh st" "dbInv (snd x)" "key \<noteq> []"
    and "activeOnKey (fst x) key (snd x) \<le> M"
    and "\<forall>r \<in> set (jobs (snd y)). concurrency_key r = key \<longrightarrow> concurrency_limit r \<le> int M"
  shows "activeOnKey (fst y) key (snd y) \<le> M"
  using assms
proof (induction rule: timelyRun.induct)
  case (stop x)
  then show ?case by simp
next
  case (more x y z)
  obtain t s t' s' where yz: "y = (t, s)" "z = (t', s')" by (cases y; cases z)
  have inv: "dbInv s" using qrun_dbInv [OF timelyRun_qrun [OF more.hyps(1)] more.prems(1,2)] yz by simp
  have "keepsRows s s'" using qstep_keepsRows more.hyps(2) more.prems(1) inv yz by blast
  then have "\<forall>r \<in> set (jobs s). concurrency_key r = key \<longrightarrow> concurrency_limit r \<le> int M"
    using more.prems(5) yz unfolding keepsRows_def sameFrame_def by (metis snd_conv)
  then have "activeOnKey t key s \<le> M" using more yz by simp
  then show ?case
    using qstep_limit [of st t s t' s' key M] more.hyps(2,3) more.prems inv yz by simp
qed

subsection \<open>Endpoints\<close>

lemma openCalls_antimono: "t \<le> t' \<Longrightarrow> openCalls t' e s \<le> openCalls t e s"
  unfolding openCalls_def by (rule length_filter_mono) auto

lemma endpointKey_cong: "model_profiles s' = model_profiles s \<Longrightarrow> endpointKey e s' = endpointKey e s"
  by (auto simp: endpointKey_def fun_eq_iff)

lemma endpointCapacity_cong:
  "model_profiles s' = model_profiles s \<Longrightarrow> endpointCapacity e s' = endpointCapacity e s"
  by (simp add: endpointCapacity_def)

lemma endpointOccupied_antimono:
  "distinct (map profile_id (model_profiles s)) \<Longrightarrow> t \<le> t' \<Longrightarrow>
     endpointOccupied t' e s \<le> endpointOccupied t e s"
  by (simp add: endpointOccupied_eq add_mono openCalls_antimono activeCount_antimono)

lemma admitted_endpoint_room:
  assumes "eligible t s row" "endpointKey e s (concurrency_key row)" "endpointCapacity e s = Some c"
  shows "int (endpointOccupied t e s) < c"
  using assms by (fastforce simp: eligible_def endpointKey_def endpointFull_def)

lemma tryModelCall_endpoint:
  assumes "tryModelCall pid d u i s = Inr (s', r)" "distinct (map profile_id (model_profiles s))"
    and "endpointCapacity e s = Some c" "t \<le> t'" "u \<le> t'"
  shows "endpointOccupied t' e s' \<le> endpointOccupied t e s \<or> int (endpointOccupied t' e s') \<le> c"
proof -
  define s1 where "s1 = s\<lparr>provider_call_leases := filter (\<lambda>x. u < call_expires_at x) (provider_call_leases s)\<rparr>"
  have d1: "distinct (map profile_id (model_profiles s1))" using assms(2) by (simp add: s1_def)
  have "endpointOccupied t' e s1 \<le> endpointOccupied t' e s"
    by (auto simp: endpointOccupied_def s1_def intro!: length_filter_mono)
  then have less: "endpointOccupied t' e s1 \<le> endpointOccupied t e s"
    using endpointOccupied_antimono [OF assms(2,4)] order_trans by blast
  have cap: "endpointCapacity e' s1 = endpointCapacity e' s" for e'
    by (rule endpointCapacity_cong) (simp add: s1_def)
  have grow: "endpointOccupied t' e (s1\<lparr>provider_call_leases := provider_call_leases s1 @ [x]\<rparr>) \<le>
      endpointOccupied t' e s1 + (if call_endpoint_id x = e then 1 else 0)" for x
    by (auto simp: endpointOccupied_def)
  show ?thesis
    using assms(1) unfolding tryModelCall_def Let_def s1_def [symmetric]
  proof (auto split: option.splits if_splits, goal_cases)
    case (1 profile capacity)
    let ?x = "\<lparr>call_id = i, call_endpoint_id = profile_endpoint_id profile,
      call_expires_at = u + (d + 5000000000) div 1000000 * 1000\<rparr>"
    show ?case
    proof (cases "profile_endpoint_id profile = e")
      case True
      have "int (endpointOccupied t' e s1) < c"
        using 1 True cap assms(3) endpointOccupied_antimono [OF d1 assms(5), of e] by simp
      then show ?thesis using grow [of ?x] 1 True by simp
    next
      case False
      then show ?thesis using grow [of ?x] 1 less by simp
    qed
  next
    case 2
    then show ?case using less by simp
  qed
qed

lemma qstep_endpoint:
  assumes step: "qstep st (t, s) (t', s')" and inv: "dbInv s" and fresh: "callbackFresh st"
    and timely: "\<not> lateHeartbeat (t, s) (t', s')" and same: "model_profiles s' = model_profiles s"
    and dist: "distinct (map profile_id (model_profiles s))" and cap: "endpointCapacity e s = Some c"
  shows "endpointOccupied t' e s' \<le> endpointOccupied t e s \<or> int (endpointOccupied t' e s') \<le> c"
  using step inv fresh timely
proof (cases rule: timely_cases_quiet)
  case (claim clock locked w d r)
  have calls: "provider_call_leases s' = provider_call_leases s"
    using claim(3) inv fresh
    by (cases rule: Claim_outcome) (auto simp: quiet_def jobs_leasedTables)
  have key: "endpointKey e s' = endpointKey e s" by (rule endpointKey_cong [OF same])
  have occ: "endpointOccupied t' e s' = openCalls t' e s + activeCount t' (endpointKey e s) s'"
    using dist same key by (simp add: endpointOccupied_eq openCalls_def calls)
  from claim(3) inv fresh claim(1,2) show ?thesis
  proof (cases rule: activeCount_claim [where Q = "endpointKey e s"])
    case same
    then show ?thesis
      using occ dist openCalls_antimono [OF claim(1), of e s] by (simp add: endpointOccupied_eq)
  next
    case (one tq s1 row)
    have p1: "endpointKey e s1 = endpointKey e s" "endpointCapacity e s1 = Some c"
      using endpointKey_cong [OF one(3)] endpointCapacity_cong [OF one(3)] cap by simp_all
    have "int (endpointOccupied tq e s1) < c"
      using admitted_endpoint_room [OF one(6)] one(7) p1 by simp
    then have "int (openCalls tq e s + activeCount tq (endpointKey e s) s1) < c"
      using dist one(3,4) p1 by (simp add: endpointOccupied_eq openCalls_def)
    then show ?thesis using occ one(8) openCalls_antimono [OF one(1), of e s] by simp
  qed
next
  case (call u pid d i r)
  then show ?thesis using tryModelCall_endpoint [OF call(3) dist cap call(1,2)] by simp
next
  case (release i)
  have "endpointOccupied t' e s' \<le> endpointOccupied t' e s"
    unfolding release(2) endpointOccupied_def releaseModelCall_def
    by (auto intro!: length_filter_mono)
  then show ?thesis using endpointOccupied_antimono [OF dist release(1)] order_trans by blast
next
  case (profiles ps)
  then have "s' = s" using same by simp
  then show ?thesis using endpointOccupied_antimono [OF dist profiles(1)] by simp
next
  case other
  have "endpointOccupied t' e s' \<le> endpointOccupied t' e s"
    using dist other(3) same endpointKey_cong [OF same] activeCount_quiet [OF other(3)]
    by (simp add: endpointOccupied_eq openCalls_def quiet_def)
  then show ?thesis using endpointOccupied_antimono [OF dist other(1)] order_trans by blast
qed

lemma qstep_profiles_distinct:
  assumes "qstep st (t, s) (t', s')" "dbInv s" "callbackFresh st" "distinct (map profile_id (model_profiles s))"
  shows "distinct (map profile_id (model_profiles s'))"
  using assms(1-3)
proof (cases rule: qstep_cases_quiet)
  case (claim clock locked w d r)
  have "model_profiles s' = model_profiles s"
    using claim(3) assms(2,3)
    by (cases rule: Claim_outcome) (auto simp: quiet_def jobs_leasedTables)
  then show ?thesis using assms(4) by simp
next
  case (call u pid d i r)
  then show ?thesis using tryModelCall_frame [OF call(3)] assms(4) by simp
next
  case (release i)
  then show ?thesis using assms(4) by (simp add: callLeases_frame)
qed (use assms(4) in \<open>auto simp: quiet_def\<close>)

lemma qrun_profiles_distinct:
  assumes "qrun st x y" "callbackFresh st" "dbInv (snd x)" "distinct (map profile_id (model_profiles (snd x)))"
  shows "distinct (map profile_id (model_profiles (snd y)))"
  using assms
proof (induction rule: qrun.induct)
  case (stop x)
  then show ?case by simp
next
  case (more x y z)
  have "dbInv (snd y)" using qrun_dbInv more by blast
  then show ?case using qstep_profiles_distinct more by (metis prod.collapse)
qed

end
