(* ===== verification/Transitions.thy ===== *)
theory Transitions
  imports Prelude
begin

text \<open>
  The contract between a state machine of the program and what is proved of its runs: an
  initial state, a step relation, and an invariant that the initial state has and every step
  keeps. The components that are state machines (the slot pool, the capsule session)
  interpret the locale on their own step relations.
\<close>

inductive reach :: "('s \<Rightarrow> 's \<Rightarrow> bool) \<Rightarrow> 's \<Rightarrow> 's \<Rightarrow> bool" for step where
  reach_refl: "reach step s s"
| reach_step: "reach step s t \<Longrightarrow> step t u \<Longrightarrow> reach step s u"

inductive_cases reach_cases: "reach step s u"

lemma reach_one: "step s t \<Longrightarrow> reach step s t"
  by (rule reach_step [OF reach_refl])

lemma reach_trans: "reach step s t \<Longrightarrow> reach step t u \<Longrightarrow> reach step s u"
  by (rotate_tac, induction rule: reach.induct) (auto intro: reach_step)

lemma reach_relpowp: "reach step s t \<Longrightarrow> \<exists>n. (step ^^ n) s t"
proof (induction rule: reach.induct)
  case (reach_refl s)
  then show ?case by (intro exI [of _ 0]) simp
next
  case (reach_step s t u)
  then obtain n where "(step ^^ n) s t" by blast
  then show ?case using reach_step(2) by (intro exI [of _ "Suc n"]) (auto intro: relcomppI)
qed

locale inductive_invariant =
  fixes initial :: "'s \<Rightarrow> bool"
    and step :: "'s \<Rightarrow> 's \<Rightarrow> bool"
    and inv :: "'s \<Rightarrow> bool"
  assumes initially: "initial s \<Longrightarrow> inv s"
    and preserved: "inv s \<Longrightarrow> step s t \<Longrightarrow> inv t"
begin

lemma kept: "reach step s t \<Longrightarrow> inv s \<Longrightarrow> inv t"
  by (induction rule: reach.induct) (auto intro: preserved)

lemma always: "reach step s t \<Longrightarrow> initial s \<Longrightarrow> inv t"
  by (rule kept) (auto intro: initially)

end

text \<open>A quantity that no step lets grow, on top of an invariant.\<close>

locale never_grows = inductive_invariant initial step inv
  for initial :: "'s \<Rightarrow> bool" and step inv +
  fixes amount :: "'s \<Rightarrow> nat"
  assumes step_le: "inv s \<Longrightarrow> step s t \<Longrightarrow> amount t \<le> amount s"
begin

lemma run_le: "reach step s t \<Longrightarrow> inv s \<Longrightarrow> amount t \<le> amount s"
proof (induction rule: reach.induct)
  case (reach_step s t u)
  then show ?case using step_le [of t u] kept [of s t] by fastforce
qed simp

end

end
