(* ===== verification/JobRefinement.thy ===== *)
theory JobRefinement
  imports JobRuns Transitions
begin

text \<open>
  The job queue as a lock service. The specification knows, for every registered job, the number of
  the last lease that was granted, and which jobs are locked; a lease is granted only on a job that
  is not locked and under the next number. The queue implements it: the generations of the
  rows are the numbers, the rows with a live lease are the locked jobs.
\<close>

section \<open>Specification\<close>

type_synonym lockService = "(UUID \<rightharpoonup> int) \<times> UUID set"

inductive lockStep :: "lockService \<Rightarrow> lockService \<Rightarrow> bool" where
  register: "i \<notin> dom gens \<Longrightarrow> lockStep (gens, live) (gens(i \<mapsto> 0), live)"
| lapse: "live' \<subseteq> live \<Longrightarrow> lockStep (gens, live) (gens, live')"
| grant: "gens i = Some g \<Longrightarrow> i \<notin> live \<Longrightarrow> lockStep (gens, live) (gens(i \<mapsto> g + 1), insert i live)"

inductive_cases lockStepE: "lockStep x y"

text \<open>What makes it a lock service: numbers only grow, and a job that becomes locked gets a new one.\<close>

lemma lockStep_grows:
  assumes "reach lockStep x y" "fst x i = Some g"
  shows "\<exists>g'. fst y i = Some g' \<and> g \<le> g' \<and> (i \<in> snd y \<and> i \<notin> snd x \<longrightarrow> g < g')"
  using assms
proof (induction rule: reach.induct)
  case (reach_step s t u)
  then obtain g' where g': "fst t i = Some g'" "g \<le> g'" "i \<in> snd t \<and> i \<notin> snd s \<longrightarrow> g < g'" by blast
  from reach_step.hyps(2) show ?case using g' by (cases rule: lockStep.cases) auto
qed simp

section \<open>Abstraction\<close>

definition absQueue :: "pgtime \<times> 'w db \<Rightarrow> lockService" where
  "absQueue x = (map_of (map (\<lambda>r. (row_id r, lease_generation r)) (jobs (snd x))),
     row_id ` {r \<in> set (jobs (snd x)). activeAt (fst x) r})"

lemma reach_lapse: "live' \<subseteq> live \<Longrightarrow> reach lockStep (gens, live) (gens, live')"
  by (rule reach_one) (rule lockStep.lapse)

lemma reach_register:
  "distinct ids \<Longrightarrow> set ids \<inter> dom gens = {} \<Longrightarrow> reach lockStep (gens, live) (gens ++ map_of (map (\<lambda>i. (i, 0)) ids), live)"
proof (induction ids arbitrary: gens)
  case (Cons i ids)
  have first: "reach lockStep (gens, live) (gens(i \<mapsto> 0), live)" using Cons.prems by (intro reach_one lockStep.register) auto
  have rest: "reach lockStep (gens(i \<mapsto> 0), live) (gens(i \<mapsto> 0) ++ map_of (map (\<lambda>i. (i, 0)) ids), live)"
    using Cons.prems by (intro Cons.IH) (auto split: if_splits)
  have "i \<notin> dom (map_of (map (\<lambda>i. (i, 0 :: int)) ids))" using Cons.prems(1) by (auto dest!: map_of_SomeD)
  from map_add_upd_left [OF this, of gens 0]
  have same: "gens(i \<mapsto> 0) ++ map_of (map (\<lambda>i. (i, 0)) ids) = gens ++ map_of (map (\<lambda>i. (i, 0)) (i # ids))"
    by (simp only: list.map map_of.simps fst_conv snd_conv map_add_upd)
  show ?case using reach_trans [OF first rest] unfolding same .
qed (simp add: reach_refl)

lemma quiet_refines:
  assumes "quiet t' s s'" "dbInv s'" "t \<le> t'"
  shows "reach lockStep (absQueue (t, s)) (absQueue (t', s'))"
proof -
  from assms(1) obtain h new where h: "jobs s' = map h (jobs s) @ new" "\<forall>r \<in> set (jobs s). quietRow t' r (h r)"
      "\<forall>r \<in> set new. \<not> activeAt t' r \<and> lease_generation r = 0" by (auto simp: quiet_def)
  have ids: "row_id (h r) = row_id r" "lease_generation (h r) = lease_generation r" if "r \<in> set (jobs s)" for r
    using h(2) that by (auto simp: quietRow_def sameFrame_def)
  let ?g = "map_of (map (\<lambda>r. (row_id r, lease_generation r)) (jobs s))"
  have dist: "distinct (map row_id (map h (jobs s) @ new))" using assms(2) h(1) by (simp add: dbInv_def)
  have old: "map (\<lambda>r. (row_id r, lease_generation r)) (map h (jobs s)) = map (\<lambda>r. (row_id r, lease_generation r)) (jobs s)"
    using ids by simp
  have zero: "map (\<lambda>r. (row_id r, lease_generation r)) new = map (\<lambda>i. (i, 0)) (map row_id new)" using h(3) by simp
  have disjoint: "set (map row_id new) \<inter> dom ?g = {}" using dist ids by (force simp: dom_map_of_conv_image_fst image_image)
  have gens: "fst (absQueue (t', s')) = ?g ++ map_of (map (\<lambda>i. (i, 0)) (map row_id new))"
    unfolding absQueue_def fst_conv snd_conv h(1) map_append old zero map_of_append
    using disjoint by (intro map_add_comm) (auto simp: dom_map_of_conv_image_fst image_image)
  have live: "snd (absQueue (t', s')) \<subseteq> snd (absQueue (t, s))"
    using h ids activeAt_antimono [OF assms(3)] by (fastforce simp: absQueue_def quietRow_def)
  have "reach lockStep (?g, snd (absQueue (t, s))) (fst (absQueue (t', s')), snd (absQueue (t, s)))"
    unfolding gens using dist disjoint by (intro reach_register) simp_all
  moreover have "reach lockStep (fst (absQueue (t', s')), snd (absQueue (t, s))) (fst (absQueue (t', s')), snd (absQueue (t', s')))"
    by (rule reach_lapse [OF live])
  ultimately show ?thesis using reach_trans by (fastforce simp: absQueue_def)
qed

lemma eligible_not_active: "eligible now s row \<Longrightarrow> \<not> activeAt now row"
  by (cases "status row") (auto simp: eligible_def eligibleStatus_def activeAt_def split: option.splits)

lemma map_of_set_one:
  "map_of (map (\<lambda>r. (key r, if key r = i then v else val r)) rs) =
    (if i \<in> key ` set rs then (map_of (map (\<lambda>r. (key r, val r)) rs))(i \<mapsto> v) else map_of (map (\<lambda>r. (key r, val r)) rs))"
  by (induction rs) (auto simp: fun_eq_iff)

lemma absQueue_lease:
  assumes "row \<in> set (jobs s)"
  shows "fst (absQueue (t', leasedTables w d now row s)) = (fst (absQueue (t, s)))(row_id row \<mapsto> lease_generation row + 1)"
    and "snd (absQueue (t, leasedTables w d now row s)) \<subseteq> insert (row_id row) (snd (absQueue (t, s)))"
proof -
  let ?f = "\<lambda>r. if row_id r = row_id row then leaseRow (attempt_count row + 1) w now (Microseconds d) (lease_generation row + 1) r else r"
  have "map (\<lambda>r. (row_id r, lease_generation r)) (map ?f (jobs s)) =
      map (\<lambda>r. (row_id r, if row_id r = row_id row then lease_generation row + 1 else lease_generation r)) (jobs s)"
    by (simp add: row_simps)
  then show "fst (absQueue (t', leasedTables w d now row s)) = (fst (absQueue (t, s)))(row_id row \<mapsto> lease_generation row + 1)"
    using assms unfolding absQueue_def fst_conv snd_conv jobs_leasedTables by (simp only: map_of_set_one imageI if_True)
  show "snd (absQueue (t, leasedTables w d now row s)) \<subseteq> insert (row_id row) (snd (absQueue (t, s)))"
    unfolding absQueue_def fst_conv snd_conv jobs_leasedTables
  proof
    fix i assume "i \<in> row_id ` {r \<in> set (map ?f (jobs s)). activeAt t r}"
    then obtain r where r: "r \<in> set (jobs s)" "activeAt t (?f r)" "i = row_id (?f r)" by auto
    show "i \<in> insert (row_id row) (row_id ` {r \<in> set (jobs s). activeAt t r})"
    proof (cases "row_id r = row_id row")
      case True
      then show ?thesis using r(3) by (simp add: row_simps)
    next
      case False
      then show ?thesis using r by auto
    qed
  qed
qed

lemma lease_refines:
  assumes "dbInv s" "row \<in> set (jobs s)" "\<not> activeAt t row" "t \<le> t'"
  shows "reach lockStep (absQueue (t, s)) (absQueue (t', leasedTables w d now row s))"
proof -
  let ?s' = "leasedTables w d now row s"
  have dist: "distinct (map row_id (jobs s))" using assms(1) by (simp add: dbInv_def)
  have "fst (absQueue (t, s)) (row_id row) = Some (lease_generation row)"
    using assms(2) dist unfolding absQueue_def fst_conv snd_conv by (intro map_of_is_SomeI) (auto simp: comp_def)
  moreover have "row_id row \<notin> snd (absQueue (t, s))"
    using assms(3) row_id_unique [OF dist _ assms(2)] by (auto simp: absQueue_def)
  ultimately have grant: "reach lockStep (absQueue (t, s)) (fst (absQueue (t', ?s')), insert (row_id row) (snd (absQueue (t, s))))"
    using lockStep.grant unfolding absQueue_lease(1) [OF assms(2), where t = t] by (intro reach_one) (metis prod.collapse)
  have "snd (absQueue (t', ?s')) \<subseteq> snd (absQueue (t, ?s'))"
    using activeAt_antimono [OF assms(4)] by (auto simp: absQueue_def)
  then have "snd (absQueue (t', ?s')) \<subseteq> insert (row_id row) (snd (absQueue (t, s)))" using absQueue_lease(2) [OF assms(2)] by blast
  from reach_trans [OF grant reach_lapse [OF this]] show ?thesis by simp
qed

section \<open>Refinement\<close>

lemma Claim_refines:
  assumes "Claim st clock locked w d s = (s', r)" "t \<le> t'" "\<And>n. clock n \<le> t'" "dbInv s" "callbackFresh st"
  shows "reach lockStep (absQueue (t, s)) (absQueue (t', s'))"
  using assms(1,4,5)
proof (cases rule: Claim_outcome)
  case (refused e)
  then show ?thesis using quiet_refines [of t' s s t] assms(2,4) by simp
next
  case idle
  then show ?thesis using quiet_refines assms(2) by blast
next
  case (leased s1 j row owner)
  let ?m = "max t (clock (2 * j))"
  note row = eligible_attempts_left [OF leased(3-5)]
  have idle: "\<not> activeAt ?m row"
    using eligible_not_active [OF row(4)] activeAt_antimono [of "clock (2 * j)" ?m row] by auto
  have "reach lockStep (absQueue (t, s)) (absQueue (?m, s1))" by (rule quiet_refines [OF leased(2,1)]) simp
  moreover have "reach lockStep (absQueue (?m, s1)) (absQueue (t', s'))"
    unfolding leased(6) by (rule lease_refines [OF leased(1) row(3) idle]) (simp add: assms(2,3))
  ultimately show ?thesis by (rule reach_trans)
qed

lemma qstep_refines:
  assumes "qstep st (t, s) (t', s')" "dbInv s" "callbackFresh st" "\<not> lateHeartbeat (t, s) (t', s')"
  shows "reach lockStep (absQueue (t, s)) (absQueue (t', s'))"
  using assms
proof (cases rule: timely_cases_quiet)
  case (claim clock locked w d r)
  then show ?thesis using Claim_refines assms(2,3) by blast
next
  case (call u pid d i r)
  then have "absQueue (t', s') = absQueue (t', s)" using tryModelCall_frame(1) [OF call(3)] by (simp add: absQueue_def)
  then show ?thesis using quiet_refines [of t' s s t] call(1) assms(2) by simp
next
  case (release i)
  then have "absQueue (t', s') = absQueue (t', s)" by (simp add: absQueue_def callLeases_frame)
  then show ?thesis using quiet_refines [of t' s s t] release(1) assms(2) by simp
next
  case (profiles ps)
  then have "absQueue (t', s') = absQueue (t', s)" by (simp add: absQueue_def)
  then show ?thesis using quiet_refines [of t' s s t] profiles(1) assms(2) by simp
next
  case other
  then show ?thesis using quiet_refines by blast
qed

end
