(* ===== verification/JobProperties.thy ===== *)
theory JobProperties
  imports JobRefinement
begin

text \<open>
  The properties of the durable job queue, each with a witness on concrete tables where it has
  hypotheses.
\<close>

section \<open>Sample tables for the witnesses\<close>

definition demoStore :: "unit Store" where
  "demoStore = \<lparr>terminalCallback = None, encodeTime = (\<lambda>t. t div 1000)\<rparr>"

definition demoEmpty :: "unit db" where
  "demoEmpty = \<lparr>jobs = [], job_attempts = [], job_events = [], event_log = [],
     provider_call_leases = [], model_profiles = [], domain_tables = ()\<rparr>"

definition demoCommand :: Command where
  "demoCommand = \<lparr>cmd_Type = ''SYNC_SOURCE'', cmd_TargetType = ''source'', cmd_TargetID = [7],
     cmd_Payload = None, cmd_OperationKey = ''sync:7'', cmd_MaxAttempts = 2,
     cmd_NotBefore = None, cmd_ConcurrencyKey = ''sync'', cmd_ConcurrencyLimit = 1\<rparr>"

definition demoPending :: "unit db" where
  "demoPending = fst (Enqueue demoStore [] demoCommand 10 [1] demoEmpty)"

definition demoLeased :: "unit db" where
  "demoLeased = fst (Claim demoStore (\<lambda>_. 20) (\<lambda>_. False) ''w1'' 30000 demoPending)"

definition demoPermit :: Permit where
  "demoPermit = \<lparr>permit_JobID = [1], permit_WorkerID = ''w1'', permit_LeaseGeneration = 1\<rparr>"

text \<open>The columns take the texts of the samples as they are.\<close>

lemma demo_texts [simp]:
  "varchar 64 ''source'' = Some ''source''" "varchar 512 ''sync:7'' = Some ''sync:7''"
  "varchar 512 ''sync:8'' = Some ''sync:8''" "varchar 512 ''sync'' = Some ''sync''"
  "varchar 255 ''w1'' = Some ''w1''" "varchar 255 ''w2'' = Some ''w2''"
  by (rule varchar_ascii; simp)+

lemma demoStore_fresh [simp]: "callbackFresh demoStore"
  by (simp add: callbackFresh_def demoStore_def)

lemma demoEmpty_inv [simp]: "dbInv demoEmpty"
  by (simp add: dbInv_def demoEmpty_def)

lemma demoEnqueue:
  "Enqueue demoStore [] demoCommand 10 [1] demoEmpty = (demoPending, Inr [1])"
  by (simp add: demoPending_def Enqueue_def transaction_def enqueueTx_def withDefaults_def
      demoCommand_def commandValidate_def ValidType_def validTypes_def ensureE_def
      enqueueLoop.simps InsertJob_def demoEmpty_def demoStore_def)

lemma demoPending_jobs:
  "jobs demoPending = [\<lparr>row_id = [1], job_type = ''SYNC_SOURCE'', target_type = ''source'',
     target_id = [7], payload = [], operation_key = ''sync:7'', concurrency_key = ''sync'',
     concurrency_limit = 1, status = Pending, attempt_count = 0, max_attempts = 2, progress = 0,
     lease_owner = None, lease_expires_at = None, lease_generation = 0, not_before = None,
     job_result = None, sanitized_error = None, created_at = 10, updated_at = 10,
     started_at = None, finished_at = None\<rparr>]"
  "model_profiles demoPending = []"
  by (simp_all add: demoPending_def Enqueue_def transaction_def enqueueTx_def withDefaults_def
      demoCommand_def commandValidate_def ValidType_def validTypes_def ensureE_def
      enqueueLoop.simps InsertJob_def demoEmpty_def demoStore_def)

lemma demoPending_inv [simp]: "dbInv demoPending"
  using qstep_dbInv [OF qstep.enqueue [OF _ _ _ demoEnqueue, of 0 10]] by (simp add: demoEmpty_def dbInv_def)

lemma demoClaim:
  "Claim demoStore (\<lambda>_. 20) (\<lambda>_. False) ''w1'' 30000 demoPending = (demoLeased, Inr (Some demoPermit))"
  by (simp add: demoLeased_def Claim_def transaction_def Microseconds_def claimLoop.simps
      LockEligibleJob_def demoPending_jobs eligible_def eligibleStatus_def activeOnKey_def
      activeAt_def leaseClaimed_eq leasedTables_def Let_def demoPermit_def)

lemma demoLeased_inv [simp]: "dbInv demoLeased"
  using dbInv_Claim [OF demoClaim] by simp

lemma demoLeased_jobs:
  "jobs demoLeased = [\<lparr>row_id = [1], job_type = ''SYNC_SOURCE'', target_type = ''source'',
     target_id = [7], payload = [], operation_key = ''sync:7'', concurrency_key = ''sync'',
     concurrency_limit = 1, status = Leased, attempt_count = 1, max_attempts = 2, progress = 0,
     lease_owner = Some ''w1'', lease_expires_at = Some 50, lease_generation = 1, not_before = None,
     job_result = None, sanitized_error = None, created_at = 10, updated_at = 20,
     started_at = Some 20, finished_at = None\<rparr>]"
  by (simp add: demoLeased_def Claim_def transaction_def Microseconds_def claimLoop.simps
      LockEligibleJob_def demoPending_jobs eligible_def eligibleStatus_def activeOnKey_def
      activeAt_def leaseClaimed_eq leasedTables_def Let_def leaseRow_def)

lemma lateHeartbeat_leased:
  assumes "lateHeartbeat x y"
  shows "\<exists>r \<in> set (jobs (snd x)). status r = Leased"
proof -
  obtain p d u where "Heartbeat p d u (snd x) = (snd y, Inr ())" using assms by (auto simp: lateHeartbeat_def)
  then have "isOk (snd (Heartbeat p d u (snd x)))" by simp
  then show ?thesis by (rule heartbeat.needs_lease) auto
qed

lemma demoRun: "timelyRun demoStore (0, demoEmpty) (20, demoLeased)"
proof -
  have "qstep demoStore (0, demoEmpty) (10, demoPending)"
    by (rule qstep.enqueue [OF _ _ _ demoEnqueue]) (simp_all add: demoEmpty_def)
  moreover have "\<not> lateHeartbeat (0, demoEmpty) (10, demoPending)"
    using lateHeartbeat_leased [of "(0, demoEmpty)"] by (auto simp: demoEmpty_def)
  moreover have "qstep demoStore (10, demoPending) (20, demoLeased)"
    by (rule qstep.claim [OF _ _ demoClaim]) simp_all
  moreover have "\<not> lateHeartbeat (10, demoPending) (20, demoLeased)"
    using lateHeartbeat_leased [of "(10, demoPending)"] by (auto simp: demoPending_jobs)
  ultimately show ?thesis by (meson timelyRun.intros)
qed

text \<open>The lease runs out and another worker takes the job over.\<close>

definition demoReclaimed :: "unit db" where
  "demoReclaimed = fst (Claim demoStore (\<lambda>_. 60) (\<lambda>_. False) ''w2'' 30000 demoLeased)"

lemma demoLeased_profiles: "model_profiles demoLeased = []"
  by (simp add: demoLeased_def Claim_def transaction_def Microseconds_def claimLoop.simps
      LockEligibleJob_def demoPending_jobs eligible_def eligibleStatus_def activeOnKey_def
      activeAt_def leaseClaimed_eq leasedTables_def Let_def)

lemma demoReclaim:
  "Claim demoStore (\<lambda>_. 60) (\<lambda>_. False) ''w2'' 30000 demoLeased =
     (demoReclaimed, Inr (Some \<lparr>permit_JobID = [1], permit_WorkerID = ''w2'', permit_LeaseGeneration = 2\<rparr>))"
  by (simp add: demoReclaimed_def Claim_def transaction_def Microseconds_def claimLoop.simps
      LockEligibleJob_def demoLeased_jobs demoLeased_profiles eligible_def eligibleStatus_def activeOnKey_def
      activeAt_def leaseClaimed_eq leasedTables_def Let_def)

section \<open>Well-formed tables in every run\<close>

lemma length_attempts:
  assumes "wfAttempts r as" "0 \<le> lease_generation r"
  shows "length as = nat (lease_generation r)"
  using assms by (metis diff_add_cancel length_map length_upto wfAttempts_def)

text \<open>
  C1. In every interleaving of queue operations that starts on empty tables, each job has made
  at most its maximum of attempts, its lease generation is the number of attempts recorded for
  it, it has an owner and an expiry exactly while it is leased or asked to cancel, it has a
  finish time exactly once it is final, the attempts still open are exactly that of the lease
  now held, and no two active jobs share an operation key.
\<close>

theorem queue_run_wellformed:
  assumes run: "qrun st (t0, s0) (t, s)" and fresh: "callbackFresh st"
    and start: "jobs s0 = []" "job_attempts s0 = []"
  shows "distinct (map operation_key (filter (\<lambda>r. activeStatus (status r)) (jobs s))) \<and>
    (\<forall>r \<in> set (jobs s).
      length (attemptsOf (row_id r) s) = nat (attempt_count r) \<and>
      lease_generation r = attempt_count r \<and> 0 \<le> attempt_count r \<and>
      attempt_count r \<le> max_attempts r \<and>
      (heldStatus (status r) \<longleftrightarrow> lease_owner r \<noteq> None) \<and>
      (heldStatus (status r) \<longleftrightarrow> lease_expires_at r \<noteq> None) \<and>
      (finished_at r \<noteq> None \<longleftrightarrow> \<not> activeStatus (status r)) \<and>
      (\<forall>a \<in> set (attemptsOf (row_id r) s). att_finished_at a = None \<longleftrightarrow>
         heldStatus (status r) \<and> att_lease_generation a = lease_generation r))"
proof (intro conjI ballI)
  have "dbInv s0" using start by (simp add: dbInv_def)
  then have inv: "dbInv s" using qrun_dbInv [OF run fresh] by simp
  then show "distinct (map operation_key (filter (\<lambda>r. activeStatus (status r)) (jobs s)))"
    by (simp add: dbInv_def)
  fix r
  assume "r \<in> set (jobs s)"
  then have r: "rowInv r" "wfAttempts r (attemptsOf (row_id r) s)"
    using inv by (simp_all add: dbInv_def)
  show "length (attemptsOf (row_id r) s) = nat (attempt_count r)"
    using length_attempts [OF r(2)] r(1) by (simp add: rowInv_def)
  show "att_finished_at a = None \<longleftrightarrow> heldStatus (status r) \<and> att_lease_generation a = lease_generation r"
    if "a \<in> set (attemptsOf (row_id r) s)" for a
    using r(2) that by (simp add: wfAttempts_def)
qed (use qrun_dbInv [OF run fresh] start in \<open>auto simp: dbInv_def rowInv_def\<close>)

theorem queue_run_wellformed_witness:
  "length (attemptsOf [1] demoLeased) = 1 \<and> distinct (map operation_key (jobs demoLeased))"
  using queue_run_wellformed [OF timelyRun_qrun [OF demoRun] demoStore_fresh]
  by (simp add: demoEmpty_def demoLeased_jobs activeStatus_def)

section \<open>Fencing\<close>

text \<open>The permit of a claim names the generation of the row it leased.\<close>

lemma Claim_permit_row:
  assumes "Claim st clock locked w d s = (s', Inr (Some p))" "dbInv s" "callbackFresh st"
  obtains r n where "r \<in> set (jobs s')" "row_id r = permit_JobID p" "status r = Leased"
    "varchar 255 w = lease_owner r" "permit_WorkerID p = w" "lease_generation r = permit_LeaseGeneration p"
    "lease_expires_at r = Some (clock n + Microseconds d)" "0 < permit_LeaseGeneration p" "w \<noteq> []"
    "0 < Microseconds d"
  using assms
proof (cases rule: Claim_outcome)
  case (leased s1 j row owner)
  let ?f = "leaseRow (attempt_count row + 1) owner (clock (2 * j + 1)) (Microseconds d) (lease_generation row + 1)"
  note row = eligible_attempts_left [OF leased(3-5)]
  have "?f row \<in> set (jobs s')"
    unfolding leased(6) jobs_leasedTables set_map by (rule image_eqI [OF _ row(3)]) simp
  moreover have "0 \<le> lease_generation row" using dbInv_rowInv [OF leased(1) row(3)] by (simp add: rowInv_def)
  moreover have "p = leasePermit w row" using leased(7) by simp
  ultimately show ?thesis
    using leased(8-10) by (intro that [of "?f row" "2 * j + 1"]) (simp_all add: leaseRow_def)
qed simp_all

text \<open>
  C15. Once a claim has handed out a permit for a job, every permit of an earlier generation for
  that job is stale in every later state of every run, late heartbeats included: asserting it,
  reading the command, heartbeat, both completions, both retries, failure and cancel
  acknowledgement all fail with \<open>ErrStalePermit\<close> and leave the tables as they are, except that an
  operation that is given an invalid duration or a result that is not JSON says so first.
\<close>

theorem superseded_permit_refused:
  assumes inv: "dbInv s" and fresh: "callbackFresh st"
    and claim: "Claim st clock locked w d s = (s1, Inr (Some p))"
    and run: "qrun st (t1, s1) (t2, s2)"
    and q: "permit_JobID q = permit_JobID p" "permit_LeaseGeneration q < permit_LeaseGeneration p"
      "permit_WorkerID q \<noteq> []" "0 < permit_LeaseGeneration q"
  shows "AssertPermit q now s2 = Inl ErrStalePermit \<and>
    GetCommand q now s2 = Inl ErrStalePermit \<and>
    Heartbeat q dur now s2 = (s2, Inl (if Microseconds dur \<le> 0
      then ErrInvalid ''lease duration must be positive'' else ErrStalePermit)) \<and>
    Succeed st q res now s2 = (s2, Inl (if marshalable (GObject (case res of None \<Rightarrow> [] | Some v \<Rightarrow> v))
      then ErrStalePermit else ErrInvalid ''job result is not valid JSON'')) \<and>
    CompleteAcceptedResult st q res now s2 = (s2, Inl (if marshalable (GObject (case res of None \<Rightarrow> [] | Some v \<Rightarrow> v))
      then ErrStalePermit else ErrInvalid ''job result is not valid JSON'')) \<and>
    RetryAt st q err nb now s2 = (s2, Inl ErrStalePermit) \<and>
    RetryAfter st q err delay now s2 = (s2, Inl (if delay \<le> 0
      then ErrInvalid ''retry delay must be positive'' else ErrStalePermit)) \<and>
    Fail st q err now s2 = (s2, Inl ErrStalePermit) \<and>
    AcknowledgeCancel st q now s2 = (s2, Inl ErrStalePermit)"
proof -
  obtain r where r: "r \<in> set (jobs s1)" "row_id r = permit_JobID p"
    "lease_generation r = permit_LeaseGeneration p"
    using Claim_permit_row [OF claim inv fresh] by metis
  have inv1: "dbInv s1" using dbInv_Claim [OF claim inv fresh] .
  have "keepsRows s1 s2" using qrun_keepsRows [OF run fresh] inv1 by simp
  then obtain r2 where r2: "r2 \<in> set (jobs s2)" "row_id r2 = permit_JobID q"
    "permit_LeaseGeneration p \<le> lease_generation r2"
    using r q unfolding keepsRows_def sameFrame_def by metis
  have inv2: "dbInv s2" using qrun_dbInv [OF run fresh] inv1 by simp
  have stale: "lockPermit q sts now s2 = Inl ErrStalePermit" for sts
    using selectJob_eq [OF inv2 r2(1)] r2(2,3) q by (simp add: lockPermit_def permitValidate_def)
  show ?thesis
    unfolding CompleteAcceptedResult_def Succeed_def
    by (intro conjI) (simp_all add: AssertPermit_def GetCommand_def stale heartbeat.stale complete_op.stale
        retryAt.stale retryAfter.stale fail_op.stale ackCancel.stale ensureE_def objectJSON_def Let_def
        del: marshalable.simps)
qed

theorem superseded_permit_refused_witness:
  "Succeed demoStore demoPermit None 65 demoReclaimed = (demoReclaimed, Inl ErrStalePermit) \<and>
   Heartbeat demoPermit 0 65 demoReclaimed = (demoReclaimed, Inl (ErrInvalid ''lease duration must be positive''))"
  using superseded_permit_refused [OF demoLeased_inv demoStore_fresh demoReclaim qrun.stop, of demoPermit 65 0 None]
  by (simp add: demoPermit_def Microseconds_def)

text \<open>Rows other than the one finished survive a round of the claim loop.\<close>

lemma quiet_cancel_other:
  assumes "r \<in> set (jobs s)" "row_id r \<noteq> i"
  shows "cancelLocked st i n g now fin s = Inr s' \<Longrightarrow> r \<in> set (jobs s')"
    and "row_id row = i \<Longrightarrow> expireExhausted st row now s = Inr s' \<Longrightarrow> r \<in> set (jobs s')"
proof -
  have enq: "enqueueTx st [] c t j x = Inr (y, k) \<Longrightarrow> set (jobs x) \<subseteq> set (jobs y)" for c t j x y k
    by (erule enqueueTx_serial_cases) (auto elim!: InsertJob_SomeD)
  have "enqueueAll st cs x = Inr y \<Longrightarrow> set (jobs x) \<subseteq> set (jobs y)" for cs x y
    by (induction cs arbitrary: x) (fastforce split: sum.splits dest: enq)+
  then have notify: "notifyTerminal st j x = Inr y \<Longrightarrow> set (jobs x) \<subseteq> set (jobs y)" for j x y
    by (fastforce simp: notifyTerminal_def split: option.splits sum.splits)
  show "cancelLocked st i n g now fin s = Inr s' \<Longrightarrow> r \<in> set (jobs s')"
    unfolding cancelLocked_def Let_def
    by (drule notify) (use assms in \<open>force simp: CancelJob_def split: if_splits\<close>)
  show "row_id row = i \<Longrightarrow> expireExhausted st row now s = Inr s' \<Longrightarrow> r \<in> set (jobs s')"
    by (simp only: expireExhausted_def Let_def FinishJob_def expiry_message if_True option.case, drule notify)
       (use assms in force)
qed

lemma claimLoop_keeps_active:
  assumes "claimLoop st clock locked w d k s = Inr (s', po)"
    and "r \<in> set (jobs s)" "\<And>n. activeAt (clock n) r" "dbInv s" "callbackFresh st"
  shows "r \<in> set (jobs s') \<and> (\<forall>p. po = Some p \<longrightarrow> permit_JobID p \<noteq> row_id r)"
  using assms
proof (induction st clock locked w d k s rule: claimLoop.induct)
  case (1 st clock locked w d k s)
  show ?case
  proof (cases "LockEligibleJob (clock (2 * k)) locked s")
    case None
    then show ?thesis using "1.prems"(1,2) by (simp add: claimLoop.simps)
  next
    case (Some row)
    have row: "row \<in> set (jobs s)" "eligible (clock (2 * k)) s row"
      using LockEligibleJob_SomeD [OF Some] by auto
    have "\<not> eligibleStatus (clock (2 * k)) r"
      using "1.prems"(3) [of "2 * k"]
      by (cases "status r") (auto simp: eligibleStatus_def activeAt_def split: option.splits)
    then have "r \<noteq> row" using row(2) by (auto simp: eligible_def)
    then have other: "row_id r \<noteq> row_id row"
      using row(1) "1.prems"(2,4) row_id_unique [of s] by (auto simp: dbInv_def)
    consider (cancel) "status row = CancelRequested"
      | (expire) "status row \<noteq> CancelRequested" "status row = Leased \<and> attempt_count row \<ge> max_attempts row"
      | (lease) "status row \<noteq> CancelRequested"
        "\<not> (status row = Leased \<and> attempt_count row \<ge> max_attempts row)" by blast
    then show ?thesis
    proof cases
      case cancel
      then obtain s1 where c: "cancelLocked st (row_id row) (attempt_count row)
          (lease_generation row) (clock (2 * k + 1)) True s = Inr s1"
        and rest: "claimLoop st clock locked w d (Suc k) s1 = Inr (s', po)"
        using "1.prems"(1) Some by (auto simp: claimLoop.simps [of st clock locked w d k] split: sum.splits)
      show ?thesis
        by (rule "1.IH"(1) [OF Some refl cancel c rest quiet_cancel_other(1) [OF "1.prems"(2) other c]
          "1.prems"(3) dbInv_claim_round(1) [OF Some "1.prems"(4,5) cancel c] "1.prems"(5)])
    next
      case expire
      then obtain s1 where c: "expireExhausted st row (clock (2 * k + 1)) s = Inr s1"
        and rest: "claimLoop st clock locked w d (Suc k) s1 = Inr (s', po)"
        using "1.prems"(1) Some by (auto simp: claimLoop.simps [of st clock locked w d k] split: sum.splits)
      show ?thesis
        by (rule "1.IH"(2) [OF Some refl expire c rest quiet_cancel_other(2) [OF "1.prems"(2) other refl c]
          "1.prems"(3) dbInv_claim_round(2) [OF Some "1.prems"(4,5) conjunct1 [OF expire(2)] c] "1.prems"(5)])
    next
      case lease
      then show ?thesis using "1.prems"(1,2) Some other
        by (auto simp: claimLoop.simps [of st clock locked w d k] Let_def leaseClaimed_eq
            jobs_leasedTables image_iff split: option.splits)
    qed
  qed
qed

text \<open>
  C17. A claim never takes a job whose lease has not run out: while the lease is unexpired at
  every clock reading the claim makes, the row is left unchanged and the permit handed out, if
  any, is for another job.
\<close>

theorem claim_respects_live_leases:
  assumes "Claim st clock locked w d s = (s', res)" "dbInv s" "callbackFresh st"
    and "r \<in> set (jobs s)" "\<forall>n. activeAt (clock n) r"
  shows "r \<in> set (jobs s') \<and> (\<forall>p. res = Inr (Some p) \<longrightarrow> permit_JobID p \<noteq> row_id r)"
  using assms claimLoop_keeps_active [OF _ assms(4) _ assms(2,3)]
  by (auto simp: Claim_def split: if_splits elim!: transaction_cases)

theorem claim_respects_live_leases_witness:
  "hd (jobs demoLeased) \<in> set (jobs (fst (Claim demoStore (\<lambda>_. 30) (\<lambda>_. False) ''w2'' 30000 demoLeased)))"
  using claim_respects_live_leases [OF surjective_pairing demoLeased_inv demoStore_fresh,
      of "hd (jobs demoLeased)" "\<lambda>_. 30"]
  by (simp add: demoLeased_jobs activeAt_def)

section \<open>Concurrency limits\<close>

text \<open>
  C25. Concurrency keys are respected across all workers: in every run in which no heartbeat
  commits after the lease it renews has run out, the number of jobs with a given nonempty
  concurrency key that hold an unexpired lease never exceeds a bound on the limits those jobs
  were enqueued with.
\<close>

theorem concurrency_limit_respected:
  assumes "timelyRun st (t0, s0) (t, s)" "callbackFresh st" "jobs s0 = []" "job_attempts s0 = []"
    and "key \<noteq> []"
    and "\<forall>r \<in> set (jobs s). concurrency_key r = key \<longrightarrow> concurrency_limit r \<le> int M"
  shows "activeOnKey t key s \<le> M"
  using timelyRun_limit [OF assms(1,2), of key M] assms(3-6) by (simp add: dbInv_def activeOnKey_def)

theorem concurrency_limit_respected_witness:
  "activeOnKey 20 ''sync'' demoLeased \<le> 1 \<and> activeOnKey 20 ''sync'' demoLeased = 1"
  using concurrency_limit_respected [OF demoRun demoStore_fresh, of "''sync''" 1]
  by (simp add: demoEmpty_def demoLeased_jobs activeOnKey_def activeAt_def)

definition demoCommand2 :: Command where
  "demoCommand2 = demoCommand\<lparr>cmd_OperationKey := ''sync:8''\<rparr>"

definition demoTwo :: "unit db" where
  "demoTwo = fst (Enqueue demoStore [] demoCommand2 30 [2] demoLeased)"

definition demoOverlap :: "unit db" where
  "demoOverlap = fst (Claim demoStore (\<lambda>_. 51) (\<lambda>i. i = [1]) ''w2'' 30000 demoTwo)"

definition demoRevived :: "unit db" where
  "demoRevived = fst (Heartbeat demoPermit 30000 49 demoOverlap)"

lemma demoTwo_jobs:
  "jobs demoTwo = jobs demoLeased @ [\<lparr>row_id = [2], job_type = ''SYNC_SOURCE'', target_type = ''source'',
     target_id = [7], payload = [], operation_key = ''sync:8'', concurrency_key = ''sync'',
     concurrency_limit = 1, status = Pending, attempt_count = 0, max_attempts = 2, progress = 0,
     lease_owner = None, lease_expires_at = None, lease_generation = 0, not_before = None,
     job_result = None, sanitized_error = None, created_at = 30, updated_at = 30,
     started_at = None, finished_at = None\<rparr>]"
  "model_profiles demoTwo = []"
  by (simp_all add: demoTwo_def Enqueue_def transaction_def enqueueTx_def withDefaults_def
      demoCommand2_def demoCommand_def commandValidate_def ValidType_def validTypes_def ensureE_def
      enqueueLoop.simps InsertJob_def demoLeased_jobs demoLeased_profiles demoStore_def)

lemma demoOverlap_jobs:
  "jobs demoOverlap = jobs demoLeased @
     [leaseRow 1 ''w2'' 51 30 1 (last (jobs demoTwo))]"
  by (simp add: demoOverlap_def Claim_def transaction_def Microseconds_def claimLoop.simps
      LockEligibleJob_def demoTwo_jobs demoLeased_jobs eligible_def eligibleStatus_def activeOnKey_def
      activeAt_def leaseClaimed_eq leasedTables_def Let_def)

lemma demoRevived_jobs:
  "jobs demoRevived = [heartbeatRow 49 30 (hd (jobs demoLeased)), leaseRow 1 ''w2'' 51 30 1 (last (jobs demoTwo))]"
  by (simp add: demoRevived_def Heartbeat_def transaction_def Microseconds_def lockPermit_def
      permitValidate_def demoPermit_def selectJob_def demoOverlap_jobs demoLeased_jobs demoTwo_jobs
      containsStatus_def HeartbeatJob_def leaseRow_def Let_def)

text \<open>
  The condition of the limit is needed. A worker's heartbeat reads the clock and locks its row
  one microsecond before its lease ends; a claim by another worker passes over the locked row,
  counts the lease as expired and leases the second job of the key; the heartbeat commits. Two jobs
  of a key limited to one then hold unexpired leases.
\<close>

lemma concurrency_limit_race:
  "\<exists>s. qrun demoStore (0, demoEmpty) (52, s) \<and> map concurrency_key (jobs s) = [''sync'', ''sync''] \<and>
     map concurrency_limit (jobs s) = [1, 1] \<and> activeOnKey 52 ''sync'' s = 2"
proof (intro exI conjI)
  have "qrun demoStore (0, demoEmpty) (30, demoTwo)"
    unfolding demoTwo_def
    by (rule qrun.more [OF timelyRun_qrun [OF demoRun] qstep.enqueue [OF _ order_refl _ surjective_pairing]])
       (simp_all add: demoLeased_jobs)
  moreover have "qstep demoStore (30, demoTwo) (51, demoOverlap)"
    unfolding demoOverlap_def by (rule qstep.claim [OF _ _ surjective_pairing]) simp_all
  moreover have "qstep demoStore (51, demoOverlap) (52, demoRevived)"
    unfolding demoRevived_def by (rule qstep.heartbeat [where u = 49, OF _ _ surjective_pairing]) simp_all
  ultimately show "qrun demoStore (0, demoEmpty) (52, demoRevived)" by (meson qrun.intros)
qed (simp_all add: demoRevived_jobs demoLeased_jobs demoTwo_jobs leaseRow_def heartbeatRow_def
  activeOnKey_def activeAt_def)

text \<open>
  C26. Durable model jobs and direct model calls share one admission per provider endpoint: in any
  run, whatever operators do to the profiles meanwhile, a step that is not itself an edit of the
  profiles or a late heartbeat either does not raise the number of open call leases and leased jobs
  of an endpoint, or raises it to at most the smallest concurrency its profiles have then.
\<close>

theorem endpoint_admission_respected:
  assumes "qrun st (t0, s0) (t, s)" "callbackFresh st" "jobs s0 = []" "job_attempts s0 = []"
    and "distinct (map profile_id (model_profiles s0))"
    and "qstep st (t, s) (t', s')" "\<not> lateHeartbeat (t, s) (t', s')" "model_profiles s' = model_profiles s"
    and "endpointCapacity endpoint s = Some c"
  shows "endpointOccupied t' endpoint s' \<le> endpointOccupied t endpoint s \<or>
    int (endpointOccupied t' endpoint s') \<le> c"
proof -
  have "dbInv s0" using assms(3,4) by (simp add: dbInv_def)
  then show ?thesis
    using qstep_endpoint [OF assms(6) _ assms(2,7,8) _ assms(9)] qrun_dbInv [OF assms(1,2)]
      qrun_profiles_distinct [OF assms(1,2)] assms(5) by simp
qed

definition demoProfiles :: "unit db" where
  "demoProfiles = demoEmpty\<lparr>model_profiles := [\<lparr>profile_id = [3], profile_endpoint_id = [4],
     profile_max_concurrent_tasks = Some 1\<rparr>]\<rparr>"

definition demoCalling :: "unit db" where
  "demoCalling = fst (transaction (tryModelCall [3] 1000000000 5 [8]) demoProfiles)"

theorem endpoint_admission_respected_witness:
  "int (endpointOccupied 5 [4] demoCalling) \<le> 1 \<and> endpointOccupied 5 [4] demoCalling = 1 \<and>
   endpointOccupied 0 [4] demoProfiles = 0"
proof -
  have "qstep demoStore (0, demoProfiles) (5, demoCalling)"
    unfolding demoCalling_def by (rule qstep.modelCall [OF _ order_refl surjective_pairing]) simp
  moreover have "\<not> lateHeartbeat (0, demoProfiles) (5, demoCalling)"
    using lateHeartbeat_leased [of "(0, demoProfiles)"] by (auto simp: demoProfiles_def demoEmpty_def)
  ultimately show ?thesis
    using endpoint_admission_respected [OF qrun.stop demoStore_fresh,
        where t = 0 and s = demoProfiles and t' = 5 and s' = demoCalling and endpoint = "[4]" and c = 1]
    by (simp add: demoProfiles_def demoEmpty_def endpointCapacity_def demoCalling_def
        tryModelCall_def transaction_def endpointOccupied_def Let_def)
qed

section \<open>Claims find work\<close>

text \<open>What the claim loop makes of a job whose lease ran out while its cancellation was requested
  or in its last attempt.\<close>

definition recoveredRow :: "(nat \<Rightarrow> pgtime) \<Rightarrow> Job \<Rightarrow> Job \<Rightarrow> bool" where
  "recoveredRow clock r r' \<longleftrightarrow> (\<exists>k. leaseExpired (clock (2 * k)) r \<and>
     (status r = CancelRequested \<and> r' = cancelRow (clock (2 * k + 1)) r \<or>
      status r = Leased \<and> max_attempts r \<le> attempt_count r \<and>
        r' = finishRow Failed None None (Some ''lease expired after final attempt'') (clock (2 * k + 1)) True r))"

lemma recoveredRow_final: "recoveredRow clock r r' \<Longrightarrow> \<not> activeStatus (status r')"
  by (auto simp: recoveredRow_def row_simps)

lemma recoveredRow_active: "recoveredRow clock r r' \<Longrightarrow> activeStatus (status r)"
  by (auto simp: recoveredRow_def)

lemma eligible_held_expired: "eligible t s r \<Longrightarrow> heldStatus (status r) \<Longrightarrow> leaseExpired t r"
  by (cases "status r") (auto simp: eligible_def eligibleStatus_def leaseExpired_def split: option.splits)

text \<open>One recovered row, then the recoveries of the later rounds.\<close>

lemma recovered_compose:
  assumes inv: "dbInv s" and row: "row \<in> set (jobs s)" and rec: "recoveredRow clock row (f row)"
    and s1: "jobs s1 = map (\<lambda>r. if row_id r = row_id row then f r else r) (jobs s)"
    and s2: "jobs s2 = map h (jobs s1)" "\<forall>r \<in> set (jobs s1). h r = r \<or> recoveredRow clock r (h r)"
  shows "\<exists>h. jobs s2 = map h (jobs s) \<and> (\<forall>r \<in> set (jobs s). h r = r \<or> recoveredRow clock r (h r))"
proof -
  let ?g = "\<lambda>r. if row_id r = row_id row then f r else r"
  have one: "r = row" if "r \<in> set (jobs s)" "row_id r = row_id row" for r
    using that row inv row_id_unique [of s] by (auto simp: dbInv_def)
  have stays: "h (f row) = f row"
    using s2(2) row recoveredRow_final [OF rec] recoveredRow_active unfolding s1 by auto
  have "h (?g r) = r \<or> recoveredRow clock r (h (?g r))" if "r \<in> set (jobs s)" for r
    using one [OF that] that stays rec s2(2) unfolding s1 by (cases "row_id r = row_id row") auto
  then show ?thesis by (intro exI [of _ "h \<circ> ?g"]) (simp add: s1 s2(1))
qed

text \<open>How the loop ends: with nothing eligible, or with the lease of the first candidate.\<close>

definition claimEnds ::
  "(nat \<Rightarrow> pgtime) \<Rightarrow> (JobID \<Rightarrow> bool) \<Rightarrow> WorkerID \<Rightarrow> string \<Rightarrow> duration \<Rightarrow> nat \<Rightarrow> 'w db \<Rightarrow> 'w db \<Rightarrow>
   Permit option \<Rightarrow> bool" where
  "claimEnds clock locked w owner d j s1 s' po \<longleftrightarrow>
     (case LockEligibleJob (clock (2 * j)) locked s1 of
        None \<Rightarrow> s' = s1 \<and> po = None
      | Some row \<Rightarrow> status row \<noteq> CancelRequested \<and>
          \<not> (status row = Leased \<and> attempt_count row \<ge> max_attempts row) \<and>
          s' = leasedTables owner d (clock (2 * j + 1)) row s1 \<and> po = Some (leasePermit w row))"

lemma claimLoop_work:
  assumes "terminalCallback st = None" "varchar 255 w = Some owner" "dbInv s"
  shows "\<exists>s' po s1 h j. claimLoop st clock locked w d k s = Inr (s', po) \<and>
    jobs s1 = map h (jobs s) \<and> (\<forall>r \<in> set (jobs s). h r = r \<or> recoveredRow clock r (h r)) \<and>
    model_profiles s1 = model_profiles s \<and> provider_call_leases s1 = provider_call_leases s \<and>
    claimEnds clock locked w owner d j s1 s' po"
  using assms
proof (induction st clock locked w d k s rule: claimLoop.induct)
  case (1 st clock locked w d k s)
  have fresh: "callbackFresh st" using "1.prems"(1) by (simp add: callbackFresh_def)
  let ?now = "clock (2 * k + 1)"
  show ?case
  proof (cases "LockEligibleJob (clock (2 * k)) locked s")
    case None
    then show ?thesis
      by (intro exI [of _ s] exI [of _ None] exI [of _ id] exI [of _ k])
         (simp add: claimLoop.simps claimEnds_def)
  next
    case (Some row)
    have row: "row \<in> set (jobs s)" "eligible (clock (2 * k)) s row" using LockEligibleJob_SomeD [OF Some] by auto
    consider (cancel) "status row = CancelRequested"
      | (expire) "status row = Leased" "attempt_count row \<ge> max_attempts row"
      | (lease) "status row \<noteq> CancelRequested" "\<not> (status row = Leased \<and> attempt_count row \<ge> max_attempts row)"
      by blast
    then show ?thesis
    proof cases
      case cancel
      then obtain s1 where c: "cancelLocked st (row_id row) (attempt_count row) (lease_generation row) ?now True s = Inr s1"
        and js: "jobs s1 = map (\<lambda>r. if row_id r = row_id row then cancelRow ?now r else r) (jobs s)"
        and frame: "model_profiles s1 = model_profiles s" "provider_call_leases s1 = provider_call_leases s"
        using "1.prems"(1) by (simp add: cancelLocked_def Let_def notifyTerminal_def CancelJob_def)
      have unfold: "claimLoop st clock locked w d k s = claimLoop st clock locked w d (Suc k) s1"
        using Some cancel c by (simp add: claimLoop.simps [of st clock locked w d k])
      have rec: "recoveredRow clock row (cancelRow ?now row)"
        using cancel eligible_held_expired [OF row(2)] by (auto simp: recoveredRow_def)
      from "1.IH"(1) [OF Some refl cancel c "1.prems"(1,2) dbInv_claim_round(1) [OF Some "1.prems"(3) fresh cancel c]]
      obtain s' po s2 h j where ih: "claimLoop st clock locked w d (Suc k) s1 = Inr (s', po)"
        "jobs s2 = map h (jobs s1)" "\<forall>r \<in> set (jobs s1). h r = r \<or> recoveredRow clock r (h r)"
        "model_profiles s2 = model_profiles s1" "provider_call_leases s2 = provider_call_leases s1"
        "claimEnds clock locked w owner d j s2 s' po" by blast
      from recovered_compose [OF "1.prems"(3) row(1) rec js ih(2,3)] ih(1,4-6) frame unfold
      show ?thesis by auto
    next
      case expire
      then obtain s1 where c: "expireExhausted st row ?now s = Inr s1"
        and js: "jobs s1 = map (\<lambda>r. if row_id r = row_id row then finishRow Failed None None
          (Some ''lease expired after final attempt'') ?now True r else r) (jobs s)"
        and frame: "model_profiles s1 = model_profiles s" "provider_call_leases s1 = provider_call_leases s"
        using "1.prems"(1) by (simp add: expireExhausted_def Let_def notifyTerminal_def FinishJob_def)
      have nc: "status row \<noteq> CancelRequested" "status row = Leased \<and> attempt_count row \<ge> max_attempts row"
        using expire by simp_all
      have unfold: "claimLoop st clock locked w d k s = claimLoop st clock locked w d (Suc k) s1"
        using Some nc c by (simp add: claimLoop.simps [of st clock locked w d k])
      have rec: "recoveredRow clock row (finishRow Failed None None
          (Some ''lease expired after final attempt'') ?now True row)"
        using expire eligible_held_expired [OF row(2)] by (auto simp: recoveredRow_def)
      from "1.IH"(2) [OF Some refl nc c "1.prems"(1,2) dbInv_claim_round(2) [OF Some "1.prems"(3) fresh expire(1) c]]
      obtain s' po s2 h j where ih: "claimLoop st clock locked w d (Suc k) s1 = Inr (s', po)"
        "jobs s2 = map h (jobs s1)" "\<forall>r \<in> set (jobs s1). h r = r \<or> recoveredRow clock r (h r)"
        "model_profiles s2 = model_profiles s1" "provider_call_leases s2 = provider_call_leases s1"
        "claimEnds clock locked w owner d j s2 s' po" by blast
      from recovered_compose [OF "1.prems"(3) row(1) rec js ih(2,3)] ih(1,4-6) frame unfold
      show ?thesis by auto
    next
      case lease
      then have "claimLoop st clock locked w d k s =
          Inr (leasedTables owner d ?now row s, Some (leasePermit w row))"
        using Some "1.prems"(2)
        by (auto simp: claimLoop.simps [of st clock locked w d k] Let_def leaseClaimed_eq leasePermit_def)
      then show ?thesis using lease Some
        by (intro exI [of _ "leasedTables owner d ?now row s"] exI [of _ "Some (leasePermit w row)"]
            exI [of _ s] exI [of _ id] exI [of _ k]) (simp add: claimEnds_def)
    qed
  qed
qed

text \<open>
  C27. When no terminal callback is installed, a claim by a worker whose name the database takes,
  for a lease of at least a microsecond, always returns, whatever work is held or expired. The jobs
  whose lease ran out while their cancellation was requested or in their last attempt, as far as
  the loop meets them, are finished, and no other row changes before the lease. It then hands out a
  permit exactly if some row that is not locked is eligible: for the one that was created first,
  ties broken by identifier, which has attempts left and of which it leases a new generation.
\<close>

theorem claim_work_conserving:
  assumes "terminalCallback st = None" "dbInv s" "w \<noteq> []" "varchar 255 w = Some owner" "1000 \<le> d"
  shows "\<exists>s' po s1 h j. Claim st clock locked w d s = (s', Inr po) \<and>
    jobs s1 = map h (jobs s) \<and> (\<forall>r \<in> set (jobs s). h r = r \<or> recoveredRow clock r (h r)) \<and>
    model_profiles s1 = model_profiles s \<and> provider_call_leases s1 = provider_call_leases s \<and>
    (case po of
       None \<Rightarrow> s' = s1 \<and> \<not> (\<exists>r \<in> set (jobs s1). eligible (clock j) s1 r \<and> \<not> locked (row_id r))
     | Some p \<Rightarrow> \<exists>r \<in> set (jobs s1). row_id r = permit_JobID p \<and>
         permit_LeaseGeneration p = lease_generation r + 1 \<and>
         eligible (clock j) s1 r \<and> \<not> locked (row_id r) \<and>
         status r \<noteq> CancelRequested \<and> attempt_count r < max_attempts r \<and>
         (\<forall>q \<in> set (jobs s1). eligible (clock j) s1 q \<and> \<not> locked (row_id q) \<longrightarrow>
            (created_at r, row_id r) \<le> (created_at q, row_id q)) \<and>
         jobs s' = map (\<lambda>q. if row_id q = row_id r then leaseRow (attempt_count r + 1) owner (clock (Suc j))
           (Microseconds d) (lease_generation r + 1) q else q) (jobs s1))"
proof -
  have pos: "\<not> Microseconds d \<le> 0" using Microseconds_pos_iff [of d] assms(5) by simp
  obtain s' po s1 h j where l: "claimLoop st clock locked w d 0 s = Inr (s', po)"
    "jobs s1 = map h (jobs s)" "\<forall>r \<in> set (jobs s). h r = r \<or> recoveredRow clock r (h r)"
    "model_profiles s1 = model_profiles s" "provider_call_leases s1 = provider_call_leases s"
    and ends: "claimEnds clock locked w owner d j s1 s' po"
    using claimLoop_work [OF assms(1,4,2), of clock locked d 0] by blast
  have "case po of
       None \<Rightarrow> s' = s1 \<and> \<not> (\<exists>r \<in> set (jobs s1). eligible (clock (2 * j)) s1 r \<and> \<not> locked (row_id r))
     | Some p \<Rightarrow> \<exists>r \<in> set (jobs s1). row_id r = permit_JobID p \<and>
         permit_LeaseGeneration p = lease_generation r + 1 \<and>
         eligible (clock (2 * j)) s1 r \<and> \<not> locked (row_id r) \<and>
         status r \<noteq> CancelRequested \<and> attempt_count r < max_attempts r \<and>
         (\<forall>q \<in> set (jobs s1). eligible (clock (2 * j)) s1 q \<and> \<not> locked (row_id q) \<longrightarrow>
            (created_at r, row_id r) \<le> (created_at q, row_id q)) \<and>
         jobs s' = map (\<lambda>q. if row_id q = row_id r then leaseRow (attempt_count r + 1) owner (clock (Suc (2 * j)))
           (Microseconds d) (lease_generation r + 1) q else q) (jobs s1)"
  proof (cases "LockEligibleJob (clock (2 * j)) locked s1")
    case None
    then show ?thesis using ends by (auto simp: claimEnds_def LockEligibleJob_def filter_empty_conv)
  next
    case (Some r)
    then have p: "status r \<noteq> CancelRequested" "\<not> (status r = Leased \<and> attempt_count r \<ge> max_attempts r)"
      "s' = leasedTables owner d (clock (2 * j + 1)) r s1" "po = Some (leasePermit w r)"
      using ends by (simp_all add: claimEnds_def)
    have least: "claimKey r \<le> claimKey q"
      if "q \<in> set (jobs s1)" "eligible (clock (2 * j)) s1 q" "\<not> locked (row_id q)" for q
      using earliest_least [OF Some [unfolded LockEligibleJob_def]] that by simp
    show ?thesis
      unfolding p(4) option.case
      by (rule bexI [of _ r]) (use LockEligibleJob_SomeD [OF Some] eligible_attempts_left(2) [OF Some p(1,2)] least p(1) in
        \<open>simp_all add: p(3) jobs_leasedTables claimKey_def\<close>)
  qed
  moreover have "Claim st clock locked w d s = (s', Inr po)"
    using l(1) assms(3) pos by (simp add: Claim_def transaction_def)
  ultimately show ?thesis using l(2-5) by blast
qed

definition demoAsked :: "unit db" where
  "demoAsked = fst (RequestCancel demoStore [1] 25 demoLeased)"

lemma demoAsked_jobs: "jobs demoAsked = [requestRow 25 (hd (jobs demoLeased))]"
  by (simp add: demoAsked_def RequestCancel_def transaction_def requestCancel_def leaseExpired_def
      selectJob_def demoLeased_jobs RequestJobCancellation_def Let_def)

lemma demoAsked_inv [simp]: "dbInv demoAsked"
  unfolding demoAsked_def RequestCancel_def
  by (cases "requestCancel demoStore [1] 25 demoLeased") (auto simp: transaction_def dest: dbInv_requestCancel)

lemma demoAsked_profiles: "model_profiles demoAsked = []"
  by (simp add: demoAsked_def RequestCancel_def transaction_def requestCancel_def leaseExpired_def
      selectJob_def demoLeased_jobs demoLeased_profiles RequestJobCancellation_def Let_def)

theorem claim_work_conserving_witness:
  "(\<exists>s' po. Claim demoStore (\<lambda>_. 60) (\<lambda>_. False) ''w2'' 30000 demoAsked = (s', Inr po)) \<and>
   map status (jobs demoAsked) = [CancelRequested] \<and>
   map status (jobs (fst (Claim demoStore (\<lambda>_. 60) (\<lambda>_. False) ''w2'' 30000 demoAsked))) = [Cancelled]"
proof -
  have "\<exists>s' po. Claim demoStore (\<lambda>_. 60) (\<lambda>_. False) ''w2'' 30000 demoAsked = (s', Inr po)"
    using claim_work_conserving [of demoStore demoAsked "''w2''" "''w2''" 30000 "\<lambda>_. 60" "\<lambda>_. False"]
    by (simp add: demoStore_def) blast
  moreover have "map status (jobs (fst (Claim demoStore (\<lambda>_. 60) (\<lambda>_. False) ''w2'' 30000 demoAsked))) = [Cancelled]"
    by (simp add: Claim_def transaction_def Microseconds_def claimLoop.simps LockEligibleJob_def
        demoAsked_jobs demoAsked_profiles demoLeased_jobs requestRow_def eligible_def eligibleStatus_def
        activeOnKey_def activeAt_def cancelLocked_def notifyTerminal_def CancelJob_def cancelRow_def
        demoStore_def Let_def)
  ultimately show ?thesis by (simp add: demoAsked_jobs row_simps)
qed

section \<open>Enqueueing\<close>

definition columnsAccept :: "Command \<Rightarrow> bool" where
  "columnsAccept c \<longleftrightarrow> varchar 64 (cmd_TargetType c) \<noteq> None \<and> pgText (cmd_OperationKey c) \<and>
     pgText (cmd_ConcurrencyKey c) \<and>
     pgJson (GObject (case cmd_Payload c of None \<Rightarrow> [] | Some p \<Rightarrow> p))"

text \<open>What the insert does with a valid command whose key fits.\<close>

lemma InsertJob_outcome:
  assumes "commandValidate c = Inr ()" "RuneCountInString (cmd_OperationKey c) \<le> 512"
  shows "InsertJob c nb now i s = Inl ErrDatabase \<and> \<not> columnsAccept c \<or>
    columnsAccept c \<and>
      (if \<exists>r \<in> set (jobs s). operation_key r = cmd_OperationKey c \<and> activeStatus (status r)
       then InsertJob c nb now i s = Inr None
       else \<exists>r. InsertJob c nb now i s = Inr (Some (s\<lparr>jobs := jobs s @ [r]\<rparr>)) \<and> row_id r = i \<and>
         status r = Pending \<and> operation_key r = cmd_OperationKey c \<and> attempt_count r = 0 \<and>
         concurrency_key r = cmd_ConcurrencyKey c)"
proof -
  have len: "RuneCountInString (cmd_ConcurrencyKey c) \<le> 512"
    using assms(1) RuneCount_le_length [of "cmd_ConcurrencyKey c"]
    by (auto simp: commandValidate_ok_iff split: if_splits)
  have key: "varchar 512 (cmd_OperationKey c) = (if pgText (cmd_OperationKey c) then Some (cmd_OperationKey c) else None)"
    using varchar_fits [OF _ assms(2)] by (auto simp: varchar_def)
  have ckey: "varchar 512 (cmd_ConcurrencyKey c) = (if pgText (cmd_ConcurrencyKey c) then Some (cmd_ConcurrencyKey c) else None)"
    using varchar_fits [OF _ len] by (auto simp: varchar_def)
  show ?thesis
    by (cases "varchar 64 (cmd_TargetType c)")
       (auto simp: InsertJob_def columnsAccept_def Let_def key ckey simp del: pgJson.simps)
qed

text \<open>
  C28. Enqueueing is idempotent per operation key: called while no other transaction commits, with
  a valid command whose key has at most 512 characters, it fails with the tables unchanged when a
  column refuses one of the command's values; otherwise it returns the active job that already
  has the key and changes nothing, or, when there is none, appends exactly one pending row under
  the generated identifier.
\<close>

theorem enqueue_idempotent:
  assumes "commandValidate (withDefaults c) = Inr ()"
    and "marshalable (GObject (case cmd_Payload c of None \<Rightarrow> [] | Some p \<Rightarrow> p))"
    and "RuneCountInString (cmd_OperationKey c) \<le> 512"
  shows "if \<not> columnsAccept c then Enqueue st [] c now newid s = (s, Inl ErrDatabase)
    else if \<exists>r \<in> set (jobs s). operation_key r = cmd_OperationKey c \<and> activeStatus (status r)
    then \<exists>r \<in> set (jobs s). operation_key r = cmd_OperationKey c \<and> activeStatus (status r) \<and>
      Enqueue st [] c now newid s = (s, Inr (row_id r))
    else \<exists>r. snd (Enqueue st [] c now newid s) = Inr newid \<and>
      jobs (fst (Enqueue st [] c now newid s)) = jobs s @ [r] \<and> row_id r = newid \<and>
      status r = Pending \<and> operation_key r = cmd_OperationKey c \<and> attempt_count r = 0 \<and>
      concurrency_key r = cmd_ConcurrencyKey c"
proof -
  let ?nb = "map_option (encodeTime st) (cmd_NotBefore c)"
  have accept: "columnsAccept (withDefaults c) = columnsAccept c"
    by (auto simp: columnsAccept_def withDefaults_def split: option.splits)
  have enq: "Enqueue st [] c now newid s = transaction (enqueueLoop [] (withDefaults c) ?nb now newid) s"
    using assms(1,2) by (simp add: Enqueue_def transaction_def enqueueTx_def ensureE_def Let_def)
       (simp add: withDefaults_def)
  note ins = InsertJob_outcome [OF assms(1), of ?nb now newid s, unfolded accept withDefaults_simps, OF assms(3)]
  show ?thesis
  proof (cases "columnsAccept c \<and> (\<exists>r \<in> set (jobs s). operation_key r = cmd_OperationKey c \<and> activeStatus (status r))")
    case True
    then obtain r where r: "find (\<lambda>r. operation_key r = cmd_OperationKey c \<and> activeStatus (status r)) (jobs s) = Some r"
      by (metis (mono_tags, lifting) find_None_iff option.exhaust)
    then have "r \<in> set (jobs s)" "operation_key r = cmd_OperationKey c" "activeStatus (status r)"
      by (auto simp: find_Some_iff)
    then show ?thesis using True r ins
      by (auto simp: enq transaction_def enqueueLoop.simps FindActiveJobIDByOperationKey_def)
  next
    case False
    show ?thesis
    proof (cases "columnsAccept c")
      case True
      then obtain r where "InsertJob (withDefaults c) ?nb now newid s = Inr (Some (s\<lparr>jobs := jobs s @ [r]\<rparr>))"
        "row_id r = newid" "status r = Pending" "operation_key r = cmd_OperationKey c" "attempt_count r = 0"
        "concurrency_key r = cmd_ConcurrencyKey c"
        using False ins by (auto split: if_splits)
      then show ?thesis using True False by (auto simp: enq transaction_def enqueueLoop.simps)
    next
      case False
      then show ?thesis using ins by (auto simp: enq transaction_def enqueueLoop.simps)
    qed
  qed
qed

theorem enqueue_idempotent_witness:
  "\<exists>r \<in> set (jobs demoLeased). Enqueue demoStore [] demoCommand 40 [2] demoLeased = (demoLeased, Inr (row_id r))"
proof -
  have "columnsAccept demoCommand" "RuneCountInString (cmd_OperationKey demoCommand) \<le> 512"
    by (simp_all add: columnsAccept_def demoCommand_def pgText_ascii RuneCount_ascii)
  then show ?thesis
    using enqueue_idempotent [of demoCommand demoStore 40 "[2]" demoLeased]
    by (auto simp: demoLeased_jobs demoCommand_def withDefaults_def commandValidate_def ValidType_def
        validTypes_def)
qed

lemma FindActive_SomeD:
  "FindActiveJobIDByOperationKey key s = Some i \<Longrightarrow>
     \<exists>r \<in> set (jobs s). row_id r = i \<and> operation_key r = key \<and> activeStatus (status r)"
  by (auto simp: FindActiveJobIDByOperationKey_def find_Some_iff)

lemma conflict_found:
  assumes "\<exists>r \<in> set (jobs s). operation_key r = key \<and> activeStatus (status r)"
  shows "\<exists>j. FindActiveJobIDByOperationKey key s = Some j"
proof -
  have "find (\<lambda>r. operation_key r = key \<and> activeStatus (status r)) (jobs s) \<noteq> None"
    using assms by (auto simp: find_None_iff)
  then show ?thesis by (auto simp: FindActiveJobIDByOperationKey_def)
qed

lemma InsertJob_fresh:
  assumes "commandValidate c = Inr ()" "RuneCountInString (cmd_OperationKey c) \<le> 512" "columnsAccept c"
    and "\<not> (\<exists>r \<in> set (jobs s). operation_key r = cmd_OperationKey c \<and> activeStatus (status r))"
  obtains r where "InsertJob c nb now i s = Inr (Some (s\<lparr>jobs := jobs s @ [r]\<rparr>))" "row_id r = i"
    "status r = Pending" "operation_key r = cmd_OperationKey c" "attempt_count r = 0"
    "concurrency_key r = cmd_ConcurrencyKey c"
  using InsertJob_outcome [OF assms(1,2), of nb now i s] assms(3,4) by (auto split: if_splits)

text \<open>
  The enqueue loop survives races: whatever other transactions commit between its insert
  and its search, a valid command that the columns accept gets an identifier, and the job under it
  is active with the command's key in the final tables or was inserted by this call.
\<close>

lemma enqueue_under_interference:
  assumes c: "commandValidate c = Inr ()" "RuneCountInString (cmd_OperationKey c) \<le> 512" "columnsAccept c"
  shows "\<exists>s' j. enqueueLoop others c nb now newid s = Inr (s', j) \<and>
     (j = newid \<or> (\<exists>r \<in> set (jobs s'). row_id r = j \<and> operation_key r = cmd_OperationKey c \<and>
        activeStatus (status r)))"
proof (induction others arbitrary: s)
  case Nil
  show ?case
  proof (cases "\<exists>r \<in> set (jobs s). operation_key r = cmd_OperationKey c \<and> activeStatus (status r)")
    case True
    then show ?thesis
      using InsertJob_outcome [OF c(1,2), of nb now newid s] c(3) conflict_found [OF True]
      by (auto simp: enqueueLoop.simps [of "[]"] dest: FindActive_SomeD)
  next
    case False
    then show ?thesis
      by (rule InsertJob_fresh [OF c, where nb = nb and now = now and i = newid])
         (simp add: enqueueLoop.simps [of "[]"])
  qed
next
  case (Cons other others)
  show ?case
  proof (cases "\<exists>r \<in> set (jobs s). operation_key r = cmd_OperationKey c \<and> activeStatus (status r)")
    case True
    then have ins: "InsertJob c nb now newid s = Inr None"
      using InsertJob_outcome [OF c(1,2), of nb now newid s] c(3) by auto
    show ?thesis
    proof (cases "FindActiveJobIDByOperationKey (cmd_OperationKey c) (other s)")
      case None
      then show ?thesis
        using Cons [of "other s"] ins by (simp add: enqueueLoop.simps [of "other # others"])
    next
      case (Some i)
      then show ?thesis
        using ins FindActive_SomeD by (fastforce simp: enqueueLoop.simps [of "other # others"])
    qed
  next
    case False
    then show ?thesis
      by (rule InsertJob_fresh [OF c, where nb = nb and now = now and i = newid])
         (simp add: enqueueLoop.simps [of "other # others"])
  qed
qed

section \<open>Retries, failures and cancellation\<close>

lemma FinishJob_selectJob:
  assumes "selectJob i s = Some row"
  shows "selectJob i (updateJobs i (finishRow stat nb res err now b) s) = Some (finishRow stat nb res err now b row)"
proof -
  have "find (\<lambda>r. row_id r = i) xs = Some row \<Longrightarrow>
      find (\<lambda>r. row_id r = i) (map (\<lambda>r. if row_id r = i then finishRow stat nb res err now b r else r) xs) =
      Some (finishRow stat nb res err now b row)" for xs
    by (induction xs) (auto simp: row_simps split: if_splits)
  then show ?thesis using assms by (simp add: selectJob_def)
qed

lemma selectJob_cong: "jobs s' = jobs s \<Longrightarrow> selectJob i s' = selectJob i s"
  by (simp add: selectJob_def)

lemma finish_no_callback:
  "terminalCallback st = None \<Longrightarrow> storable err res \<Longrightarrow> finish st p n stat out now res err nb s =
     Inr (recordEvent (permit_JobID p) (Some n) (statusName stat) now
       (FinishAttempt now out err (permit_JobID p) (permit_LeaseGeneration p)
         (updateJobs (permit_JobID p)
           (finishRow stat nb res err now (stat = Succeeded \<or> stat = Failed \<or> stat = Cancelled)) s)))"
  by (simp add: finish_def FinishJob_def Let_def notifyTerminal_def)

lemma ids_updateJobs:
  "(\<And>r. row_id (f r) = row_id r) \<Longrightarrow> row_id ` set (jobs (updateJobs i f s)) = row_id ` set (jobs s)"
  unfolding updateJobs_simps set_map image_image by (rule image_cong) auto

text \<open>
  A retry under a live lease puts the job to wait until the delay has passed if attempts
  are left, and fails it for good otherwise; a waiting job is not eligible before its time.
\<close>

lemma retry_waits_or_fails:
  assumes row: "lockPermit p [Leased] now s = Inr row" and d: "0 < d"
    and cb: "terminalCallback st = None" and inv: "dbInv s" and err: "pgText err"
  shows "\<exists>s' row'. selectJob (permit_JobID p) s' = Some row' \<and>
    (if attempt_count row < max_attempts row
     then RetryAfter st p err d now s = (s', Inr RetryWait) \<and> status row' = RetryWait \<and>
       not_before row' = Some (encodeTime st (now * 1000 + d)) \<and>
       (\<forall>t. t < encodeTime st (now * 1000 + d) \<longrightarrow> \<not> eligible t s' row')
     else RetryAfter st p err d now s = (s', Inr Failed) \<and> status row' = Failed \<and>
       (\<forall>t. \<not> eligible t s' row'))"
proof -
  let ?stat = "retryStatus (attempt_count row) (max_attempts row)"
  let ?nb = "if ?stat = RetryWait then Some (encodeTime st (now * 1000 + d)) else None"
  let ?row' = "finishRow ?stat ?nb None (Some err) now (?stat = Succeeded \<or> ?stat = Failed \<or> ?stat = Cancelled) row"
  have sel: "selectJob (permit_JobID p) s = Some row"
    using selectJob_eq [OF inv lockPermit_okD(1) [OF row]] lockPermit_okD(2) [OF row] by simp
  define s' where "s' = recordEvent (permit_JobID p) (Some (attempt_count row)) (statusName ?stat) now
    (FinishAttempt now (if ?stat = RetryWait then ''RETRY'' else ''FAILED'') (Some err) (permit_JobID p)
      (permit_LeaseGeneration p) (updateJobs (permit_JobID p) (finishRow ?stat ?nb None (Some err) now
        (?stat = Succeeded \<or> ?stat = Failed \<or> ?stat = Cancelled)) s))"
  have js: "jobs s' = jobs (updateJobs (permit_JobID p) (finishRow ?stat ?nb None (Some err) now
      (?stat = Succeeded \<or> ?stat = Failed \<or> ?stat = Cancelled)) s)"
    by (simp add: s'_def)
  have fin: "finish st p (attempt_count row) ?stat
      (if ?stat = RetryWait then ''RETRY'' else ''FAILED'') now None (Some err) ?nb s = Inr s'"
    unfolding s'_def by (rule finish_no_callback [OF cb]) (simp add: storable_def err)
  have s': "selectJob (permit_JobID p) s' = Some ?row'"
    using FinishJob_selectJob [OF sel] selectJob_cong [OF js] by simp
  have "RetryAfter st p err d now s = (s', Inr ?stat)"
    using row d fin by (simp add: RetryAfter_def transaction_def Let_def)
  then show ?thesis using s'
    by (intro exI [of _ s'] exI [of _ ?row'])
       (auto simp: retryStatus_def finishRow_def eligible_def eligibleStatus_def)
qed

lemma retry_waits_or_fails_example:
  "\<exists>s'. RetryAfter demoStore demoPermit ''busy'' 5000 30 demoLeased = (s', Inr RetryWait)"
proof -
  have "lockPermit demoPermit [Leased] 30 demoLeased = Inr (hd (jobs demoLeased))"
    by (simp add: lockPermit_def permitValidate_def demoPermit_def selectJob_def demoLeased_jobs
        containsStatus_def)
  from retry_waits_or_fails [OF this, of 5000 demoStore "''busy''"] show ?thesis
    by (auto simp: demoStore_def demoLeased_jobs pgText_ascii)
qed

text \<open>
  A terminal transition and its domain recovery commit together: when the terminal
  callback fails, failing the job, cancelling it or acknowledging a cancellation returns the
  callback's error and leaves every table unchanged.
\<close>

lemma terminal_callback_atomic:
  assumes cb: "terminalCallback st = Some callback" "\<And>snap x. callback snap x = Inl e"
    and inv: "dbInv s" and err: "pgText err"
  shows "(lockPermit p [Leased] now s = Inr row \<longrightarrow> Fail st p err now s = (s, Inl (ErrCallback e))) \<and>
    (lockPermit p [CancelRequested] now s = Inr row \<longrightarrow>
       AcknowledgeCancel st p now s = (s, Inl (ErrCallback e))) \<and>
    (selectJob i s = Some row \<and> status row \<in> {Pending, RetryWait} \<longrightarrow>
       RequestCancel st i now s = (s, Inl (ErrCallback e)))"
proof -
  have notify: "notifyTerminal st (row_id row) x = Inl (ErrCallback e)"
    if "row_id row \<in> row_id ` set (jobs x)" for x
  proof -
    have "selectJob (row_id row) x \<noteq> None" using that by (auto simp: selectJob_def find_None_iff)
    then show ?thesis using cb by (auto simp: notifyTerminal_def)
  qed
  have canc: "cancelLocked st (row_id row) n g now fin s = Inl (ErrCallback e)"
    if "row \<in> set (jobs s)" for n g fin
    unfolding cancelLocked_def Let_def
    by (rule notify) (use that in \<open>simp add: CancelJob_def row_simps ids_updateJobs del: updateJobs_simps\<close>)
  have fin: "finish st p n Failed out now None (Some err) nb s = Inl (ErrCallback e)"
    if "row \<in> set (jobs s)" "row_id row = permit_JobID p" for n out nb
    using that notify err
    by (simp add: finish_def Let_def FinishJob_def storable_def row_simps ids_updateJobs that(2) [symmetric]
        del: updateJobs_simps)
  show ?thesis
  proof (intro conjI impI)
    assume l: "lockPermit p [Leased] now s = Inr row"
    show "Fail st p err now s = (s, Inl (ErrCallback e))"
      using fin [OF lockPermit_okD(1,2) [OF l]] l by (simp add: Fail_def transaction_def)
  next
    assume l: "lockPermit p [CancelRequested] now s = Inr row"
    show "AcknowledgeCancel st p now s = (s, Inl (ErrCallback e))"
      using canc [OF lockPermit_okD(1) [OF l]] l by (simp add: AcknowledgeCancel_def transaction_def)
  next
    assume l: "selectJob i s = Some row \<and> status row \<in> {Pending, RetryWait}"
    then have "row \<in> set (jobs s)" using selectJob_SomeD by blast
    then show "RequestCancel st i now s = (s, Inl (ErrCallback e))"
      using canc l by (auto simp: RequestCancel_def transaction_def requestCancel_def Let_def)
  qed
qed

definition demoRefusing :: "unit Store" where
  "demoRefusing = demoStore\<lparr>terminalCallback := Some (\<lambda>_ _. Inl ''recovery failed'')\<rparr>"

lemma terminal_callback_atomic_example:
  "Fail demoRefusing demoPermit ''boom'' 30 demoLeased = (demoLeased, Inl (ErrCallback ''recovery failed''))"
proof -
  have "lockPermit demoPermit [Leased] 30 demoLeased = Inr (hd (jobs demoLeased))"
    by (simp add: lockPermit_def permitValidate_def demoPermit_def selectJob_def demoLeased_jobs
        containsStatus_def)
  then show ?thesis
    using terminal_callback_atomic [of demoRefusing "\<lambda>_ _. Inl ''recovery failed''" "''recovery failed''" demoLeased "''boom''"]
    by (simp add: demoRefusing_def pgText_ascii)
qed

text \<open>
  What an operator's cancellation does depends only on the status and the lease of the
  job: a waiting job is cancelled at once; a job with a live lease is asked to cancel and keeps
  its lease; a job whose lease ran out is cancelled; a cancelled job stays as it is; a
  succeeded or failed job is refused; an unknown job is reported.
\<close>

lemma request_cancel_behaviour:
  assumes cb: "terminalCallback st = None"
  shows "case selectJob i s of
      None \<Rightarrow> RequestCancel st i now s = (s, Inl ErrJobNotFound)
    | Some row \<Rightarrow>
        if status row \<in> {Succeeded, Failed}
        then RequestCancel st i now s = (s, Inl (ErrJobConflict (status row)))
        else if status row = Cancelled then RequestCancel st i now s = (s, Inr Cancelled)
        else if status row = CancelRequested \<and> \<not> leaseExpired now row
        then RequestCancel st i now s = (s, Inr CancelRequested)
        else \<exists>s'. jobs s' = map (\<lambda>r. if row_id r = i then
              (if status row = Leased \<and> \<not> leaseExpired now row then requestRow now r
               else cancelRow now r) else r) (jobs s) \<and>
          RequestCancel st i now s =
            (s', Inr (if status row = Leased \<and> \<not> leaseExpired now row then CancelRequested else Cancelled))"
proof (cases "selectJob i s")
  case None
  then show ?thesis by (simp add: RequestCancel_def transaction_def requestCancel_def)
next
  case (Some row)
  then have "row_id row = i" using selectJob_SomeD by blast
  then show ?thesis using Some cb
    by (cases "status row"; cases "leaseExpired now row")
       (auto simp: RequestCancel_def transaction_def requestCancel_def Let_def cancelLocked_def
         notifyTerminal_def CancelJob_def RequestJobCancellation_def)
qed

lemma request_cancel_behaviour_example:
  "\<exists>s'. RequestCancel demoStore [1] 30 demoLeased = (s', Inr CancelRequested)"
  using request_cancel_behaviour [where st = demoStore and i = "[1]" and s = demoLeased and now = 30]
  by (auto simp: demoStore_def selectJob_def demoLeased_jobs leaseExpired_def)

section \<open>Identifiers\<close>

text \<open>
  The textual form of a sixteen-byte identifier has thirty-six characters and parses back
  to it.
\<close>

lemma uuid_roundtrip:
  assumes "length uid = 16"
  shows "ParseUUID (uuidString uid) = Inr uid \<and> length (uuidString uid) = 36"
  using assms ParseUUID_uuidString length_uuidString by blast

lemma uuid_roundtrip_example: "ParseUUID (uuidString (replicate 16 171)) = Inr (replicate 16 171)"
  using uuid_roundtrip [of "replicate 16 171"] by simp

text \<open>
  The parser accepts text that is not the canonical form of any identifier: dashes in
  place of the last two digits are dropped and the missing byte reads as zero, so printing the
  result does not give the text back.
\<close>

lemma ParseUUID_accepts_noncanonical:
  "ParseUUID ''00000000-0000-0000-0000-1234567890--'' =
     Inr [0, 0, 0, 0, 0, 0, 0, 0, 0, 0, 0x12, 0x34, 0x56, 0x78, 0x90, 0] \<and>
   uuidString [0, 0, 0, 0, 0, 0, 0, 0, 0, 0, 0x12, 0x34, 0x56, 0x78, 0x90, 0] \<noteq>
     ''00000000-0000-0000-0000-1234567890--''"
  by (simp add: ParseUUID_def uuidString_def hextable_def)

section \<open>Refinement\<close>



end
