(* ===== verification/SlotPool.thy ===== *)
theory SlotPool
  imports Transitions GoStd
begin

text \<open>
  The pool of capsule slots (\<^verbatim>\<open>internal/capsule/pool.go\<close>): slots and their validation,
  the pool record, and each critical section of its methods as a function on that record.
  A waiter is a number. \<open>pool_result\<close> and \<open>pool_slot\<close> hold its two fields: what is in its
  one-place result channel, and the slot assigned to it. \<open>pool_closed\<close> says that the channel
  \<^verbatim>\<open>closed\<close> has been closed, and \<open>pool_fault\<close> that a send met a full channel or that a
  channel was closed twice, which would block or panic under the lock.
\<close>

section \<open>Slots\<close>

datatype PoolState = PoolNew | PoolReady | PoolClosing | PoolClosed

record Slot =
  slot_Name :: string
  slot_SocketPath :: string

definition poolError :: string where
  "poolError = ''capsule slot pool unavailable''"

definition NewSlot :: "string \<Rightarrow> string \<Rightarrow> string + Slot" where
  "NewSlot name socketPath =
     (let clean = Clean socketPath in
      if name = [] \<or> name \<noteq> TrimSpace name \<or> length name > 128 \<or> \<not> IsAbs clean
      then Inl poolError else Inr \<lparr>slot_Name = name, slot_SocketPath = clean\<rparr>)"

text \<open>On Unix \<^verbatim>\<open>normalizedPath\<close> is \<^verbatim>\<open>filepath.Clean\<close>.\<close>

definition normalizedPath :: "string \<Rightarrow> string" where
  "normalizedPath path = Clean path"

text \<open>The loop of \<^verbatim>\<open>NewSlotPool\<close>, with the names and the paths seen so far.\<close>

fun normalizeSlots :: "string set \<Rightarrow> string set \<Rightarrow> Slot list \<Rightarrow> string + Slot list" where
  "normalizeSlots names paths [] = Inr []"
| "normalizeSlots names paths (slot # rest) =
     bindE (NewSlot (slot_Name slot) (slot_SocketPath slot)) (\<lambda>normalized.
       let path = normalizedPath (slot_SocketPath normalized) in
       if slot_Name normalized \<in> names then Inl poolError
       else if path \<in> paths then Inl poolError
       else bindE (normalizeSlots (insert (slot_Name normalized) names) (insert path paths) rest)
              (\<lambda>tail. Inr (normalized # tail)))"

section \<open>The pool\<close>

datatype slotResult = SlotOk Slot | SlotErr string

record SlotPool =
  pool_slots :: "Slot list"
  pool_state :: PoolState
  pool_free :: "Slot list"
  pool_leased :: "Slot set"
  pool_waiters :: "nat list"
  pool_result :: "nat \<Rightarrow> slotResult option"
  pool_slot :: "nat \<Rightarrow> Slot option"
  pool_closed :: bool
  pool_fault :: bool

definition NewSlotPool :: "Slot list \<Rightarrow> string + SlotPool" where
  "NewSlotPool slots =
     (if slots = [] then Inl poolError
      else bindE (normalizeSlots {} {} slots) (\<lambda>copySlots.
        Inr \<lparr>pool_slots = copySlots, pool_state = PoolNew, pool_free = [], pool_leased = {},
             pool_waiters = [], pool_result = (\<lambda>_. None), pool_slot = (\<lambda>_. None),
             pool_closed = False, pool_fault = False\<rparr>))"

definition Capacity :: "SlotPool \<Rightarrow> nat" where
  "Capacity pool = length (pool_slots pool)"

definition send :: "nat \<Rightarrow> slotResult \<Rightarrow> SlotPool \<Rightarrow> SlotPool" where
  "send w r pool =
     (if pool_result pool w = None then pool\<lparr>pool_result := (pool_result pool)(w := Some r)\<rparr>
      else pool\<lparr>pool_fault := True\<rparr>)"

definition closeChannel :: "SlotPool \<Rightarrow> SlotPool" where
  "closeChannel pool =
     (if pool_closed pool then pool\<lparr>pool_fault := True\<rparr> else pool\<lparr>pool_closed := True\<rparr>)"

definition start :: "(Slot list \<Rightarrow> string + unit) option \<Rightarrow> SlotPool \<Rightarrow> SlotPool \<times> (string + unit)" where
  "start validate pool =
     (if pool_state pool \<noteq> PoolNew then (pool, Inl poolError)
      else if (case validate of None \<Rightarrow> False | Some f \<Rightarrow> \<not> isOk (f (pool_slots pool)))
      then (pool, Inl poolError)
      else (pool\<lparr>pool_free := pool_free pool @ pool_slots pool, pool_state := PoolReady\<rparr>, Inr ()))"

text \<open>One turn of the loop of \<^verbatim>\<open>dispatchLocked\<close>.\<close>

definition assignSlot :: "nat \<Rightarrow> nat list \<Rightarrow> Slot \<Rightarrow> Slot list \<Rightarrow> SlotPool \<Rightarrow> SlotPool" where
  "assignSlot waiter waiters slot free pool =
     send waiter (SlotOk slot)
       (pool\<lparr>pool_waiters := waiters, pool_free := free,
             pool_leased := insert slot (pool_leased pool),
             pool_slot := (pool_slot pool)(waiter := Some slot)\<rparr>)"

lemma assignSlot_waiters [simp]: "pool_waiters (assignSlot w ws s fs pool) = ws"
  by (simp add: assignSlot_def send_def)

function dispatchLocked :: "SlotPool \<Rightarrow> SlotPool" where
  "dispatchLocked pool =
     (if pool_state pool = PoolReady then
        (case pool_free pool of
           [] \<Rightarrow> pool
         | slot # free \<Rightarrow>
             (case pool_waiters pool of
                [] \<Rightarrow> pool
              | waiter # waiters \<Rightarrow> dispatchLocked (assignSlot waiter waiters slot free pool)))
      else pool)"
  by pat_completeness auto
termination
  by (relation "measure (\<lambda>pool. length (pool_waiters pool))") auto

declare dispatchLocked.simps [simp del]

definition releaseLocked :: "Slot \<Rightarrow> SlotPool \<Rightarrow> SlotPool" where
  "releaseLocked slot pool =
     (let p = pool\<lparr>pool_leased := pool_leased pool - {slot}\<rparr> in
      if pool_state p = PoolReady then dispatchLocked (p\<lparr>pool_free := pool_free p @ [slot]\<rparr>)
      else if pool_state p = PoolClosing \<and> pool_leased p = {}
      then closeChannel (p\<lparr>pool_state := PoolClosed\<rparr>)
      else p)"

text \<open>
  \<^verbatim>\<open>Acquire\<close> has three critical sections: it queues the waiter, and later either goes on with
  the result it received from the channel or gives up because its context is done.
\<close>

definition acquireQueue :: "nat \<Rightarrow> SlotPool \<Rightarrow> SlotPool \<times> (string + unit)" where
  "acquireQueue waiter pool =
     (if pool_state pool \<noteq> PoolReady then (pool, Inl poolError)
      else (dispatchLocked (pool\<lparr>pool_waiters := pool_waiters pool @ [waiter]\<rparr>), Inr ()))"

definition receive :: "nat \<Rightarrow> SlotPool \<Rightarrow> SlotPool" where
  "receive waiter pool = pool\<lparr>pool_result := (pool_result pool)(waiter := None)\<rparr>"

definition acquireResume :: "slotResult \<Rightarrow> SlotPool \<Rightarrow> SlotPool \<times> (string + Slot)" where
  "acquireResume result pool =
     (case result of
        SlotErr e \<Rightarrow> (pool, Inl e)
      | SlotOk slot \<Rightarrow>
          if pool_state pool \<noteq> PoolReady then
            (if slot \<in> pool_leased pool then releaseLocked slot pool else pool, Inl poolError)
          else (pool, Inr slot))"

definition acquireCancel :: "nat \<Rightarrow> SlotPool \<Rightarrow> SlotPool" where
  "acquireCancel waiter pool =
     (case pool_slot pool waiter of
        Some slot \<Rightarrow> releaseLocked slot pool
      | None \<Rightarrow> dispatchLocked (pool\<lparr>pool_waiters := remove1 waiter (pool_waiters pool)\<rparr>))"

definition Release :: "Slot \<Rightarrow> SlotPool \<Rightarrow> SlotPool \<times> (string + unit)" where
  "Release slot pool =
     (if slot \<notin> pool_leased pool then (pool, Inl poolError) else (releaseLocked slot pool, Inr ()))"

text \<open>The locked part of \<^verbatim>\<open>Close\<close>; afterwards it waits for the channel \<^verbatim>\<open>closed\<close> or its context.\<close>

definition CloseLocked :: "SlotPool \<Rightarrow> SlotPool" where
  "CloseLocked pool =
     (case pool_state pool of
        PoolClosed \<Rightarrow> pool
      | PoolNew \<Rightarrow> closeChannel (pool\<lparr>pool_state := PoolClosed\<rparr>)
      | PoolReady \<Rightarrow>
          (let p = fold (\<lambda>w. send w (SlotErr poolError)) (pool_waiters pool)
                     (pool\<lparr>pool_state := PoolClosing\<rparr>);
               q = p\<lparr>pool_waiters := []\<rparr> in
           if pool_leased q = {} then closeChannel (q\<lparr>pool_state := PoolClosed\<rparr>) else q)
      | PoolClosing \<Rightarrow> pool)"

definition CloseReturns :: "SlotPool \<Rightarrow> bool" where
  "CloseReturns pool \<longleftrightarrow> pool_closed pool"

section \<open>The topology of the sockets\<close>

text \<open>
  What \<^verbatim>\<open>validateTopology\<close> asks the operating system: \<open>lstat\<close> of a path and whether the
  process may use it. Both are parameters.
\<close>

record fileInfo =
  is_symlink :: bool
  is_dir :: bool
  is_socket :: bool
  file_uid :: nat
  file_gid :: nat
  file_mode :: nat
  file_device :: nat
  file_inode :: nat

datatype accessMode = X_OK | RW_OK

record fileSystem =
  Lstat :: "string \<Rightarrow> fileInfo option"
  Faccessat :: "string \<Rightarrow> accessMode \<Rightarrow> bool"

fun rejectFrom :: "fileSystem \<Rightarrow> string \<Rightarrow> string list \<Rightarrow> string + unit" where
  "rejectFrom fs current [] = Inr ()"
| "rejectFrom fs current (component # rest) =
     (if component = [] then rejectFrom fs current rest
      else let next = Join current component in
        (case Lstat fs next of
           None \<Rightarrow> Inl ''lstat''
         | Some info \<Rightarrow> if is_symlink info then Inl poolError else rejectFrom fs next rest))"

definition rejectSymlinkComponents :: "fileSystem \<Rightarrow> string \<Rightarrow> string + unit" where
  "rejectSymlinkComponents fs path =
     (let clean = Clean path in
      if \<not> IsAbs clean then Inl poolError
      else rejectFrom fs ''/'' (splitOn CHR ''/'' (TrimPrefix clean ''/'')))"

definition parentOk :: "fileInfo \<Rightarrow> bool" where
  "parentOk info \<longleftrightarrow> \<not> is_symlink info \<and> is_dir info \<and> file_uid info = 0 \<and> file_gid info = 2000 \<and>
     file_mode info mod 4096 = 1512"

definition socketOk :: "fileInfo \<Rightarrow> bool" where
  "socketOk info \<longleftrightarrow> \<not> is_symlink info \<and> is_socket info \<and> file_uid info = 0 \<and> file_gid info = 2000 \<and>
     file_mode info mod 4096 = 432"

fun validateFrom ::
  "fileSystem \<Rightarrow> string set \<Rightarrow> (nat \<times> nat) set \<Rightarrow> Slot list \<Rightarrow> string + unit" where
  "validateFrom fs paths parents [] = Inr ()"
| "validateFrom fs paths parents (slot # rest) =
     (let path = Clean (slot_SocketPath slot); normalized = normalizedPath path in
      if Base path \<noteq> ''capsule.sock'' then Inl poolError
      else if normalized \<in> paths then Inl poolError
      else bindE (rejectSymlinkComponents fs path) (\<lambda>_.
        case Lstat fs (Dir path) of
          None \<Rightarrow> Inl ''lstat''
        | Some parent \<Rightarrow>
            (case Lstat fs path of
               None \<Rightarrow> Inl ''lstat''
             | Some socket \<Rightarrow>
                 if \<not> parentOk parent then Inl poolError
                 else if \<not> socketOk socket then Inl poolError
                 else let identity = (file_device parent, file_inode parent) in
                   if identity \<in> parents then Inl poolError
                   else if \<not> Faccessat fs (Dir path) X_OK \<or> \<not> Faccessat fs path RW_OK
                   then Inl poolError
                   else validateFrom fs (insert normalized paths) (insert identity parents) rest)))"

definition validateTopology :: "fileSystem \<Rightarrow> Slot list \<Rightarrow> string + unit" where
  "validateTopology fs slots = validateFrom fs {} {} slots"

definition Start :: "fileSystem \<Rightarrow> SlotPool \<Rightarrow> SlotPool \<times> (string + unit)" where
  "Start fs pool = start (Some (validateTopology fs)) pool"

end
