(* ===== verification/PoolRuns.thy ===== *)
theory PoolRuns
  imports SlotPool
begin

text \<open>
  Runs of the slot pool: any number of callers of \<^verbatim>\<open>Acquire\<close> and \<^verbatim>\<open>Release\<close> interleave
  with \<^verbatim>\<open>Start\<close> and \<^verbatim>\<open>Close\<close>, one critical section at a time, and a caller's context may
  be done at any moment. The invariant ties what every caller owns to the pool's record.
\<close>

section \<open>Callers and steps\<close>

datatype phase = Waiting | Received slotResult | Holding Slot | Returned

type_synonym poolRun = "SlotPool \<times> (nat \<Rightarrow> phase option)"

definition returned :: "string + Slot \<Rightarrow> phase" where
  "returned r = (case r of Inl _ \<Rightarrow> Returned | Inr s \<Rightarrow> Holding s)"

inductive pstep :: "poolRun \<Rightarrow> poolRun \<Rightarrow> bool" where
  start: "start validate p = (p', r) \<Longrightarrow> pstep (p, ph) (p', ph)"
| queue: "ph w = None \<Longrightarrow> acquireQueue w p = (p', Inr ()) \<Longrightarrow> pstep (p, ph) (p', ph(w \<mapsto> Waiting))"
| refused: "ph w = None \<Longrightarrow> acquireQueue w p = (p', Inl e) \<Longrightarrow> pstep (p, ph) (p', ph(w \<mapsto> Returned))"
| receive: "ph w = Some Waiting \<Longrightarrow> pool_result p w = Some r \<Longrightarrow>
    pstep (p, ph) (SlotPool.receive w p, ph(w \<mapsto> Received r))"
| resume: "ph w = Some (Received r) \<Longrightarrow> acquireResume r p = (p', x) \<Longrightarrow>
    pstep (p, ph) (p', ph(w \<mapsto> returned x))"
| cancel: "ph w = Some Waiting \<Longrightarrow> pstep (p, ph) (acquireCancel w p, ph(w \<mapsto> Returned))"
| release: "ph w = Some (Holding s) \<Longrightarrow> Release s p = (p', r) \<Longrightarrow>
    pstep (p, ph) (p', ph(w \<mapsto> Returned))"
| close: "pstep (p, ph) (CloseLocked p, ph)"

inductive_cases pstepE: "pstep (p, ph) u"

definition poolInitial :: "poolRun \<Rightarrow> bool" where
  "poolInitial x \<longleftrightarrow> (\<exists>slots. NewSlotPool slots = Inr (fst x)) \<and> snd x = (\<lambda>_. None)"

definition owns :: "SlotPool \<Rightarrow> phase option \<Rightarrow> nat \<Rightarrow> Slot option" where
  "owns p f w = (case f of
     Some Waiting \<Rightarrow> pool_slot p w
   | Some (Received (SlotOk s)) \<Rightarrow> Some s
   | Some (Holding s) \<Rightarrow> Some s
   | _ \<Rightarrow> None)"

lemma owns_simps [simp]:
  "owns p None w = None" "owns p (Some Waiting) w = pool_slot p w"
  "owns p (Some (Received (SlotOk s))) w = Some s" "owns p (Some (Received (SlotErr e))) w = None"
  "owns p (Some (Holding s)) w = Some s" "owns p (Some Returned) w = None"
  by (simp_all add: owns_def)

lemma owns_cong: "pool_slot q = pool_slot p \<Longrightarrow> owns q f w = owns p f w"
  by (simp add: owns_def split: option.splits phase.splits slotResult.splits)

lemma owns_updates [simp]:
  "owns (p\<lparr>pool_state := a\<rparr>) f w = owns p f w" "owns (p\<lparr>pool_free := b\<rparr>) f w = owns p f w"
  "owns (p\<lparr>pool_leased := c\<rparr>) f w = owns p f w" "owns (p\<lparr>pool_waiters := d\<rparr>) f w = owns p f w"
  "owns (p\<lparr>pool_result := e\<rparr>) f w = owns p f w" "owns (p\<lparr>pool_closed := g\<rparr>) f w = owns p f w"
  by (auto intro: owns_cong)

section \<open>The invariant\<close>

definition stateOk :: "SlotPool \<Rightarrow> bool" where
  "stateOk p \<longleftrightarrow> \<not> pool_fault p \<and> distinct (pool_slots p) \<and> pool_leased p \<subseteq> set (pool_slots p) \<and>
     pool_closed p = (pool_state p = PoolClosed) \<and>
     (pool_state p = PoolNew \<longrightarrow> pool_free p = [] \<and> pool_leased p = {}) \<and>
     (pool_state p = PoolReady \<longrightarrow> distinct (pool_free p) \<and> set (pool_free p) \<inter> pool_leased p = {} \<and>
        set (pool_free p) \<union> pool_leased p = set (pool_slots p)) \<and>
     (pool_state p = PoolClosing \<longrightarrow> pool_leased p \<noteq> {}) \<and>
     (pool_state p = PoolClosed \<longrightarrow> pool_leased p = {})"

definition queueOk :: "SlotPool \<Rightarrow> (nat \<Rightarrow> phase option) \<Rightarrow> bool" where
  "queueOk p ph \<longleftrightarrow> distinct (pool_waiters p) \<and> (pool_waiters p \<noteq> [] \<longrightarrow> pool_state p = PoolReady) \<and>
     (\<forall>w \<in> set (pool_waiters p). ph w = Some Waiting \<and> pool_slot p w = None \<and> pool_result p w = None)"

definition answered :: "SlotPool \<Rightarrow> nat \<Rightarrow> bool" where
  "answered p w \<longleftrightarrow>
     (\<exists>s. pool_slot p w = Some s \<and> pool_result p w = Some (SlotOk s)) \<or>
     pool_slot p w = None \<and> pool_result p w = Some (SlotErr poolError) \<and>
       pool_state p \<in> {PoolClosing, PoolClosed}"

definition callersOk :: "SlotPool \<Rightarrow> (nat \<Rightarrow> phase option) \<Rightarrow> bool" where
  "callersOk p ph \<longleftrightarrow>
     (\<forall>w. ph w = Some Waiting \<longrightarrow> w \<notin> set (pool_waiters p) \<longrightarrow> answered p w) \<and>
     (\<forall>w. ph w = None \<longrightarrow> pool_slot p w = None \<and> pool_result p w = None)"

definition ownership :: "(nat \<Rightarrow> Slot option) \<Rightarrow> Slot set \<Rightarrow> bool" where
  "ownership own L \<longleftrightarrow>
     (\<forall>v w s. own v = Some s \<longrightarrow> own w = Some s \<longrightarrow> v = w) \<and>
     (\<forall>s. s \<in> L \<longleftrightarrow> (\<exists>w. own w = Some s))"

definition ownersOk :: "SlotPool \<Rightarrow> (nat \<Rightarrow> phase option) \<Rightarrow> bool" where
  "ownersOk p ph \<longleftrightarrow> ownership (\<lambda>w. owns p (ph w) w) (pool_leased p)"

definition poolCore :: "SlotPool \<Rightarrow> (nat \<Rightarrow> phase option) \<Rightarrow> bool" where
  "poolCore p ph \<longleftrightarrow> stateOk p \<and> queueOk p ph \<and> callersOk p ph \<and> ownersOk p ph"

definition workConserving :: "SlotPool \<Rightarrow> bool" where
  "workConserving p \<longleftrightarrow> pool_free p = [] \<or> pool_waiters p = [] \<or> pool_state p \<noteq> PoolReady"

definition poolInv :: "poolRun \<Rightarrow> bool" where
  "poolInv x \<longleftrightarrow> poolCore (fst x) (snd x) \<and> workConserving (fst x)"

lemmas core_defs = stateOk_def queueOk_def callersOk_def ownersOk_def answered_def

section \<open>Preservation\<close>

lemma ownership_add:
  "ownership own L \<Longrightarrow> s \<notin> L \<Longrightarrow> own w = None \<Longrightarrow> ownership (own(w := Some s)) (insert s L)"
  unfolding ownership_def by (simp split: if_splits) (metis option.distinct(1) option.sel)

lemma ownership_drop: "ownership own L \<Longrightarrow> own w = Some s \<Longrightarrow> ownership (own(w := None)) (L - {s})"
  unfolding ownership_def by (simp split: if_splits) (metis option.sel)

lemma ownership_leased: "ownership own L \<Longrightarrow> own w = Some s \<Longrightarrow> s \<in> L"
  by (auto simp: ownership_def)

lemma ownersOk_upd:
  assumes "ownersOk p ph" "owns q f w = owns p (ph w) w" "pool_leased q = pool_leased p"
    "pool_slot q = pool_slot p"
  shows "ownersOk q (ph(w := f))"
proof -
  have "(\<lambda>v. owns q ((ph(w := f)) v) v) = (\<lambda>v. owns p (ph v) v)"
    using assms(2) owns_cong [OF assms(4)] by (auto simp: fun_eq_iff)
  then show ?thesis using assms(1,3) by (simp add: ownersOk_def)
qed

lemma poolCore_assign:
  assumes "poolCore p ph" "pool_state p = PoolReady" "pool_free p = s # fs" "pool_waiters p = w # ws"
  shows "poolCore (assignSlot w ws s fs p) ph"
proof -
  have core: "stateOk p" "queueOk p ph" "callersOk p ph" "ownersOk p ph"
    using assms(1) by (auto simp: poolCore_def)
  have w: "ph w = Some Waiting" "pool_slot p w = None" "pool_result p w = None" "w \<notin> set ws"
    using core(2) assms(4) by (auto simp: queueOk_def)
  let ?q = "assignSlot w ws s fs p"
  have q: "?q = p\<lparr>pool_waiters := ws, pool_free := fs, pool_leased := insert s (pool_leased p),
      pool_slot := (pool_slot p)(w := Some s), pool_result := (pool_result p)(w := Some (SlotOk s))\<rparr>"
    using w(3) by (simp add: assignSlot_def send_def)
  have s: "s \<notin> pool_leased p" using core(1) assms(2,3) by (auto simp: stateOk_def)
  have own: "owns ?q (ph v) v = (if v = w then Some s else owns p (ph v) v)" for v
    by (auto simp: owns_def q w split: option.splits phase.splits slotResult.splits)
  have "stateOk ?q" using core(1) assms(2,3) by (auto simp: stateOk_def q)
  moreover have "queueOk ?q ph" using core(2) w(4) assms(2,4) by (auto simp: queueOk_def q)
  moreover have "callersOk ?q ph"
    using core(3) w assms(4) by (auto simp: callersOk_def q answered_def)
  moreover have "ownersOk ?q ph"
  proof -
    have "(\<lambda>v. owns ?q (ph v) v) = (\<lambda>v. owns p (ph v) v)(w := Some s)" using own by (simp add: fun_eq_iff)
    then show ?thesis using ownership_add [of _ "pool_leased p" s w] core(4) s w(1,2)
      by (simp add: ownersOk_def q)
  qed
  ultimately show ?thesis by (simp add: poolCore_def)
qed

lemma poolInv_dispatch: "poolCore p ph \<Longrightarrow> poolInv (dispatchLocked p, ph)"
proof (induction p rule: dispatchLocked.induct)
  case (1 p)
  then show ?case
    by (subst dispatchLocked.simps)
      (auto simp: poolInv_def workConserving_def poolCore_assign split: list.splits)
qed


text \<open>Giving back what a caller owns, once the caller has no further use for it.\<close>

lemma ownersOk_drop:
  assumes own: "ownersOk p ph" "owns p (ph w) w = Some s" and f: "owns p f w = None"
    and q: "pool_leased q = pool_leased p - {s}" "pool_slot q = pool_slot p"
  shows "ownersOk q (ph(w := f))"
proof -
  have "(\<lambda>v. owns q ((ph(w := f)) v) v) = (\<lambda>v. owns p (ph v) v)(w := None)"
    using f owns_cong [OF q(2)] by (auto simp: fun_eq_iff)
  then show ?thesis using ownership_drop own q(1) by (simp add: ownersOk_def)
qed

lemma poolInv_release:
  assumes core: "poolCore p ph" and own: "owns p (ph w) w = Some s"
    and f: "f = Some Returned"
  shows "poolInv (releaseLocked s p, ph(w := f))"
proof -
  have parts: "stateOk p" "queueOk p ph" "callersOk p ph" "ownersOk p ph"
    using core by (auto simp: poolCore_def)
  have leased: "s \<in> pool_leased p" using own parts(4) ownership_leased by (auto simp: ownersOk_def)
  have notin: "w \<notin> set (pool_waiters p)" using own parts(2) by (auto simp: queueOk_def)
  let ?p = "p\<lparr>pool_leased := pool_leased p - {s}\<rparr>"
  have dropped: "queueOk ?p (ph(w := f))" "callersOk ?p (ph(w := f))" "ownersOk ?p (ph(w := f))"
    using parts(2,3) notin ownersOk_drop [OF parts(4) own] f
    by (auto simp: queueOk_def callersOk_def answered_def)
  show ?thesis
  proof (cases "pool_state p")
    case PoolReady
    have "poolCore (?p\<lparr>pool_free := pool_free p @ [s]\<rparr>) (ph(w := f))"
      using dropped parts(1) leased PoolReady
      by (auto simp: poolCore_def core_defs)
    then show ?thesis using PoolReady by (simp add: releaseLocked_def poolInv_dispatch)
  next
    case PoolClosing
    then have q: "releaseLocked s p = (if pool_leased p - {s} = {}
        then ?p\<lparr>pool_state := PoolClosed, pool_closed := True\<rparr> else ?p)"
      using parts(1) by (simp add: releaseLocked_def closeChannel_def stateOk_def)
    then show ?thesis using dropped parts(1) PoolClosing
      by (auto simp: poolInv_def poolCore_def workConserving_def core_defs)
  qed (use leased parts(1) in \<open>auto simp: stateOk_def\<close>)
qed

lemma fold_send_err:
  assumes "distinct ws" "\<forall>w \<in> set ws. pool_result p w = None"
  shows "fold (\<lambda>w. send w r) ws p =
    p\<lparr>pool_result := (\<lambda>w. if w \<in> set ws then Some r else pool_result p w)\<rparr>"
  using assms
proof (induction ws arbitrary: p)
  case (Cons w ws)
  let ?p = "p\<lparr>pool_result := (pool_result p)(w := Some r)\<rparr>"
  have "fold (\<lambda>w. send w r) (w # ws) p = fold (\<lambda>w. send w r) ws ?p"
    using Cons.prems by (simp add: send_def)
  also have "\<dots> = ?p\<lparr>pool_result := (\<lambda>v. if v \<in> set ws then Some r else pool_result ?p v)\<rparr>"
    using Cons.prems by (intro Cons.IH) auto
  also have "\<dots> = p\<lparr>pool_result := (\<lambda>v. if v \<in> set (w # ws) then Some r else pool_result p v)\<rparr>"
    by (rule SlotPool.SlotPool.equality) auto
  finally show ?case .
qed simp

lemma poolInv_close: "poolInv (p, ph) \<Longrightarrow> poolInv (CloseLocked p, ph)"
proof -
  assume inv: "poolInv (p, ph)"
  then have parts: "stateOk p" "queueOk p ph" "callersOk p ph" "ownersOk p ph"
    by (auto simp: poolInv_def poolCore_def)
  show ?thesis
  proof (cases "pool_state p")
    case PoolReady
    let ?q = "p\<lparr>pool_state := if pool_leased p = {} then PoolClosed else PoolClosing,
      pool_closed := (pool_leased p = {}), pool_waiters := [],
      pool_result := (\<lambda>w. if w \<in> set (pool_waiters p) then Some (SlotErr poolError) else pool_result p w)\<rparr>"
    have "distinct (pool_waiters p)" "\<forall>w \<in> set (pool_waiters p). pool_result p w = None"
      using parts(2) by (auto simp: queueOk_def)
    then have q: "CloseLocked p = ?q"
      using PoolReady parts(1) 
      by (auto simp: CloseLocked_def fold_send_err closeChannel_def stateOk_def intro!: SlotPool.SlotPool.equality)
    have own: "owns ?q f w = owns p f w" for f w by simp
    have "stateOk ?q" "queueOk ?q ph" using parts(1) PoolReady by (auto simp: stateOk_def queueOk_def)
    moreover have "callersOk ?q ph"
      using parts(2,3) PoolReady by (auto simp: callersOk_def answered_def queueOk_def)
    moreover have "ownersOk ?q ph" using parts(4) by (simp add: ownersOk_def own)
    ultimately show ?thesis by (simp add: poolInv_def poolCore_def workConserving_def q)
  next
    case PoolNew
    then show ?thesis using parts
      by (auto simp: poolInv_def poolCore_def workConserving_def CloseLocked_def closeChannel_def
          core_defs)
  qed (use inv in \<open>simp_all add: CloseLocked_def\<close>)
qed

lemma poolInv_queue:
  assumes "poolInv (p, ph)" "ph w = None" "acquireQueue w p = (p', Inr ())"
  shows "poolInv (p', ph(w \<mapsto> Waiting))"
proof -
  have parts: "stateOk p" "queueOk p ph" "callersOk p ph" "ownersOk p ph"
    using assms(1) by (auto simp: poolInv_def poolCore_def)
  have ready: "pool_state p = PoolReady" and p': "p' = dispatchLocked (p\<lparr>pool_waiters := pool_waiters p @ [w]\<rparr>)"
    using assms(3) by (auto simp: acquireQueue_def split: if_splits)
  have w: "pool_slot p w = None" "pool_result p w = None" "w \<notin> set (pool_waiters p)"
    using parts(2,3) assms(2) by (auto simp: callersOk_def queueOk_def)
  let ?q = "p\<lparr>pool_waiters := pool_waiters p @ [w]\<rparr>"
  have "ownersOk ?q (ph(w \<mapsto> Waiting))" by (rule ownersOk_upd [OF parts(4)]) (simp_all add: w assms(2))
  then have "poolCore ?q (ph(w \<mapsto> Waiting))"
    using parts w ready
    by (auto simp: poolCore_def stateOk_def queueOk_def callersOk_def answered_def)
  then show ?thesis by (simp add: p' poolInv_dispatch)
qed

lemma poolInv_receive:
  assumes "poolInv (p, ph)" "ph w = Some Waiting" "pool_result p w = Some r"
  shows "poolInv (SlotPool.receive w p, ph(w \<mapsto> Received r))"
proof -
  have parts: "stateOk p" "queueOk p ph" "callersOk p ph" "ownersOk p ph"
    using assms(1) by (auto simp: poolInv_def poolCore_def)
  have notin: "w \<notin> set (pool_waiters p)" using parts(2) assms(3) by (auto simp: queueOk_def)
  then have "answered p w" using parts(3) assms(2) by (simp add: callersOk_def)
  then have own: "owns p (Some (Received r)) w = pool_slot p w"
    using assms(3) by (auto simp: answered_def)
  have "ownersOk (SlotPool.receive w p) (ph(w \<mapsto> Received r))"
    by (rule ownersOk_upd [OF parts(4)]) (simp_all add: receive_def own assms(2))
  then show ?thesis using assms(1) parts notin
    by (auto simp: poolInv_def poolCore_def workConserving_def receive_def stateOk_def queueOk_def
        callersOk_def answered_def)
qed

lemma poolInv_return:
  assumes "poolInv (p, ph)" "ph w \<noteq> None" "w \<notin> set (pool_waiters p)"
    "owns p (ph w) w = owns p f w" "f \<noteq> None" "f \<noteq> Some Waiting"
  shows "poolInv (p, ph(w := f))"
proof -
  have "ownersOk p (ph(w := f))"
    using assms by (intro ownersOk_upd [of p ph]) (auto simp: poolInv_def poolCore_def)
  then show ?thesis using assms
    by (auto simp: poolInv_def poolCore_def queueOk_def callersOk_def)
qed

lemma not_queued:
  "poolInv (p, ph) \<Longrightarrow> ph w \<noteq> Some Waiting \<Longrightarrow> w \<notin> set (pool_waiters p)"
  by (auto simp: poolInv_def poolCore_def queueOk_def)

lemma owner_leased: "poolInv (p, ph) \<Longrightarrow> owns p (ph w) w = Some s \<Longrightarrow> s \<in> pool_leased p"
  using ownership_leased by (fastforce simp: poolInv_def poolCore_def ownersOk_def)

lemma poolInv_resume:
  assumes "poolInv (p, ph)" "ph w = Some (Received r)" "acquireResume r p = (p', x)"
  shows "poolInv (p', ph(w \<mapsto> returned x))"
proof (cases r)
  case (SlotErr e)
  then have "p' = p" "returned x = Returned" using assms(3) by (auto simp: acquireResume_def returned_def)
  then show ?thesis using assms SlotErr not_queued [OF assms(1), of w] by (auto intro!: poolInv_return)
next
  case (SlotOk s)
  then have own: "owns p (ph w) w = Some s" using assms(2) by simp
  show ?thesis
  proof (cases "pool_state p = PoolReady")
    case True
    then have "p' = p" "returned x = Holding s"
      using assms(3) SlotOk by (auto simp: acquireResume_def returned_def)
    then show ?thesis using assms own not_queued [OF assms(1), of w] by (auto intro!: poolInv_return)
  next
    case False
    then have "p' = releaseLocked s p" "returned x = Returned"
      using assms(3) SlotOk owner_leased [OF assms(1) own] by (auto simp: acquireResume_def returned_def)
    then show ?thesis using assms(1) own by (auto simp: poolInv_def [of "(p, ph)"] intro!: poolInv_release)
  qed
qed

lemma poolInv_cancel:
  assumes "poolInv (p, ph)" "ph w = Some Waiting"
  shows "poolInv (acquireCancel w p, ph(w \<mapsto> Returned))"
proof (cases "pool_slot p w")
  case (Some s)
  then show ?thesis using assms
    by (auto simp: acquireCancel_def poolInv_def [of "(p, ph)"] intro!: poolInv_release)
next
  case None
  have parts: "stateOk p" "queueOk p ph" "callersOk p ph" "ownersOk p ph"
    using assms(1) by (auto simp: poolInv_def poolCore_def)
  let ?q = "p\<lparr>pool_waiters := remove1 w (pool_waiters p)\<rparr>"
  have "ownersOk ?q (ph(w \<mapsto> Returned))"
    by (rule ownersOk_upd [OF parts(4)]) (simp_all add: None assms(2))
  then have "poolCore ?q (ph(w \<mapsto> Returned))"
    using parts by (auto simp: poolCore_def stateOk_def queueOk_def callersOk_def answered_def)
  then show ?thesis by (simp add: acquireCancel_def None poolInv_dispatch)
qed

lemma poolInv_start:
  assumes "poolInv (p, ph)" "start validate p = (p', r)"
  shows "poolInv (p', ph)"
  using assms
  by (auto simp: start_def poolInv_def poolCore_def stateOk_def queueOk_def callersOk_def
      answered_def ownersOk_def workConserving_def split: if_splits)

lemma poolInv_pstep: "poolInv x \<Longrightarrow> pstep x y \<Longrightarrow> poolInv y"
proof (cases x)
  case (Pair p ph)
  assume inv: "poolInv x" and "pstep x y"
  then have "pstep (p, ph) y" by (simp add: Pair)
  then show ?thesis
  proof cases
    case (refused w p' e)
    then have "p' = p" by (auto simp: acquireQueue_def split: if_splits)
    moreover have "w \<notin> set (pool_waiters p)" using inv refused Pair not_queued [of p ph w] by auto
    ultimately show ?thesis using inv refused Pair
      by (auto simp: poolInv_def poolCore_def queueOk_def callersOk_def intro!: ownersOk_upd [of p ph])
  next
    case (release w s p' r)
    then have "p' = releaseLocked s p"
      using inv Pair owner_leased [of p ph w s] by (auto simp: Release_def split: if_splits)
    then show ?thesis using inv release Pair
      by (auto simp: poolInv_def [of "(p, ph)"] intro!: poolInv_release)
  qed (use inv Pair in \<open>auto intro: poolInv_start poolInv_queue poolInv_receive poolInv_resume
      poolInv_cancel poolInv_close\<close>)
qed

section \<open>Building a pool\<close>

definition cleanSlot :: "Slot \<Rightarrow> Slot" where
  "cleanSlot slot = slot\<lparr>slot_SocketPath := Clean (slot_SocketPath slot)\<rparr>"

lemma NewSlot_cleanSlot: "NewSlot (slot_Name slot) (slot_SocketPath slot) = Inr n \<Longrightarrow> n = cleanSlot slot"
  by (cases slot) (auto simp: NewSlot_def Let_def cleanSlot_def split: if_splits)

lemma normalizeSlots_ConsE:
  assumes "normalizeSlots names paths (slot # rest) = Inr ss"
  obtains tail where "NewSlot (slot_Name slot) (slot_SocketPath slot) = Inr (cleanSlot slot)"
    "slot_Name (cleanSlot slot) \<notin> names" "normalizedPath (slot_SocketPath (cleanSlot slot)) \<notin> paths"
    "normalizeSlots (insert (slot_Name (cleanSlot slot)) names)
       (insert (normalizedPath (slot_SocketPath (cleanSlot slot))) paths) rest = Inr tail"
    "ss = cleanSlot slot # tail"
proof -
  obtain n where n: "NewSlot (slot_Name slot) (slot_SocketPath slot) = Inr n"
    using assms by (auto simp: result_simps)
  then have "NewSlot (slot_Name slot) (slot_SocketPath slot) = Inr (cleanSlot slot)"
    by (simp add: NewSlot_cleanSlot)
  with assms show thesis
    by (auto simp: bindE_Inr_eq Let_def split: if_splits intro: that)
qed

lemma normalizeSlots_map: "normalizeSlots names paths slots = Inr ss \<Longrightarrow> ss = map cleanSlot slots"
proof (induction slots arbitrary: names paths ss)
  case (Cons slot rest)
  from Cons.prems show ?case by (rule normalizeSlots_ConsE) (simp add: Cons.IH)
qed simp

lemma normalizeSlots_ok:
  "normalizeSlots names paths slots = Inr ss \<Longrightarrow>
     distinct (map slot_Name ss) \<and> set (map slot_Name ss) \<inter> names = {} \<and>
     distinct (map (normalizedPath \<circ> slot_SocketPath) ss) \<and>
     set (map (normalizedPath \<circ> slot_SocketPath) ss) \<inter> paths = {}"
proof (induction slots arbitrary: names paths ss)
  case (Cons slot rest)
  from Cons.prems show ?case
  proof (rule normalizeSlots_ConsE)
    fix tail
    assume new: "slot_Name (cleanSlot slot) \<notin> names" "normalizedPath (slot_SocketPath (cleanSlot slot)) \<notin> paths"
      and tail: "normalizeSlots (insert (slot_Name (cleanSlot slot)) names)
        (insert (normalizedPath (slot_SocketPath (cleanSlot slot))) paths) rest = Inr tail"
      and ss: "ss = cleanSlot slot # tail"
    from Cons.IH [OF tail] new show ?case by (simp add: ss)
  qed
qed simp

lemma NewSlot_IsAbs: "NewSlot name path = Inr n \<Longrightarrow> IsAbs (slot_SocketPath n)"
  by (auto simp: NewSlot_def Let_def split: if_splits)

lemma normalizeSlots_IsAbs:
  "normalizeSlots names paths slots = Inr ss \<Longrightarrow> \<forall>s \<in> set ss. IsAbs (slot_SocketPath s)"
proof (induction slots arbitrary: names paths ss)
  case (Cons slot rest)
  from Cons.prems show ?case
    by (rule normalizeSlots_ConsE) (simp add: Cons.IH NewSlot_IsAbs)
qed simp

lemma NewSlotPool_distinct: "NewSlotPool slots = Inr p \<Longrightarrow> distinct (pool_slots p)"
  using normalizeSlots_ok [of "{}" "{}" slots]
  by (auto simp: NewSlotPool_def result_simps distinct_map split: if_splits)

lemma poolInv_initial: "poolInitial x \<Longrightarrow> poolInv x"
proof (cases x)
  case (Pair p ph)
  assume "poolInitial x"
  then obtain slots where new: "NewSlotPool slots = Inr p" and ph: "ph = (\<lambda>_. None)"
    by (auto simp: poolInitial_def Pair)
  obtain ss where "p = \<lparr>pool_slots = ss, pool_state = PoolNew, pool_free = [], pool_leased = {},
      pool_waiters = [], pool_result = (\<lambda>_. None), pool_slot = (\<lambda>_. None),
      pool_closed = False, pool_fault = False\<rparr>"
    using new by (auto simp: NewSlotPool_def result_simps split: if_splits)
  then show ?thesis using NewSlotPool_distinct [OF new] ph
    by (simp add: Pair poolInv_def poolCore_def core_defs ownership_def workConserving_def)
qed

interpretation slotPool: inductive_invariant poolInitial pstep poolInv
  by unfold_locales (auto intro: poolInv_initial poolInv_pstep)

text \<open>What the loop of \<^verbatim>\<open>dispatchLocked\<close> computes: the waiters at the head of the queue get the
  slots at the head of the free list, in order.\<close>

lemma assignSlot_fields [simp]:
  "pool_free (assignSlot w ws s fs p) = fs"
  "pool_leased (assignSlot w ws s fs p) = insert s (pool_leased p)"
  "pool_slot (assignSlot w ws s fs p) = (pool_slot p)(w := Some s)"
  "pool_state (assignSlot w ws s fs p) = pool_state p"
  "pool_slots (assignSlot w ws s fs p) = pool_slots p"
  "pool_closed (assignSlot w ws s fs p) = pool_closed p"
  by (simp_all add: assignSlot_def send_def)

definition handed :: "SlotPool \<Rightarrow> nat" where
  "handed p = (if pool_state p = PoolReady then min (length (pool_free p)) (length (pool_waiters p)) else 0)"

lemma dispatch_fields:
  "pool_waiters (dispatchLocked p) = drop (handed p) (pool_waiters p) \<and>
   pool_free (dispatchLocked p) = drop (handed p) (pool_free p) \<and>
   pool_leased (dispatchLocked p) = pool_leased p \<union> set (take (handed p) (pool_free p)) \<and>
   pool_state (dispatchLocked p) = pool_state p"
proof (induction p rule: dispatchLocked.induct)
  case (1 p)
  then show ?case
    by (subst (1 2 3 4) dispatchLocked.simps) (auto simp: handed_def split: list.splits)
qed

lemma dispatch_slots:
  "distinct (pool_waiters p) \<Longrightarrow>
   pool_slot (dispatchLocked p) =
     pool_slot p ++ map_of (zip (take (handed p) (pool_waiters p)) (take (handed p) (pool_free p)))"
proof (induction p rule: dispatchLocked.induct)
  case (1 p)
  show ?case
  proof (cases "pool_state p = PoolReady \<and> pool_free p \<noteq> [] \<and> pool_waiters p \<noteq> []")
    case True
    then obtain s fs w ws where eqs: "pool_free p = s # fs" "pool_waiters p = w # ws" "pool_state p = PoolReady"
      by (metis list.exhaust)
    let ?q = "assignSlot w ws s fs p"
    let ?m = "map_of (zip (take (handed ?q) ws) (take (handed ?q) fs))"
    have "w \<notin> dom ?m" using 1(2) eqs(2) by (auto dest!: map_of_SomeD set_zip_leftD in_set_takeD)
    then have "(pool_slot p)(w \<mapsto> s) ++ ?m = pool_slot p ++ ?m(w \<mapsto> s)"
      by (auto simp: map_add_def fun_eq_iff split: option.splits)
    moreover have "pool_slot (dispatchLocked ?q) = (pool_slot p)(w \<mapsto> s) ++ ?m"
      using 1(1) [OF eqs(3,1,2)] 1(2) eqs by (simp del: fun_upd_apply)
    moreover have "handed p = Suc (handed ?q)" using eqs by (simp add: handed_def)
    ultimately show ?thesis by (subst dispatchLocked.simps) (simp add: eqs)
  next
    case False
    then show ?thesis by (subst dispatchLocked.simps) (auto simp: handed_def split: list.splits)
  qed
qed

section \<open>Draining a closing pool\<close>

lemma owner_gives_back:
  assumes inv: "poolInv (p, ph)" and closing: "pool_state p = PoolClosing"
  shows "\<exists>s w. s \<in> pool_leased p \<and> pstep (p, ph) (releaseLocked s p, ph(w \<mapsto> Returned))"
proof -
  obtain s w where s: "s \<in> pool_leased p" and own: "owns p (ph w) w = Some s"
    using inv closing
    by (fastforce simp: poolInv_def poolCore_def stateOk_def ownersOk_def ownership_def)
  consider "ph w = Some Waiting" "pool_slot p w = Some s"
    | "ph w = Some (Received (SlotOk s))" | "ph w = Some (Holding s)"
    using own by (auto simp: owns_def split: option.splits phase.splits slotResult.splits)
  then have "pstep (p, ph) (releaseLocked s p, ph(w \<mapsto> Returned))"
  proof cases
    case 1
    then show ?thesis using pstep.cancel [of ph w p] by (simp add: acquireCancel_def)
  next
    case 2
    then show ?thesis using pstep.resume [of ph w "SlotOk s" p "releaseLocked s p" "Inl poolError"] s closing
      by (simp add: acquireResume_def returned_def)
  next
    case 3
    then show ?thesis using pstep.release [of ph w s p "releaseLocked s p" "Inr ()"] s
      by (simp add: Release_def)
  qed
  then show ?thesis using s by blast
qed

lemma closing_drains:
  assumes "poolInv (p, ph)" "pool_state p = PoolClosing"
  shows "\<exists>p' ph'. reach pstep (p, ph) (p', ph') \<and> pool_state p' = PoolClosed"
  using assms
proof (induction "card (pool_leased p)" arbitrary: p ph rule: less_induct)
  case less
  obtain s w where s: "s \<in> pool_leased p" and step: "pstep (p, ph) (releaseLocked s p, ph(w \<mapsto> Returned))"
    using owner_gives_back [OF less.prems] by blast
  have inv: "poolInv (releaseLocked s p, ph(w \<mapsto> Returned))"
    using poolInv_pstep [OF less.prems(1) step] .
  have "finite (pool_leased p)"
    using less.prems(1) finite_subset by (auto simp: poolInv_def poolCore_def stateOk_def)
  then have card: "card (pool_leased p - {s}) < card (pool_leased p)" using s by (rule card_Diff1_less)
  show ?case
  proof (cases "pool_leased p - {s} = {}")
    case True
    then have "pool_state (releaseLocked s p) = PoolClosed"
      using less.prems(2) by (simp add: releaseLocked_def closeChannel_def Let_def)
    then show ?thesis using reach_one [of pstep, OF step] by blast
  next
    case False
    then have "releaseLocked s p = p\<lparr>pool_leased := pool_leased p - {s}\<rparr>"
      using less.prems(2) by (simp add: releaseLocked_def)
    then obtain p' ph' where "reach pstep (releaseLocked s p, ph(w \<mapsto> Returned)) (p', ph')"
        "pool_state p' = PoolClosed"
      using less.hyps [OF _ inv] card less.prems(2) by auto
    then show ?thesis using reach_trans [OF reach_one [of pstep, OF step]] by blast
  qed
qed

section \<open>Topology\<close>

definition parentIdentity :: "fileSystem \<Rightarrow> Slot \<Rightarrow> (nat \<times> nat) option" where
  "parentIdentity fs slot =
     map_option (\<lambda>i. (file_device i, file_inode i)) (Lstat fs (Dir (Clean (slot_SocketPath slot))))"

definition socketGuarded :: "fileSystem \<Rightarrow> Slot \<Rightarrow> bool" where
  "socketGuarded fs slot \<longleftrightarrow> (let path = Clean (slot_SocketPath slot) in
     Base path = ''capsule.sock'' \<and> rejectSymlinkComponents fs path = Inr () \<and>
     (\<exists>parent socket. Lstat fs (Dir path) = Some parent \<and> Lstat fs path = Some socket \<and>
        parentOk parent \<and> socketOk socket) \<and>
     Faccessat fs (Dir path) X_OK \<and> Faccessat fs path RW_OK)"

lemma validateFrom_ok:
  "validateFrom fs paths parents slots = Inr () \<Longrightarrow>
     (\<forall>slot \<in> set slots. socketGuarded fs slot) \<and>
     distinct (map (parentIdentity fs) slots) \<and>
     (\<forall>slot \<in> set slots. parentIdentity fs slot \<notin> Some ` parents)"
proof (induction fs paths parents slots rule: validateFrom.induct)
  case (2 fs paths parents slot rest)
  let ?path = "Clean (slot_SocketPath slot)"
  obtain parent socket where guarded: "Base ?path = ''capsule.sock''"
      "rejectSymlinkComponents fs ?path = Inr ()" "Lstat fs (Dir ?path) = Some parent"
      "Lstat fs ?path = Some socket" "parentOk parent" "socketOk socket"
      "Faccessat fs (Dir ?path) X_OK" "Faccessat fs ?path RW_OK"
    and new: "normalizedPath ?path \<notin> paths" "(file_device parent, file_inode parent) \<notin> parents"
    and rest: "validateFrom fs (insert (normalizedPath ?path) paths)
      (insert (file_device parent, file_inode parent) parents) rest = Inr ()"
    using 2(2) by (auto simp: result_simps Let_def split: if_splits option.splits)
  have "socketGuarded fs slot" using guarded by (simp add: socketGuarded_def Let_def)
  moreover have "parentIdentity fs slot = Some (file_device parent, file_inode parent)"
    using guarded by (simp add: parentIdentity_def)
  ultimately show ?case
    using 2(1) [OF refl refl _ new(1) guarded(3,4) _ _ refl new(2)] rest new guarded by auto
qed simp

end
