(* ===== verification/PoolProperties.thy ===== *)
theory PoolProperties
  imports PoolRuns
begin

text \<open>The correctness properties of the slot pool, each with a concrete instance.\<close>

section \<open>A concrete pool\<close>

definition slotA :: Slot where
  "slotA = \<lparr>slot_Name = ''a'', slot_SocketPath = ''/c/a/capsule.sock''\<rparr>"

definition slotB :: Slot where
  "slotB = \<lparr>slot_Name = ''b'', slot_SocketPath = ''/c/b//capsule.sock''\<rparr>"

definition demoPool :: SlotPool where
  "demoPool = \<lparr>pool_slots = [slotA, cleanSlot slotB], pool_state = PoolNew, pool_free = [],
     pool_leased = {}, pool_waiters = [], pool_result = (\<lambda>_. None), pool_slot = (\<lambda>_. None),
     pool_closed = False, pool_fault = False\<rparr>"

lemma demoPool_new: "NewSlotPool [slotA, slotB] = Inr demoPool"
proof -
  have "TrimSpace ''a'' = ''a''" "TrimSpace ''b'' = ''b''"
    by (simp_all add: TrimSpace_def runes_ascii isSpaceRune_def)
  moreover have "Clean ''/c/a/capsule.sock'' = ''/c/a/capsule.sock''"
    "Clean ''/c/b//capsule.sock'' = ''/c/b/capsule.sock''" "Clean ''/c/b/capsule.sock'' = ''/c/b/capsule.sock''"
    by (simp_all add: Clean_def HasPrefix_def)
  ultimately have "normalizeSlots {} {} [slotA, slotB] = Inr [slotA, cleanSlot slotB]"
    by (simp add: slotA_def slotB_def cleanSlot_def NewSlot_def IsAbs_def HasPrefix_def normalizedPath_def Let_def)
  then show ?thesis by (simp add: NewSlotPool_def demoPool_def)
qed

definition demoReady :: SlotPool where
  "demoReady = demoPool\<lparr>pool_free := [slotA, cleanSlot slotB], pool_state := PoolReady\<rparr>"

definition demoHeld :: SlotPool where
  "demoHeld = demoReady\<lparr>pool_waiters := [], pool_free := [cleanSlot slotB], pool_leased := {slotA},
     pool_slot := [0 \<mapsto> slotA], pool_result := Map.empty\<rparr>"

lemma demoQueue:
  "acquireQueue 0 demoReady =
     (demoHeld\<lparr>pool_result := [0 \<mapsto> SlotOk slotA]\<rparr>, Inr ())"
  by (simp add: acquireQueue_def demoReady_def demoPool_def demoHeld_def dispatchLocked.simps
      assignSlot_def send_def)

lemma demoHeld_reach: "reach pstep (demoPool, Map.empty) (demoHeld, [0 \<mapsto> Holding slotA])"
proof -
  have 1: "pstep (demoPool, Map.empty) (demoReady, Map.empty)"
    by (rule pstep.start [of None _ _ "Inr ()"]) (simp add: start_def demoReady_def demoPool_def)
  have 2: "pstep (demoReady, Map.empty) (demoHeld\<lparr>pool_result := [0 \<mapsto> SlotOk slotA]\<rparr>, [0 \<mapsto> Waiting])"
    by (rule pstep.queue [OF _ demoQueue]) simp
  have 3: "pstep (demoHeld\<lparr>pool_result := [0 \<mapsto> SlotOk slotA]\<rparr>, [0 \<mapsto> Waiting])
      (demoHeld, [0 \<mapsto> Received (SlotOk slotA)])"
    using pstep.receive [of "[0 \<mapsto> Waiting]" 0 "demoHeld\<lparr>pool_result := [0 \<mapsto> SlotOk slotA]\<rparr>"]
    by (simp add: receive_def demoHeld_def fun_upd_def cong: if_cong)
  have 4: "pstep (demoHeld, [0 \<mapsto> Received (SlotOk slotA)]) (demoHeld, [0 \<mapsto> Holding slotA])"
    using pstep.resume [of "[0 \<mapsto> Received (SlotOk slotA)]" 0 "SlotOk slotA" demoHeld demoHeld "Inr slotA"]
    by (simp add: acquireResume_def returned_def demoHeld_def demoReady_def)
  from 1 2 3 4 show ?thesis by (meson reach.intros)
qed

section \<open>Mutual exclusion and conservation\<close>

lemma reach_poolInv:
  assumes "NewSlotPool slots = Inr p0" "reach pstep (p0, Map.empty) (p, ph)"
  shows "poolInv (p, ph)"
  by (rule slotPool.always [OF assms(2)]) (use assms(1) in \<open>auto simp: poolInitial_def\<close>)

text \<open>
  C36. However callers, cancellations, releases and a shutdown interleave, no slot is ever held
  by two callers; while the pool is ready every configured slot is either free or leased and
  never both; a slot is leased exactly when some caller owns it, so none leaks; and neither a
  send to a waiter nor the close of the pool's channel ever blocks or panics under the lock.
\<close>

theorem pool_mutual_exclusion:
  assumes "NewSlotPool slots = Inr p0" "reach pstep (p0, Map.empty) (p, ph)"
  shows "(\<forall>v w s. ph v = Some (Holding s) \<longrightarrow> ph w = Some (Holding s) \<longrightarrow> v = w) \<and>
    (pool_state p = PoolReady \<longrightarrow> distinct (pool_free p) \<and> set (pool_free p) \<inter> pool_leased p = {} \<and>
       set (pool_free p) \<union> pool_leased p = set (pool_slots p)) \<and>
    (\<forall>s. s \<in> pool_leased p \<longleftrightarrow> (\<exists>w. owns p (ph w) w = Some s)) \<and>
    \<not> pool_fault p"
proof -
  have parts: "stateOk p" "ownership (\<lambda>w. owns p (ph w) w) (pool_leased p)"
    using reach_poolInv [OF assms] by (auto simp: poolInv_def poolCore_def ownersOk_def)
  have "owns p (Some (Holding s)) w = Some s" for s w by simp
  then have "v = w" if "ph v = Some (Holding s)" "ph w = Some (Holding s)" for v w s
    using parts(2) that unfolding ownership_def by metis
  then show ?thesis using parts by (simp add: stateOk_def ownership_def)
qed

theorem pool_mutual_exclusion_witness:
  "\<not> pool_fault demoHeld \<and>
   (\<forall>s. s \<in> pool_leased demoHeld \<longleftrightarrow>
      (\<exists>w. owns demoHeld (([0 \<mapsto> Holding slotA] :: nat \<Rightarrow> phase option) w) w = Some s))"
  using pool_mutual_exclusion [OF demoPool_new demoHeld_reach] by blast

section \<open>No lost waiter\<close>

text \<open>
  C37. No caller of Acquire is forgotten: in every reachable state a waiting caller is either
  queued, in which case the pool is ready and has no free slot, or its answer is already in its
  channel. A caller that holds a slot can always release it.
\<close>

theorem pool_no_lost_waiter:
  assumes "NewSlotPool slots = Inr p0" "reach pstep (p0, Map.empty) (p, ph)"
  shows "(\<forall>w. ph w = Some Waiting \<longrightarrow>
      (if w \<in> set (pool_waiters p) then pool_state p = PoolReady \<and> pool_free p = []
       else pool_result p w \<noteq> None)) \<and>
    (\<forall>w s. ph w = Some (Holding s) \<longrightarrow> snd (Release s p) = Inr ())"
proof -
  have inv: "poolInv (p, ph)" by (rule reach_poolInv [OF assms])
  have "snd (Release s p) = Inr ()" if "ph w = Some (Holding s)" for w s
    using owner_leased [OF inv, of w s] that by (simp add: Release_def)
  then show ?thesis using inv
    by (auto simp: poolInv_def poolCore_def queueOk_def callersOk_def workConserving_def answered_def)
qed

theorem pool_no_lost_waiter_witness: "snd (Release slotA demoHeld) = Inr ()"
  using pool_no_lost_waiter [OF demoPool_new demoHeld_reach] by simp

text \<open>
  Slots are handed out first come, first served: the loop of dispatchLocked gives the i-th
  free slot to the i-th waiter in the queue, stops when either list is used up, and leaves a
  pool that is not ready alone.
\<close>

lemma dispatch_fifo:
  assumes "distinct (pool_waiters p)"
  shows "let k = if pool_state p = PoolReady then min (length (pool_free p)) (length (pool_waiters p)) else 0;
             q = dispatchLocked p
         in pool_waiters q = drop k (pool_waiters p) \<and> pool_free q = drop k (pool_free p) \<and>
            pool_leased q = pool_leased p \<union> set (take k (pool_free p)) \<and>
            (\<forall>i < k. pool_slot q (pool_waiters p ! i) = Some (pool_free p ! i)) \<and>
            pool_state q = pool_state p"
proof -
  let ?m = "map_of (zip (take (handed p) (pool_waiters p)) (take (handed p) (pool_free p)))"
  have "?m (pool_waiters p ! i) = Some (pool_free p ! i)" if "i < handed p" for i
  proof (rule map_of_is_SomeI)
    have len: "handed p \<le> length (pool_waiters p)" "handed p \<le> length (pool_free p)"
      by (auto simp: handed_def)
    show "distinct (map fst (zip (take (handed p) (pool_waiters p)) (take (handed p) (pool_free p))))"
      using assms len by (simp add: map_fst_zip_take)
    show "(pool_waiters p ! i, pool_free p ! i) \<in>
        set (zip (take (handed p) (pool_waiters p)) (take (handed p) (pool_free p)))"
      using that len by (auto simp: set_zip intro!: exI [of _ i])
  qed
  then have "\<forall>i < handed p. pool_slot (dispatchLocked p) (pool_waiters p ! i) = Some (pool_free p ! i)"
    using dispatch_slots [OF assms] by (simp add: map_add_def)
  then show ?thesis using dispatch_fields [of p] by (simp add: handed_def Let_def split: if_splits)
qed

lemma dispatch_fifo_example:
  "pool_slot (dispatchLocked (demoReady\<lparr>pool_waiters := [7, 5, 3]\<rparr>)) 5 = Some (cleanSlot slotB)"
  using dispatch_fifo [of "demoReady\<lparr>pool_waiters := [7, 5, 3]\<rparr>"]
  by (simp add: demoReady_def Let_def numeral_2_eq_2 All_less_Suc)

section \<open>Shutdown\<close>

text \<open>
  Shutdown always can complete: once a reachable pool is closing, the callers that still own
  slots can bring it to the closed state by finishing what they do, with no further call of
  Close, and the channel that Close waits on is closed there. Until then some caller owns a slot.
\<close>

lemma pool_close_completes:
  assumes "NewSlotPool slots = Inr p0" "reach pstep (p0, Map.empty) (p, ph)"
    "pool_state p = PoolClosing"
  shows "(\<exists>w s. owns p (ph w) w = Some s) \<and>
    (\<exists>p' ph'. reach pstep (p, ph) (p', ph') \<and> pool_state p' = PoolClosed \<and> CloseReturns p')"
proof -
  have inv: "poolInv (p, ph)" by (rule reach_poolInv [OF assms(1,2)])
  obtain p' ph' where run: "reach pstep (p, ph) (p', ph')" "pool_state p' = PoolClosed"
    using closing_drains [OF inv assms(3)] by blast
  have "CloseReturns p'" using slotPool.kept [OF run(1) inv] run(2)
    by (auto simp: poolInv_def poolCore_def stateOk_def CloseReturns_def)
  moreover have "\<exists>w s. owns p (ph w) w = Some s"
    using inv assms(3) by (fastforce simp: poolInv_def poolCore_def stateOk_def ownersOk_def ownership_def)
  ultimately show ?thesis using run by blast
qed

lemma pool_close_completes_example:
  "\<exists>p' ph'. reach pstep (CloseLocked demoHeld, [0 \<mapsto> Holding slotA]) (p', ph') \<and> pool_state p' = PoolClosed"
  using pool_close_completes [OF demoPool_new reach_step [OF demoHeld_reach pstep.close]]
  by (auto simp: CloseLocked_def demoHeld_def demoReady_def Let_def)

section \<open>Configuration and topology\<close>

text \<open>
  A pool that started guards its sockets: the configured names are distinct, each socket path
  is the cleaned form of what was configured and is absolute, every socket is a root-owned
  capsule.sock with mode 0660 in a root-owned directory with mode 2750, reached through no
  symbolic link, and no two slots share a directory.
\<close>

lemma started_pool_topology:
  assumes "NewSlotPool slots = Inr p" "Start fs p = (q, Inr ())"
  shows "pool_slots q = map cleanSlot slots \<and> distinct (map slot_Name (pool_slots q)) \<and>
    (\<forall>slot \<in> set (pool_slots q). IsAbs (slot_SocketPath slot) \<and> socketGuarded fs slot) \<and>
    distinct (map (parentIdentity fs) (pool_slots q)) \<and>
    pool_state q = PoolReady \<and> pool_free q = pool_slots q"
proof -
  obtain ss where ss: "normalizeSlots {} {} slots = Inr ss" "pool_slots p = ss" "pool_free p = []"
    using assms(1) by (auto simp: NewSlotPool_def result_simps split: if_splits)
  have q: "pool_slots q = ss" "pool_state q = PoolReady" "pool_free q = ss"
    "validateTopology fs ss = Inr ()"
    using assms(2) ss
    by (auto simp: Start_def start_def isOk_def split: if_splits sum.splits)
  have "\<forall>s \<in> set ss. IsAbs (slot_SocketPath s)"
    using ss(1) by (rule normalizeSlots_IsAbs)
  then show ?thesis
    using q normalizeSlots_ok [OF ss(1)] normalizeSlots_map [OF ss(1)]
      validateFrom_ok [of fs "{}" "{}" ss] by (simp add: validateTopology_def)
qed

definition guardedFiles :: fileSystem where
  "guardedFiles = \<lparr>Lstat = (\<lambda>path.
       if path \<in> {''/c/a'', ''/c/b''}
       then Some \<lparr>is_symlink = False, is_dir = True, is_socket = False, file_uid = 0, file_gid = 2000,
                 file_mode = 1512, file_device = 1, file_inode = (if path = ''/c/a'' then 10 else 11)\<rparr>
       else Some \<lparr>is_symlink = False, is_dir = False, is_socket = True, file_uid = 0, file_gid = 2000,
                 file_mode = 432, file_device = 1, file_inode = 12\<rparr>),
     Faccessat = (\<lambda>_ _. True)\<rparr>"

lemma demoStart: "Start guardedFiles demoPool = (demoReady, Inr ())"
proof -
  have "validateTopology guardedFiles [slotA, cleanSlot slotB] = Inr ()"
    by (simp add: validateTopology_def slotA_def slotB_def cleanSlot_def guardedFiles_def Clean_def
        HasPrefix_def normalizedPath_def Base_def Dir_def rejectSymlinkComponents_def IsAbs_def Let_def
        TrimPrefix_def Join_def parentOk_def socketOk_def)
  then show ?thesis by (simp add: Start_def start_def demoPool_def demoReady_def)
qed

lemma started_pool_topology_example:
  "distinct (map (parentIdentity guardedFiles) (pool_slots demoReady))"
  using started_pool_topology [OF demoPool_new demoStart] by blast

end
