(* ===== verification/Worker.thy ===== *)
theory Worker
  imports JobRuns GoStd
begin

text \<open>
  The worker process (\<^verbatim>\<open>internal/worker/runner.go\<close>, \<^verbatim>\<open>config.go\<close>): its configuration, the
  interface it needs of a job queue, and one iteration of the runner, which claims a job,
  runs its handler next to a heartbeat, and hands the outcome back to the queue.
  Logging is left out.
\<close>

section \<open>Configuration\<close>

record Config =
  cfg_WorkerID :: WorkerID
  cfg_LeaseFor :: duration
  cfg_HeartbeatEvery :: duration
  cfg_PollEvery :: duration
  cfg_RetryBackoff :: duration

definition second :: duration where
  "second = 1000000000"

definition configValidate :: "Config \<Rightarrow> string + unit" where
  "configValidate config =
     (if cfg_WorkerID config = [] then Inl ''worker ID must not be empty''
      else if RuneCountInString (cfg_WorkerID config) > 255
      then Inl ''worker ID must contain at most 255 characters''
      else if min (min (cfg_LeaseFor config) (cfg_HeartbeatEvery config))
                (min (cfg_PollEvery config) (cfg_RetryBackoff config)) \<le> 0
      then Inl ''runner durations must be positive''
      else if cfg_HeartbeatEvery config \<ge> cfg_LeaseFor config
      then Inl ''heartbeat must occur before lease expiry''
      else Inr ())"

type_synonym environ = "string \<Rightarrow> string option"

definition integerSeconds :: "environ \<Rightarrow> string \<Rightarrow> int \<Rightarrow> int \<Rightarrow> string + int" where
  "integerSeconds env name fallback maximum =
     (case env name of
        None \<Rightarrow> Inr fallback
      | Some value \<Rightarrow>
          (case ParseInt64 value of
             Some seconds \<Rightarrow>
               if seconds \<le> 0 \<or> seconds > maximum then Inl (name @ '' must be an integer'') else Inr seconds
           | None \<Rightarrow> Inl (name @ '' must be an integer'')))"

text \<open>
  The two fractional settings are read with floating-point numbers; \<open>decimalSeconds\<close>, the
  function that reads one of them given its name, default and maximum, is a parameter.
\<close>

definition ConfigFromEnvironment ::
  "(string \<Rightarrow> int \<Rightarrow> int \<Rightarrow> string + duration) \<Rightarrow> environ \<Rightarrow> string + Config" where
  "ConfigFromEnvironment decimalSeconds env =
     (let workerID = (case env ''WORKER_ID'' of None \<Rightarrow> ''worker-1'' | Some v \<Rightarrow> v) in
      if workerID = [] \<or> RuneCountInString workerID > 255
      then Inl ''WORKER_ID must contain between 1 and 255 characters''
      else bindE (integerSeconds env ''JOB_LEASE_SECONDS'' 60 3600) (\<lambda>leaseSeconds.
        bindE (decimalSeconds ''JOB_POLL_INTERVAL_SECONDS'' 1 60) (\<lambda>pollEvery.
        bindE (decimalSeconds ''JOB_RETRY_BACKOFF_SECONDS'' 5 3600) (\<lambda>retryBackoff.
          let leaseFor = leaseSeconds * second;
              config = \<lparr>cfg_WorkerID = workerID, cfg_LeaseFor = leaseFor,
                cfg_HeartbeatEvery = leaseFor div 3, cfg_PollEvery = pollEvery,
                cfg_RetryBackoff = retryBackoff\<rparr> in
          bindE (configValidate config) (\<lambda>_. Inr config)))))"

section \<open>The queue interface\<close>

type_synonym object = "(string \<times> gval) list"

record 's Queue =
  queue_Claim :: "WorkerID \<Rightarrow> duration \<Rightarrow> ('s, jobError, Permit option) action"
  queue_GetCommand :: "Permit \<Rightarrow> ('s, jobError, Command) action"
  queue_Heartbeat :: "Permit \<Rightarrow> duration \<Rightarrow> ('s, jobError, unit) action"
  queue_CompleteAcceptedResult :: "Permit \<Rightarrow> object option \<Rightarrow> ('s, jobError, unit) action"
  queue_RetryAfter :: "Permit \<Rightarrow> string \<Rightarrow> duration \<Rightarrow> ('s, jobError, Status) action"
  queue_Fail :: "Permit \<Rightarrow> string \<Rightarrow> ('s, jobError, unit) action"
  queue_AcknowledgeCancel :: "Permit \<Rightarrow> ('s, jobError, unit) action"

record HandlerFailure =
  SanitizedError :: string
  Retryable :: bool

datatype handlerError = StaleError | Failure HandlerFailure | OtherError string

datatype handlerOutcome = Returns "handlerError + object option" | Panics

type_synonym handler = "Command \<Rightarrow> Permit \<Rightarrow> handlerOutcome"
type_synonym Registry = "string \<Rightarrow> handler option"

definition NewRunner :: "'s Queue option \<Rightarrow> Config \<Rightarrow> string + ('s Queue \<times> Config)" where
  "NewRunner queue config =
     (case queue of
        None \<Rightarrow> Inl ''job queue must not be nil''
      | Some q \<Rightarrow> bindE (configValidate config) (\<lambda>_. Inr (q, config)))"

section \<open>One iteration\<close>

definition unknownJobError :: string where
  "unknownJobError = ''job type is not implemented''"

definition unexpectedError :: string where
  "unexpectedError = ''job handler failed''"

definition adoptCancellation :: "'s Queue \<Rightarrow> Permit \<Rightarrow> ('s, jobError, unit) action" where
  "adoptCancellation q permit s =
     (case queue_AcknowledgeCancel q permit s of
        (s', Inl e) \<Rightarrow> (s', if e = ErrStalePermit then Inr () else Inl e)
      | (s', Inr u) \<Rightarrow> (s', Inr ()))"

definition retry :: "Config \<Rightarrow> 's Queue \<Rightarrow> Permit \<Rightarrow> string \<Rightarrow> ('s, jobError, unit) action" where
  "retry config q permit sanitizedError s =
     (case queue_RetryAfter q permit sanitizedError (cfg_RetryBackoff config) s of
        (s', Inl e) \<Rightarrow> if e = ErrStalePermit then adoptCancellation q permit s' else (s', Inl e)
      | (s', Inr _) \<Rightarrow> (s', Inr ()))"

definition invokeHandler :: "handler \<Rightarrow> Command \<Rightarrow> Permit \<Rightarrow> handlerError + object option" where
  "invokeHandler handler command permit =
     (case handler command permit of
        Returns r \<Rightarrow> r
      | Panics \<Rightarrow> Inl (OtherError ''job handler panicked''))"

definition acceptHandlerResult ::
  "Config \<Rightarrow> 's Queue \<Rightarrow> Permit \<Rightarrow> handlerError + object option \<Rightarrow> ('s, jobError, unit) action" where
  "acceptHandlerResult config q permit result s =
     (case result of
        Inr value \<Rightarrow>
          (case queue_CompleteAcceptedResult q permit value s of
             (s', Inl e) \<Rightarrow> if e = ErrStalePermit then adoptCancellation q permit s' else (s', Inl e)
           | (s', Inr u) \<Rightarrow> (s', Inr ()))
      | Inl StaleError \<Rightarrow> adoptCancellation q permit s
      | Inl (Failure failure) \<Rightarrow>
          if Retryable failure then retry config q permit (SanitizedError failure) s
          else (case queue_Fail q permit (SanitizedError failure) s of
             (s', Inl e) \<Rightarrow> if e = ErrStalePermit then adoptCancellation q permit s' else (s', Inl e)
           | (s', Inr u) \<Rightarrow> (s', Inr ()))
      | Inl (OtherError _) \<Rightarrow> retry config q permit unexpectedError s)"

text \<open>The heartbeat goroutine, when its ticker fires \<open>n\<close> times before its context ends.\<close>

fun heartbeat :: "Config \<Rightarrow> 's Queue \<Rightarrow> Permit \<Rightarrow> nat \<Rightarrow> ('s, jobError, unit) action" where
  "heartbeat config q permit 0 s = (s, Inr ())"
| "heartbeat config q permit (Suc n) s =
     (case queue_Heartbeat q permit (cfg_LeaseFor config) s of
        (s', Inl e) \<Rightarrow> (s', Inl e)
      | (s', Inr u) \<Rightarrow> heartbeat config q permit n s')"

text \<open>
  The \<^verbatim>\<open>select\<close> of \<^verbatim>\<open>execute\<close>: which of its channels is received from, after how many
  ticks of the heartbeat. A handler that returns wins over a heartbeat that failed meanwhile
  when the handler's channel is the one picked.
\<close>

datatype selected = ContextDone | HeartbeatDone | HandlerDone

definition execute ::
  "Config \<Rightarrow> 's Queue \<Rightarrow> handler \<Rightarrow> Command \<Rightarrow> Permit \<Rightarrow> nat \<Rightarrow> selected \<Rightarrow> ('s, jobError, unit) action" where
  "execute config q handler command permit ticks sel s =
     (case heartbeat config q permit ticks s of
        (s', beat) \<Rightarrow>
          (case sel of
             ContextDone \<Rightarrow> (s', Inl (ErrInvalid ''context canceled''))
           | HeartbeatDone \<Rightarrow>
               (case beat of Inr u \<Rightarrow> (s', Inr ()) | Inl e \<Rightarrow> adoptCancellation q permit s')
           | HandlerDone \<Rightarrow>
               acceptHandlerResult config q permit (invokeHandler handler command permit) s'))"

definition RunOnce ::
  "Config \<Rightarrow> 's Queue \<Rightarrow> Registry \<Rightarrow> nat \<Rightarrow> selected \<Rightarrow> 's \<Rightarrow> 's \<times> bool \<times> (jobError + unit)" where
  "RunOnce config q handlers ticks sel s =
     (case queue_Claim q (cfg_WorkerID config) (cfg_LeaseFor config) s of
        (s1, Inl e) \<Rightarrow> (s1, False, Inl e)
      | (s1, Inr None) \<Rightarrow> (s1, False, Inr ())
      | (s1, Inr (Some permit)) \<Rightarrow>
          (case queue_GetCommand q permit s1 of
             (s2, Inl e) \<Rightarrow>
               if e = ErrStalePermit then (case adoptCancellation q permit s2 of (s3, r) \<Rightarrow> (s3, True, r))
               else (s2, True, Inl e)
           | (s2, Inr command) \<Rightarrow>
               (case handlers (cmd_Type command) of
                  None \<Rightarrow> (case retry config q permit unknownJobError s2 of (s3, r) \<Rightarrow> (s3, True, r))
                | Some handler \<Rightarrow>
                    (case execute config q handler command permit ticks sel s2 of
                       (s3, r) \<Rightarrow> (s3, True, r)))))"

text \<open>
  \<^verbatim>\<open>Run\<close> over a schedule of iterations: for each, how its \<^verbatim>\<open>select\<close> goes, whether the
  context is done when it returns an error, and whether the context ends the wait that follows
  an iteration without work.
\<close>

fun Run :: "Config \<Rightarrow> 's Queue \<Rightarrow> Registry \<Rightarrow> (nat \<times> selected \<times> bool \<times> bool) list \<Rightarrow> 's \<Rightarrow> 's" where
  "Run config q handlers [] s = s"
| "Run config q handlers ((ticks, sel, done, stopped) # rest) s =
     (case RunOnce config q handlers ticks sel s of
        (s', worked, r) \<Rightarrow>
          if \<not> isOk r \<and> done then s'
          else if worked \<and> isOk r then Run config q handlers rest s'
          else if stopped then s'
          else Run config q handlers rest s')"

end
