(* ===== verification/WorkerQueue.thy ===== *)
theory WorkerQueue
  imports Worker
begin

text \<open>
  What the runner may rely on when its permit is lost, stated once for any queue and proved
  for the job store. Between any two calls of the runner other processes change the tables;
  an \<open>environment\<close> is any sequence of such changes that keeps the tables well formed and never
  takes back a lease generation, which is what every run of queue operations does.
\<close>

section \<open>The contract\<close>

definition onlyOthers :: "('s \<Rightarrow> 's) \<Rightarrow> 's \<Rightarrow> 's \<Rightarrow> bool" where
  "onlyOthers f s s' \<longleftrightarrow> (\<exists>n. s' = (f ^^ n) s)"

lemma onlyOthers_refl [simp]: "onlyOthers f s s"
  unfolding onlyOthers_def by (rule exI [of _ 0]) simp

lemma onlyOthers_step: "onlyOthers f (f s) s' \<Longrightarrow> onlyOthers f s s'"
  unfolding onlyOthers_def by (metis funpow_swap1 funpow.simps(2) o_apply)

lemma onlyOthers_one [simp]: "onlyOthers f s (f s)"
  by (rule onlyOthers_step) simp

locale permit_queue =
  fixes q :: "'s Queue"
    and others :: "'s \<Rightarrow> 's"
    and lost :: "Permit \<Rightarrow> 's \<Rightarrow> bool"
  assumes lost_others: "lost p s \<Longrightarrow> lost p (others s)"
    and lost_heartbeat: "lost p s \<Longrightarrow> \<exists>e. queue_Heartbeat q p d s = (others s, Inl e)"
    and lost_complete: "lost p s \<Longrightarrow> \<exists>e. queue_CompleteAcceptedResult q p v s = (others s, Inl e)"
    and lost_retry: "lost p s \<Longrightarrow> \<exists>e. queue_RetryAfter q p t d s = (others s, Inl e)"
    and lost_fail: "lost p s \<Longrightarrow> \<exists>e. queue_Fail q p t s = (others s, Inl e)"
    and lost_ack: "lost p s \<Longrightarrow> queue_AcknowledgeCancel q p s = (others s, Inl ErrStalePermit)"
begin

lemma adopt_silent: "lost p s \<Longrightarrow> onlyOthers others s (fst (adoptCancellation q p s))"
  by (auto simp: adoptCancellation_def lost_ack)

lemma retry_silent: "lost p s \<Longrightarrow> onlyOthers others s (fst (retry config q p t s))"
  using lost_retry [of p s t "cfg_RetryBackoff config"]
  by (auto simp: retry_def adopt_silent lost_others intro: onlyOthers_step)

lemma accept_silent:
  assumes "lost p s"
  shows "onlyOthers others s (fst (acceptHandlerResult config q p r s))"
proof (cases r)
  case (Inr v)
  then show ?thesis using assms lost_complete [OF assms, of v]
    by (auto simp: acceptHandlerResult_def adopt_silent lost_others intro: onlyOthers_step)
next
  case (Inl e)
  show ?thesis
  proof (cases e)
    case (Failure f)
    then show ?thesis using assms Inl lost_fail [OF assms, of "SanitizedError f"]
      by (auto simp: acceptHandlerResult_def adopt_silent retry_silent lost_others intro: onlyOthers_step)
  qed (use assms Inl in \<open>auto simp: acceptHandlerResult_def adopt_silent retry_silent\<close>)
qed

lemma heartbeat_lost:
  "lost p s \<Longrightarrow> \<exists>s' r. heartbeat config q p n s = (s', r) \<and> lost p s' \<and> (s' = s \<or> s' = others s)"
  using lost_heartbeat [of p s "cfg_LeaseFor config"] by (cases n) (auto intro: lost_others)

lemma execute_silent:
  assumes "lost p s"
  shows "onlyOthers others s (fst (execute config q h c p ticks sel s))"
proof -
  obtain s' r where beat: "heartbeat config q p ticks s = (s', r)" "lost p s'" "s' = s \<or> s' = others s"
    using heartbeat_lost [OF assms] by blast
  have "onlyOthers others s' (fst (execute config q h c p ticks sel s))"
    using beat(2) by (cases sel; cases r)
      (auto simp: execute_def beat(1) accept_silent adopt_silent)
  then show ?thesis using beat(3) onlyOthers_step by metis
qed

end

section \<open>The job store as the runner's queue\<close>

typedef 'w environment =
  "{env :: nat \<Rightarrow> 'w db \<Rightarrow> 'w db. \<forall>n s. dbInv s \<longrightarrow> dbInv (env n s) \<and> keepsRows s (env n s)}"
  by (rule exI [of _ "\<lambda>_ s. s"]) (auto simp: keepsRows_same)

setup_lifting type_definition_environment

lemma keepsRows_refl [simp]: "keepsRows s s"
  by (rule keepsRows_same) simp_all

lift_definition commits :: "'w environment \<Rightarrow> nat \<Rightarrow> 'w db \<Rightarrow> 'w db" is "\<lambda>env. env" .

lift_definition quietEnv :: "'w environment" is "\<lambda>_ s. s"
  by simp

lemma commits_quiet [simp]: "commits quietEnv n s = s"
  by transfer simp

lemma commits_inv: "dbInv s \<Longrightarrow> dbInv (commits env n s)"
  by transfer simp

lemma commits_keeps: "dbInv s \<Longrightarrow> keepsRows s (commits env n s)"
  by transfer simp

lemma run_is_environment:
  "callbackFresh st \<Longrightarrow> dbInv s \<Longrightarrow> qrun st (t, s) (t', s') \<Longrightarrow> dbInv s' \<and> keepsRows s s'"
  using qrun_dbInv [of st "(t, s)" "(t', s')"] qrun_keepsRows [of st "(t, s)" "(t', s')"] by simp

record 'w world =
  w_db :: "'w db"
  w_turn :: nat

definition others :: "'w environment \<Rightarrow> 'w world \<Rightarrow> 'w world" where
  "others env w = \<lparr>w_db = commits env (w_turn w) (w_db w), w_turn = Suc (w_turn w)\<rparr>"

definition onTables :: "'w environment \<Rightarrow> (nat \<Rightarrow> ('w db, jobError, 'a) action) \<Rightarrow> ('w world, jobError, 'a) action" where
  "onTables env oper w =
     (case oper (w_turn w) (commits env (w_turn w) (w_db w)) of
        (d, r) \<Rightarrow> (\<lparr>w_db = d, w_turn = Suc (w_turn w)\<rparr>, r))"

definition storeQueue ::
  "'w Store \<Rightarrow> 'w environment \<Rightarrow> (nat \<Rightarrow> nat \<Rightarrow> pgtime) \<Rightarrow> (nat \<Rightarrow> JobID \<Rightarrow> bool) \<Rightarrow> 'w world Queue" where
  "storeQueue st env clock locked = \<lparr>
     queue_Claim = (\<lambda>w d. onTables env (\<lambda>n. Claim st (clock n) (locked n) w d)),
     queue_GetCommand = (\<lambda>p. onTables env (\<lambda>n s. (s, GetCommand p (clock n 0) s))),
     queue_Heartbeat = (\<lambda>p d. onTables env (\<lambda>n. Heartbeat p d (clock n 0))),
     queue_CompleteAcceptedResult = (\<lambda>p v. onTables env (\<lambda>n. CompleteAcceptedResult st p v (clock n 0))),
     queue_RetryAfter = (\<lambda>p t d. onTables env (\<lambda>n. RetryAfter st p t d (clock n 0))),
     queue_Fail = (\<lambda>p t. onTables env (\<lambda>n. Fail st p t (clock n 0))),
     queue_AcknowledgeCancel = (\<lambda>p. onTables env (\<lambda>n. AcknowledgeCancel st p (clock n 0)))\<rparr>"

definition superseded :: "Permit \<Rightarrow> 'w world \<Rightarrow> bool" where
  "superseded p w \<longleftrightarrow> permitValidate p = Inr () \<and> dbInv (w_db w) \<and>
     (\<exists>row \<in> set (jobs (w_db w)). row_id row = permit_JobID p \<and> permit_LeaseGeneration p < lease_generation row)"

lemma superseded_others: "superseded p w \<Longrightarrow> superseded p (others env w)"
  using commits_keeps [of "w_db w" env "w_turn w"] commits_inv [of "w_db w" env "w_turn w"]
  unfolding superseded_def others_def keepsRows_def sameFrame_def
  by simp (metis (no_types, lifting) less_le_trans)

lemma superseded_refused:
  assumes "superseded p (others env w)" "\<And>now s. dbInv s \<Longrightarrow> (\<exists>row \<in> set (jobs s). row_id row = permit_JobID p \<and>
      lease_generation row \<noteq> permit_LeaseGeneration p) \<Longrightarrow> \<exists>e. oper now s = (s, Inl e)"
  shows "\<exists>e. onTables env (\<lambda>n. oper (clock n 0)) w = (others env w, Inl e)"
proof -
  have "\<exists>e. oper (clock (w_turn w) 0) (w_db (others env w)) = (w_db (others env w), Inl e)"
    using assms(1) by (intro assms(2)) (auto simp: superseded_def)
  then show ?thesis by (auto simp: onTables_def others_def)
qed

lemma lockPermit_superseded:
  assumes "dbInv s" "permitValidate p = Inr ()" "row \<in> set (jobs s)" "row_id row = permit_JobID p"
    "lease_generation row \<noteq> permit_LeaseGeneration p"
  shows "lockPermit p sts now s = Inl ErrStalePermit"
  using assms selectJob_eq [OF assms(1,3)] by (simp add: lockPermit_def)

interpretation store: permit_queue "storeQueue st env clock locked" "others env" superseded
  for st env clock locked
proof
  fix p and s :: "'a world" and d v t
  assume lost: "superseded p s"
  show after: "superseded p (others env s)" by (rule superseded_others [OF lost])
  show "\<exists>e. queue_Heartbeat (storeQueue st env clock locked) p d s = (others env s, Inl e)"
    unfolding storeQueue_def Queue.select_convs
    by (rule superseded_refused [OF after]) (auto intro: heartbeat.superseded)
  show "\<exists>e. queue_CompleteAcceptedResult (storeQueue st env clock locked) p v s = (others env s, Inl e)"
    unfolding storeQueue_def Queue.select_convs CompleteAcceptedResult_def
    by (rule superseded_refused [OF after]) (auto intro: complete_op.superseded)
  show "\<exists>e. queue_RetryAfter (storeQueue st env clock locked) p t d s = (others env s, Inl e)"
    unfolding storeQueue_def Queue.select_convs
    by (rule superseded_refused [OF after]) (auto intro: retryAfter.superseded)
  show "\<exists>e. queue_Fail (storeQueue st env clock locked) p t s = (others env s, Inl e)"
    unfolding storeQueue_def Queue.select_convs
    by (rule superseded_refused [OF after]) (auto intro: fail_op.superseded)
  have "lockPermit p sts now (w_db (others env s)) = Inl ErrStalePermit" for sts now
    using after by (auto simp: superseded_def intro: lockPermit_superseded)
  then show "queue_AcknowledgeCancel (storeQueue st env clock locked) p s = (others env s, Inl ErrStalePermit)"
    by (simp add: storeQueue_def onTables_def AcknowledgeCancel_def transaction_def others_def)
qed

end
