(* ===== verification/WorkerProperties.thy ===== *)
theory WorkerProperties
  imports WorkerQueue JobProperties
begin

text \<open>The correctness properties of the worker, each with a concrete instance.\<close>

section \<open>A worker that lost its lease\<close>

lemma demoReclaimed_superseded: "superseded demoPermit \<lparr>w_db = demoReclaimed, w_turn = n\<rparr>"
proof -
  obtain r where "r \<in> set (jobs demoReclaimed)" "row_id r = [1]" "lease_generation r = 2"
    using Claim_permit_row [OF demoReclaim demoLeased_inv demoStore_fresh] by auto
  then show ?thesis
    using dbInv_Claim [OF demoReclaim demoLeased_inv demoStore_fresh]
    by (auto simp: superseded_def permitValidate_def demoPermit_def)
qed

text \<open>
  C29. A worker whose lease was taken over does no harm: once another claim has raised the
  generation of its job, whatever its handler returns, however often its heartbeat fires and
  whichever event ends its wait, the tables afterwards are exactly what the other processes
  made of them.
\<close>

theorem superseded_worker_silent:
  assumes "superseded p w"
  shows "\<exists>n. fst (execute config (storeQueue st env clock locked) handler command p ticks sel w) =
    (others env ^^ n) w"
  using store.execute_silent [OF assms] by (simp add: onlyOthers_def)

theorem superseded_worker_silent_witness:
  "w_db (fst (execute \<lparr>cfg_WorkerID = ''w1'', cfg_LeaseFor = 3000, cfg_HeartbeatEvery = 1000, cfg_PollEvery = 1,
        cfg_RetryBackoff = 5000\<rparr> (storeQueue demoStore quietEnv (\<lambda>_ _. 70) (\<lambda>_ _. False))
     (\<lambda>_ _. Returns (Inr None)) demoCommand demoPermit 3 HandlerDone \<lparr>w_db = demoReclaimed, w_turn = 0\<rparr>)) =
   demoReclaimed"
proof -
  have "w_db ((others quietEnv ^^ n) w) = w_db w" for n and w :: "unit world"
    by (induction n) (simp_all add: others_def)
  then show ?thesis
    using superseded_worker_silent [OF demoReclaimed_superseded] by (metis world.select_convs(1))
qed

section \<open>What the worker records\<close>

definition at :: "nat \<Rightarrow> 'w db \<Rightarrow> 'w world" where
  "at n s = \<lparr>w_db = s, w_turn = n\<rparr>"

lemma onTables_quiet [simp]:
  "onTables quietEnv oper (at n s) = (case oper n s of (d, r) \<Rightarrow> (at (Suc n) d, r))"
  by (simp add: onTables_def at_def split: prod.splits)

lemma at_db [simp]: "w_db (at n s) = s"
  by (simp add: at_def)

lemma finish_row:
  assumes "terminalCallback st = None" "selectJob (permit_JobID p) s = Some row" "storable err res"
  obtains s' where "finish st p k stat out now res err nb s = Inr s'"
    "selectJob (permit_JobID p) s' = Some (finishRow stat nb res err now
       (stat = Succeeded \<or> stat = Failed \<or> stat = Cancelled) row)"
proof -
  let ?b = "stat = Succeeded \<or> stat = Failed \<or> stat = Cancelled"
  show thesis
    by (rule that [OF finish_no_callback [OF assms(1,3)]])
      (use FinishJob_selectJob [OF assms(2), of stat nb res err now ?b]
        selectJob_cong [of "recordEvent _ _ _ _ _"] in \<open>simp add: selectJob_def\<close>)
qed

lemma storable_text: "pgText t \<Longrightarrow> storable (Some t) None"
  by (simp add: storable_def)

lemma storable_object:
  "(\<And>v'. v = Some v' \<Longrightarrow> pgJson (GObject v')) \<Longrightarrow> storable None (Some (case v of None \<Rightarrow> [] | Some v' \<Rightarrow> v'))"
  by (cases v) (simp_all add: storable_def)

lemma unexpected_text: "pgText unexpectedError"
  by (simp add: unexpectedError_def pgText_ascii)

lemma cancel_row:
  assumes "terminalCallback st = None" "selectJob i s = Some row"
  obtains s' where "cancelLocked st i k g now True s = Inr s'" "selectJob i s' = Some (cancelRow now row)"
proof -
  have "find (\<lambda>r. row_id r = i) xs = Some row \<Longrightarrow>
      find (\<lambda>r. row_id r = i) (map (\<lambda>r. if row_id r = i then cancelRow now r else r) xs) =
      Some (cancelRow now row)" for xs
    by (induction xs) (auto simp: row_simps split: if_splits)
  then show thesis using assms that
    by (simp add: cancelLocked_def Let_def notifyTerminal_def selectJob_def CancelJob_def)
qed

lemma lockPermit_select: "lockPermit p sts now s = Inr row \<Longrightarrow> selectJob (permit_JobID p) s = Some row"
  by (auto simp: lockPermit_def result_simps split: option.splits if_splits)

lemma lockPermit_status:
  "lockPermit p sts now s = Inr row \<Longrightarrow> status row \<notin> set sts' \<Longrightarrow> lockPermit p sts' now s = Inl ErrStalePermit"
  "lockPermit p sts now s = Inr row \<Longrightarrow> status row \<in> set sts' \<Longrightarrow> lockPermit p sts' now s = Inr row"
  by (auto simp: lockPermit_def result_simps containsStatus_def split: option.splits if_splits)

text \<open>
  The outcome of a handler under a live lease is recorded once and in the words the operator
  may see: a result completes the job; a failure marked retryable waits for another attempt or,
  after the last one, fails the job, with the failure's sanitized text; any other failure fails
  it with that text; an unclassified error or a panic is retried under a fixed text, so the
  error's own text never reaches the tables; and a stale-permit error changes nothing.
\<close>

lemma handler_outcome_recorded:
  assumes row: "lockPermit p [Leased] (clock n 0) s = Inr row" and cb: "terminalCallback st = None"
    and backoff: "0 < cfg_RetryBackoff config"
    and json: "\<forall>v. invokeHandler handler command p = Inr (Some v) \<longrightarrow> marshalable (GObject v) \<and> pgJson (GObject v)"
    and text_ok: "\<forall>f. invokeHandler handler command p = Inl (Failure f) \<longrightarrow> pgText (SanitizedError f)"
  shows "\<exists>n' s' row'.
    execute config (storeQueue st quietEnv clock locked) handler command p 0 HandlerDone (at n s) =
      (at n' s', Inr ()) \<and> selectJob (permit_JobID p) s' = Some row' \<and>
    (case invokeHandler handler command p of
       Inr v \<Rightarrow> status row' = Succeeded \<and> job_result row' = Some (case v of None \<Rightarrow> [] | Some o' \<Rightarrow> o')
     | Inl StaleError \<Rightarrow> s' = s
     | Inl (Failure f) \<Rightarrow> sanitized_error row' = Some (SanitizedError f) \<and>
         status row' = (if Retryable f then retryStatus (attempt_count row) (max_attempts row) else Failed)
     | Inl (OtherError _) \<Rightarrow> sanitized_error row' = Some unexpectedError \<and>
         status row' = retryStatus (attempt_count row) (max_attempts row))"
proof -
  let ?q = "storeQueue st quietEnv clock locked"
  let ?now = "clock n 0" and ?stat = "retryStatus (attempt_count row) (max_attempts row)"
  have sel: "selectJob (permit_JobID p) s = Some row" by (rule lockPermit_select [OF row])
  have leased: "status row = Leased" using lockPermit_okD(3) [OF row] by simp
  have retried: "\<exists>s' row'. retry config ?q p t (at n s) = (at (Suc n) s', Inr ()) \<and>
      selectJob (permit_JobID p) s' = Some row' \<and> sanitized_error row' = Some t \<and> status row' = ?stat"
    if "pgText t" for t
    by (rule finish_row [OF cb sel storable_text [OF that], of "attempt_count row" ?stat
          "if ?stat = RetryWait then ''RETRY'' else ''FAILED''" ?now
          "if ?stat = RetryWait then Some (encodeTime st (?now * 1000 + cfg_RetryBackoff config)) else None"])
      (use row backoff in \<open>auto simp: retry_def storeQueue_def RetryAfter_def transaction_def Let_def finishRow_def\<close>)
  have failed: "\<exists>s' row'. queue_Fail ?q p t (at n s) = (at (Suc n) s', Inr ()) \<and>
      selectJob (permit_JobID p) s' = Some row' \<and> sanitized_error row' = Some t \<and> status row' = Failed"
    if "pgText t" for t
    by (rule finish_row [OF cb sel storable_text [OF that], of "attempt_count row" Failed "''FAILED''" ?now None])
      (use row in \<open>auto simp: storeQueue_def Fail_def transaction_def finishRow_def\<close>)
  have completed: "\<exists>s' row'. queue_CompleteAcceptedResult ?q p v (at n s) = (at (Suc n) s', Inr ()) \<and>
      selectJob (permit_JobID p) s' = Some row' \<and> status row' = Succeeded \<and> job_result row' = Some (case v of None \<Rightarrow> [] | Some o' \<Rightarrow> o')"
    if "invokeHandler handler command p = Inr v" for v
    by (rule finish_row [OF cb sel storable_object [of v], of "attempt_count row" Succeeded "''SUCCEEDED''" ?now None])
      (use that json lockPermit_status(2) [OF row, of "[Leased, CancelRequested]"] leased in
        \<open>auto simp: storeQueue_def CompleteAcceptedResult_def complete_def objectJSON_def transaction_def
          finishRow_def Let_def split: option.splits\<close>)
  have stale: "adoptCancellation ?q p (at n s) = (at (Suc n) s, Inr ())"
    using lockPermit_status(1) [OF row, of "[CancelRequested]"] leased
    by (simp add: adoptCancellation_def storeQueue_def AcknowledgeCancel_def transaction_def)
  show ?thesis
  proof (cases "invokeHandler handler command p")
    case (Inr v)
    then show ?thesis using completed [OF Inr] by (fastforce simp: execute_def acceptHandlerResult_def)
  next
    case (Inl e)
    then show ?thesis
    proof (cases e)
      case StaleError
      then show ?thesis using Inl stale sel by (auto simp: execute_def acceptHandlerResult_def)
    next
      case (Failure f)
      then show ?thesis using Inl text_ok retried [of "SanitizedError f"] failed [of "SanitizedError f"]
        by (cases "Retryable f") (fastforce simp: execute_def acceptHandlerResult_def)+
    next
      case (OtherError m)
      then show ?thesis using Inl retried [OF unexpected_text]
        by (fastforce simp: execute_def acceptHandlerResult_def)
    qed
  qed
qed

lemma handler_outcome_recorded_example:
  "\<exists>n' s' row'.
    execute \<lparr>cfg_WorkerID = ''w1'', cfg_LeaseFor = 3000, cfg_HeartbeatEvery = 1000, cfg_PollEvery = 1,
        cfg_RetryBackoff = 5000\<rparr> (storeQueue demoStore quietEnv (\<lambda>_ _. 30) (\<lambda>_ _. False))
      (\<lambda>_ _. Panics) demoCommand demoPermit 0 HandlerDone (at 0 demoLeased) = (at n' s', Inr ()) \<and>
    selectJob [1] s' = Some row' \<and> sanitized_error row' = Some ''job handler failed''"
proof -
  have "lockPermit demoPermit [Leased] 30 demoLeased = Inr (hd (jobs demoLeased))"
    by (simp add: lockPermit_def permitValidate_def demoPermit_def selectJob_def demoLeased_jobs
        containsStatus_def)
  from handler_outcome_recorded [where clock = "\<lambda>_ _. 30" and handler = "\<lambda>_ _. Panics" and st = demoStore
      and n = 0 and command = demoCommand and locked = "\<lambda>_ _. False" and config = "\<lparr>cfg_WorkerID = ''w1'', cfg_LeaseFor = 3000,
        cfg_HeartbeatEvery = 1000, cfg_PollEvery = 1, cfg_RetryBackoff = 5000\<rparr>", OF this]
  show ?thesis by (simp add: demoStore_def invokeHandler_def demoPermit_def unexpectedError_def) blast
qed

text \<open>
  A cancellation is honoured by the worker that holds the job: when the operator has asked
  for it and the lease is live, a handler that fails in any way leaves the job cancelled with no
  result and no error text, and a handler that had already produced a result completes the job.
\<close>

lemma requested_cancellation_honoured:
  assumes row: "lockPermit p [CancelRequested] (clock n 0) s = Inr row"
    "lockPermit p [CancelRequested] (clock (Suc n) 0) s = Inr row" and cb: "terminalCallback st = None"
    and backoff: "0 < cfg_RetryBackoff config"
    and json: "\<forall>v. invokeHandler handler command p = Inr (Some v) \<longrightarrow> marshalable (GObject v) \<and> pgJson (GObject v)"
  shows "\<exists>n' s' row'.
    execute config (storeQueue st quietEnv clock locked) handler command p 0 HandlerDone (at n s) =
      (at n' s', Inr ()) \<and> selectJob (permit_JobID p) s' = Some row' \<and>
    (if isOk (invokeHandler handler command p) then status row' = Succeeded
     else status row' = Cancelled \<and> job_result row' = None \<and> sanitized_error row' = None)"
proof -
  let ?q = "storeQueue st quietEnv clock locked"
  have sel: "selectJob (permit_JobID p) s = Some row" by (rule lockPermit_select [OF row(1)])
  have asked: "status row = CancelRequested" using lockPermit_okD(3) [OF row(1)] by simp
  have i: "row_id row = permit_JobID p" by (rule lockPermit_okD(2) [OF row(1)])
  have adopted: "\<exists>s' row'. adoptCancellation ?q p (at m s) = (at (Suc m) s', Inr ()) \<and>
      selectJob (permit_JobID p) s' = Some row' \<and> status row' = Cancelled \<and> job_result row' = None \<and>
      sanitized_error row' = None" if "m = n \<or> m = Suc n" for m
    by (rule cancel_row [OF cb sel, of "attempt_count row" "lease_generation row" "clock m 0"])
      (use that row i in \<open>auto simp: adoptCancellation_def storeQueue_def AcknowledgeCancel_def
        transaction_def cancelRow_def\<close>)
  have refused: "lockPermit p [Leased] (clock n 0) s = Inl ErrStalePermit"
    using lockPermit_status(1) [OF row(1), of "[Leased]"] asked by simp
  have retried: "retry config ?q p t (at n s) = adoptCancellation ?q p (at (Suc n) s)" for t
    using refused backoff by (simp add: retry_def storeQueue_def RetryAfter_def transaction_def)
  have failed: "queue_Fail ?q p t (at n s) = (at (Suc n) s, Inl ErrStalePermit)" for t
    using refused by (simp add: storeQueue_def Fail_def transaction_def)
  have completed: "\<exists>s' row'. queue_CompleteAcceptedResult ?q p v (at n s) = (at (Suc n) s', Inr ()) \<and>
      selectJob (permit_JobID p) s' = Some row' \<and> status row' = Succeeded"
    if "invokeHandler handler command p = Inr v" for v
    by (rule finish_row [OF cb sel storable_object [of v], of "attempt_count row" Succeeded "''SUCCEEDED''" "clock n 0" None])
      (use that json lockPermit_status(2) [OF row(1), of "[Leased, CancelRequested]"] asked in
        \<open>auto simp: storeQueue_def CompleteAcceptedResult_def complete_def objectJSON_def transaction_def
          finishRow_def Let_def split: option.splits\<close>)
  show ?thesis
  proof (cases "invokeHandler handler command p")
    case (Inr v)
    then show ?thesis using completed [OF Inr] by (fastforce simp: execute_def acceptHandlerResult_def)
  next
    case (Inl e)
    then have "\<exists>m. (m = n \<or> m = Suc n) \<and>
        execute config ?q handler command p 0 HandlerDone (at n s) = adoptCancellation ?q p (at m s)"
      by (cases e) (auto simp: execute_def acceptHandlerResult_def retried failed)
    then show ?thesis using adopted Inl by fastforce
  qed
qed

lemma requested_cancellation_honoured_example:
  "\<exists>n' s' row'.
    execute \<lparr>cfg_WorkerID = ''w1'', cfg_LeaseFor = 3000, cfg_HeartbeatEvery = 1000, cfg_PollEvery = 1,
        cfg_RetryBackoff = 5000\<rparr> (storeQueue demoStore quietEnv (\<lambda>_ _. 30) (\<lambda>_ _. False))
      (\<lambda>_ _. Panics) demoCommand demoPermit 0 HandlerDone (at 0 demoAsked) = (at n' s', Inr ()) \<and>
    selectJob [1] s' = Some row' \<and> status row' = Cancelled"
proof -
  have "lockPermit demoPermit [CancelRequested] 30 demoAsked = Inr (requestRow 25 (hd (jobs demoLeased)))"
    by (simp add: demoAsked_def RequestCancel_def transaction_def requestCancel_def leaseExpired_def
        lockPermit_def permitValidate_def demoPermit_def selectJob_def demoLeased_jobs
        containsStatus_def RequestJobCancellation_def requestRow_def Let_def)
  then show ?thesis
    using requested_cancellation_honoured [where clock = "\<lambda>_ _. 30" and handler = "\<lambda>_ _. Panics" and st = demoStore
      and n = 0 and command = demoCommand and locked = "\<lambda>_ _. False" and p = demoPermit and s = demoAsked
      and config = "\<lparr>cfg_WorkerID = ''w1'', cfg_LeaseFor = 3000,
        cfg_HeartbeatEvery = 1000, cfg_PollEvery = 1, cfg_RetryBackoff = 5000\<rparr>"]
    by (simp add: demoStore_def invokeHandler_def demoPermit_def) blast
qed

section \<open>Configuration\<close>

text \<open>
  A configuration read from the environment renews its lease in time: it is accepted by the
  runner, its lease is between one second and one hour, at least three heartbeats fit in every
  lease, the worker has a name of at most 255 characters, and every duration is positive.
\<close>

lemma environment_config_sound:
  assumes "ConfigFromEnvironment decimalSeconds env = Inr config"
  shows "configValidate config = Inr () \<and>
    second \<le> cfg_LeaseFor config \<and> cfg_LeaseFor config \<le> 3600 * second \<and>
    0 < cfg_HeartbeatEvery config \<and> 3 * cfg_HeartbeatEvery config \<le> cfg_LeaseFor config \<and>
    cfg_WorkerID config \<noteq> [] \<and> RuneCountInString (cfg_WorkerID config) \<le> 255 \<and>
    0 < cfg_PollEvery config \<and> 0 < cfg_RetryBackoff config"
proof -
  obtain seconds where seconds: "integerSeconds env ''JOB_LEASE_SECONDS'' 60 3600 = Inr seconds"
    and lease: "cfg_LeaseFor config = seconds * second" "cfg_HeartbeatEvery config = cfg_LeaseFor config div 3"
    and valid: "configValidate config = Inr ()"
    using assms by (auto simp: ConfigFromEnvironment_def result_simps Let_def split: if_splits)
  have "1 \<le> seconds \<and> seconds \<le> 3600"
    using seconds by (auto simp: integerSeconds_def split: option.splits if_splits)
  moreover have "3 * cfg_HeartbeatEvery config \<le> cfg_LeaseFor config" using lease(2) by simp
  moreover have "cfg_WorkerID config \<noteq> [] \<and> RuneCountInString (cfg_WorkerID config) \<le> 255 \<and>
      0 < cfg_HeartbeatEvery config \<and> 0 < cfg_PollEvery config \<and> 0 < cfg_RetryBackoff config"
    using valid by (auto simp: configValidate_def split: if_splits)
  ultimately show ?thesis using valid lease(1) by (auto simp: second_def)
qed

lemma environment_config_sound_example:
  "\<exists>config. ConfigFromEnvironment (\<lambda>_ fallback _. Inr (fallback * second))
      [''JOB_LEASE_SECONDS'' \<mapsto> ''90''] = Inr config \<and> cfg_HeartbeatEvery config = 30 * second \<and>
    3 * cfg_HeartbeatEvery config \<le> cfg_LeaseFor config"
proof -
  let ?c = "\<lparr>cfg_WorkerID = ''worker-1'', cfg_LeaseFor = 90 * second, cfg_HeartbeatEvery = 30 * second,
    cfg_PollEvery = second, cfg_RetryBackoff = 5 * second\<rparr>"
  have "RuneCountInString ''worker-1'' = 8" by (subst RuneCount_ascii) simp_all
  then have "ConfigFromEnvironment (\<lambda>_ fallback _. Inr (fallback * second))
      [''JOB_LEASE_SECONDS'' \<mapsto> ''90''] = Inr ?c"
    by (simp add: ConfigFromEnvironment_def integerSeconds_def ParseInt64_def decimalDigits_def
        configValidate_def second_def)
  then show ?thesis using environment_config_sound by fastforce
qed

end
