(* ===== verification/NetPolicy.thy ===== *)
theory NetPolicy
  imports GoStd JobTypes
begin

unbundle bit_operations_syntax

text \<open>
  The network policy of outgoing provider and source requests
  (\<^verbatim>\<open>internal/safenet/policy.go\<close>): which addresses may be dialled, which base URLs and
  paths are accepted. The parsers of the standard library for addresses and URLs are
  parameters: the policy decides on what they return.
\<close>

section \<open>Policy and errors\<close>

datatype FailureCode = InvalidURL | PolicyDenied | Timeout | Connection | Redirect | HTTPStatus
  | ResponseTooLarge | InvalidJSON

record Policy =
  AllowPrivateAddresses :: bool
  AllowPlainHTTP :: bool

definition policyValidate :: "Policy \<Rightarrow> string + unit" where
  "policyValidate policy =
     (if AllowPlainHTTP policy \<and> \<not> AllowPrivateAddresses policy
      then Inl ''plain HTTP requires private-address access'' else Inr ())"

section \<open>Addresses\<close>

datatype addr = V4 "32 word" | V6 "128 word"

type_synonym prefix = "addr \<times> nat"

definition ip4 :: "nat \<Rightarrow> nat \<Rightarrow> nat \<Rightarrow> nat \<Rightarrow> addr" where
  "ip4 a b c d = V4 (of_nat (((a * 256 + b) * 256 + c) * 256 + d))"

text \<open>\<^verbatim>\<open>netip.Addr.Unmap\<close> and \<^verbatim>\<open>netip.Prefix.Contains\<close>.\<close>

definition Unmap :: "addr \<Rightarrow> addr" where
  "Unmap a = (case a of
     V6 w \<Rightarrow> if drop_bit 32 w = 0xffff then V4 (ucast w) else V6 w
   | V4 w \<Rightarrow> V4 w)"

fun prefixContains :: "prefix \<Rightarrow> addr \<Rightarrow> bool" where
  "prefixContains (V4 b, n) (V4 a) \<longleftrightarrow> drop_bit (32 - n) a = drop_bit (32 - n) b"
| "prefixContains (V6 b, n) (V6 a) \<longleftrightarrow> drop_bit (128 - n) a = drop_bit (128 - n) b"
| "prefixContains _ _ \<longleftrightarrow> False"

text \<open>\<^verbatim>\<open>netip.Addr.IsGlobalUnicast\<close> of an address that is not an IPv4-mapped one.\<close>

fun IsGlobalUnicast :: "addr \<Rightarrow> bool" where
  "IsGlobalUnicast (V4 a) \<longleftrightarrow> a \<noteq> 0 \<and> a \<noteq> 0xffffffff \<and> drop_bit 24 a \<noteq> 127 \<and>
     drop_bit 28 a \<noteq> 14 \<and> drop_bit 16 a \<noteq> 0xa9fe"
| "IsGlobalUnicast (V6 a) \<longleftrightarrow> a \<noteq> 0 \<and> a \<noteq> 1 \<and> drop_bit 120 a \<noteq> 0xff \<and> drop_bit 118 a \<noteq> 0x3fa"

definition metadataAddresses :: "addr list" where
  "metadataAddresses = [ip4 100 100 100 200, ip4 168 63 129 16, ip4 169 254 169 254,
     V6 0xfd000ec2000000000000000000000254]"

definition localPrefixes :: "prefix list" where
  "localPrefixes = [(ip4 127 0 0 0, 8), (ip4 10 0 0 0, 8), (ip4 172 16 0 0, 12),
     (ip4 192 168 0 0, 16), (V6 1, 128), (V6 0xfc000000000000000000000000000000, 7)]"

definition nonPublicPrefixes :: "prefix list" where
  "nonPublicPrefixes = [(ip4 0 0 0 0, 8), (ip4 10 0 0 0, 8), (ip4 100 64 0 0, 10), (ip4 127 0 0 0, 8),
     (ip4 169 254 0 0, 16), (ip4 172 16 0 0, 12), (ip4 192 0 0 0, 24), (ip4 192 0 2 0, 24),
     (ip4 192 88 99 0, 24), (ip4 192 168 0 0, 16), (ip4 198 18 0 0, 15), (ip4 198 51 100 0, 24),
     (ip4 203 0 113 0, 24), (ip4 224 0 0 0, 4), (ip4 240 0 0 0, 4),
     (V6 0, 128), (V6 1, 128), (V6 0x01000000000000000000000000000000, 64),
     (V6 0x20010db8000000000000000000000000, 32), (V6 0xfc000000000000000000000000000000, 7),
     (V6 0xfe800000000000000000000000000000, 10), (V6 0xff000000000000000000000000000000, 8)]"

definition inPrefixes :: "addr \<Rightarrow> prefix list \<Rightarrow> bool" where
  "inPrefixes address prefixes \<longleftrightarrow> list_ex (\<lambda>prefix. prefixContains prefix address) prefixes"

definition AddressAllowed :: "(string \<Rightarrow> addr option) \<Rightarrow> string \<Rightarrow> Policy \<Rightarrow> bool \<Rightarrow> bool" where
  "AddressAllowed ParseAddr raw policy requirePrivate =
     (if Contains raw ''%'' then False
      else case ParseAddr raw of
        None \<Rightarrow> False
      | Some parsed \<Rightarrow>
          let address = Unmap parsed in
          if address \<in> set metadataAddresses then False
          else let local = inPrefixes address localPrefixes in
            if requirePrivate then AllowPrivateAddresses policy \<and> local
            else if local then AllowPrivateAddresses policy
            else IsGlobalUnicast address \<and> \<not> inPrefixes address nonPublicPrefixes)"

section \<open>Paths\<close>

text \<open>\<^verbatim>\<open>url.PathUnescape\<close>.\<close>

fun PathUnescape :: "string \<Rightarrow> string option" where
  "PathUnescape [] = Some []"
| "PathUnescape (c # s) =
     (if c = CHR ''%'' then
        (case s of
           h # l # rest \<Rightarrow>
             (case (hexValue h, hexValue l) of
                (Some a, Some b) \<Rightarrow> map_option (Cons (char_of (16 * a + b))) (PathUnescape rest)
              | _ \<Rightarrow> None)
         | _ \<Rightarrow> None)
      else map_option (Cons c) (PathUnescape s))"

definition unsafeText :: "string \<Rightarrow> bool" where
  "unsafeText decoded \<longleftrightarrow>
     (let lowered = map lowerByte decoded in
      Contains decoded [char_of (92 :: nat)] \<or> Contains lowered ''%00'' \<or> Contains lowered ''%2e'' \<or>
      Contains lowered ''%2f'' \<or> Contains lowered ''%5c'' \<or>
      list_ex (\<lambda>r. fst r < 32 \<or> fst r = 127) (runes decoded))"

lemma PathUnescape_shorter: "PathUnescape s = Some t \<Longrightarrow> t = s \<or> length t < length s"
  by (induction s arbitrary: t rule: PathUnescape.induct)
    (fastforce split: if_splits list.splits option.splits prod.splits simp del: hexValue.simps)+

text \<open>The decoding loop of \<^verbatim>\<open>safePath\<close>: it ends because every round that changes the text shortens it.\<close>

function safeDecode :: "string \<Rightarrow> string option" where
  "safeDecode decoded =
     (if unsafeText decoded then None
      else case PathUnescape decoded of
        None \<Rightarrow> None
      | Some next \<Rightarrow> if next = decoded then Some decoded else safeDecode next)"
  by pat_completeness auto
termination
  by (relation "measure length") (auto dest: PathUnescape_shorter)

declare safeDecode.simps [simp del]

definition segmentsOk :: "string list \<Rightarrow> bool" where
  "segmentsOk segments \<longleftrightarrow>
     list_all (\<lambda>i. let segment = segments ! i in
       \<not> (segment = ''.'' \<or> segment = ''..'') \<and>
       \<not> (segment = [] \<and> i \<noteq> 0 \<and> i \<noteq> length segments - 1)) [0..<length segments]"

definition safePath :: "string \<Rightarrow> bool \<Rightarrow> bool" where
  "safePath raw allowRoot =
     (if raw = [] then allowRoot
      else case safeDecode raw of
        None \<Rightarrow> False
      | Some decoded \<Rightarrow> segmentsOk (splitOn CHR ''/'' decoded))"

section \<open>URLs\<close>

text \<open>
  A parsed URL with its fields and what its methods \<^verbatim>\<open>Hostname\<close>, \<^verbatim>\<open>Port\<close> and
  \<^verbatim>\<open>EscapedPath\<close> return when it has just been parsed.
\<close>

record URL =
  url_Scheme :: string
  url_HasUser :: bool
  url_Host :: string
  url_Hostname :: string
  url_Port :: string
  url_Path :: string
  url_RawPath :: string
  url_EscapedPath :: string

datatype urlError = PolicyError string | RequestError FailureCode

definition hostnameForURL :: "string \<Rightarrow> string" where
  "hostnameForURL hostname = (if Contains hostname '':'' then ''['' @ hostname @ '']'' else hostname)"

text \<open>\<^verbatim>\<open>unicode.IsControl\<close>: the C0 and C1 controls and delete.\<close>

definition IsControl :: "nat \<Rightarrow> bool" where
  "IsControl r \<longleftrightarrow> r < 32 \<or> 127 \<le> r \<and> r < 160"

definition portOk :: "string \<Rightarrow> bool" where
  "portOk port \<longleftrightarrow> port = [] \<or> (case ParseInt64 port of None \<Rightarrow> False | Some n \<Rightarrow> 1 \<le> n \<and> n \<le> 65535)"

text \<open>\<^verbatim>\<open>NormalizeBaseURL\<close>: the checks of the parsed URL, and what is made of one that passes.\<close>

definition checkURL :: "Policy \<Rightarrow> URL \<Rightarrow> urlError + unit" where
  "checkURL policy url =
     (let scheme = map lowerByte (url_Scheme url) in
      if url_Host url = [] \<or> url_HasUser url then Inl (RequestError InvalidURL)
      else if scheme \<noteq> ''https'' \<and> scheme \<noteq> ''http'' then Inl (RequestError InvalidURL)
      else if scheme = ''http'' \<and> \<not> (AllowPrivateAddresses policy \<and> AllowPlainHTTP policy)
      then Inl (RequestError PolicyDenied)
      else if url_Hostname url = [] \<or>
        list_ex (\<lambda>r. IsControl (fst r) \<or> isSpaceRune (fst r)) (runes (url_Hostname url))
      then Inl (RequestError InvalidURL)
      else if \<not> portOk (url_Port url) then Inl (RequestError InvalidURL)
      else if \<not> safePath (url_EscapedPath url) True then Inl (RequestError InvalidURL)
      else Inr ())"

definition normalURL :: "URL \<Rightarrow> URL" where
  "normalURL url =
     (let scheme = map lowerByte (url_Scheme url);
          root = (url_Path url = [] \<or> url_Path url = ''/'');
          path = (if root then ''/v1'' else url_Path url);
          rawPath = (if root then [] else url_RawPath url);
          host = (if scheme = ''https'' \<and> url_Port url = ''443'' \<or> scheme = ''http'' \<and> url_Port url = ''80''
                  then hostnameForURL (url_Hostname url) else url_Host url) in
      url\<lparr>url_Scheme := scheme, url_Host := host, url_Path := TrimSuffix path ''/'',
          url_RawPath := TrimSuffix rawPath ''/''\<rparr>)"

definition NormalizeBaseURL :: "(string \<Rightarrow> URL option) \<Rightarrow> string \<Rightarrow> Policy \<Rightarrow> urlError + URL" where
  "NormalizeBaseURL Parse raw policy =
     (case policyValidate policy of
        Inl e \<Rightarrow> Inl (PolicyError e)
      | Inr _ \<Rightarrow>
          let candidate = TrimSpace raw in
          if candidate = [] \<or> CHR ''?'' \<in> set candidate \<or> CHR ''#'' \<in> set candidate
          then Inl (RequestError InvalidURL)
          else case Parse candidate of
            None \<Rightarrow> Inl (RequestError InvalidURL)
          | Some url \<Rightarrow> bindE (checkURL policy url) (\<lambda>_. Inr (normalURL url)))"

definition NormalizeRelativePath :: "(string \<Rightarrow> URL option) \<Rightarrow> string \<Rightarrow> FailureCode + string" where
  "NormalizeRelativePath Parse raw =
     (let candidate = TrimSpace raw in
      if candidate = [] \<or> HasPrefix candidate ''/'' \<or> CHR ''?'' \<in> set candidate \<or> CHR ''#'' \<in> set candidate
      then Inl InvalidURL
      else case Parse candidate of
        None \<Rightarrow> Inl InvalidURL
      | Some url \<Rightarrow>
          if url_Scheme url \<noteq> [] \<or> url_Host url \<noteq> [] \<or> \<not> safePath (CHR ''/'' # url_EscapedPath url) False
          then Inl InvalidURL else Inr (url_Path url))"

end
