(* ===== verification/NetProperties.thy ===== *)
theory NetProperties
  imports NetPolicy
begin

text \<open>The correctness properties of the network policy, each with a concrete instance.\<close>

section \<open>Prefixes as intervals\<close>

lemma drop_bit_interval:
  fixes a b :: "'a :: len word"
  assumes "2 ^ k dvd unat b"
  shows "drop_bit k a = drop_bit k b \<longleftrightarrow> unat b \<le> unat a \<and> unat a < unat b + 2 ^ k"
proof -
  obtain q where q: "unat b = 2 ^ k * q" using assms by (elim dvdE)
  have "drop_bit k a = drop_bit k b \<longleftrightarrow> unat a div 2 ^ k = q"
  proof -
    have "drop_bit k a = drop_bit k b \<longleftrightarrow> drop_bit k (unat a) = drop_bit k (unat b)"
      unfolding word_unat_eq_iff unat_drop_bit_eq ..
    then show ?thesis unfolding drop_bit_eq_div q by simp
  qed
  also have "\<dots> \<longleftrightarrow> 2 ^ k * q \<le> unat a \<and> unat a < 2 ^ k * q + 2 ^ k"
  proof
    assume "unat a div 2 ^ k = q"
    then show "2 ^ k * q \<le> unat a \<and> unat a < 2 ^ k * q + 2 ^ k"
      using times_div_less_eq_dividend [of "2 ^ k" "unat a"] dividend_less_times_div [of "2 ^ k" "unat a"]
      by auto
  next
    assume "2 ^ k * q \<le> unat a \<and> unat a < 2 ^ k * q + 2 ^ k"
    then show "unat a div 2 ^ k = q" by (intro div_nat_eqI) (auto simp: mult.commute)
  qed
  finally show ?thesis by (simp add: q)
qed

lemma contains_v4:
  "prefixContains (V4 b, n) (V4 a) \<longleftrightarrow> unat b \<le> unat a \<and> unat a < unat b + 2 ^ (32 - n)"
  if "2 ^ (32 - n) dvd unat b"
  using drop_bit_interval [OF that] by simp

lemma contains_v6:
  "prefixContains (V6 b, n) (V6 a) \<longleftrightarrow> unat b \<le> unat a \<and> unat a < unat b + 2 ^ (128 - n)"
  if "2 ^ (128 - n) dvd unat b"
  using drop_bit_interval [OF that] by simp

definition within :: "nat \<Rightarrow> (nat \<times> nat) list \<Rightarrow> bool" where
  "within n ranges \<longleftrightarrow> (\<exists>(lo, hi) \<in> set ranges. lo \<le> n \<and> n < hi + 1)"

text \<open>
  The reserved ranges as numbers, written out independently of the tables: this network,
  private use, shared address space, loopback, link local, protocol assignments,
  documentation, benchmarking, multicast and reserved; and their counterparts in IPv6.
\<close>

definition reserved4 :: "(nat \<times> nat) list" where
  "reserved4 = [(0, 0x00ffffff), (0x0a000000, 0x0affffff), (0x64400000, 0x647fffff),
     (0x7f000000, 0x7fffffff), (0xa9fe0000, 0xa9feffff), (0xac100000, 0xac1fffff),
     (0xc0000000, 0xc00000ff), (0xc0000200, 0xc00002ff), (0xc0586300, 0xc05863ff),
     (0xc0a80000, 0xc0a8ffff), (0xc6120000, 0xc613ffff), (0xc6336400, 0xc63364ff),
     (0xcb007100, 0xcb0071ff), (0xe0000000, 0xefffffff), (0xf0000000, 0xffffffff)]"

definition reserved6 :: "(nat \<times> nat) list" where
  "reserved6 = [(0, 0), (1, 1), (0x01000000000000000000000000000000, 0x0100000000000000ffffffffffffffff),
     (0x20010db8000000000000000000000000, 0x20010db8ffffffffffffffffffffffff),
     (0xfc000000000000000000000000000000, 0xfdffffffffffffffffffffffffffffff),
     (0xfe800000000000000000000000000000, 0xfebfffffffffffffffffffffffffffff),
     (0xff000000000000000000000000000000, 0xffffffffffffffffffffffffffffffff)]"

lemma nonPublic_v4: "inPrefixes (V4 w) nonPublicPrefixes \<longleftrightarrow> within (unat w) reserved4"
  by (simp add: inPrefixes_def nonPublicPrefixes_def ip4_def contains_v4 within_def reserved4_def
      del: prefixContains.simps(1))

lemma nonPublic_v6: "inPrefixes (V6 w) nonPublicPrefixes \<longleftrightarrow> within (unat w) reserved6"
  by (simp add: inPrefixes_def nonPublicPrefixes_def ip4_def contains_v6 within_def reserved6_def
      del: prefixContains.simps(2))

definition private4 :: "(nat \<times> nat) list" where
  "private4 = [(0x7f000000, 0x7fffffff), (0x0a000000, 0x0affffff), (0xac100000, 0xac1fffff),
     (0xc0a80000, 0xc0a8ffff)]"

definition private6 :: "(nat \<times> nat) list" where
  "private6 = [(1, 1), (0xfc000000000000000000000000000000, 0xfdffffffffffffffffffffffffffffff)]"

fun inside :: "(nat \<times> nat) list \<Rightarrow> (nat \<times> nat) list \<Rightarrow> addr \<Rightarrow> bool" where
  "inside ranges4 ranges6 (V4 w) = within (unat w) ranges4"
| "inside ranges4 ranges6 (V6 w) = within (unat w) ranges6"

lemma nonPublic_inside: "inPrefixes a nonPublicPrefixes = inside reserved4 reserved6 a"
  by (cases a) (simp_all add: nonPublic_v4 nonPublic_v6)

lemma local_inside: "inPrefixes a localPrefixes = inside private4 private6 a"
proof (cases a)
  case (V4 w)
  then show ?thesis
    by (simp add: inPrefixes_def localPrefixes_def ip4_def contains_v4 within_def private4_def
        del: prefixContains.simps(1))
next
  case (V6 w)
  then show ?thesis
    by (simp add: inPrefixes_def localPrefixes_def ip4_def contains_v6 within_def private6_def
        del: prefixContains.simps(2))
qed

lemma not_global_unicast: "\<not> IsGlobalUnicast a \<Longrightarrow> inPrefixes a nonPublicPrefixes"
  by (cases a) (auto simp: inPrefixes_def nonPublicPrefixes_def ip4_def)

lemma Contains_char [simp]: "Contains s [c] \<longleftrightarrow> c \<in> set s"
  by (induction s) (auto simp: HasPrefix_def)

text \<open>
  C38. Exactly which addresses may be dialled: never one written with a zone, never a cloud
  metadata address, also not in its IPv4-mapped form; a loopback or private-use address only when
  the policy allows private addresses; and any other address only when no private one is
  required and it lies outside every reserved range.
\<close>

theorem address_policy:
  "AddressAllowed ParseAddr raw policy requirePrivate \<longleftrightarrow>
     CHR ''%'' \<notin> set raw \<and>
     (\<exists>a. ParseAddr raw = Some a \<and> Unmap a \<notin> set metadataAddresses \<and>
       (if inside private4 private6 (Unmap a) then AllowPrivateAddresses policy
        else \<not> requirePrivate \<and> \<not> inside reserved4 reserved6 (Unmap a)))"
  using not_global_unicast
  by (auto simp: AddressAllowed_def Let_def local_inside nonPublic_inside split: option.splits)

section \<open>Paths\<close>

lemma PathUnescape_slash:
  "PathUnescape (a @ CHR ''/'' # b) = Some r \<Longrightarrow>
     \<exists>ra rb. PathUnescape a = Some ra \<and> PathUnescape b = Some rb \<and> r = ra @ CHR ''/'' # rb"
proof (induction a arbitrary: r rule: PathUnescape.induct)
  case 1
  then show ?case by auto
next
  case (2 c s)
  show ?case
  proof (cases "c = CHR ''%''")
    case False
    then obtain t where "PathUnescape (s @ CHR ''/'' # b) = Some t" "r = c # t" using 2(3) by auto
    then show ?thesis using 2(2) [OF False] False by fastforce
  next
    case True
    have noslash: "hexValue CHR ''/'' = None" by simp
    show ?thesis
    proof (cases s)
      case Nil
      then show ?thesis using 2(3) True noslash
        by (auto simp del: hexValue.simps split: list.splits option.splits)
    next
      case (Cons h s')
      show ?thesis
      proof (cases s')
        case Nil
        then show ?thesis using 2(3) True Cons noslash
          by (auto simp del: hexValue.simps split: list.splits option.splits)
      next
        case (Cons l rest)
        note s = \<open>s = h # s'\<close> Cons
        obtain x y t where xy: "hexValue h = Some x" "hexValue l = Some y"
          "PathUnescape (rest @ CHR ''/'' # b) = Some t" "r = char_of (16 * x + y) # t"
          using 2(3) True s by (auto simp del: hexValue.simps split: option.splits)
        show ?thesis using 2(1) [OF True s(1) s(2) refl xy(1) xy(2) xy(3)] xy True s
          by (auto simp del: hexValue.simps)
      qed
    qed
  qed
qed

lemma PathUnescape_plain: "CHR ''%'' \<notin> set s \<Longrightarrow> PathUnescape s = Some s"
  by (induction s) auto

text \<open>Decoding works segment by segment, so a segment without an escape stays a segment.\<close>

lemma splitOn_mid: "splitOn sep (a @ sep # b) = splitOn sep a @ splitOn sep b"
  by (induction a) (auto split: list.splits)

lemma plain_segment_kept:
  assumes "PathUnescape d = Some r" "seg \<in> set (splitOn CHR ''/'' d)" "CHR ''%'' \<notin> set seg"
  shows "seg \<in> set (splitOn CHR ''/'' r)"
  using assms
proof (induction "length d" arbitrary: d r rule: less_induct)
  case less
  show ?case
  proof (cases "CHR ''/'' \<in> set d")
    case False
    then have "seg = d" using less.prems(2) by (simp add: splitOn_id)
    then show ?thesis using less.prems False by (simp add: PathUnescape_plain splitOn_id)
  next
    case True
    then obtain a b where d: "d = a @ CHR ''/'' # b" by (meson split_list)
    obtain ra rb where r: "PathUnescape a = Some ra" "PathUnescape b = Some rb" "r = ra @ CHR ''/'' # rb"
      using PathUnescape_slash less.prems(1) d by blast
    have "seg \<in> set (splitOn CHR ''/'' a) \<or> seg \<in> set (splitOn CHR ''/'' b)"
      using less.prems(2) by (simp add: d splitOn_mid)
    then show ?thesis using less.hyps [OF _ r(1)] less.hyps [OF _ r(2)] less.prems(3)
      by (auto simp: r(3) splitOn_mid d)
  qed
qed

fun decodeTimes :: "nat \<Rightarrow> string \<Rightarrow> string option" where
  "decodeTimes 0 s = Some s"
| "decodeTimes (Suc n) s = (case PathUnescape s of None \<Rightarrow> None | Some t \<Rightarrow> decodeTimes n t)"

lemma decodeTimes_fixed: "PathUnescape s = Some s \<Longrightarrow> decodeTimes n s = Some s"
  by (induction n) auto

lemma safeDecode_Some:
  "safeDecode s = Some d \<Longrightarrow> \<not> unsafeText s \<and>
     (\<exists>t. PathUnescape s = Some t \<and> (t = s \<and> d = s \<or> t \<noteq> s \<and> safeDecode t = Some d))"
  by (subst (asm) safeDecode.simps) (auto split: if_splits option.splits)

definition quietPath :: "string \<Rightarrow> bool" where
  "quietPath t \<longleftrightarrow> ''..'' \<notin> set (splitOn CHR ''/'' t) \<and> ''.'' \<notin> set (splitOn CHR ''/'' t) \<and> \<not> unsafeText t"

lemma safeDecode_quiet:
  "safeDecode s = Some d \<Longrightarrow> ''..'' \<notin> set (splitOn CHR ''/'' d) \<Longrightarrow> ''.'' \<notin> set (splitOn CHR ''/'' d) \<Longrightarrow>
     \<exists>t. decodeTimes n s = Some t \<and> quietPath t"
proof (induction s arbitrary: n rule: safeDecode.induct)
  case (1 s)
  obtain t where t: "\<not> unsafeText s" "PathUnescape s = Some t"
    "t = s \<and> d = s \<or> t \<noteq> s \<and> safeDecode t = Some d" using safeDecode_Some [OF 1(2)] by blast
  show ?case
  proof (cases "t = s")
    case True
    then show ?thesis using t 1(3,4) by (auto simp: decodeTimes_fixed quietPath_def)
  next
    case False
    then have ih: "\<exists>u. decodeTimes m t = Some u \<and> quietPath u" for m
      using 1(1) [OF t(1,2)] t 1(3,4) by blast
    show ?thesis
    proof (cases n)
      case 0
      have "quietPath t" using ih [of 0] by simp
      then have "quietPath s" using plain_segment_kept [OF t(2)] t(1) by (auto simp: quietPath_def)
      then show ?thesis using 0 by simp
    next
      case (Suc m)
      then show ?thesis using t(2) ih [of m] by simp
    qed
  qed
qed

text \<open>
  C39. An accepted path cannot climb: however many times it is percent-decoded, decoding succeeds
  and no segment of the result is a dot or a double dot, and it contains no backslash, no
  control character and no escaped dot, slash, backslash or NUL.
\<close>

theorem safe_path_no_traversal:
  assumes "safePath raw allowRoot" "raw \<noteq> []"
  shows "\<exists>t. decodeTimes n raw = Some t \<and> ''..'' \<notin> set (splitOn CHR ''/'' t) \<and>
    ''.'' \<notin> set (splitOn CHR ''/'' t) \<and> char_of (92 :: nat) \<notin> set t \<and>
    \<not> Contains (map lowerByte t) ''%2e'' \<and> \<not> Contains (map lowerByte t) ''%2f'' \<and>
    \<not> Contains (map lowerByte t) ''%5c'' \<and> \<not> Contains (map lowerByte t) ''%00'' \<and>
    (\<forall>r \<in> set (runes t). 32 \<le> fst r \<and> fst r \<noteq> 127)"
proof -
  obtain d where d: "safeDecode raw = Some d" "segmentsOk (splitOn CHR ''/'' d)"
    using assms by (auto simp: safePath_def split: option.splits)
  have "seg \<noteq> ''.'' \<and> seg \<noteq> ''..''" if "seg \<in> set (splitOn CHR ''/'' d)" for seg
    using d(2) that unfolding segmentsOk_def in_set_conv_nth by (auto simp: list_all_iff Let_def)
  then obtain t where "decodeTimes n raw = Some t" "quietPath t"
    using safeDecode_quiet [OF d(1)] by blast
  then show ?thesis
    by (auto simp: quietPath_def unsafeText_def Let_def list_ex_iff not_le)
qed

theorem safe_path_no_traversal_witness:
  "safePath ''/v1/a%20b'' True \<and> (\<exists>t. decodeTimes 3 ''/v1/a%20b'' = Some t \<and> ''..'' \<notin> set (splitOn CHR ''/'' t))"
proof -
  have "safePath ''/v1/a%20b'' True"
    by (simp add: safePath_def safeDecode.simps unsafeText_def Let_def HasPrefix_def lowerByte_def
        runes_ascii segmentsOk_def char_of_def bit_0)
  then show ?thesis using safe_path_no_traversal [of "''/v1/a%20b''" True 3] by auto
qed

section \<open>URLs\<close>

text \<open>
  A base URL that is accepted keeps to the policy, whatever the URL parser returned: its
  scheme is https, or http under a policy that allows both plain HTTP and private addresses; it
  had no user information, a host without spaces or controls, a port between 1 and 65535 if any,
  and a path that cannot climb; and the URL returned has a host and a path.
\<close>

lemma base_url_policy:
  assumes "NormalizeBaseURL Parse raw policy = Inr url"
  shows "\<exists>parsed. Parse (TrimSpace raw) = Some parsed \<and> \<not> url_HasUser parsed \<and>
    (url_Scheme url = ''https'' \<or>
     url_Scheme url = ''http'' \<and> AllowPrivateAddresses policy \<and> AllowPlainHTTP policy) \<and>
    url_Hostname parsed \<noteq> [] \<and> (\<forall>r \<in> set (runes (url_Hostname parsed)). \<not> isSpaceRune (fst r) \<and> \<not> IsControl (fst r)) \<and>
    portOk (url_Port parsed) \<and> safePath (url_EscapedPath parsed) True \<and>
    url_Host url \<noteq> [] \<and> url_Path url \<noteq> [] \<and> policyValidate policy = Inr ()"
proof -
  have trim: "TrimSuffix p ''/'' \<noteq> []" if "p \<noteq> []" "p \<noteq> ''/''" for p
  proof -
    have "\<not> (HasSuffix p ''/'' \<and> length p \<le> 1)"
      using that by (cases p) (auto simp: HasSuffix_def)
    then show ?thesis using that by (auto simp: TrimSuffix_def)
  qed
  obtain parsed where parsed: "Parse (TrimSpace raw) = Some parsed" "checkURL policy parsed = Inr ()"
    "url = normalURL parsed" "policyValidate policy = Inr ()"
    using assms
    by (auto simp: NormalizeBaseURL_def Let_def result_simps split: sum.splits if_splits option.splits)
  let ?scheme = "map lowerByte (url_Scheme parsed)"
  have ok: "url_Host parsed \<noteq> []" "\<not> url_HasUser parsed"
    "?scheme = ''https'' \<or> ?scheme = ''http'' \<and> AllowPrivateAddresses policy \<and> AllowPlainHTTP policy"
    "url_Hostname parsed \<noteq> []"
    "\<forall>r \<in> set (runes (url_Hostname parsed)). \<not> isSpaceRune (fst r) \<and> \<not> IsControl (fst r)"
    "portOk (url_Port parsed)" "safePath (url_EscapedPath parsed) True"
    using parsed(2) unfolding checkURL_def Let_def list_ex_iff by (simp_all split: if_splits) (elim disjE; simp)
  have "url_Scheme url = ?scheme" "url_Path url \<noteq> []" "url_Host url \<noteq> []"
    using ok(1,4) trim [of "''/v1''"] trim [of "url_Path parsed"]
    by (simp_all add: parsed(3) normalURL_def Let_def hostnameForURL_def)
  then show ?thesis using parsed ok by (intro exI [of _ parsed]) simp
qed

definition demoParse :: "string \<Rightarrow> URL option" where
  "demoParse s = Some \<lparr>url_Scheme = ''HTTPS'', url_HasUser = False, url_Host = ''api.test:443'',
     url_Hostname = ''api.test'', url_Port = ''443'', url_Path = [], url_RawPath = [],
     url_EscapedPath = []\<rparr>"

lemma base_url_policy_example:
  "\<exists>url. NormalizeBaseURL demoParse ''HTTPS://api.test:443''
      \<lparr>AllowPrivateAddresses = False, AllowPlainHTTP = False\<rparr> = Inr url \<and> url_Host url = ''api.test'' \<and>
    url_Scheme url = ''https'' \<and> url_Path url \<noteq> []"
proof -
  let ?p = "\<lparr>AllowPrivateAddresses = False, AllowPlainHTTP = False\<rparr>"
  have trim: "TrimSpace ''HTTPS://api.test:443'' = ''HTTPS://api.test:443''"
    by (simp add: TrimSpace_def runes_ascii isSpaceRune_def)
  have url: "\<exists>url. NormalizeBaseURL demoParse ''HTTPS://api.test:443'' ?p = Inr url \<and> url_Host url = ''api.test''"
    by (simp add: NormalizeBaseURL_def policyValidate_def Let_def demoParse_def checkURL_def normalURL_def trim
        lowerByte_def runes_ascii IsControl_def isSpaceRune_def portOk_def ParseInt64_def decimalDigits_def
        safePath_def hostnameForURL_def HasPrefix_def char_of_def bit_0)
  then show ?thesis using base_url_policy by fastforce
qed

end
