(* ===== verification/ModelBudget.thy ===== *)
theory ModelBudget
  imports GoStd
begin

text \<open>
  The token budget applied at model request boundaries
  (\<^verbatim>\<open>internal/modelbudget/budget.go\<close>): the estimate, the test whether a request fits the
  context window, and the search for the longest prefix of a tool result that does.
\<close>

section \<open>The budget\<close>

definition DefaultSafetyTokens :: int where
  "DefaultSafetyTokens = 1024"

definition EstimateTokens :: "string \<Rightarrow> int" where
  "EstimateTokens encoded = (if length encoded = 0 then 0 else (int (length encoded) + 3) div 4)"

definition Fits :: "string \<Rightarrow> int \<Rightarrow> int \<Rightarrow> int \<Rightarrow> bool" where
  "Fits encoded contextWindow maxOutput safety \<longleftrightarrow>
     contextWindow > 0 \<and> maxOutput > 0 \<and> safety > 0 \<and>
     EstimateTokens encoded + maxOutput + safety \<le> contextWindow"

text \<open>The truncation envelope, a map with three entries.\<close>

record envelope =
  content_prefix :: string
  original_bytes :: nat
  truncated :: bool

definition resultPrefix :: "string \<Rightarrow> nat \<Rightarrow> envelope" where
  "resultPrefix encoded prefix =
     \<lparr>content_prefix = take prefix encoded, original_bytes = length encoded, truncated = True\<rparr>"

text \<open>The byte offsets at which a \<^verbatim>\<open>range\<close> loop over the string visits a rune.\<close>

fun offsets :: "nat \<Rightarrow> (nat \<times> string) list \<Rightarrow> nat list" where
  "offsets n [] = []"
| "offsets n (r # rs) = n # offsets (n + length (snd r)) rs"

definition boundaries :: "string \<Rightarrow> nat list" where
  "boundaries encoded =
     0 # filter (\<lambda>i. i \<noteq> 0) (offsets 0 (runes encoded)) @ [length encoded]"

function search :: "(nat \<Rightarrow> bool) \<Rightarrow> nat \<Rightarrow> nat \<Rightarrow> nat" where
  "search ok low high =
     (if low < high then
        let middle = low + (high - low + 1) div 2 in
        if ok middle then search ok middle high else search ok low (middle - 1)
      else low)"
  by pat_completeness auto
termination
  by (relation "measure (\<lambda>(ok, low, high). high - low)") auto

declare search.simps [simp del]

definition TruncateResult :: "string \<Rightarrow> (envelope \<Rightarrow> bool) \<Rightarrow> string + envelope" where
  "TruncateResult encoded fits =
     (if \<not> fits (resultPrefix encoded 0)
      then Inl ''model context cannot fit a truncated tool result''
      else let bs = boundaries encoded;
               low = search (\<lambda>i. fits (resultPrefix encoded (bs ! i))) 0 (length bs - 1)
           in Inr (resultPrefix encoded (bs ! low)))"

section \<open>The search\<close>

lemma search_range: "low \<le> high \<Longrightarrow> low \<le> search ok low high \<and> search ok low high \<le> high"
proof (induction ok low high rule: search.induct)
  case (1 ok low high)
  let ?m = "low + (high - low + 1) div 2"
  show ?case
  proof (cases "low < high")
    case True
    then have m: "low < ?m" "?m \<le> high" by auto
    show ?thesis
    proof (cases "ok ?m")
      case ok: True
      have "search ok low high = search ok ?m high" using True ok by (subst search.simps) (simp add: Let_def)
      then show ?thesis using 1(1) [OF True refl ok m(2)] m(1) by linarith
    next
      case bad: False
      have "search ok low high = search ok low (?m - 1)" using True bad by (subst search.simps) (simp add: Let_def)
      moreover have "low \<le> ?m - 1" using m(1) by linarith
      ultimately show ?thesis using 1(2) [OF True refl bad] m(2) by linarith
    qed
  next
    case False
    then show ?thesis using 1(3) by (subst (1 2) search.simps) simp
  qed
qed

text \<open>Whatever the test is, the index found passes it when the first one does.\<close>

lemma search_ok: "low \<le> high \<Longrightarrow> ok low \<Longrightarrow> ok (search ok low high)"
proof (induction ok low high rule: search.induct)
  case (1 ok low high)
  show ?case
  proof (cases "low < high")
    case True
    then show ?thesis using 1(1) [OF True refl] 1(2) [OF True refl] 1(4)
      by (subst search.simps) (auto simp: Let_def)
  next
    case False
    then show ?thesis using 1(4) by (subst search.simps) simp
  qed
qed

text \<open>For a test that, once failed, stays failed, it is the last index that passes.\<close>

lemma search_last:
  assumes "low \<le> high" "ok low" "\<And>i j. i \<le> j \<Longrightarrow> j \<le> lim \<Longrightarrow> ok j \<Longrightarrow> ok i" "high \<le> lim"
    "\<And>i. high < i \<Longrightarrow> i \<le> lim \<Longrightarrow> \<not> ok i"
  shows "\<forall>i \<le> lim. ok i \<longleftrightarrow> i \<le> search ok low high"
  using assms
proof (induction ok low high rule: search.induct)
  case (1 ok low high)
  let ?m = "low + (high - low + 1) div 2"
  show ?case
  proof (cases "low < high")
    case True
    then have m: "low < ?m" "?m \<le> high" by auto
    show ?thesis
    proof (cases "ok ?m")
      case ok: True
      then show ?thesis using True m 1(1) [OF True refl ok m(2) ok 1(5,6,7)]
        by (subst search.simps) (simp add: Let_def)
    next
      case bad: False
      have "\<forall>i \<le> lim. ok i \<longleftrightarrow> i \<le> search ok low (?m - 1)"
      proof (rule 1(2) [OF True refl bad _ 1(4,5)])
        show "\<not> ok i" if "?m - 1 < i" "i \<le> lim" for i
        proof -
          have "?m \<le> i" using that(1) m(1) by linarith
          then show ?thesis using bad 1(5) that(2) by blast
        qed
      qed (use m 1(6) in auto)
      then show ?thesis using True bad by (subst search.simps) (simp add: Let_def)
    qed
  next
    case False
    then have "low = high" using 1(3) by simp
    have "ok i \<longleftrightarrow> i \<le> low" if "i \<le> lim" for i
      using 1(5) [of i low] 1(4,6,7) that \<open>low = high\<close> by (cases "i \<le> low") auto
    then show ?thesis using False by (subst search.simps) simp
  qed
qed

section \<open>Rune boundaries\<close>

lemma offsets_take:
  "i \<in> set (offsets n rs) \<Longrightarrow> \<exists>k \<le> length rs. i = n + length (concat (map snd (take k rs)))"
proof (induction rs arbitrary: n)
  case (Cons r rs)
  show ?case
  proof (cases "i = n")
    case True
    then show ?thesis by (intro exI [of _ 0]) simp
  next
    case False
    then obtain k where "k \<le> length rs" "i = n + length (snd r) + length (concat (map snd (take k rs)))"
      using Cons by auto
    then show ?thesis by (intro exI [of _ "Suc k"]) simp
  qed
qed simp

text \<open>A boundary cuts the string between two runes.\<close>

lemma boundary_whole_runes:
  assumes "b \<in> set (boundaries s)"
  shows "\<exists>k \<le> length (runes s). take b s = concat (map snd (take k (runes s)))"
proof -
  have cut: "take (length (concat (map snd (take k (runes s))))) s = concat (map snd (take k (runes s)))" for k
  proof -
    have "s = concat (map snd (take k (runes s))) @ concat (map snd (drop k (runes s)))"
      by (metis append_take_drop_id concat_append map_append runes_concat)
    then show ?thesis by (metis append_eq_conv_conj)
  qed
  consider "b = 0" | "b = length s" | "b \<in> set (offsets 0 (runes s))"
    using assms by (auto simp: boundaries_def)
  then show ?thesis
  proof cases
    case 1
    then show ?thesis by (intro exI [of _ 0]) simp
  next
    case 2
    then show ?thesis by (intro exI [of _ "length (runes s)"]) (simp add: runes_concat)
  next
    case 3
    then show ?thesis using offsets_take [OF 3] cut by fastforce
  qed
qed

lemma offsets_sorted: "\<forall>r \<in> set rs. snd r \<noteq> [] \<Longrightarrow> sorted_wrt (<) (offsets n rs) \<and>
  (\<forall>i \<in> set (offsets n rs). n \<le> i \<and> i < n + length (concat (map snd rs)))"
proof (induction rs arbitrary: n)
  case (Cons r rs)
  let ?m = "n + length (snd r)"
  have pos: "n < ?m" using Cons(2) by simp
  have ih: "sorted_wrt (<) (offsets ?m rs)"
    "\<And>i. i \<in> set (offsets ?m rs) \<Longrightarrow> ?m \<le> i \<and> i < ?m + length (concat (map snd rs))"
    using Cons(1) [of ?m] Cons(2) by auto
  then have "n < i" if "i \<in> set (offsets ?m rs)" for i using that pos by (meson less_le_trans)
  moreover have "i < n + length (concat (map snd (r # rs)))" if "i \<in> set (offsets ?m rs)" for i
    using ih(2) [OF that] by simp
  ultimately show ?case using ih(1) pos by (simp add: less_imp_le)
qed simp

lemma boundaries_sorted: "sorted (boundaries s)"
proof -
  have "sorted_wrt (<) (offsets 0 (runes s))" "\<forall>i \<in> set (offsets 0 (runes s)). i < length s"
    using offsets_sorted [of "runes s" 0] runes_chunk_pos by (auto simp: runes_concat)
  then have "sorted_wrt (<) (filter (\<lambda>i. i \<noteq> 0) (offsets 0 (runes s)))" by (simp add: sorted_wrt_filter)
  then have "sorted (filter (\<lambda>i. i \<noteq> 0) (offsets 0 (runes s)))" by (rule strict_sorted_imp_sorted)
  then show ?thesis
    using \<open>\<forall>i \<in> set (offsets 0 (runes s)). i < length s\<close>
    by (auto simp: boundaries_def sorted_append)
qed

lemma boundaries_length: "length (boundaries s) \<ge> 2" "boundaries s ! 0 = 0"
  by (simp_all add: boundaries_def)

section \<open>Properties\<close>

text \<open>
  The truncation search fails exactly when the empty prefix does not fit, and otherwise
  returns an envelope that fits and that carries a prefix of whole runes, the original length and
  the truncation mark. If the test only gets harder as the prefix grows, no longer prefix that
  ends at a rune boundary fits.
\<close>

lemma truncate_longest:
  assumes harder: "\<forall>i j. i \<le> j \<longrightarrow> fits (resultPrefix s j) \<longrightarrow> fits (resultPrefix s i)"
  shows "if \<not> fits (resultPrefix s 0)
    then TruncateResult s fits = Inl ''model context cannot fit a truncated tool result''
    else \<exists>n. TruncateResult s fits = Inr (resultPrefix s n) \<and> fits (resultPrefix s n) \<and>
      n \<in> set (boundaries s) \<and>
      (\<exists>k \<le> length (runes s). take n s = concat (map snd (take k (runes s)))) \<and>
      (\<forall>b \<in> set (boundaries s). fits (resultPrefix s b) \<longrightarrow> b \<le> n)"
proof (cases "fits (resultPrefix s 0)")
  case fit: True
  let ?bs = "boundaries s" and ?ok = "\<lambda>i. fits (resultPrefix s (boundaries s ! i))"
  let ?lim = "length (boundaries s) - 1"
  let ?k = "search ?ok 0 ?lim"
  have first: "?ok 0" using fit boundaries_length(2) by simp
  have step: "?bs ! i \<le> ?bs ! j" if "i \<le> j" "j \<le> ?lim" for i j
    using boundaries_sorted that boundaries_length(1) [of s] by (intro sorted_nth_mono) auto
  have mono: "?ok i" if "i \<le> j" "j \<le> ?lim" "?ok j" for i j
    using step [OF that(1,2)] harder that(3) by blast
  have range: "?k \<le> ?lim" using search_range [of 0 ?lim ?ok] by simp
  have all: "\<forall>i \<le> ?lim. ?ok i \<longleftrightarrow> i \<le> ?k"
    by (rule search_last [of 0 ?lim ?ok ?lim]) (use first mono in auto)
  have mem: "?bs ! ?k \<in> set ?bs" using range boundaries_length(1) [of s] by (intro nth_mem) linarith
  have "b \<le> ?bs ! ?k" if b: "b \<in> set ?bs" "fits (resultPrefix s b)" for b
  proof -
    from b(1) obtain i where i: "i < length ?bs" "?bs ! i = b" unfolding in_set_conv_nth by blast
    then have "i \<le> ?k" using all b(2) by auto
    then show ?thesis using i(2) step range by blast
  qed
  moreover have "?ok ?k" using all range by simp
  moreover have "TruncateResult s fits = Inr (resultPrefix s (?bs ! ?k))"
    using fit by (simp add: TruncateResult_def Let_def)
  ultimately show ?thesis using boundary_whole_runes [OF mem] mem fit by auto
qed (simp add: TruncateResult_def)

lemma truncate_longest_example:
  "\<exists>n. TruncateResult ''abcdef'' (\<lambda>e. length (content_prefix e) \<le> 4) = Inr (resultPrefix ''abcdef'' n) \<and>
     length (take n ''abcdef'') \<le> 4"
proof -
  let ?f = "\<lambda>e. length (content_prefix e) \<le> 4"
  have "\<forall>i j. i \<le> j \<longrightarrow> ?f (resultPrefix ''abcdef'' j) \<longrightarrow> ?f (resultPrefix ''abcdef'' i)"
    unfolding resultPrefix_def envelope.select_convs length_take by (meson le_trans min.mono order_refl)
  from truncate_longest [OF this] show ?thesis
    by (auto simp: resultPrefix_def)
qed

text \<open>
  A request that fits leaves room: the bytes sent, at no more than four per token, the
  output and the safety margin stay within the context window, and a shorter request under the
  same limits fits too.
\<close>

lemma fits_leaves_room:
  assumes "Fits encoded window output safety"
  shows "int (length encoded) \<le> 4 * (window - output - safety) \<and> output < window \<and> safety < window \<and>
    (length shorter \<le> length encoded \<longrightarrow> Fits shorter window output safety)"
  using assms by (auto simp: Fits_def EstimateTokens_def split: if_splits)

lemma fits_leaves_room_example: "int (length (replicate 4000 CHR ''x'')) \<le> 4 * (8192 - 2048 - 1024)"
  using fits_leaves_room [of "replicate 4000 CHR ''x''" 8192 2048 DefaultSafetyTokens]
  by (simp add: Fits_def EstimateTokens_def DefaultSafetyTokens_def)

end
