(* ===== verification/ByteFrames.thy ===== *)
theory ByteFrames
  imports GoStd
begin

text \<open>
  Numbers as bytes, most significant first, as \<^verbatim>\<open>encoding/binary\<close> writes them into
  framed texts that are hashed or authenticated, and that no two numbers have the same bytes.
\<close>

text \<open>\<^verbatim>\<open>binary.BigEndian.PutUint64\<close> of a length.\<close>

definition frame64 :: "nat \<Rightarrow> string" where
  "frame64 n = map (\<lambda>i. char_of (n div 256 ^ i mod 256)) [7, 6, 5, 4, 3, 2, 1, 0]"

lemma frame64_length [simp]: "length (frame64 n) = 8"
  by (simp add: frame64_def)

lemma char_of_inject: "char_of (a :: nat) = char_of b \<Longrightarrow> a < 256 \<Longrightarrow> b < 256 \<Longrightarrow> a = b"
  by (metis char_of_eq_iff mod_less of_char_of)

lemma div_256_step: "(n :: nat) div 256 ^ k = n div 256 ^ Suc k * 256 + n div 256 ^ k mod 256"
proof -
  have "n div 256 ^ Suc k = n div 256 ^ k div 256" by (simp add: div_mult2_eq [symmetric] mult.commute)
  then show ?thesis by simp
qed

lemma frame64_inject:
  assumes "frame64 m = frame64 n" "m < 2 ^ 64" "n < 2 ^ 64"
  shows "m = n"
proof -
  have digit: "m div 256 ^ i mod 256 = n div 256 ^ i mod 256" if "i < 8" for i :: nat
  proof -
    have "i \<in> set [7, 6, 5, 4, 3, 2, 1, 0 :: nat]" using that by auto
    then have "char_of (m div 256 ^ i mod 256) = (char_of (n div 256 ^ i mod 256) :: char)"
      using assms(1) unfolding frame64_def map_eq_conv by blast
    then show ?thesis by (rule char_of_inject) simp_all
  qed
  have "m div 256 ^ (8 - k) = n div 256 ^ (8 - k)" if "k \<le> 8" for k
    using that
  proof (induction k)
    case 0
    then show ?case using assms(2,3) by (simp add: div_less)
  next
    case (Suc k)
    then have "8 - k = Suc (8 - Suc k)" "8 - Suc k < 8" by auto
    then show ?case using Suc digit [of "8 - Suc k"] div_256_step [of m "8 - Suc k"] div_256_step [of n "8 - Suc k"]
      by simp
  qed
  from this [of 8] show ?thesis by simp
qed

end
