(* ===== verification/SourceFiles.thy ===== *)
theory SourceFiles
  imports GoStd JobTypes ByteFrames "HOL-Library.Char_ord" "HOL-Library.Multiset"
begin

text \<open>
  Source file sets (\<^verbatim>\<open>internal/sourcefiles/content.go\<close>): identifiers, relative source
  paths and the fingerprint of a set of files. Strings are ordered byte by byte, as Go
  orders them. The hash function is a parameter.
\<close>

section \<open>Identifiers\<close>

datatype sourceError = ErrInvalidID | ErrInvalidSourcePath | ErrInvalidFileSet

definition ParseID :: "string \<Rightarrow> sourceError + UUID" where
  "ParseID raw =
     (let value = (if HasPrefix raw ''urn:uuid:'' then TrimPrefix raw ''urn:uuid:'' else raw);
          inner = (if length value \<ge> 2 \<and> hd value = CHR ''{'' \<and> last value = CHR ''}''
                   then butlast (tl value) else value);
          digits = filter (\<lambda>c. c \<noteq> CHR ''-'') inner in
      if length digits \<noteq> 32 then Inl ErrInvalidID
      else case hexDecode digits of None \<Rightarrow> Inl ErrInvalidID | Some bs \<Rightarrow> Inr bs)"

definition SnapshotArtifactKey :: "UUID \<Rightarrow> UUID \<Rightarrow> string" where
  "SnapshotArtifactKey sourceID revisionID =
     ''sources/'' @ uuidString sourceID @ ''/snapshots/'' @ uuidString revisionID"

section \<open>Paths\<close>

definition maxSourcePathBytes :: nat where
  "maxSourcePathBytes = 4096"

definition ValidateSourcePath :: "string \<Rightarrow> sourceError + unit" where
  "ValidateSourcePath raw =
     (if raw = [] \<or> \<not> utf8Valid raw \<or> HasPrefix raw ''/'' \<or> HasSuffix raw ''/'' \<or>
         Contains raw [char_of (92 :: nat)] \<or> length raw > maxSourcePathBytes
      then Inl ErrInvalidSourcePath
      else if list_ex (\<lambda>r. fst r < 32 \<or> fst r = 127) (runes raw) then Inl ErrInvalidSourcePath
      else if list_ex (\<lambda>segment. segment = [] \<or> segment = ''.'' \<or> segment = ''..'') (splitOn CHR ''/'' raw)
      then Inl ErrInvalidSourcePath
      else Inr ())"

section \<open>Fingerprints\<close>

type_synonym File = "string \<times> string"

record Fingerprint =
  Digest :: string
  FileCount :: nat
  ByteCount :: nat

fun collectFiles :: "(string \<rightharpoonup> string) \<Rightarrow> File list \<Rightarrow> sourceError + (string \<rightharpoonup> string)" where
  "collectFiles normalized [] = Inr normalized"
| "collectFiles normalized (file # rest) =
     bindE (ValidateSourcePath (fst file)) (\<lambda>_.
       if normalized (fst file) \<noteq> None then Inl ErrInvalidFileSet
       else collectFiles (normalized(fst file \<mapsto> snd file)) rest)"

text \<open>What is written to the digest, and the fingerprint.\<close>

definition fileFrame :: "(string \<Rightarrow> string) \<Rightarrow> string \<Rightarrow> string \<Rightarrow> string" where
  "fileFrame Sum256 path content =
     frame64 (length path) @ path @ frame64 (length content) @ Sum256 content"

definition FingerprintFiles :: "(string \<Rightarrow> string) \<Rightarrow> File list \<Rightarrow> sourceError + Fingerprint" where
  "FingerprintFiles Sum256 files =
     bindE (collectFiles Map.empty files) (\<lambda>normalized.
       let paths = sort (map fst files);
           content = (\<lambda>path. the (normalized path)) in
       Inr \<lparr>Digest = Sum256 (concat (map (\<lambda>path. fileFrame Sum256 path (content path)) paths)),
            FileCount = length paths,
            ByteCount = sum_list (map (\<lambda>path. length (content path)) paths)\<rparr>)"

section \<open>Facts\<close>

lemma collectFiles_ok:
  "collectFiles m files = Inr normalized \<Longrightarrow>
     normalized = m ++ map_of files \<and> distinct (map fst files) \<and> dom m \<inter> fst ` set files = {} \<and>
     (\<forall>f \<in> set files. ValidateSourcePath (fst f) = Inr ())"
proof (induction m files rule: collectFiles.induct)
  case (2 m f rest)
  then have ok: "ValidateSourcePath (fst f) = Inr ()" "m (fst f) = None"
    "collectFiles (m(fst f \<mapsto> snd f)) rest = Inr normalized"
    by (auto simp: result_simps split: if_splits)
  have ih: "normalized = m(fst f \<mapsto> snd f) ++ map_of rest" "distinct (map fst rest)"
    "dom (m(fst f \<mapsto> snd f)) \<inter> fst ` set rest = {}"
    "\<forall>f \<in> set rest. ValidateSourcePath (fst f) = Inr ()"
    using 2(1) [OF _ ok(3)] ok(2) by (simp_all del: fun_upd_apply)
  have "map_of rest (fst f) = None" using ih(3) by (auto simp: map_of_eq_None_iff)
  then have "normalized = m ++ map_of (f # rest)"
    using ih(1) by (auto simp: map_add_def fun_eq_iff split: option.splits)
  then show ?case using ih ok by (auto simp del: map_of.simps fun_upd_apply)
qed simp

lemma fileFrame_inject:
  assumes "fileFrame H p c @ r = fileFrame H p' c' @ r'" "\<And>x. length (H x) = 32"
    "length p < 2 ^ 64" "length p' < 2 ^ 64" "length c < 2 ^ 64" "length c' < 2 ^ 64"
  shows "p = p' \<and> length c = length c' \<and> H c = H c' \<and> r = r'"
proof -
  have eq: "frame64 (length p) @ p @ frame64 (length c) @ H c @ r =
      frame64 (length p') @ p' @ frame64 (length c') @ H c' @ r'"
    using assms(1) by (simp add: fileFrame_def)
  then have "frame64 (length p) = frame64 (length p')"
    and 1: "p @ frame64 (length c) @ H c @ r = p' @ frame64 (length c') @ H c' @ r'"
    by (auto simp: append_eq_append_conv)
  then have "length p = length p'" using frame64_inject assms(3,4) by blast
  then have "p = p'" and 2: "frame64 (length c) @ H c @ r = frame64 (length c') @ H c' @ r'"
    using 1 by (auto simp: append_eq_append_conv)
  then have "frame64 (length c) = frame64 (length c')" and 3: "H c @ r = H c' @ r'"
    by (auto simp: append_eq_append_conv)
  then show ?thesis using frame64_inject assms(2,5,6) \<open>p = p'\<close> by (auto simp: append_eq_append_conv)
qed

lemma frames_inject:
  assumes "\<And>x. length (H x) = 32"
    "\<forall>f \<in> set fs \<union> set gs. length (fst f) < 2 ^ 64 \<and> length (snd f) < 2 ^ 64"
    "concat (map (\<lambda>f. fileFrame H (fst f) (snd f)) fs) = concat (map (\<lambda>f. fileFrame H (fst f) (snd f)) gs)"
  shows "map (\<lambda>f. (fst f, length (snd f), H (snd f))) fs = map (\<lambda>f. (fst f, length (snd f), H (snd f))) gs"
  using assms(2,3)
proof (induction fs arbitrary: gs)
  case Nil
  then show ?case by (cases gs) (auto simp: fileFrame_def frame64_def)
next
  case (Cons f fs)
  then obtain g gs' where gs: "gs = g # gs'" by (cases gs) (auto simp: fileFrame_def frame64_def)
  have eq: "fst f = fst g \<and> length (snd f) = length (snd g) \<and> H (snd f) = H (snd g) \<and>
      concat (map (\<lambda>f. fileFrame H (fst f) (snd f)) fs) = concat (map (\<lambda>f. fileFrame H (fst f) (snd f)) gs')"
    using Cons.prems gs assms(1) by (intro fileFrame_inject) auto
  then show ?case using Cons.IH [of gs'] Cons.prems(1) gs by simp
qed

lemma ValidateSourcePath_ok:
  assumes "ValidateSourcePath p = Inr ()"
  shows "p \<noteq> []" "utf8Valid p" "length p \<le> 4096" "hd p \<noteq> CHR ''/''"
    "\<forall>segment \<in> set (splitOn CHR ''/'' p). segment \<noteq> [] \<and> segment \<noteq> ''.'' \<and> segment \<noteq> ''..''"
    "\<forall>r \<in> set (runes p). 32 \<le> fst r \<and> fst r \<noteq> 127"
  using assms
  by (auto simp: ValidateSourcePath_def maxSourcePathBytes_def HasPrefix_def list_ex_iff not_le
      neq_Nil_conv split: if_splits)

lemma fingerprint_stream:
  assumes "FingerprintFiles H files = Inr fp"
  shows "distinct (map fst files)" "\<forall>f \<in> set files. ValidateSourcePath (fst f) = Inr ()"
    "Digest fp = H (concat (map (\<lambda>f. fileFrame H (fst f) (snd f)) (sort_key fst files)))"
    "FileCount fp = length files" "ByteCount fp = sum_list (map (\<lambda>f. length (snd f)) files)"
proof -
  obtain m where m: "collectFiles Map.empty files = Inr m" using assms
    by (auto simp: FingerprintFiles_def result_simps)
  then have "m = map_of files" and d: "distinct (map fst files)"
    and v: "\<forall>f \<in> set files. ValidateSourcePath (fst f) = Inr ()"
    using collectFiles_ok [OF m] by auto
  then have content: "the (m (fst f)) = snd f" if "f \<in> set files" for f
    using that by (metis map_of_is_SomeI option.sel prod.collapse)
  have sorted: "sort (map fst files) = map fst (sort_key fst files)"
  proof (rule properties_for_sort)
    show "mset (map fst (sort_key fst files)) = mset (map fst files)" by (simp only: mset_map mset_sort)
  qed (rule sorted_sort_key)
  have fp: "fp = \<lparr>Digest = H (concat (map (\<lambda>path. fileFrame H path (the (m path))) (sort (map fst files)))),
      FileCount = length (sort (map fst files)),
      ByteCount = sum_list (map (\<lambda>path. length (the (m path))) (sort (map fst files)))\<rparr>"
    using assms m by (simp add: FingerprintFiles_def Let_def)
  show "distinct (map fst files)" "\<forall>f \<in> set files. ValidateSourcePath (fst f) = Inr ()" by fact+
  show "Digest fp = H (concat (map (\<lambda>f. fileFrame H (fst f) (snd f)) (sort_key fst files)))"
  proof -
    have "map (\<lambda>path. fileFrame H path (the (m path))) (sort (map fst files)) =
        map (\<lambda>f. fileFrame H (fst f) (snd f)) (sort_key fst files)"
      unfolding sorted by (simp add: content)
    then show ?thesis by (simp add: fp)
  qed
  show "FileCount fp = length files" by (simp add: fp)
  have "map (\<lambda>path. length (the (m path))) (sort (map fst files)) = map (\<lambda>f. length (snd f)) (sort_key fst files)"
    unfolding sorted by (simp add: content)
  moreover have "sum_list (map (\<lambda>f. length (snd f)) (sort_key fst files)) = sum_list (map (\<lambda>f. length (snd f)) files)"
  proof -
    have "mset (map (\<lambda>f. length (snd f)) (sort_key fst files)) = mset (map (\<lambda>f. length (snd f)) files)"
      by (simp only: mset_map mset_sort)
    then show ?thesis by (simp only: sum_mset_sum_list [symmetric])
  qed
  ultimately show "ByteCount fp = sum_list (map (\<lambda>f. length (snd f)) files)" by (simp add: fp)
qed

section \<open>Properties\<close>

definition framed :: "(string \<Rightarrow> string) \<Rightarrow> File list \<Rightarrow> string" where
  "framed H files = concat (map (\<lambda>f. fileFrame H (fst f) (snd f)) (sort_key fst files))"

text \<open>
  The fingerprint identifies a file set up to hash collisions: it is the hash of a framed
  stream; it does not depend on the order in which the files are given; and file sets with the
  same framed stream have the same paths, in the same order after sorting, with the same content
  lengths and content digests. Every path in it is a valid relative path and occurs once.
\<close>

lemma fingerprint_identifies:
  assumes "FingerprintFiles H fs = Inr fp" "FingerprintFiles H gs = Inr gp"
    and "\<forall>x. length (H x) = 32" "\<forall>f \<in> set fs \<union> set gs. length (snd f) < 2 ^ 64"
  shows "Digest fp = H (framed H fs) \<and> distinct (map fst fs) \<and>
    (mset fs = mset gs \<longrightarrow> fp = gp) \<and>
    (framed H fs = framed H gs \<longrightarrow>
       map (\<lambda>f. (fst f, length (snd f), H (snd f))) (sort_key fst fs) =
       map (\<lambda>f. (fst f, length (snd f), H (snd f))) (sort_key fst gs))"
proof -
  note f = fingerprint_stream [OF assms(1)] and g = fingerprint_stream [OF assms(2)]
  have short: "\<forall>f \<in> set fs \<union> set gs. length (fst f) < 2 ^ 64 \<and> length (snd f) < 2 ^ 64"
  proof
    fix x assume x: "x \<in> set fs \<union> set gs"
    then have "length (fst x) \<le> 4096" using f(2) g(2) ValidateSourcePath_ok(3) by blast
    then show "length (fst x) < 2 ^ 64 \<and> length (snd x) < 2 ^ 64" using x assms(4) by fastforce
  qed
  have "map (\<lambda>f. (fst f, length (snd f), H (snd f))) (sort_key fst fs) =
      map (\<lambda>f. (fst f, length (snd f), H (snd f))) (sort_key fst gs)" if "framed H fs = framed H gs"
    using that short assms(3) by (intro frames_inject) (auto simp: framed_def)
  moreover have "fp = gp" if eq: "mset fs = mset gs"
  proof -
    have "sort_key fst fs = sort_key fst gs"
    proof (rule map_inj_on)
      have set: "set fs = set gs" using eq by (rule mset_eq_setD)
      show "inj_on fst (set (sort_key fst fs) \<union> set (sort_key fst gs))"
        using f(1) set by (simp add: distinct_map)
      show "map fst (sort_key fst fs) = map fst (sort_key fst gs)"
      proof (rule sorted_distinct_set_unique)
        have "mset (map fst (sort_key fst xs)) = mset (map fst xs)" for xs :: "File list"
          by (simp only: mset_map mset_sort)
        then show "distinct (map fst (sort_key fst fs))" "distinct (map fst (sort_key fst gs))"
          using f(1) g(1) mset_eq_imp_distinct_iff by blast+
      qed (simp_all add: set)
    qed
    then have "Digest fp = Digest gp" by (simp add: f(3) g(3))
    moreover have "FileCount fp = FileCount gp" using mset_eq_length [OF eq] by (simp add: f(4) g(4))
    moreover have "ByteCount fp = ByteCount gp"
      unfolding f(5) g(5) by (simp only: sum_mset_sum_list [symmetric] mset_map eq)
    ultimately show ?thesis by simp
  qed
  ultimately show ?thesis using f(1,3) by (simp add: framed_def)
qed

definition demoHash :: "string \<Rightarrow> string" where
  "demoHash s = take 32 (s @ replicate 32 CHR ''.'')"

lemma demoFiles:
  "FingerprintFiles demoHash [(''b'', ''2''), (''a'', ''1'')] =
     Inr \<lparr>Digest = demoHash (framed demoHash [(''b'', ''2''), (''a'', ''1'')]), FileCount = 2, ByteCount = 2\<rparr>"
proof -
  have "ValidateSourcePath ''a'' = Inr ()" "ValidateSourcePath ''b'' = Inr ()"
    by (simp_all add: ValidateSourcePath_def utf8Valid_def runes_ascii HasPrefix_def HasSuffix_def
        maxSourcePathBytes_def runeError_def char_of_def bit_0)
  then show ?thesis by (simp add: FingerprintFiles_def Let_def framed_def less_char_def)
qed

lemma fingerprint_identifies_example:
  "Digest \<lparr>Digest = demoHash (framed demoHash [(''b'', ''2''), (''a'', ''1'')]), FileCount = 2, ByteCount = 2\<rparr> =
     demoHash (framed demoHash [(''b'', ''2''), (''a'', ''1'')])"
  using fingerprint_identifies [OF demoFiles demoFiles] by (simp add: demoHash_def)

lemma hexEncode_chars: "set (hexEncode bs) \<subseteq> set hextable"
proof (induction bs)
  case (Cons b bs)
  have "unat b div 16 < length hextable" "unat b mod 16 < length hextable"
    using unat_byte_bound [of b] by (auto simp: hextable_def)
  then show ?case using Cons by (simp del: list.set add: nth_mem list.set(2))
qed simp

lemma uuidString_chars: "set (uuidString uid) \<subseteq> insert CHR ''-'' (set hextable)"
  using hexEncode_chars [of uid]
  by (auto simp: uuidString_def Let_def dest!: in_set_takeD in_set_dropD)

lemma ParseID_plain:
  assumes "length uid = 16" "raw = uuidString uid"
  shows "ParseID raw = Inr uid" "ParseID (''{'' @ raw @ ''}'') = Inr uid"
    "ParseID (''urn:uuid:'' @ raw) = Inr uid"
proof -
  have "CHR ''u'' \<notin> set raw" "CHR ''{'' \<notin> set raw"
    using uuidString_chars [of uid] by (auto simp: assms(2) hextable_def)
  moreover obtain c rest where "raw = c # rest"
    using length_uuidString [OF assms(1)] by (cases raw) (simp_all add: assms(2) [symmetric])
  ultimately have plain: "\<not> HasPrefix raw ''urn:uuid:''" "hd raw \<noteq> CHR ''{''"
    by (auto simp: HasPrefix_def)
  have digits: "filter (\<lambda>c. c \<noteq> CHR ''-'') raw = hexEncode uid"
    by (simp add: assms(2) filter_uuidString)
  show "ParseID raw = Inr uid"
    using plain digits assms(1) by (simp add: ParseID_def Let_def hexDecode_hexEncode)
  show "ParseID (''{'' @ raw @ ''}'') = Inr uid"
    using digits assms(1) by (simp add: ParseID_def Let_def HasPrefix_def hexDecode_hexEncode butlast_append)
  show "ParseID (''urn:uuid:'' @ raw) = Inr uid"
    using plain digits assms(1)
    by (simp add: ParseID_def Let_def HasPrefix_def TrimPrefix_def hexDecode_hexEncode)
qed

text \<open>
  The canonical text of an identifier, the same text in braces and the URN are all accepted
  and denote the same sixteen bytes, so an artifact key does not depend on the form given.
\<close>

lemma source_id_forms:
  assumes "length uid = 16"
  shows "ParseID (uuidString uid) = Inr uid \<and> ParseID (''{'' @ uuidString uid @ ''}'') = Inr uid \<and>
    ParseID (''urn:uuid:'' @ uuidString uid) = Inr uid"
  using ParseID_plain [OF assms refl] by blast

lemma source_id_forms_example: "ParseID (''{'' @ uuidString (replicate 16 171) @ ''}'') = Inr (replicate 16 171)"
  using source_id_forms [of "replicate 16 171"] by simp

end
