(* ===== verification/SourceFilter.thy ===== *)
theory SourceFilter
  imports SourceFiles
begin

text \<open>
  The path filter of repository sources (\<^verbatim>\<open>internal/sourcegit/filter.go\<close>): patterns, the
  state-set matcher, the filter built from include, exclude and ignore lists, and the
  partition of the files of a tree.
\<close>

section \<open>Patterns\<close>

definition maximumPatternCount :: nat where
  "maximumPatternCount = 1000"

definition maximumPatternBytes :: nat where
  "maximumPatternBytes = 65536"

definition maximumPatternLength :: nat where
  "maximumPatternLength = 4096"

datatype filterError = ErrInvalidPattern | ErrPath sourceError

record filterPattern =
  segments :: "string list"
  ignored :: bool

definition badSegment :: "string \<Rightarrow> bool" where
  "badSegment segment \<longleftrightarrow> segment = [] \<or> segment = ''.'' \<or> segment = ''..'' \<or>
     Contains segment ''**'' \<and> segment \<noteq> ''**''"

definition newFilterPattern :: "string \<Rightarrow> bool \<Rightarrow> bool \<Rightarrow> filterError + filterPattern" where
  "newFilterPattern raw allowNegation defaultIgnored =
     (let trimmed = TrimSpace raw;
          negated = (allowNegation \<and> HasPrefix trimmed ''!'');
          ignoredValue = (if negated then False else defaultIgnored);
          body = (if negated then TrimPrefix trimmed ''!'' else trimmed) in
      if body = [] \<or> RuneCountInString body > maximumPatternLength \<or>
         Contains body [char_of (92 :: nat)] \<or> CHR ''['' \<in> set body \<or> CHR '']'' \<in> set body
      then Inl ErrInvalidPattern
      else if list_ex (\<lambda>r. fst r < 32 \<or> fst r = 127) (runes body) then Inl ErrInvalidPattern
      else let relative = TrimPrefix body ''/'';
               directory = HasSuffix relative ''/'';
               parts = splitOn CHR ''/'' (TrimSuffix relative ''/'') in
        if list_ex badSegment parts then Inl ErrInvalidPattern
        else let unanchored = (if length parts = 1 then ''**'' # parts else parts) in
          Inr \<lparr>segments = (if directory then unanchored @ [''**''] else unanchored), ignored = ignoredValue\<rparr>)"

section \<open>Matching one segment\<close>

text \<open>
  \<^verbatim>\<open>path.Match\<close> of the standard library: the pattern is cut at its stars into chunks; after a
  star the leftmost match of the next chunk is taken, and a failed match still checks that the
  pattern is well formed. \<open>None\<close> is \<^verbatim>\<open>ErrBadPattern\<close>.
\<close>

definition escapeChar :: char where
  "escapeChar = char_of (92 :: nat)"

function chunkEnd :: "bool \<Rightarrow> string \<Rightarrow> nat" where
  "chunkEnd inrange pattern =
     (case pattern of
        [] \<Rightarrow> 0
      | c # p \<Rightarrow>
          if c = escapeChar then (case p of [] \<Rightarrow> 1 | _ # q \<Rightarrow> 2 + chunkEnd inrange q)
          else if c = CHR ''['' then 1 + chunkEnd True p
          else if c = CHR '']'' then 1 + chunkEnd False p
          else if c = CHR ''*'' \<and> \<not> inrange then 0
          else 1 + chunkEnd inrange p)"
  by pat_completeness auto
termination
  by (relation "measure (\<lambda>(r, p). length p)") auto

declare chunkEnd.simps [simp del]

definition scanChunk :: "string \<Rightarrow> bool \<times> string \<times> string" where
  "scanChunk pattern =
     (let p = dropWhile (\<lambda>c. c = CHR ''*'') pattern; i = chunkEnd False p
      in (HasPrefix pattern ''*'', take i p, drop i p))"

definition getEsc :: "string \<Rightarrow> (nat \<times> string) option" where
  "getEsc chunk =
     (if chunk = [] \<or> hd chunk = CHR ''-'' \<or> hd chunk = CHR '']'' then None
      else let chunk1 = (if hd chunk = escapeChar then tl chunk else chunk) in
        if chunk1 = [] then None
        else let r = fst (decodeRune chunk1); n = snd (decodeRune chunk1); nchunk = drop n chunk1 in
          if r = runeError \<and> n = 1 \<or> nchunk = [] then None else Some (r, nchunk))"

lemma getEsc_shorter: "getEsc chunk = Some (r, rest) \<Longrightarrow> length rest < length chunk"
  using decodeRune_width(1) [of chunk] decodeRune_width(1) [of "tl chunk"]
  by (cases chunk) (auto simp: getEsc_def Let_def split: if_splits)

text \<open>The ranges of a character class, up to its closing bracket.\<close>

function classRanges :: "nat \<Rightarrow> bool \<Rightarrow> nat \<Rightarrow> string \<Rightarrow> (bool \<times> string) option" where
  "classRanges r matched nrange chunk =
     (if chunk \<noteq> [] \<and> hd chunk = CHR '']'' \<and> 0 < nrange then Some (matched, tl chunk)
      else case getEsc chunk of
        None \<Rightarrow> None
      | Some (lo, chunk1) \<Rightarrow>
          (case (if hd chunk1 = CHR ''-'' then getEsc (tl chunk1) else Some (lo, chunk1)) of
             None \<Rightarrow> None
           | Some (hi, chunk2) \<Rightarrow> classRanges r (matched \<or> lo \<le> r \<and> r \<le> hi) (Suc nrange) chunk2))"
  by pat_completeness auto
termination
  by (relation "measure (\<lambda>(r, m, n, chunk). length chunk)")
     (auto dest!: getEsc_shorter split: if_splits)

declare classRanges.simps [simp del]

lemma classRanges_shorter: "classRanges r m n chunk = Some (b, rest) \<Longrightarrow> length rest < length chunk"
proof (induction r m n chunk rule: classRanges.induct)
  case (1 r m n chunk)
  show ?case
  proof (cases "chunk \<noteq> [] \<and> hd chunk = CHR '']'' \<and> 0 < n")
    case True
    then show ?thesis using "1.prems" by (subst (asm) classRanges.simps) (cases chunk; simp)
  next
    case False
    then obtain lo c1 hi c2 where e: "getEsc chunk = Some (lo, c1)"
      "(if hd c1 = CHR ''-'' then getEsc (tl c1) else Some (lo, c1)) = Some (hi, c2)"
      "classRanges r (m \<or> lo \<le> r \<and> r \<le> hi) (Suc n) c2 = Some (b, rest)"
      using "1.prems" by (subst (asm) (1) classRanges.simps) (auto split: option.splits)
    then have "length rest < length c2" using "1.IH" [OF False e(1) refl e(2) refl] by simp
    then show ?thesis using e(1,2) by (auto dest!: getEsc_shorter split: if_splits)
  qed
qed

text \<open>The rest of the name after a match of the whole chunk; once \<open>failed\<close>, the name is no longer read.\<close>

function matchChunk :: "bool \<Rightarrow> string \<Rightarrow> string \<Rightarrow> (string \<times> bool) option" where
  "matchChunk failed0 chunk s =
     (if chunk = [] then Some (if failed0 then ([], False) else (s, True))
      else let failed = (failed0 \<or> s = []); c = hd chunk; chunk1 = tl chunk in
        if c = CHR ''['' then
          let r = (if failed then 0 else fst (decodeRune s));
              s1 = (if failed then s else drop (snd (decodeRune s)) s);
              negated = (chunk1 \<noteq> [] \<and> hd chunk1 = CHR ''^'')
          in (case classRanges r False 0 (if negated then tl chunk1 else chunk1) of
                None \<Rightarrow> None
              | Some (matched, rest) \<Rightarrow> matchChunk (failed \<or> matched = negated) rest s1)
        else if c = CHR ''?'' then
          matchChunk (failed \<or> hd s = CHR ''/'') chunk1 (if failed then s else drop (snd (decodeRune s)) s)
        else if c = escapeChar then
          (if chunk1 = [] then None
           else matchChunk (failed \<or> hd chunk1 \<noteq> hd s) (tl chunk1) (if failed then s else tl s))
        else matchChunk (failed \<or> c \<noteq> hd s) chunk1 (if failed then s else tl s))"
  by pat_completeness auto
termination
  by (relation "measure (\<lambda>(f, chunk, s). length chunk)")
     (auto dest!: classRanges_shorter simp: less_Suc_eq_le neq_Nil_conv split: if_splits)

declare matchChunk.simps [simp del]

text \<open>The search after a star: the chunk is tried behind each further byte that is not a slash.\<close>

fun skipMatch :: "string \<Rightarrow> bool \<Rightarrow> string \<Rightarrow> string option option" where
  "skipMatch chunk lastChunk [] = Some None"
| "skipMatch chunk lastChunk (d # t) =
     (if d = CHR ''/'' then Some None
      else case matchChunk False chunk t of
        None \<Rightarrow> None
      | Some (u, ok) \<Rightarrow> if ok \<and> \<not> (lastChunk \<and> u \<noteq> []) then Some (Some u) else skipMatch chunk lastChunk t)"

lemma chunkEnd_pos: "p \<noteq> [] \<Longrightarrow> hd p \<noteq> CHR ''*'' \<Longrightarrow> 0 < chunkEnd False p"
  by (subst chunkEnd.simps) (auto split: list.splits)

lemma scanChunk_shorter:
  assumes "scanChunk pattern = (star, chunk, rest)" "pattern \<noteq> []"
  shows "length rest < length pattern"
proof (cases "HasPrefix pattern ''*''")
  case True
  then have "length (dropWhile (\<lambda>c. c = CHR ''*'') pattern) < length pattern"
    using assms(2) by (cases pattern) (auto simp: HasPrefix_def length_dropWhile_le le_imp_less_Suc)
  then show ?thesis using assms(1) by (auto simp: scanChunk_def Let_def)
next
  case False
  then have "dropWhile (\<lambda>c. c = CHR ''*'') pattern = pattern" "hd pattern \<noteq> CHR ''*''"
    using assms(2) by (cases pattern; auto simp: HasPrefix_def)+
  then show ?thesis using assms chunkEnd_pos [of pattern] by (auto simp: scanChunk_def Let_def)
qed

function validRest :: "string \<Rightarrow> bool" where
  "validRest pattern \<longleftrightarrow>
     (if pattern = [] then True
      else case scanChunk pattern of (star, chunk, rest) \<Rightarrow>
        if matchChunk False chunk [] = None then False else validRest rest)"
  by pat_completeness auto
termination
  by (relation "measure length") (auto dest: scanChunk_shorter [OF sym])

declare validRest.simps [simp del]

function pathMatch :: "string \<Rightarrow> string \<Rightarrow> bool option" where
  "pathMatch pattern name =
     (if pattern = [] then Some (name = [])
      else case scanChunk pattern of (star, chunk, rest) \<Rightarrow>
        if star \<and> chunk = [] then Some (CHR ''/'' \<notin> set name)
        else (case matchChunk False chunk name of
            None \<Rightarrow> None
          | Some (t, ok) \<Rightarrow>
              if ok \<and> (t = [] \<or> rest \<noteq> []) then pathMatch rest t
              else (case (if star then skipMatch chunk (rest = []) name else Some None) of
                  None \<Rightarrow> None
                | Some (Some u) \<Rightarrow> pathMatch rest u
                | Some None \<Rightarrow> if validRest rest then Some False else None)))"
  by pat_completeness auto
termination
  by (relation "measure (\<lambda>(p, s). length p)") (auto dest: scanChunk_shorter [OF sym])

declare pathMatch.simps [simp del]

definition segmentMatches :: "string \<Rightarrow> string \<Rightarrow> bool" where
  "segmentMatches segment name \<longleftrightarrow> pathMatch segment name = Some True"

text \<open>A segment without metacharacters matches itself only.\<close>

definition literal :: "string \<Rightarrow> bool" where
  "literal p \<longleftrightarrow> list_all (\<lambda>c. c \<notin> {CHR ''*'', CHR ''?'', CHR ''['', CHR '']'', escapeChar}) p"

lemma chunkEnd_literal: "literal p \<Longrightarrow> chunkEnd False p = length p"
  by (induction p) (simp_all add: literal_def chunkEnd.simps [of False])

lemma matchChunk_literal:
  "literal p \<Longrightarrow> matchChunk failed p s =
     Some (if \<not> failed \<and> HasPrefix s p then (drop (length p) s, True) else ([], False))"
proof (induction p arbitrary: failed s)
  case Nil
  then show ?case by (simp add: matchChunk.simps [of failed "[]"] HasPrefix_def)
next
  case (Cons c p)
  then have p: "literal p" "c \<notin> {CHR ''*'', CHR ''?'', CHR ''['', CHR '']'', escapeChar}"
    by (simp_all add: literal_def)
  show ?case
    using p(2) by (cases s) (auto simp: matchChunk.simps [of failed "c # p"] Let_def Cons.IH [OF p(1)] HasPrefix_def)
qed

lemma literal_matches:
  assumes "literal p"
  shows "segmentMatches p name \<longleftrightarrow> name = p"
proof -
  have star: "dropWhile (\<lambda>c. c = CHR ''*'') p = p" "\<not> HasPrefix p ''*''"
    using assms by (cases p; simp add: literal_def HasPrefix_def)+
  have scan: "scanChunk p = (False, p, [])"
    using star chunkEnd_literal [OF assms] by (simp add: scanChunk_def Let_def)
  have whole: "HasPrefix name p \<and> drop (length p) name = [] \<longleftrightarrow> name = p"
    by (auto simp: HasPrefix_def)
  show ?thesis
    using whole by (cases "p = []") (auto simp: segmentMatches_def pathMatch.simps [of p] pathMatch.simps [of "[]"]
        validRest.simps [of "[]"] matchChunk_literal [OF assms] scan)
qed

text \<open>The leftmost match is final: no star is tried again once the next chunk has matched, so the
  three bytes of one rune are not enough for two question marks.\<close>

lemma leftmost_match:
  "pathMatch ''*?*?'' [char_of (0xE2 :: nat), char_of (0x82 :: nat), char_of (0xAC :: nat)] = Some False"
  by (simp add: pathMatch.simps scanChunk_def chunkEnd.simps matchChunk.simps validRest.simps
      decodeRune_def contByte_def HasPrefix_def escapeChar_def Let_def)
     (simp add: char_of_def bit_0)

section \<open>The matcher\<close>

text \<open>The closure under skipping a double star, with its work list.\<close>

function closureLoop :: "string list \<Rightarrow> nat set \<Rightarrow> nat list \<Rightarrow> nat set" where
  "closureLoop segs result pending =
     (if pending = [] then result
      else let index = last pending; rest = butlast pending; following = index + 1 in
        if index < length segs \<and> segs ! index = ''**'' \<and> following \<notin> result
        then closureLoop segs (insert following result) (rest @ [following])
        else closureLoop segs result rest)"
  by pat_completeness auto
termination
proof (relation "measures [\<lambda>(segs, result, pending). card ({..length segs} - result), \<lambda>(segs, result, pending). length pending]", goal_cases)
  case 1
  then show ?case by simp
next
  case (2 segs result pending index rest following)
  then have "following \<in> {..length segs} - result" by simp
  then have "card ({..length segs} - insert following result) < card ({..length segs} - result)"
    by (metis Diff_insert card_Diff1_less finite_Diff finite_atMost)
  then show ?case by simp
next
  case (3 segs result pending index rest following)
  then show ?case by simp
qed

declare closureLoop.simps [simp del]

definition closure :: "string list \<Rightarrow> nat set \<Rightarrow> nat set" where
  "closure segs states = closureLoop segs states (sorted_list_of_set states)"

definition advance :: "string list \<Rightarrow> nat set \<Rightarrow> string \<Rightarrow> nat set" where
  "advance segs states name =
     (\<Union>index \<in> states. if index \<ge> length segs then {}
        else if segs ! index = ''**'' then {index}
        else if segmentMatches (segs ! index) name then {index + 1} else {})"

fun matchesFrom :: "string list \<Rightarrow> nat set \<Rightarrow> string list \<Rightarrow> bool" where
  "matchesFrom segs states [] \<longleftrightarrow> length segs \<in> states"
| "matchesFrom segs states (name # names) =
     (let next = closure segs (advance segs states name) in
      if next = {} then False else matchesFrom segs next names)"

definition patternMatches :: "filterPattern \<Rightarrow> string \<Rightarrow> bool" where
  "patternMatches pattern rawPath =
     matchesFrom (segments pattern) (closure (segments pattern) {0}) (splitOn CHR ''/'' rawPath)"

section \<open>The filter\<close>

record pathFilter =
  filter_include :: "filterPattern list"
  filter_exclude :: "filterPattern list"
  filter_ignore :: "filterPattern list"

definition stringBytes :: "string list \<Rightarrow> nat" where
  "stringBytes xs = sum_list (map length xs)"

fun parsePatterns :: "bool \<Rightarrow> string list \<Rightarrow> filterError + filterPattern list" where
  "parsePatterns defaultIgnored [] = Inr []"
| "parsePatterns defaultIgnored (raw # rest) =
     bindE (newFilterPattern raw False defaultIgnored) (\<lambda>pattern.
       bindE (parsePatterns defaultIgnored rest) (\<lambda>patterns. Inr (pattern # patterns)))"

definition lineBreak :: "nat \<Rightarrow> bool" where
  "lineBreak r \<longleftrightarrow> r \<in> {10, 13, 11, 12, 0x1c, 0x1d, 0x1e, 0x85, 0x2028, 0x2029}"

text \<open>\<^verbatim>\<open>strings.FieldsFunc\<close>: the nonempty runs of runes that are not separators.\<close>

fun fieldsFrom :: "(nat \<Rightarrow> bool) \<Rightarrow> string \<Rightarrow> (nat \<times> string) list \<Rightarrow> string list" where
  "fieldsFrom sep current [] = (if current = [] then [] else [current])"
| "fieldsFrom sep current (r # rs) =
     (if sep (fst r) then (if current = [] then fieldsFrom sep [] rs else current # fieldsFrom sep [] rs)
      else fieldsFrom sep (current @ snd r) rs)"

fun parseIgnore :: "nat \<Rightarrow> string list \<Rightarrow> filterError + filterPattern list" where
  "parseIgnore used [] = Inr []"
| "parseIgnore used (line # rest) =
     (let trimmed = TrimSpace line in
      if trimmed = [] \<or> HasPrefix trimmed ''#'' then parseIgnore used rest
      else bindE (newFilterPattern trimmed True True) (\<lambda>pattern.
        if used + 1 > maximumPatternCount then Inl ErrInvalidPattern
        else bindE (parseIgnore (used + 1) rest) (\<lambda>patterns. Inr (pattern # patterns))))"

definition newPathFilter :: "string list \<Rightarrow> string list \<Rightarrow> string option \<Rightarrow> filterError + pathFilter" where
  "newPathFilter includeValues excludeValues ignoreFile =
     (if length includeValues > 100 \<or> length excludeValues > 100 \<or>
         stringBytes includeValues > maximumPatternBytes \<or> stringBytes excludeValues > maximumPatternBytes
      then Inl ErrInvalidPattern
      else bindE (parsePatterns False includeValues) (\<lambda>includes.
        bindE (parsePatterns True excludeValues) (\<lambda>excludes.
          case ignoreFile of
            None \<Rightarrow> Inr \<lparr>filter_include = includes, filter_exclude = excludes, filter_ignore = []\<rparr>
          | Some content \<Rightarrow>
              if length content > maximumPatternBytes \<or> \<not> utf8Valid content then Inl ErrInvalidPattern
              else bindE (parseIgnore 0 (fieldsFrom lineBreak [] (runes content))) (\<lambda>ignores.
                Inr \<lparr>filter_include = includes, filter_exclude = excludes, filter_ignore = ignores\<rparr>))))"

definition permitted :: "pathFilter \<Rightarrow> string \<Rightarrow> bool" where
  "permitted f path =
     (let afterInclude = (if filter_include f = [] then True
                          else list_ex (\<lambda>p. patternMatches p path) (filter_include f));
          afterExclude = (if afterInclude then \<not> list_ex (\<lambda>p. patternMatches p path) (filter_exclude f)
                          else False) in
      if afterExclude
      then foldl (\<lambda>allowed p. if patternMatches p path then \<not> ignored p else allowed) True (filter_ignore f)
      else False)"

text \<open>Sorting and compacting gives the distinct paths in order; the first invalid one is an error.\<close>

fun partitionFrom :: "pathFilter \<Rightarrow> string list \<Rightarrow> sourceError + string list \<times> string list" where
  "partitionFrom f [] = Inr ([], [])"
| "partitionFrom f (path # rest) =
     bindE (ValidateSourcePath path) (\<lambda>_.
       bindE (partitionFrom f rest) (\<lambda>(selected, skipped).
         if permitted f path then Inr (path # selected, skipped) else Inr (selected, path # skipped)))"

definition partitionPaths :: "pathFilter \<Rightarrow> string list \<Rightarrow> sourceError + string list \<times> string list" where
  "partitionPaths f paths = partitionFrom f (remdups_adj (sort paths))"

section \<open>Reference semantics\<close>

text \<open>
  The meaning of a pattern as a relation between its segments and the segments of a path: a
  double star stands for any number of segments, any other segment for one that it matches.
\<close>

fun globMatches :: "string list \<Rightarrow> string list \<Rightarrow> bool" where
  "globMatches [] names \<longleftrightarrow> names = []"
| "globMatches (seg # segs) names \<longleftrightarrow>
     (if seg = ''**'' then globMatches segs names \<or>
        (case names of [] \<Rightarrow> False | name # rest \<Rightarrow> globMatches (seg # segs) rest)
      else (case names of [] \<Rightarrow> False | name # rest \<Rightarrow> segmentMatches seg name \<and> globMatches segs rest))"

inductive_set skips :: "string list \<Rightarrow> nat set \<Rightarrow> nat set" for segs S where
  base: "i \<in> S \<Longrightarrow> i \<in> skips segs S"
| skip: "i \<in> skips segs S \<Longrightarrow> i < length segs \<Longrightarrow> segs ! i = ''**'' \<Longrightarrow> Suc i \<in> skips segs S"

lemma closureLoop_skips:
  assumes "S \<subseteq> result" "result \<subseteq> skips segs S" "set pending \<subseteq> result"
    "\<And>i. i \<in> result \<Longrightarrow> i \<notin> set pending \<Longrightarrow> i < length segs \<Longrightarrow> segs ! i = ''**'' \<Longrightarrow> Suc i \<in> result"
  shows "closureLoop segs result pending = skips segs S"
  using assms
proof (induction segs result pending rule: closureLoop.induct)
  case (1 segs result pending)
  show ?case
  proof (cases pending rule: rev_cases)
    case Nil
    have "i \<in> result" if "i \<in> skips segs S" for i
      using that by induction (use 1(3,6) Nil in auto)
    then show ?thesis using 1(4) Nil by (subst closureLoop.simps) auto
  next
    case (snoc rest index)
    let ?c = "index < length segs \<and> segs ! index = ''**'' \<and> Suc index \<notin> result"
    show ?thesis
    proof (cases ?c)
      case True
      then have "Suc index \<in> skips segs S" using 1(4,5) snoc by (auto intro: skips.skip)
      then have "closureLoop segs (insert (Suc index) result) (rest @ [Suc index]) = skips segs S"
        using True snoc 1(3-6) by (intro 1(1)) auto
      then show ?thesis using True snoc by (subst closureLoop.simps) (simp add: Let_def)
    next
      case False
      then have "closureLoop segs result rest = skips segs S"
        using snoc 1(3-6) by (intro 1(2)) auto
      then show ?thesis using False snoc by (subst closureLoop.simps) (auto simp: Let_def)
    qed
  qed
qed

lemma closure_eq: "finite S \<Longrightarrow> closure segs S = skips segs S"
  unfolding closure_def by (rule closureLoop_skips) (auto intro: skips.base)

lemma skips_finite: "finite S \<Longrightarrow> finite (skips segs S)"
proof -
  assume "finite S"
  moreover have "i \<in> S \<union> {..length segs}" if "i \<in> skips segs S" for i
    using that by induction auto
  ultimately show ?thesis by (meson finite_Un finite_atMost finite_subset subsetI)
qed

lemma glob_skips:
  "(\<exists>i \<in> skips segs S. i \<le> length segs \<and> globMatches (drop i segs) names) \<longleftrightarrow>
   (\<exists>i \<in> S. i \<le> length segs \<and> globMatches (drop i segs) names)"
proof
  assume "\<exists>i \<in> skips segs S. i \<le> length segs \<and> globMatches (drop i segs) names"
  then obtain i where "i \<in> skips segs S" "i \<le> length segs" "globMatches (drop i segs) names" by blast
  then show "\<exists>i \<in> S. i \<le> length segs \<and> globMatches (drop i segs) names"
  proof (induction)
    case (skip i)
    then have "drop i segs = ''**'' # drop (Suc i) segs" by (metis Cons_nth_drop_Suc)
    then show ?case using skip by simp
  qed blast
qed (auto intro: skips.base)

lemma advance_glob:
  "(\<exists>i \<in> skips segs S. i \<le> length segs \<and> globMatches (drop i segs) (name # names)) \<longleftrightarrow>
   (\<exists>i \<in> advance segs (skips segs S) name. i \<le> length segs \<and> globMatches (drop i segs) names)"
proof
  assume "\<exists>i \<in> skips segs S. i \<le> length segs \<and> globMatches (drop i segs) (name # names)"
  then obtain i where i: "i \<in> skips segs S" "i \<le> length segs" "globMatches (drop i segs) (name # names)" by blast
  then show "\<exists>i \<in> advance segs (skips segs S) name. i \<le> length segs \<and> globMatches (drop i segs) names"
  proof (induction "length segs - i" arbitrary: i)
    case 0
    then show ?case by simp
  next
    case (Suc k)
    then have d: "i < length segs" "drop i segs = segs ! i # drop (Suc i) segs"
      by (simp_all add: Cons_nth_drop_Suc)
    show ?case
    proof (cases "segs ! i = ''**''")
      case True
      show ?thesis
      proof (cases "globMatches (drop (Suc i) segs) (name # names)")
        case skip: True
        have "Suc i \<in> skips segs S" using Suc.prems(1) d(1) True by (rule skips.skip)
        then show ?thesis using Suc(1) [of "Suc i"] Suc(2) d(1) skip by simp
      next
        case False
        then have "globMatches (drop i segs) names" using Suc.prems(3) True by (simp add: d(2))
        then show ?thesis using Suc.prems(1) d(1) True
          by (intro bexI [of _ i]) (auto simp: advance_def)
      qed
    next
      case False
      then have "segmentMatches (segs ! i) name" "globMatches (drop (Suc i) segs) names"
        using Suc.prems(3) by (auto simp: d(2))
      then show ?thesis using Suc.prems(1) d(1) False
        by (intro bexI [of _ "Suc i"]) (auto simp: advance_def)
    qed
  qed
next
  assume "\<exists>i \<in> advance segs (skips segs S) name. i \<le> length segs \<and> globMatches (drop i segs) names"
  then obtain i j where "j \<in> skips segs S" "j < length segs" "globMatches (drop i segs) names"
    "segs ! j = ''**'' \<and> i = j \<or> segs ! j \<noteq> ''**'' \<and> segmentMatches (segs ! j) name \<and> i = Suc j"
    by (auto simp: advance_def split: if_splits)
  moreover from this(2) have "drop j segs = segs ! j # drop (Suc j) segs" by (simp add: Cons_nth_drop_Suc)
  ultimately show "\<exists>i \<in> skips segs S. i \<le> length segs \<and> globMatches (drop i segs) (name # names)"
    by (intro bexI [of _ j]) auto
qed

lemma advance_finite: "finite S \<Longrightarrow> finite (advance segs S name)"
  by (simp add: advance_def)

lemma matchesFrom_glob:
  "finite S \<Longrightarrow> S \<subseteq> {..length segs} \<Longrightarrow>
   matchesFrom segs (skips segs S) names \<longleftrightarrow> (\<exists>i \<in> S. i \<le> length segs \<and> globMatches (drop i segs) names)"
proof (induction names arbitrary: S)
  case Nil
  have "length segs \<in> skips segs S \<longleftrightarrow> (\<exists>i \<in> skips segs S. i \<le> length segs \<and> globMatches (drop i segs) [])"
  proof
    assume "\<exists>i \<in> skips segs S. i \<le> length segs \<and> globMatches (drop i segs) []"
    then obtain i where "i \<in> skips segs S" "i \<le> length segs" "globMatches (drop i segs) []" by blast
    then show "length segs \<in> skips segs S"
    proof (induction "length segs - i" arbitrary: i)
      case (Suc k)
      then have d: "i < length segs" "drop i segs = segs ! i # drop (Suc i) segs"
        by (simp_all add: Cons_nth_drop_Suc)
      then have "segs ! i = ''**''" "globMatches (drop (Suc i) segs) []"
        using Suc.prems(3) by (auto split: if_splits)
      then show ?case using Suc(1) [of "Suc i"] Suc(2) d(1) skips.skip [OF Suc.prems(1) d(1)] by simp
    qed simp
  qed auto
  then show ?case by (simp add: glob_skips)
next
  case (Cons name names)
  let ?A = "advance segs (skips segs S) name"
  have fin: "finite ?A" using Cons.prems(1) by (simp add: advance_finite skips_finite)
  have sub: "?A \<subseteq> {..length segs}" by (auto simp: advance_def split: if_splits)
  have "matchesFrom segs (skips segs S) (name # names) \<longleftrightarrow>
      skips segs ?A \<noteq> {} \<and> matchesFrom segs (skips segs ?A) names"
    by (simp add: Let_def closure_eq [OF fin])
  also have "\<dots> \<longleftrightarrow> (\<exists>i \<in> ?A. i \<le> length segs \<and> globMatches (drop i segs) names)"
  proof -
    have "\<exists>i \<in> ?A. i \<le> length segs \<and> globMatches (drop i segs) names \<Longrightarrow> skips segs ?A \<noteq> {}"
      using skips.base by blast
    then show ?thesis using Cons.IH [OF fin sub] by blast
  qed
  also have "\<dots> \<longleftrightarrow> (\<exists>i \<in> S. i \<le> length segs \<and> globMatches (drop i segs) (name # names))"
    unfolding advance_glob [symmetric] by (rule glob_skips)
  finally show ?case .
qed

lemma patternMatches_glob:
  "patternMatches pattern path \<longleftrightarrow> globMatches (segments pattern) (splitOn CHR ''/'' path)"
  using matchesFrom_glob [of "{0}" "segments pattern"]
  by (simp add: patternMatches_def closure_eq)

section \<open>Properties\<close>

text \<open>
  C40. The state-set matcher decides the reference relation: a pattern matches a path exactly when
  its segments match the path's segments with a double star standing for any number of them.
\<close>

theorem matcher_is_glob:
  "patternMatches pattern path \<longleftrightarrow> globMatches (segments pattern) (splitOn CHR ''/'' path)"
  by (rule patternMatches_glob)

lemma globMatches_all: "globMatches [''**''] names"
  by (induction names) auto

lemma globMatches_last:
  "seg \<noteq> ''**'' \<Longrightarrow> globMatches [''**'', seg] names \<longleftrightarrow> names \<noteq> [] \<and> segmentMatches seg (last names)"
  by (induction names) (auto split: list.splits)

lemma globMatches_some:
  "seg \<noteq> ''**'' \<Longrightarrow> globMatches [''**'', seg, ''**''] names \<longleftrightarrow> (\<exists>name \<in> set names. segmentMatches seg name)"
proof (induction names)
  case (Cons name names)
  have "globMatches [''**'', seg, ''**''] (name # names) \<longleftrightarrow>
      segmentMatches seg name \<and> globMatches [''**''] names \<or> globMatches [''**'', seg, ''**''] names"
    using Cons.prems by (simp only: globMatches.simps list.case if_True if_False refl)
  then show ?case using Cons by (simp only: globMatches_all) auto
qed simp

lemma globMatches_exact:
  "\<forall>seg \<in> set segs. seg \<noteq> ''**'' \<Longrightarrow> globMatches segs names \<longleftrightarrow> list_all2 segmentMatches segs names"
  by (induction segs arbitrary: names) (auto split: list.splits simp: list_all2_Cons1)

lemma joinWith_ends:
  "segs \<noteq> [] \<Longrightarrow> \<forall>seg \<in> set segs. sep \<notin> set seg \<and> seg \<noteq> [] \<Longrightarrow>
   joinWith sep segs \<noteq> [] \<and> hd (joinWith sep segs) \<noteq> sep \<and> last (joinWith sep segs) \<noteq> sep"
proof (induction sep segs rule: joinWith.induct)
  case (2 sep p)
  then have "hd p \<in> set p" "last p \<in> set p" by auto
  then show ?case using 2 by auto
next
  case (3 sep p q ps)
  then have "hd p \<in> set p" by auto
  then show ?case using 3 by (auto simp: hd_append last_append)
qed simp

lemma trim_slash_plain:
  assumes "s \<noteq> []" "hd s \<noteq> CHR ''/''" "last s \<noteq> CHR ''/''"
  shows "TrimPrefix s ''/'' = s" "\<not> HasSuffix s ''/''" "TrimSuffix s ''/'' = s"
    "TrimPrefix (s @ ''/'') ''/'' = s @ ''/''" "HasSuffix (s @ ''/'') ''/''" "TrimSuffix (s @ ''/'') ''/'' = s"
proof -
  obtain a t where s: "s = a # t" "a \<noteq> CHR ''/''" using assms(1,2) by (cases s) auto
  obtain u b where s': "s = u @ [b]" "b \<noteq> CHR ''/''" using assms(1,3) by (metis append_butlast_last_id)
  show "TrimPrefix s ''/'' = s" "TrimPrefix (s @ ''/'') ''/'' = s @ ''/''"
    using s by (simp_all add: TrimPrefix_def HasPrefix_def)
  show nosuffix: "\<not> HasSuffix s ''/''" using s' by (simp add: HasSuffix_def)
  then show "TrimSuffix s ''/'' = s" by (simp add: TrimSuffix_def)
  show suffix: "HasSuffix (s @ ''/'') ''/''" by (simp add: HasSuffix_def)
  then show "TrimSuffix (s @ ''/'') ''/'' = s" by (simp add: TrimSuffix_def)
qed

lemma newFilterPattern_plain:
  assumes "newFilterPattern raw False ign = Inr pattern" "segs \<noteq> []"
    "\<forall>seg \<in> set segs. CHR ''/'' \<notin> set seg \<and> seg \<noteq> []"
    "TrimSpace raw = joinWith CHR ''/'' segs @ (if dir then ''/'' else [])"
  shows "segments pattern = (if length segs = 1 then ''**'' # segs else segs) @ (if dir then [''**''] else [])"
proof -
  let ?s = "joinWith CHR ''/'' segs"
  have "?s \<noteq> []" "hd ?s \<noteq> CHR ''/''" "last ?s \<noteq> CHR ''/''" using joinWith_ends [OF assms(2,3)] by auto
  note ends = trim_slash_plain [OF this]
  have "splitOn CHR ''/'' ?s = segs" using assms(2,3) by (simp add: split_joinWith)
  then show ?thesis
    using assms(1,4) ends unfolding newFilterPattern_def Let_def
    by (cases dir) (auto split: if_splits)
qed

text \<open>
  What a pattern means to an operator. A single name matches at any depth: on its own it
  matches the last segment of a path, with a trailing slash any segment. A pattern of several
  segments is anchored at the root: without a double star it matches a path segment by segment.
\<close>

lemma pattern_meaning:
  assumes "newFilterPattern raw False ign = Inr pattern" "segs \<noteq> []"
    "\<forall>seg \<in> set segs. CHR ''/'' \<notin> set seg \<and> seg \<noteq> [] \<and> seg \<noteq> ''**''"
  shows "(TrimSpace raw = joinWith CHR ''/'' segs \<longrightarrow>
      patternMatches pattern path \<longleftrightarrow>
        (if length segs = 1 then segmentMatches (hd segs) (last (splitOn CHR ''/'' path))
         else list_all2 segmentMatches segs (splitOn CHR ''/'' path))) \<and>
    (TrimSpace raw = joinWith CHR ''/'' segs @ ''/'' \<and> length segs = 1 \<longrightarrow>
      (patternMatches pattern path \<longleftrightarrow> (\<exists>name \<in> set (splitOn CHR ''/'' path). segmentMatches (hd segs) name)))"
proof -
  have plain: "\<forall>seg \<in> set segs. CHR ''/'' \<notin> set seg \<and> seg \<noteq> []" using assms(3) by blast
  have one: "\<exists>seg. segs = [seg] \<and> seg \<noteq> ''**''" if "length segs = 1"
    using that assms(3) by (cases segs) auto
  show ?thesis
  proof (intro conjI impI)
    assume "TrimSpace raw = joinWith CHR ''/'' segs"
    then have "segments pattern = (if length segs = 1 then ''**'' # segs else segs)"
      using newFilterPattern_plain [OF assms(1,2) plain, of False] by simp
    then show "patternMatches pattern path \<longleftrightarrow>
        (if length segs = 1 then segmentMatches (hd segs) (last (splitOn CHR ''/'' path))
         else list_all2 segmentMatches segs (splitOn CHR ''/'' path))"
      using one assms(3) by (cases "length segs = 1")
        (auto simp: patternMatches_glob globMatches_last globMatches_exact simp del: globMatches.simps)
  next
    assume "TrimSpace raw = joinWith CHR ''/'' segs @ ''/'' \<and> length segs = 1"
    then show "patternMatches pattern path \<longleftrightarrow> (\<exists>name \<in> set (splitOn CHR ''/'' path). segmentMatches (hd segs) name)"
      using newFilterPattern_plain [OF assms(1,2) plain, of True] one
      by (auto simp: patternMatches_glob globMatches_some simp del: globMatches.simps)
  qed
qed

definition demoPattern :: filterPattern where
  "demoPattern = \<lparr>segments = [''**'', ''*.md''], ignored = True\<rparr>"

lemma demoPattern_new: "newFilterPattern '' *.md'' False True = Inr demoPattern"
proof -
  have "TrimSpace '' *.md'' = ''*.md''" by (simp add: TrimSpace_def runes_ascii isSpaceRune_def)
  then show ?thesis
    by (simp add: newFilterPattern_def Let_def RuneCountInString_def runes_ascii maximumPatternLength_def
        HasPrefix_def HasSuffix_def TrimPrefix_def TrimSuffix_def badSegment_def char_of_def bit_0 demoPattern_def)
qed

lemma pattern_meaning_example: "patternMatches demoPattern ''docs/a.md'' \<longleftrightarrow> segmentMatches ''*.md'' ''a.md''"
proof -
  have "TrimSpace '' *.md'' = ''*.md''" by (simp add: TrimSpace_def runes_ascii isSpaceRune_def)
  then show ?thesis
    using pattern_meaning [OF demoPattern_new, of "[''*.md'']" "''docs/a.md''"] by simp
qed

section \<open>Partition\<close>

lemma partitionFrom_ok:
  "partitionFrom f paths = Inr (selected, skipped) \<Longrightarrow>
     selected = filter (permitted f) paths \<and> skipped = filter (\<lambda>p. \<not> permitted f p) paths \<and>
     (\<forall>p \<in> set paths. ValidateSourcePath p = Inr ())"
proof (induction paths arbitrary: selected skipped)
  case (Cons p ps)
  then obtain a b where "ValidateSourcePath p = Inr ()" "partitionFrom f ps = Inr (a, b)"
    "(if permitted f p then (p # a, b) else (a, p # b)) = (selected, skipped)"
    by (auto simp: result_simps split: prod.splits if_splits)
  then show ?case using Cons.IH by (auto split: if_splits)
qed simp

lemma partitionFrom_total:
  "\<forall>p \<in> set paths. ValidateSourcePath p = Inr () \<Longrightarrow> \<exists>r. partitionFrom f paths = Inr r"
  by (induction paths) (auto simp: bindE_def split: prod.splits)

lemma remdups_adj_distinct: "sorted (xs :: string list) \<Longrightarrow> distinct (remdups_adj xs)"
  by (induction xs rule: remdups_adj.induct) auto

lemma ignore_last:
  "foldl (\<lambda>allowed p. if patternMatches p path then \<not> ignored p else allowed) start ps \<longleftrightarrow>
     (case filter (\<lambda>p. patternMatches p path) ps of
        [] \<Rightarrow> start
      | _ \<Rightarrow> \<not> ignored (last (filter (\<lambda>p. patternMatches p path) ps)))"
  by (induction ps arbitrary: start) (auto split: list.splits)

text \<open>The rule an operator relies on, over the reference meaning of patterns.\<close>

definition selects :: "pathFilter \<Rightarrow> string \<Rightarrow> bool" where
  "selects f path \<longleftrightarrow>
     (let names = splitOn CHR ''/'' path; hits = filter (\<lambda>p. globMatches (segments p) names) (filter_ignore f) in
      (filter_include f = [] \<or> (\<exists>p \<in> set (filter_include f). globMatches (segments p) names)) \<and>
      (\<forall>p \<in> set (filter_exclude f). \<not> globMatches (segments p) names) \<and>
      (hits = [] \<or> \<not> ignored (last hits)))"

lemma permitted_selects: "permitted f path = selects f path"
  unfolding permitted_def selects_def Let_def ignore_last list_ex_iff
  unfolding patternMatches_glob
  by (auto split: list.splits)

text \<open>
  The partition of a tree: if every path is valid it succeeds, and then the two lists are
  sorted, without duplicates, disjoint, and together hold exactly the given paths; a path is
  selected exactly when some include pattern matches it or there is none, no exclude pattern
  does, and the last matching ignore line, if any, is a negated one. One invalid path refuses
  the whole tree.
\<close>

lemma partition_correct:
  "if \<forall>p \<in> set paths. ValidateSourcePath p = Inr ()
   then \<exists>selected skipped. partitionPaths f paths = Inr (selected, skipped) \<and>
     sorted_wrt (<) selected \<and> sorted_wrt (<) skipped \<and>
     set selected = {p \<in> set paths. selects f p} \<and> set skipped = {p \<in> set paths. \<not> selects f p}
   else \<exists>e. partitionPaths f paths = Inl e"
proof -
  let ?ps = "remdups_adj (sort paths)"
  have set: "set ?ps = set paths" by simp
  have "sorted ?ps" "distinct ?ps"
    by (simp_all add: sorted_remdups_adj remdups_adj_distinct)
  then have sorted: "sorted_wrt (<) (filter Q ?ps)" for Q
    by (simp add: sorted_wrt_filter strict_sorted_iff)
  show ?thesis
  proof (cases "\<forall>p \<in> set paths. ValidateSourcePath p = Inr ()")
    case True
    then obtain a b where ab: "partitionFrom f ?ps = Inr (a, b)"
      using partitionFrom_total [of ?ps f] set by auto
    then show ?thesis using True partitionFrom_ok [OF ab] sorted set
      by (auto simp: partitionPaths_def permitted_selects)
  next
    case False
    then show ?thesis using partitionFrom_ok [of f ?ps] set
      by (cases "partitionPaths f paths") (auto simp: partitionPaths_def)
  qed
qed

lemma ValidateSourcePath_a: "ValidateSourcePath ''a'' = Inr ()"
  by (simp add: ValidateSourcePath_def utf8Valid_def runes_ascii HasPrefix_def HasSuffix_def
      maxSourcePathBytes_def runeError_def char_of_def bit_0)

lemma partition_correct_example:
  "\<exists>selected skipped. partitionPaths \<lparr>filter_include = [], filter_exclude = [], filter_ignore = []\<rparr>
     [''a'', ''a''] = Inr (selected, skipped) \<and> set selected = {''a''} \<and> skipped = []"
  using partition_correct [of "[''a'', ''a'']" "\<lparr>filter_include = [], filter_exclude = [], filter_ignore = []\<rparr>"]
  by (auto simp: ValidateSourcePath_a selects_def)

end
