(* ===== verification/Idempotency.thy ===== *)
theory Idempotency
  imports GoStd Prelude
begin

text \<open>
  Idempotent requests (\<^verbatim>\<open>internal/idempotency/idempotency.go\<close>): a request key is recorded
  with the result of the operation it ran, in the transaction of the caller, so that a repeat
  returns the recorded result instead of running the operation again. The advisory lock
  serializes calls for one scope and key and has no other effect on the tables.
\<close>

section \<open>Requests and records\<close>

type_synonym Digest = "byte list"

record Request =
  req_Scope :: string
  req_Key :: string
  req_Operation :: string
  req_Digest :: Digest
  req_AcceptedDigests :: "Digest list"
  req_TTL :: duration

record Result =
  res_Type :: string
  res_ID :: "byte list"

record IdempotencyRecord =
  rec_scope :: string
  rec_request_key :: string
  rec_operation :: string
  rec_request_digest :: Digest
  rec_result_type :: string
  rec_result_id :: "byte list"
  rec_created_at :: pgtime
  rec_expires_at :: pgtime

record 'd idemTables =
  idempotency_records :: "IdempotencyRecord list"
  other_tables :: 'd

datatype 'e idemError = ErrConflict | ErrRequest string | ErrOperation 'e

definition digestAccepted :: "Digest \<Rightarrow> Request \<Rightarrow> bool" where
  "digestAccepted stored request \<longleftrightarrow>
     stored = req_Digest request \<or> list_ex (\<lambda>d. stored = d) (req_AcceptedDigests request)"

definition sameKey :: "Request \<Rightarrow> IdempotencyRecord \<Rightarrow> bool" where
  "sameKey request r \<longleftrightarrow> rec_scope r = req_Scope request \<and> rec_request_key r = req_Key request"

definition requestValidate :: "Request \<Rightarrow> 'e idemError + unit" where
  "requestValidate request =
     (if req_Scope request = [] \<or> req_Key request = [] \<or> req_Operation request = []
      then Inl (ErrRequest ''idempotency scope, key, and operation are required'')
      else if Microseconds (req_TTL request) \<le> 0
      then Inl (ErrRequest ''idempotency TTL must be positive'')
      else Inr ())"

definition newRecord :: "Request \<Rightarrow> pgtime \<Rightarrow> Result \<Rightarrow> IdempotencyRecord" where
  "newRecord request now result =
     \<lparr>rec_scope = req_Scope request, rec_request_key = req_Key request,
      rec_operation = req_Operation request, rec_request_digest = req_Digest request,
      rec_result_type = res_Type result, rec_result_id = res_ID result,
      rec_created_at = now, rec_expires_at = now + Microseconds (req_TTL request)\<rparr>"

definition Execute ::
  "Request \<Rightarrow> pgtime \<Rightarrow> ('d, 'e, Result) txn \<Rightarrow> ('d idemTables, 'e idemError, Result) txn" where
  "Execute request now operation s =
     bindE (requestValidate request) (\<lambda>_.
       let live = filter (\<lambda>r. \<not> (sameKey request r \<and> rec_expires_at r \<le> now)) (idempotency_records s);
           s1 = s\<lparr>idempotency_records := live\<rparr> in
       case find (sameKey request) live of
         Some r \<Rightarrow>
           if rec_operation r \<noteq> req_Operation request \<or> \<not> digestAccepted (rec_request_digest r) request
           then Inl ErrConflict
           else Inr (s1, \<lparr>res_Type = rec_result_type r, res_ID = rec_result_id r\<rparr>)
       | None \<Rightarrow>
           (case operation (other_tables s1) of
              Inl e \<Rightarrow> Inl (ErrOperation e)
            | Inr (d, result) \<Rightarrow>
                if res_Type result = [] then Inl (ErrRequest ''idempotency result type is required'')
                else Inr (s1\<lparr>idempotency_records := live @ [newRecord request now result],
                            other_tables := d\<rparr>, result)))"

section \<open>Facts\<close>

definition keysUnique :: "'d idemTables \<Rightarrow> bool" where
  "keysUnique s \<longleftrightarrow> distinct (map (\<lambda>r. (rec_scope r, rec_request_key r)) (idempotency_records s))"

lemma sameKey_newRecord [simp]: "sameKey request (newRecord request now result)"
  by (simp add: sameKey_def newRecord_def)

lemma find_SomeD: "find P xs = Some x \<Longrightarrow> x \<in> set xs \<and> P x"
  by (induction xs) (auto split: if_splits)

lemma find_unique:
  assumes "distinct (map (\<lambda>r. (rec_scope r, rec_request_key r)) rs)" "r \<in> set rs" "sameKey request r"
  shows "find (sameKey request) rs = Some r"
  using assms
proof (induction rs)
  case (Cons x xs)
  show ?case
  proof (cases "sameKey request x")
    case True
    then have "x = r" using Cons.prems by (auto simp: sameKey_def image_iff)
    then show ?thesis using True by simp
  next
    case False
    then show ?thesis using Cons by auto
  qed
qed simp

lemma Execute_ok:
  assumes "Execute request now operation s = Inr (s1, result)" "keysUnique s"
  obtains (replayed) r where "r \<in> set (idempotency_records s1)" "sameKey request r" "now < rec_expires_at r"
      "rec_operation r = req_Operation request" "digestAccepted (rec_request_digest r) request"
      "result = \<lparr>res_Type = rec_result_type r, res_ID = rec_result_id r\<rparr>" "r \<in> set (idempotency_records s)"
      "other_tables s1 = other_tables s" "keysUnique s1"
    | (executed) d where "operation (other_tables s) = Inr (d, result)" "other_tables s1 = d" "res_Type result \<noteq> []"
      "newRecord request now result \<in> set (idempotency_records s1)" "keysUnique s1"
proof -
  let ?live = "filter (\<lambda>r. \<not> (sameKey request r \<and> rec_expires_at r \<le> now)) (idempotency_records s)"
  have uniq: "distinct (map (\<lambda>r. (rec_scope r, rec_request_key r)) ?live)"
    using assms(2) by (simp add: keysUnique_def distinct_map_filter)
  show thesis
  proof (cases "find (sameKey request) ?live")
    case (Some r)
    then have r: "r \<in> set ?live" "sameKey request r" using find_SomeD by fast+
    then show thesis using assms(1) Some uniq
      by (intro replayed [of r])
        (auto simp: Execute_def Let_def result_simps keysUnique_def split: if_splits)
  next
    case None
    then have "\<forall>r \<in> set ?live. \<not> sameKey request r" by (auto simp: find_None_iff)
    then have "(req_Scope request, req_Key request) \<notin> (\<lambda>r. (rec_scope r, rec_request_key r)) ` set ?live"
      by (auto simp: sameKey_def)
    moreover obtain d where "operation (other_tables s) = Inr (d, result)" "res_Type result \<noteq> []"
      "s1 = s\<lparr>idempotency_records := ?live @ [newRecord request now result], other_tables := d\<rparr>"
      using assms(1) None
      by (auto simp: Execute_def Let_def result_simps split: if_splits sum.splits prod.splits)
    ultimately show thesis using uniq
      by (intro executed [of d]) (auto simp: keysUnique_def newRecord_def)
  qed
qed

lemma Execute_replay:
  assumes "keysUnique s" "r \<in> set (idempotency_records s)" "sameKey request r" "now < rec_expires_at r"
    "requestValidate request = (Inr () :: 'e idemError + unit)"
  shows "Execute request now (operation :: ('d, 'e, Result) txn) s =
    (if rec_operation r \<noteq> req_Operation request \<or> \<not> digestAccepted (rec_request_digest r) request then Inl ErrConflict
     else Inr (s\<lparr>idempotency_records :=
          filter (\<lambda>r. \<not> (sameKey request r \<and> rec_expires_at r \<le> now)) (idempotency_records s)\<rparr>,
        \<lparr>res_Type = rec_result_type r, res_ID = rec_result_id r\<rparr>))"
proof -
  let ?live = "filter (\<lambda>r. \<not> (sameKey request r \<and> rec_expires_at r \<le> now)) (idempotency_records s)"
  have "find (sameKey request) ?live = Some r"
    using assms(1-4) by (intro find_unique) (auto simp: keysUnique_def distinct_map_filter)
  then show ?thesis using assms(5) by (simp add: Execute_def Let_def)
qed

section \<open>Properties\<close>

text \<open>
  C35. A request runs its operation at most once while its record lives: after a call that
  succeeded, any later call with the same scope, key and operation and an accepted digest, before
  the record expires, returns the same result and leaves the other tables as they are, whatever
  happened to them in between and whatever operation it carries; with any other digest or
  operation name it is a conflict and nothing changes.
\<close>

theorem idempotent_replay:
  fixes operation again :: "('d, 'e, Result) txn"
  assumes first: "Execute request now operation s = Inr (s1, result)" "keysUnique s"
    and later: "idempotency_records s2 = idempotency_records s1" "now' < now + Microseconds (req_TTL request)"
    and fresh: "\<forall>r \<in> set (idempotency_records s). \<not> sameKey request r"
    and key: "req_Scope request' = req_Scope request" "req_Key request' = req_Key request"
      "Microseconds (req_TTL request') > 0" "req_Operation request' \<noteq> []"
  shows "if req_Operation request' = req_Operation request \<and> digestAccepted (req_Digest request) request'
    then \<exists>s3. Execute request' now' again s2 = Inr (s3, result) \<and> other_tables s3 = other_tables s2
    else Execute request' now' again s2 = Inl ErrConflict"
proof -
  have valid: "requestValidate request' = (Inr () :: 'e idemError + unit)"
  proof -
    have "requestValidate request = (Inr () :: 'e idemError + unit)"
      using first(1) by (auto simp: Execute_def result_simps)
    then show ?thesis using key by (auto simp: requestValidate_def split: if_splits)
  qed
  from first show ?thesis
  proof (cases rule: Execute_ok)
    case (replayed r)
    then show ?thesis using fresh by blast
  next
    case (executed d)
    let ?r = "newRecord request now result"
    have "keysUnique s2" using executed(5) later(1) by (simp add: keysUnique_def)
    moreover have "?r \<in> set (idempotency_records s2)" using executed(4) later(1) by simp
    moreover have "sameKey request' ?r" "now' < rec_expires_at ?r" using key later(2)
      by (simp_all add: sameKey_def newRecord_def)
    ultimately show ?thesis using Execute_replay [OF _ _ _ _ valid, of s2 ?r now' again]
      by (simp add: newRecord_def)
  qed
qed

definition demoRequest :: Request where
  "demoRequest = \<lparr>req_Scope = ''operator:1'', req_Key = ''k'', req_Operation = ''job.cancel'',
     req_Digest = [1], req_AcceptedDigests = [], req_TTL = 5000\<rparr>"

definition demoIdem :: "nat idemTables" where
  "demoIdem = \<lparr>idempotency_records = [], other_tables = 0\<rparr>"

definition countUp :: "(nat, string, Result) txn" where
  "countUp n = Inr (n + 1, \<lparr>res_Type = ''done'', res_ID = [7]\<rparr>)"

theorem idempotent_replay_witness:
  "\<exists>s1 s3. Execute demoRequest 10 countUp demoIdem = Inr (s1, \<lparr>res_Type = ''done'', res_ID = [7]\<rparr>) \<and>
     other_tables s1 = 1 \<and> Execute demoRequest 14 countUp s1 = Inr (s3, \<lparr>res_Type = ''done'', res_ID = [7]\<rparr>) \<and>
     other_tables s3 = 1"
proof -
  have first: "Execute demoRequest 10 countUp demoIdem =
      Inr (\<lparr>idempotency_records = [newRecord demoRequest 10 \<lparr>res_Type = ''done'', res_ID = [7]\<rparr>],
            other_tables = 1\<rparr>, \<lparr>res_Type = ''done'', res_ID = [7]\<rparr>)"
    by (simp add: Execute_def requestValidate_def demoRequest_def Microseconds_def demoIdem_def countUp_def)
  from idempotent_replay [OF first, of _ 14 demoRequest countUp] first show ?thesis
    by (fastforce simp: keysUnique_def demoIdem_def demoRequest_def Microseconds_def digestAccepted_def)
qed

end
