(* ===== verification/GoJson.thy ===== *)
theory GoJson
  imports GoStd JobTypes Complex_Main "HOL-Library.Char_ord" "HOL-Library.Log_Nat"
begin

text \<open>
  What the capsule host uses of Go's \<^verbatim>\<open>encoding/json\<close>, \<^verbatim>\<open>unicode/utf16\<close> and
  \<^verbatim>\<open>strconv\<close>: number literals and their double precision value, string escapes in both
  directions, the encoder on dynamically typed values, and the lexical level of the token
  decoder. A double is the rational it stands for; the encoder runs without HTML escaping.
\<close>

section \<open>Number literals\<close>

definition isDigit :: "char \<Rightarrow> bool" where
  "isDigit c \<longleftrightarrow> 48 \<le> code c \<and> code c \<le> 57"

definition scanSign :: "char list \<Rightarrow> string \<Rightarrow> string \<times> string" where
  "scanSign signs s = (case s of c # t \<Rightarrow> if c \<in> set signs then ([c], t) else ([], s) | [] \<Rightarrow> ([], []))"

definition scanInteger :: "string \<Rightarrow> (string \<times> string) option" where
  "scanInteger s =
     (case s of
        [] \<Rightarrow> None
      | c # t \<Rightarrow> if c = CHR ''0'' then Some ([c], t)
          else if isDigit c then Some (takeWhile isDigit s, dropWhile isDigit s) else None)"

definition scanFraction :: "string \<Rightarrow> (string \<times> string) option" where
  "scanFraction s =
     (case s of
        [] \<Rightarrow> Some ([], [])
      | c # t \<Rightarrow> if c = CHR ''.''
          then if takeWhile isDigit t = [] then None else Some (c # takeWhile isDigit t, dropWhile isDigit t)
          else Some ([], s))"

definition scanExponent :: "string \<Rightarrow> (string \<times> string) option" where
  "scanExponent s =
     (case s of
        [] \<Rightarrow> Some ([], [])
      | c # t \<Rightarrow> if c = CHR ''e'' \<or> c = CHR ''E''
          then let (sign, u) = scanSign ''+-'' t in
            if takeWhile isDigit u = [] then None else Some (c # sign @ takeWhile isDigit u, dropWhile isDigit u)
          else Some ([], s))"

definition scanNumber :: "string \<Rightarrow> (string \<times> string) option" where
  "scanNumber s =
     (let (sign, s0) = scanSign ''-'' s in
      case scanInteger s0 of None \<Rightarrow> None | Some (whole, s1) \<Rightarrow>
      (case scanFraction s1 of None \<Rightarrow> None | Some (fraction, s2) \<Rightarrow>
      (case scanExponent s2 of None \<Rightarrow> None | Some (exponent, s3) \<Rightarrow>
       Some (sign @ whole @ fraction @ exponent, s3))))"

definition isValidNumber :: "string \<Rightarrow> bool" where
  "isValidNumber s \<longleftrightarrow> scanNumber s = Some (s, [])"

section \<open>Double precision\<close>

definition digitsValue :: "string \<Rightarrow> nat" where
  "digitsValue s = foldl (\<lambda>n c. n * 10 + (code c - 48)) 0 s"

text \<open>The rational a number literal denotes.\<close>

definition literalValue :: "string \<Rightarrow> rat" where
  "literalValue s =
     (let (sign, s0) = scanSign ''-'' s;
          whole = takeWhile isDigit s0; s1 = dropWhile isDigit s0;
          fraction = (case s1 of c # t \<Rightarrow> if c = CHR ''.'' then takeWhile isDigit t else [] | [] \<Rightarrow> []);
          s2 = (case s1 of c # t \<Rightarrow> if c = CHR ''.'' then dropWhile isDigit t else s1 | [] \<Rightarrow> []);
          (esign, s3) = scanSign ''+-'' (drop 1 s2);
          e = (if esign = ''-'' then - int (digitsValue s3) else int (digitsValue s3));
          x = of_nat (digitsValue (whole @ fraction)) * 10 powi (e - int (length fraction))
      in if sign = [] then x else - x)"

definition roundHalfEven :: "rat \<Rightarrow> int" where
  "roundHalfEven x =
     (let q = floor x; r = x - of_int q in
      if r < 1 / 2 then q else if r > 1 / 2 then q + 1 else if even q then q else q + 1)"

text \<open>The exponent of the binade of a positive rational.\<close>

definition binade :: "rat \<Rightarrow> int" where
  "binade x =
     (let (a, b) = quotient_of x; e = int (floorlog 2 (nat a)) - int (floorlog 2 (nat b))
      in if x < 2 powi e then e - 1 else e)"

text \<open>
  The nearest double, ties to even, with gradual underflow; none when it would be infinite,
  which is the range error of \<^verbatim>\<open>strconv.ParseFloat\<close>.
\<close>

definition nearestDouble :: "rat \<Rightarrow> rat option" where
  "nearestDouble x =
     (if x = 0 then Some 0
      else let e = max (- 1074) (binade \<bar>x\<bar> - 52);
               y = of_int (roundHalfEven (\<bar>x\<bar> / 2 powi e)) * 2 powi e
           in if y \<ge> 2 ^ 1024 then None else Some (sgn x * y))"

definition ParseFloat64 :: "string \<Rightarrow> rat option" where
  "ParseFloat64 s = (if isValidNumber s then nearestDouble (literalValue s) else None)"

section \<open>Strings\<close>

definition quote :: char where "quote = CHR 0x22"

definition backslash :: char where "backslash = CHR 0x5C"

definition escapeByte :: "char \<Rightarrow> string" where
  "escapeByte c =
     (if c = quote \<or> c = backslash then [backslash, c]
      else if code c = 8 then [backslash, CHR ''b'']
      else if code c = 12 then [backslash, CHR ''f'']
      else if code c = 10 then [backslash, CHR ''n'']
      else if code c = 13 then [backslash, CHR ''r'']
      else if code c = 9 then [backslash, CHR ''t'']
      else if code c < 32 then backslash # ''u00'' @ [hextable ! (code c div 16), hextable ! (code c mod 16)]
      else [c])"

definition escapeRune :: "nat \<times> string \<Rightarrow> string" where
  "escapeRune x =
     (let (r, bs) = x in
      if r < 0x80 then concat (map escapeByte bs)
      else if r = runeError \<and> length bs = 1 then backslash # ''ufffd''
      else if r = 0x2028 then backslash # ''u2028''
      else if r = 0x2029 then backslash # ''u2029''
      else bs)"

definition encodeString :: "string \<Rightarrow> string" where
  "encodeString s = quote # concat (map escapeRune (runes s)) @ [quote]"

text \<open>\<^verbatim>\<open>utf8.EncodeRune\<close>: surrogates and numbers beyond the range give the error rune.\<close>

definition EncodeRune :: "nat \<Rightarrow> string" where
  "EncodeRune rune =
     (let r = (if 0xD800 \<le> rune \<and> rune \<le> 0xDFFF \<or> 0x10FFFF < rune then runeError else rune) in
      if r < 0x80 then [char_of r]
      else if r < 0x800 then [char_of (0xC0 + r div 64), char_of (0x80 + r mod 64)]
      else if r < 0x10000 then
        [char_of (0xE0 + r div 4096), char_of (0x80 + r div 64 mod 64), char_of (0x80 + r mod 64)]
      else [char_of (0xF0 + r div 262144), char_of (0x80 + r div 4096 mod 64),
            char_of (0x80 + r div 64 mod 64), char_of (0x80 + r mod 64)])"

definition hex4 :: "char \<Rightarrow> char \<Rightarrow> char \<Rightarrow> char \<Rightarrow> nat option" where
  "hex4 a b c d =
     (case (hexValue a, hexValue b, hexValue c, hexValue d) of
        (Some w, Some x, Some y, Some z) \<Rightarrow> Some (((w * 16 + x) * 16 + y) * 16 + z)
      | _ \<Rightarrow> None)"

text \<open>\<^verbatim>\<open>utf16.DecodeRune\<close> of two code units, none when they are no surrogate pair.\<close>

definition surrogatePair :: "nat \<Rightarrow> nat \<Rightarrow> nat option" where
  "surrogatePair r1 r2 =
     (if 0xD800 \<le> r1 \<and> r1 < 0xDC00 \<and> 0xDC00 \<le> r2 \<and> r2 < 0xE000
      then Some ((r1 - 0xD800) * 1024 + (r2 - 0xDC00) + 0x10000) else None)"

definition simpleEscape :: "char \<Rightarrow> char option" where
  "simpleEscape e =
     (if e = quote \<or> e = backslash \<or> e = CHR ''/'' then Some e
      else if e = CHR ''b'' then Some (char_of (8 :: nat))
      else if e = CHR ''f'' then Some (char_of (12 :: nat))
      else if e = CHR ''n'' then Some (char_of (10 :: nat))
      else if e = CHR ''r'' then Some (char_of (13 :: nat))
      else if e = CHR ''t'' then Some (char_of (9 :: nat))
      else None)"

definition consume :: "string \<Rightarrow> (string \<times> string) option \<Rightarrow> (string \<times> string) option" where
  "consume xs r = map_option (apfst ((@) xs)) r"

text \<open>The second unit of a surrogate pair, when the text goes on with one.\<close>

definition lowSurrogate :: "nat \<Rightarrow> string \<Rightarrow> nat option" where
  "lowSurrogate r s =
     (case s of
        x # u # a # b # c # d # _ \<Rightarrow>
          if x = backslash \<and> u = CHR ''u'' then Option.bind (hex4 a b c d) (surrogatePair r) else None
      | _ \<Rightarrow> None)"

text \<open>
  The text of a string literal after its opening quote and what follows the closing one. The
  bytes beyond ASCII are copied, since every caller has checked the input to be UTF-8.
\<close>

function decodeBody :: "string \<Rightarrow> (string \<times> string) option" where
  "decodeBody s =
     (case s of
        [] \<Rightarrow> None
      | c # t \<Rightarrow>
          if c = quote then Some ([], t)
          else if c = backslash then
            (case t of
               [] \<Rightarrow> None
             | e # t1 \<Rightarrow>
                 if e = CHR ''u'' then
                   (case t1 of
                      a # b # d # f # t2 \<Rightarrow>
                        (case hex4 a b d f of
                           None \<Rightarrow> None
                         | Some r \<Rightarrow>
                             (case (if 0xD800 \<le> r \<and> r < 0xE000 then lowSurrogate r t2 else None) of
                                Some p \<Rightarrow> consume (EncodeRune p) (decodeBody (drop 6 t2))
                              | None \<Rightarrow> consume (EncodeRune r) (decodeBody t2)))
                    | _ \<Rightarrow> None)
                 else (case simpleEscape e of
                         None \<Rightarrow> None
                       | Some x \<Rightarrow> consume [x] (decodeBody t1)))
          else if code c < 32 then None
          else consume [c] (decodeBody t))"
  by pat_completeness auto
termination
  by (relation "measure length") auto

declare decodeBody.simps [simp del]

section \<open>The encoder\<close>

fun commas :: "string list \<Rightarrow> string" where
  "commas [] = []"
| "commas [x] = x"
| "commas (x # y # xs) = x @ '','' @ commas (y # xs)"

text \<open>
  The encoding of a value, given that of strings; an object is written in the order of its
  keys. An empty number is written as zero.
\<close>

function (sequential) encodeWith :: "(string \<Rightarrow> string) \<Rightarrow> gval \<Rightarrow> string option" where
  "encodeWith q GNull = Some ''null''"
| "encodeWith q (GBool b) = Some (if b then ''true'' else ''false'')"
| "encodeWith q (GNumber n) = (if n = [] then Some ''0'' else if isValidNumber n then Some n else None)"
| "encodeWith q (GString s) = Some (q s)"
| "encodeWith q (GArray xs) =
     map_option (\<lambda>es. ''['' @ commas es @ '']'') (those (map (encodeWith q) xs))"
| "encodeWith q (GObject kvs) =
     map_option (\<lambda>es. ''{'' @ commas es @ ''}'')
       (those (map (\<lambda>kv. map_option (\<lambda>e. q (fst kv) @ '':'' @ e) (encodeWith q (snd kv))) (sort_key fst kvs)))"
| "encodeWith q GOpaque = None"
  by pat_completeness auto
termination
proof (relation "measure (\<lambda>(q, v). size v)", goal_cases)
  case (3 q kvs kv)
  then have "(fst kv, snd kv) \<in> set kvs" by simp
  then have "size (snd kv) < Suc (size_list (size_prod (\<lambda>_. 0) size) kvs)"
    by (induction kvs) (auto simp: less_Suc_eq_le)
  then show ?case by simp
qed (auto simp: less_Suc_eq_le size_list_estimation')

definition encodeValue :: "gval \<Rightarrow> string option" where
  "encodeValue = encodeWith encodeString"

section \<open>The token decoder\<close>

datatype tokenState =
    tokenTopValue | tokenArrayStart | tokenArrayComma | tokenObjectStart | tokenObjectColon
  | tokenObjectComma

definition isSpace :: "char \<Rightarrow> bool" where
  "isSpace c \<longleftrightarrow> c = CHR '' '' \<or> code c = 9 \<or> code c = 13 \<or> code c = 10"

definition skipSpace :: "string \<Rightarrow> string" where
  "skipSpace s = dropWhile isSpace s"

text \<open>The input where the next value or member name has to start, past the separator that the
  state of the decoder asks for.\<close>

definition tokenStart :: "tokenState \<Rightarrow> string \<Rightarrow> string option" where
  "tokenStart st s =
     (let expect = (\<lambda>d. case skipSpace s of c # t \<Rightarrow> if c = d then Some (skipSpace t) else None | [] \<Rightarrow> None) in
      case st of
        tokenArrayComma \<Rightarrow> expect CHR '',''
      | tokenObjectComma \<Rightarrow> expect CHR '',''
      | tokenObjectColon \<Rightarrow> expect CHR '':''
      | _ \<Rightarrow> Some (skipSpace s))"

definition More :: "string \<Rightarrow> bool" where
  "More s \<longleftrightarrow> (case skipSpace s of [] \<Rightarrow> False | c # _ \<Rightarrow> c \<noteq> CHR '']'' \<and> c \<noteq> CHR ''}'')"

definition scanScalar :: "string \<Rightarrow> (gval \<times> string) option" where
  "scanScalar s =
     (case s of
        [] \<Rightarrow> None
      | c # t \<Rightarrow>
          if c = quote then map_option (apfst GString) (decodeBody t)
          else if HasPrefix s ''true'' then Some (GBool True, drop 4 s)
          else if HasPrefix s ''false'' then Some (GBool False, drop 5 s)
          else if HasPrefix s ''null'' then Some (GNull, drop 4 s)
          else map_option (apfst GNumber) (scanNumber s))"

definition scanName :: "string \<Rightarrow> (string \<times> string) option" where
  "scanName s = (case s of c # t \<Rightarrow> if c = quote then decodeBody t else None | [] \<Rightarrow> None)"

end
