(* ===== verification/CapsuleJson.thy ===== *)
theory CapsuleJson
  imports GoJson
begin

text \<open>
  Strict JSON of the capsule host (\<^verbatim>\<open>internal/capsule/json.go\<close>): decoding with
  limits on depth, string bytes and members and without duplicate members, canonical encoding,
  and the conversions of numbers. An object is a list of members; the decoder keeps it in the
  order of its keys, so that equal Go maps are equal lists.
\<close>

section \<open>Decoding\<close>

record complexityLimits =
  maxDepth :: int
  maxStringBytes :: int
  maxKeys :: int

datatype jsonError =
    ErrNotUTF8 | ErrTrailing | ErrDepth | ErrToken | ErrMemberName | ErrDuplicate | ErrKeyCount
  | ErrObject | ErrArray | ErrString | ErrNumber | ErrOutOfFuel

fun putMember :: "string \<Rightarrow> gval \<Rightarrow> (string \<times> gval) list \<Rightarrow> (string \<times> gval) list" where
  "putMember k v [] = [(k, v)]"
| "putMember k v (m # ms) =
     (if k < fst m then (k, v) # m # ms else if k = fst m then (k, v) # ms else m # putMember k v ms)"

definition checkScalar :: "complexityLimits \<Rightarrow> gval \<Rightarrow> jsonError + unit" where
  "checkScalar limits token =
     (case token of
        GString s \<Rightarrow>
          if \<not> utf8Valid s \<or> int (length s) > maxStringBytes limits then Inl ErrString else Inr ()
      | GNumber n \<Rightarrow>
          if ParseInt64 n = None \<and> ParseFloat64 n = None then Inl ErrNumber else Inr ()
      | _ \<Rightarrow> Inr ())"

type_synonym decoded = "jsonError + gval \<times> nat \<times> string"

text \<open>
  The two loops of \<^verbatim>\<open>decodeJSONValue\<close>, between the delimiters of an object and of an
  array, over the decoder of the values inside. Each round takes one unit of fuel; a round reads at
  least one byte, so one more than the length of the input is enough.
\<close>

primrec decodeMembers ::
  "nat \<Rightarrow> (nat \<Rightarrow> string \<Rightarrow> decoded) \<Rightarrow> complexityLimits \<Rightarrow> tokenState \<Rightarrow> nat \<Rightarrow> (string \<times> gval) list \<Rightarrow> string \<Rightarrow> decoded" where
  "decodeMembers 0 decode limits st keys object s = Inl ErrOutOfFuel"
| "decodeMembers (Suc n) decode limits st keys object s =
     (if More s then
        (case Option.bind (tokenStart st s) scanName of
           None \<Rightarrow> Inl ErrToken
         | Some (name, t) \<Rightarrow>
             if \<not> utf8Valid name \<or> int (length name) > maxStringBytes limits then Inl ErrMemberName
             else if map_of object name \<noteq> None then Inl ErrDuplicate
             else if int (keys + 1) > maxKeys limits then Inl ErrKeyCount
             else bindE (decode (keys + 1) t) (\<lambda>(v, keys', t').
               decodeMembers n decode limits tokenObjectComma keys' (putMember name v object) t'))
      else case skipSpace s of
        c # t \<Rightarrow> if c = CHR ''}'' then Inr (GObject object, keys, t) else Inl ErrObject
      | [] \<Rightarrow> Inl ErrObject)"

primrec decodeElements ::
  "nat \<Rightarrow> (tokenState \<Rightarrow> nat \<Rightarrow> string \<Rightarrow> decoded) \<Rightarrow> tokenState \<Rightarrow> nat \<Rightarrow> gval list \<Rightarrow> string \<Rightarrow> decoded" where
  "decodeElements 0 decode st keys array s = Inl ErrOutOfFuel"
| "decodeElements (Suc n) decode st keys array s =
     (if More s then
        bindE (decode st keys s) (\<lambda>(v, keys', t').
          decodeElements n decode tokenArrayComma keys' (array @ [v]) t')
      else case skipSpace s of
        c # t \<Rightarrow> if c = CHR '']'' then Inr (GArray array, keys, t) else Inl ErrArray
      | [] \<Rightarrow> Inl ErrArray)"

text \<open>One value: the fuel is the depth that is left, which the check of the depth never lets run out.\<close>

primrec decodeJSONValue :: "nat \<Rightarrow> complexityLimits \<Rightarrow> nat \<Rightarrow> tokenState \<Rightarrow> nat \<Rightarrow> string \<Rightarrow> decoded" where
  "decodeJSONValue 0 limits depth st keys s =
     (if int depth > maxDepth limits then Inl ErrDepth else Inl ErrOutOfFuel)"
| "decodeJSONValue (Suc n) limits depth st keys s =
     (if int depth > maxDepth limits then Inl ErrDepth
      else case tokenStart st s of
        None \<Rightarrow> Inl ErrToken
      | Some start \<Rightarrow>
          (case start of
             [] \<Rightarrow> Inl ErrToken
           | c # t \<Rightarrow>
               if c = CHR ''{''
               then decodeMembers (length t + 1) (decodeJSONValue n limits (depth + 1) tokenObjectColon)
                 limits tokenObjectStart keys [] t
               else if c = CHR ''[''
               then decodeElements (length t + 1) (decodeJSONValue n limits (depth + 1)) tokenArrayStart keys [] t
               else case scanScalar (c # t) of
                 None \<Rightarrow> Inl ErrToken
               | Some (token, rest) \<Rightarrow> bindE (checkScalar limits token) (\<lambda>_. Inr (token, keys, rest))))"

definition parseStrictJSON :: "string \<Rightarrow> complexityLimits \<Rightarrow> jsonError + gval \<times> nat" where
  "parseStrictJSON raw limits =
     (if \<not> utf8Valid raw then Inl ErrNotUTF8
      else bindE (decodeJSONValue (nat (maxDepth limits)) limits 1 tokenTopValue 0 raw) (\<lambda>(v, keys, rest).
        if skipSpace rest \<noteq> [] then Inl ErrTrailing else Inr (v, keys)))"

section \<open>Canonical encoding\<close>

text \<open>The number of backslashes right before the current byte is carried along; a separator is
  written out when it is even, that is when the backslash is not itself escaped.\<close>

definition lineSeparator :: "string \<Rightarrow> string option" where
  "lineSeparator s =
     (if HasPrefix s (backslash # ''u2028'') then Some (EncodeRune 0x2028)
      else if HasPrefix s (backslash # ''u2029'') then Some (EncodeRune 0x2029)
      else None)"

function unescapeFrom :: "nat \<Rightarrow> string \<Rightarrow> string" where
  "unescapeFrom preceding encoded =
     (case encoded of
        [] \<Rightarrow> []
      | c # rest \<Rightarrow>
          (case (if even preceding then lineSeparator encoded else None) of
             Some separator \<Rightarrow> separator @ unescapeFrom 0 (drop 6 encoded)
           | None \<Rightarrow> c # unescapeFrom (if c = backslash then preceding + 1 else 0) rest))"
  by pat_completeness auto
termination
  by (relation "measure (\<lambda>(n, s). length s)") auto

declare unescapeFrom.simps [simp del]

definition unescapeJSONLineSeparators :: "string \<Rightarrow> string" where
  "unescapeJSONLineSeparators encoded = unescapeFrom 0 encoded"

definition newline :: char where "newline = char_of (10 :: nat)"

definition canonicalJSON :: "gval \<Rightarrow> string option" where
  "canonicalJSON v =
     map_option (\<lambda>e. unescapeJSONLineSeparators (TrimSuffix (e @ [newline]) [newline])) (encodeValue v)"

definition normalizeJSONObject :: "gval \<Rightarrow> int \<Rightarrow> complexityLimits \<Rightarrow> gval option" where
  "normalizeJSONObject v maximum limits =
     (case canonicalJSON v of
        None \<Rightarrow> None
      | Some encoded \<Rightarrow>
          if int (length encoded) > maximum then None
          else case parseStrictJSON encoded limits of
            Inr (GObject kvs, _) \<Rightarrow> Some (GObject kvs)
          | _ \<Rightarrow> None)"

definition cloneJSON :: "gval \<Rightarrow> complexityLimits \<Rightarrow> gval option" where
  "cloneJSON v limits =
     (case canonicalJSON v of
        None \<Rightarrow> None
      | Some encoded \<Rightarrow> (case parseStrictJSON encoded limits of Inr (result, _) \<Rightarrow> Some result | Inl _ \<Rightarrow> None))"

definition sameJSON :: "gval \<Rightarrow> gval \<Rightarrow> bool" where
  "sameJSON left right \<longleftrightarrow>
     (case (canonicalJSON left, canonicalJSON right) of (Some a, Some b) \<Rightarrow> a = b | _ \<Rightarrow> False)"

section \<open>Numbers\<close>

definition jsonNumber :: "gval \<Rightarrow> rat option" where
  "jsonNumber v = (case v of GNumber n \<Rightarrow> ParseFloat64 n | _ \<Rightarrow> None)"

definition jsonInteger :: "gval \<Rightarrow> int option" where
  "jsonInteger v = (case v of GNumber n \<Rightarrow> ParseInt64 n | _ \<Rightarrow> None)"

definition numberInt :: "gval \<Rightarrow> int option" where
  "numberInt v =
     (case jsonInteger v of
        None \<Rightarrow> None
      | Some number \<Rightarrow> if number < 0 \<or> number > 1000000000 then None else Some number)"

end
