(* ===== verification/CapsuleWire.thy ===== *)
theory CapsuleWire
  imports CapsuleJson
begin

text \<open>
  The framed protocol between the host and a capsule (\<^verbatim>\<open>internal/capsule/wire.go\<close>)
  and the limits it obeys (\<^verbatim>\<open>internal/capsule/types.go\<close>): the closed schema of every
  message, frames of a four byte length and canonical JSON, and the bound on the bytes of both
  directions together. The connection is the bytes the peer has sent, the bytes written to it,
  and what each of the next calls of its \<^verbatim>\<open>Write\<close> does.
\<close>

section \<open>Limits\<close>

record Limits =
  MaxFrameBytes :: int
  MaxAggregateBytes :: int
  MaxStringBytes :: int
  MaxDepth :: int
  MaxKeys :: int
  MaxFetchBodyBytes :: int
  MaxFetches :: int
  MaxModelRequests :: int
  AttemptTimeout :: duration

definition second :: duration where "second = 1000000000"

definition MinModelTimeout :: duration where "MinModelTimeout = second"

definition MaxModelTimeout :: duration where "MaxModelTimeout = 60 * second"

definition Milliseconds :: "duration \<Rightarrow> int" where "Milliseconds d = sgn d * (\<bar>d\<bar> div 1000000)"

definition fetchFrameReserve :: int where "fetchFrameReserve = 8192"

definition DefaultLimits :: Limits where
  "DefaultLimits = \<lparr>MaxFrameBytes = 2097152, MaxAggregateBytes = 16777216, MaxStringBytes = 1048576,
     MaxDepth = 32, MaxKeys = 50000, MaxFetchBodyBytes = 1048576, MaxFetches = 64, MaxModelRequests = 16,
     AttemptTimeout = 660 * second\<rparr>"

definition limitsValidate :: "Limits \<Rightarrow> string + unit" where
  "limitsValidate l =
     (if MaxFrameBytes l < 1024 \<or> MaxFrameBytes l > 4194304 \<or>
         MaxAggregateBytes l < max 4096 (MaxFrameBytes l) \<or> MaxAggregateBytes l > 33554432 \<or>
         MaxStringBytes l < 256 \<or> MaxStringBytes l > 2097152 \<or>
         MaxDepth l < 4 \<or> MaxDepth l > 64 \<or> MaxKeys l < 32 \<or> MaxKeys l > 100000 \<or>
         MaxFetchBodyBytes l < 1024 \<or> MaxFetchBodyBytes l > 1048576 \<or>
         MaxModelRequests l < 1 \<or> MaxModelRequests l > MaxFetches l \<or> MaxFetches l > 1000 \<or>
         MaxStringBytes l > MaxFrameBytes l \<or>
         4 * ((MaxFetchBodyBytes l + 2) div 3) + fetchFrameReserve > MaxFrameBytes l \<or>
         AttemptTimeout l < second \<or> AttemptTimeout l > 660 * second
      then Inl ''capsule protocol limits are invalid'' else Inr ())"

definition complexityOf :: "Limits \<Rightarrow> complexityLimits" where
  "complexityOf l = \<lparr>maxDepth = MaxDepth l, maxStringBytes = MaxStringBytes l, maxKeys = MaxKeys l\<rparr>"

section \<open>Sampling options\<close>

definition samplingNames :: "string list" where
  "samplingNames = [''temperature'', ''top_p'', ''frequency_penalty'', ''presence_penalty'', ''seed'', ''stop'']"

definition samplingBounds :: "(string \<times> rat \<times> rat) list" where
  "samplingBounds = [(''temperature'', 0, 2), (''top_p'', 0, 1), (''frequency_penalty'', - 2, 2),
     (''presence_penalty'', - 2, 2)]"

definition stopOk :: "gval \<Rightarrow> bool" where
  "stopOk v = (case v of GString s \<Rightarrow> s \<noteq> [] \<and> length s \<le> 1024 | _ \<Rightarrow> False)"

definition optionLimits :: complexityLimits where
  "optionLimits = \<lparr>maxDepth = 32, maxStringBytes = 65536, maxKeys = 50000\<rparr>"

definition validateSamplingOptions :: "gval \<Rightarrow> (string \<times> gval) list option" where
  "validateSamplingOptions v =
     (case normalizeJSONObject v 65536 optionLimits of
        Some (GObject options) \<Rightarrow>
          if \<not> list_all (\<lambda>kv. fst kv \<in> set samplingNames) options then None
          else if \<not> list_all (\<lambda>(name, low, high).
              case map_of options name of
                None \<Rightarrow> True
              | Some item \<Rightarrow> (case jsonNumber item of None \<Rightarrow> False | Some x \<Rightarrow> low \<le> x \<and> x \<le> high)) samplingBounds
          then None
          else if (case map_of options ''seed'' of
              None \<Rightarrow> False
            | Some item \<Rightarrow> (case jsonInteger item of None \<Rightarrow> True | Some seed \<Rightarrow> seed < - (2 ^ 31) \<or> seed \<ge> 2 ^ 31))
          then None
          else (case map_of options ''stop'' of
              None \<Rightarrow> Some options
            | Some item \<Rightarrow>
                let item' = (case item of GString text \<Rightarrow> GArray [GString text] | _ \<Rightarrow> item);
                    options' = (case item of GString text \<Rightarrow> putMember ''stop'' item' options | _ \<Rightarrow> options) in
                case item' of
                  GArray stops \<Rightarrow>
                    if length stops < 1 \<or> length stops > 4 \<or> \<not> list_all stopOk stops then None else Some options'
                | _ \<Rightarrow> None)
      | _ \<Rightarrow> None)"

section \<open>Messages\<close>

type_synonym wireField = "gval \<Rightarrow> bool"

definition anyField :: wireField where "anyField v = True"

definition objectField :: wireField where
  "objectField v = (case v of GObject _ \<Rightarrow> True | _ \<Rightarrow> False)"

definition exactString :: "string \<Rightarrow> wireField" where
  "exactString want v = (case v of GString item \<Rightarrow> item = want | _ \<Rightarrow> False)"

definition exactInteger :: "int \<Rightarrow> wireField" where
  "exactInteger want v = (case jsonInteger v of Some item \<Rightarrow> item = want | None \<Rightarrow> False)"

definition integerRange :: "int \<Rightarrow> int \<Rightarrow> wireField" where
  "integerRange low high v = (case jsonInteger v of Some item \<Rightarrow> low \<le> item \<and> item \<le> high | None \<Rightarrow> False)"

definition stringField :: "int \<Rightarrow> int \<Rightarrow> wireField" where
  "stringField minimum maximum v =
     (case v of
        GString item \<Rightarrow> let length = int (RuneCountInString item) in
          length \<ge> minimum \<and> (maximum < 0 \<or> length \<le> maximum)
      | _ \<Rightarrow> False)"

definition enumString :: "string list \<Rightarrow> wireField" where
  "enumString values v = (case v of GString item \<Rightarrow> item \<in> set values | _ \<Rightarrow> False)"

text \<open>The pattern \<^verbatim>\<open>^[A-Za-z0-9._:-]{1,128}$\<close>.\<close>

definition operationChar :: "char \<Rightarrow> bool" where
  "operationChar c \<longleftrightarrow>
     65 \<le> code c \<and> code c \<le> 90 \<or> 97 \<le> code c \<and> code c \<le> 122 \<or> 48 \<le> code c \<and> code c \<le> 57 \<or> c \<in> set ''._:-''"

definition validOperationID :: "string \<Rightarrow> bool" where
  "validOperationID s \<longleftrightarrow> 1 \<le> length s \<and> length s \<le> 128 \<and> list_all operationChar s"

definition operationIDField :: wireField where
  "operationIDField v = (case v of GString item \<Rightarrow> validOperationID item | _ \<Rightarrow> False)"

text \<open>The entry of a map, the nil value when there is none.\<close>

definition entry :: "string \<Rightarrow> (string \<times> gval) list \<Rightarrow> gval" where
  "entry name kvs = (case map_of kvs name of Some v \<Rightarrow> v | None \<Rightarrow> GNull)"

definition toolField :: wireField where
  "toolField item =
     (case item of
        GObject tool \<Rightarrow>
          length tool = 3 \<and> stringField 1 128 (entry ''name'' tool) \<and> stringField 0 4096 (entry ''description'' tool) \<and>
          objectField (entry ''parameters'' tool) \<and>
          list_all (\<lambda>kv. fst kv \<in> set [''name'', ''description'', ''parameters'']) tool
      | _ \<Rightarrow> False)"

definition toolArrayField :: wireField where
  "toolArrayField v = (case v of GArray items \<Rightarrow> length items \<le> 64 \<and> list_all toolField items | _ \<Rightarrow> False)"

text \<open>An object with exactly the given fields, each of its kind.\<close>

definition closedFields :: "(string \<times> wireField) list \<Rightarrow> wireField" where
  "closedFields fs v =
     (case v of
        GObject kvs \<Rightarrow>
          length kvs = length fs \<and> list_all (\<lambda>(name, validator). validator (entry name kvs)) fs \<and>
          list_all (\<lambda>kv. fst kv \<in> set (map fst fs)) kvs
      | _ \<Rightarrow> False)"

definition samplingField :: wireField where
  "samplingField v = (case v of GObject _ \<Rightarrow> validateSamplingOptions v \<noteq> None | _ \<Rightarrow> False)"

definition providerField :: wireField where
  "providerField = closedFields
     [(''model_id'', stringField 1 512), (''body_options'', samplingField),
      (''reasoning_effort'', enumString [''none'', ''minimal'', ''low'', ''medium'', ''high'', ''max'']),
      (''context_window'', integerRange 1024 10000000), (''max_output_tokens'', integerRange 1 1000000),
      (''timeout_ms'', integerRange (Milliseconds MinModelTimeout) (Milliseconds MaxModelTimeout)), (''capsule_runtime_revision'', stringField 1 128)]"

definition limitsField :: wireField where
  "limitsField = closedFields
     [(''max_frame_bytes'', integerRange 1024 4194304), (''max_aggregate_bytes'', integerRange 4096 33554432),
      (''max_string_bytes'', integerRange 256 2097152), (''max_depth'', integerRange 4 64),
      (''max_keys'', integerRange 32 100000), (''max_fetch_body_bytes'', integerRange 1024 1048576),
      (''max_fetches'', integerRange 1 1000), (''max_model_requests'', integerRange 1 1000)]"

definition messageFields :: "(string \<times> (string \<times> wireField) list) list" where
  "messageFields =
     [(''start'', [(''type'', exactString ''start''), (''protocol_version'', exactInteger 1),
        (''attempt_id'', operationIDField), (''role'', enumString [''PLANNER'', ''PAGE_WRITER'']),
        (''system_prompt'', stringField 0 (- 1)), (''prompt'', stringField 0 (- 1)), (''tools'', toolArrayField),
        (''output_schema'', objectField), (''provider'', providerField), (''limits'', limitsField)]),
      (''tool_result'', [(''type'', exactString ''tool_result''), (''id'', operationIDField), (''result'', anyField),
        (''content'', stringField 0 (- 1))]),
      (''model_result'', [(''type'', exactString ''model_result''), (''id'', operationIDField),
        (''body_base64'', stringField 0 (- 1))]),
      (''cancel'', [(''type'', exactString ''cancel''), (''reason'', stringField 0 256)]),
      (''tool_call'', [(''type'', exactString ''tool_call''), (''id'', operationIDField),
        (''provider_call_id'', operationIDField), (''name'', stringField 1 128), (''arguments'', objectField)]),
      (''model_request'', [(''type'', exactString ''model_request''), (''id'', operationIDField),
        (''turn'', integerRange 1 1000)]),
      (''complete'', [(''type'', exactString ''complete''), (''output'', objectField)]),
      (''failed'', [(''type'', exactString ''failed''),
        (''code'', enumString [''cancelled'', ''protocol'', ''provider'', ''tool'', ''invalid_result'', ''internal'']),
        (''message'', stringField 1 400)])]"

definition schemaError :: string where
  "schemaError = ''capsule protocol schema rejected a message''"

text \<open>A required field is there and valid; a member is a required field and valid.\<close>

definition fieldPresent :: "(string \<times> gval) list \<Rightarrow> string \<times> wireField \<Rightarrow> bool" where
  "fieldPresent message f = (case map_of message (fst f) of None \<Rightarrow> False | Some v \<Rightarrow> snd f v)"

definition memberKnown :: "(string \<times> wireField) list \<Rightarrow> string \<times> gval \<Rightarrow> bool" where
  "memberKnown required m = (case map_of required (fst m) of None \<Rightarrow> False | Some validator \<Rightarrow> validator (snd m))"

definition validateWireMessage :: "(string \<times> gval) list \<Rightarrow> string + unit" where
  "validateWireMessage message =
     (case map_of message ''type'' of
        Some (GString typeName) \<Rightarrow>
          (case map_of messageFields typeName of
             None \<Rightarrow> Inl schemaError
           | Some required \<Rightarrow>
               if list_all (fieldPresent message) required \<and> list_all (memberKnown required) message
               then Inr () else Inl schemaError)
      | _ \<Rightarrow> Inl schemaError)"

section \<open>Frames\<close>

record conn =
  inbound :: string
  outbound :: string
  writes :: "nat option list"

record wire =
  wire_connection :: conn
  wire_limits :: Limits
  wire_aggregate :: int

definition newWire :: "conn \<Rightarrow> Limits \<Rightarrow> wire" where
  "newWire c l = \<lparr>wire_connection = c, wire_limits = l, wire_aggregate = 0\<rparr>"

text \<open>\<^verbatim>\<open>binary.BigEndian\<close> of a 32 bit length.\<close>

definition PutUint32 :: "32 word \<Rightarrow> string" where
  "PutUint32 w = map (\<lambda>i. char_of (unat w div 256 ^ i mod 256)) [3, 2, 1, 0]"

definition Uint32 :: "string \<Rightarrow> nat" where
  "Uint32 bs = foldl (\<lambda>n c. n * 256 + code c) 0 bs"

text \<open>\<^verbatim>\<open>io.ReadFull\<close>: exactly so many bytes, or an error when the peer closed before.\<close>

definition ReadFull :: "nat \<Rightarrow> conn \<Rightarrow> conn \<times> (string + string)" where
  "ReadFull n c =
     (if length (inbound c) < n then (c\<lparr>inbound := []\<rparr>, Inl ''unexpected EOF'')
      else (c\<lparr>inbound := drop n (inbound c)\<rparr>, Inr (take n (inbound c))))"

text \<open>
  \<^verbatim>\<open>writeFull\<close>: the entries say what each call of \<^verbatim>\<open>Write\<close> does, an error or at
  most so many bytes taken.
\<close>

primrec writeLoop :: "nat option list \<Rightarrow> string \<Rightarrow> string \<Rightarrow> (nat option list \<times> string) \<times> (string + unit)" where
  "writeLoop [] out v = (([], out), if v = [] then Inr () else Inl ''write failed'')"
| "writeLoop (w # ws) out v =
     (if v = [] then ((w # ws, out), Inr ())
      else case w of
        None \<Rightarrow> ((ws, out), Inl ''write failed'')
      | Some n \<Rightarrow> let written = min n (length v) in
          if written = 0 then ((ws, out), Inl ''short write'')
          else writeLoop ws (out @ take written v) (drop written v))"

definition writeFull :: "conn \<Rightarrow> string \<Rightarrow> conn \<times> (string + unit)" where
  "writeFull c v =
     (case writeLoop (writes c) (outbound c) v of
        ((ws, out), result) \<Rightarrow> (c\<lparr>writes := ws, outbound := out\<rparr>, result))"

definition aggregateError :: string where
  "aggregateError = ''capsule protocol aggregate exceeds limit''"

definition send :: "(string \<times> gval) list \<Rightarrow> wire \<Rightarrow> wire \<times> (string + unit)" where
  "send message t =
     (case validateWireMessage message of
        Inl e \<Rightarrow> (t, Inl e)
      | Inr _ \<Rightarrow>
          (case canonicalJSON (GObject message) of
             None \<Rightarrow> (t, Inl ''capsule outbound frame exceeds limit'')
           | Some encoded \<Rightarrow>
               if length encoded = 0 \<or> int (length encoded) > MaxFrameBytes (wire_limits t)
               then (t, Inl ''capsule outbound frame exceeds limit'')
               else if \<not> isOk (parseStrictJSON encoded (complexityOf (wire_limits t)))
               then (t, Inl ''capsule outbound message exceeds JSON limits'')
               else let t1 = t\<lparr>wire_aggregate := wire_aggregate t + int (length encoded) + 4\<rparr> in
                 if wire_aggregate t1 > MaxAggregateBytes (wire_limits t1) then (t1, Inl aggregateError)
                 else let (c, result) = writeFull (wire_connection t1) (PutUint32 (of_nat (length encoded)) @ encoded)
                      in (t1\<lparr>wire_connection := c\<rparr>, result)))"

definition receive :: "wire \<Rightarrow> wire \<times> (string + (string \<times> gval) list)" where
  "receive t =
     (case ReadFull 4 (wire_connection t) of
        (c, Inl e) \<Rightarrow> (t\<lparr>wire_connection := c\<rparr>, Inl e)
      | (c, Inr header) \<Rightarrow>
          let t1 = t\<lparr>wire_connection := c\<rparr>; size = Uint32 header in
          if size < 1 \<or> int size > MaxFrameBytes (wire_limits t1)
          then (t1, Inl ''capsule inbound frame exceeds limit'')
          else let t2 = t1\<lparr>wire_aggregate := wire_aggregate t1 + int size + 4\<rparr> in
            if wire_aggregate t2 > MaxAggregateBytes (wire_limits t2) then (t2, Inl aggregateError)
            else (case ReadFull size (wire_connection t2) of
              (c', Inl e) \<Rightarrow> (t2\<lparr>wire_connection := c'\<rparr>, Inl e)
            | (c', Inr encoded) \<Rightarrow>
                let t3 = t2\<lparr>wire_connection := c'\<rparr> in
                case parseStrictJSON encoded (complexityOf (wire_limits t3)) of
                  Inl _ \<Rightarrow> (t3, Inl ''capsule protocol JSON is invalid'')
                | Inr (v, _) \<Rightarrow>
                    (case v of
                       GObject message \<Rightarrow>
                         (case validateWireMessage message of Inl e \<Rightarrow> (t3, Inl e) | Inr _ \<Rightarrow> (t3, Inr message))
                     | _ \<Rightarrow> (t3, Inl ''capsule protocol message must be an object''))))"

end
