(* ===== verification/CredentialVault.thy ===== *)
theory CredentialVault
  imports ByteFrames CapsuleWire
begin

text \<open>
  Encryption of credentials at rest (\<^verbatim>\<open>internal/security/secret.go\<close> and
  \<^verbatim>\<open>vault.go\<close>): secret values, the ring of an active key and previous ones, envelopes
  bound to their credential by the associated data, and keyed digests of requests. The
  authenticated cipher and the keyed hash are arguments.
\<close>

section \<open>Secrets\<close>

definition credentialKinds :: "string list" where
  "credentialKinds = [''REPOSITORY_HTTPS'', ''WEBSITE_HEADER'', ''PROVIDER_API_KEY'', ''DISCORD_BOT_TOKEN'', ''TINYFISH_API_KEY'']"

definition kindValid :: "string \<Rightarrow> bool" where
  "kindValid kind \<longleftrightarrow> kind \<in> set credentialKinds"

datatype SecretValue = SecretValue (Reveal: string)

datatype vaultError =
    ErrInvalidCredentialKind
  | ErrInvalidSecret
  | ErrSecretTooShort string
  | ErrCredentialKeyUnavailable
  | ErrCredentialDecryption
  | ErrCredentialEnvelope
  | ErrVault string
  | VaultPanic

definition NewSecretValue :: "string \<Rightarrow> vaultError + SecretValue" where
  "NewSecretValue v = (if v = [] \<or> \<not> utf8Valid v then Inl ErrInvalidSecret else Inr (SecretValue v))"

definition ValidateCredentialSecret :: "string \<Rightarrow> SecretValue option \<Rightarrow> vaultError + unit" where
  "ValidateCredentialSecret kind secret =
     (if \<not> kindValid kind then Inl ErrInvalidCredentialKind
      else case secret of
        None \<Rightarrow> Inl ErrInvalidSecret
      | Some v \<Rightarrow>
          if kind = ''PROVIDER_API_KEY'' \<and> RuneCountInString (Reveal v) < 8
          then Inl (ErrSecretTooShort ''provider API keys must contain at least 8 characters'')
          else if kind = ''TINYFISH_API_KEY'' \<and> RuneCountInString (Reveal v) < 8
          then Inl (ErrSecretTooShort ''TinyFish API keys must contain at least 8 characters'')
          else Inr ())"

section \<open>Keys\<close>

text \<open>\<^verbatim>\<open>base64.URLEncoding\<close>, which wants its padding; the text holds no line breaks.\<close>

definition base64urlDigit :: "char \<Rightarrow> nat option" where
  "base64urlDigit c =
     (let n = code c in
      if 65 \<le> n \<and> n \<le> 90 then Some (n - 65)
      else if 97 \<le> n \<and> n \<le> 122 then Some (n - 71)
      else if 48 \<le> n \<and> n \<le> 57 then Some (n + 4)
      else if c = CHR ''-'' then Some 62
      else if c = CHR ''_'' then Some 63
      else None)"

fun base64urlDecode :: "string \<Rightarrow> string option" where
  "base64urlDecode [] = Some []"
| "base64urlDecode (a # b # c # d # rest) =
     (case (base64urlDigit a, base64urlDigit b) of
        (Some w, Some x) \<Rightarrow>
          if c = CHR ''='' then
            if d = CHR ''='' \<and> rest = [] then Some [char_of (w * 4 + x div 16)] else None
          else (case base64urlDigit c of
              None \<Rightarrow> None
            | Some y \<Rightarrow>
                if d = CHR ''='' then
                  if rest = [] then Some [char_of (w * 4 + x div 16), char_of (x mod 16 * 16 + y div 4)] else None
                else (case (base64urlDigit d, base64urlDecode rest) of
                    (Some z, Some bs) \<Rightarrow>
                      Some (char_of (w * 4 + x div 16) # char_of (x mod 16 * 16 + y div 4) # char_of (y mod 4 * 64 + z) # bs)
                  | _ \<Rightarrow> None))
      | _ \<Rightarrow> None)"
| "base64urlDecode _ = None"

definition keyIDChar :: "char \<Rightarrow> bool" where
  "keyIDChar c \<longleftrightarrow> 65 \<le> code c \<and> code c \<le> 90 \<or> 97 \<le> code c \<and> code c \<le> 122 \<or> 48 \<le> code c \<and> code c \<le> 57 \<or>
     c = CHR ''.'' \<or> c = CHR ''_'' \<or> c = CHR ''-''"

text \<open>\<^verbatim>\<open>credentialKeyPattern\<close>: digits of the encoding and at most two signs of padding.\<close>

definition keyPattern :: "string \<Rightarrow> bool" where
  "keyPattern s \<longleftrightarrow> (let ds = takeWhile (\<lambda>c. base64urlDigit c \<noteq> None) s; padding = drop (length ds) s in
     ds \<noteq> [] \<and> length padding \<le> 2 \<and> list_all (\<lambda>c. c = CHR ''='') padding)"

definition decodeCredentialKey :: "string \<Rightarrow> vaultError + string \<times> string" where
  "decodeCredentialKey item =
     (let keyID = takeWhile (\<lambda>c. c \<noteq> CHR '':'') item; encoded = drop (Suc (length keyID)) item in
      if CHR '':'' \<notin> set item then Inl (ErrVault ''credential key must use key_id:base64url'')
      else if length keyID > 128 \<or> keyID = [] \<or> \<not> list_all keyIDChar keyID then Inl (ErrVault ''credential key ID is invalid'')
      else if \<not> keyPattern encoded then Inl (ErrVault ''credential key encoding is invalid'')
      else case base64urlDecode (encoded @ replicate ((4 - length encoded mod 4) mod 4) CHR ''='') of
        None \<Rightarrow> Inl (ErrVault ''credential key encoding is invalid'')
      | Some decoded \<Rightarrow>
          if length decoded \<noteq> 32 then Inl (ErrVault ''credential key must contain 32 bytes'') else Inr (keyID, decoded))"

record credentialKey =
  key_id :: string
  key_bytes :: string

record CredentialVault =
  vault_activeID :: string
  vault_keys :: "credentialKey list"
  vault_byID :: "string \<rightharpoonup> string"

fun addPrevious :: "CredentialVault \<Rightarrow> string list \<Rightarrow> vaultError + CredentialVault" where
  "addPrevious vault [] = Inr vault"
| "addPrevious vault (raw # rest) =
     (let item = TrimSpace raw in
      if item = [] then Inl (ErrVault ''previous credential key is empty'')
      else bindE (decodeCredentialKey item) (\<lambda>(keyID, key).
        if vault_byID vault keyID \<noteq> None then Inl (ErrVault ''credential key IDs must be unique'')
        else if list_ex (\<lambda>existing. key_bytes existing = key) (vault_keys vault)
        then Inl (ErrVault ''credential keys must be unique'')
        else addPrevious (vault\<lparr>vault_keys := vault_keys vault @ [\<lparr>key_id = keyID, key_bytes = key\<rparr>],
            vault_byID := (vault_byID vault)(keyID \<mapsto> key)\<rparr>) rest))"

definition NewCredentialVault :: "string \<Rightarrow> string \<Rightarrow> vaultError + CredentialVault" where
  "NewCredentialVault active previous =
     bindE (decodeCredentialKey (TrimSpace active)) (\<lambda>(activeID, activeKey).
       let vault = \<lparr>vault_activeID = activeID, vault_keys = [\<lparr>key_id = activeID, key_bytes = activeKey\<rparr>],
                    vault_byID = [activeID \<mapsto> activeKey]\<rparr> in
       if previous = [] then Inr vault else addPrevious vault (splitOn CHR '','' previous))"

section \<open>Associated data\<close>

definition bytesOf :: "byte list \<Rightarrow> string" where
  "bytesOf bs = map (\<lambda>b. char_of (unat b)) bs"

fun partsFit :: "int \<Rightarrow> string list \<Rightarrow> bool" where
  "partsFit size' [] = True"
| "partsFit size' (part # parts) =
     (int (length part) \<le> 4294967295 \<and> size' \<le> 9223372036854775807 - 4 - int (length part) \<and>
      partsFit (size' + 4 + int (length part)) parts)"

definition framed :: "string \<Rightarrow> string" where
  "framed part = PutUint32 (of_nat (length part)) @ part"

definition encodeCredentialParts :: "string list \<Rightarrow> vaultError + string" where
  "encodeCredentialParts parts =
     (if partsFit 0 parts then Inr (concat (map framed parts)) else Inl (ErrVault ''credential value is too large''))"

definition credentialAADDomain :: string where
  "credentialAADDomain = ''ref0.credential.aesgcm.v1''"

definition credentialDigestDomain :: string where
  "credentialDigestDomain = ''ref0.credential.idempotency.v1''"

text \<open>A name too long to be framed is a panic; an integer is written as its 64 bit pattern.\<close>

definition credentialAAD :: "UUID \<Rightarrow> string \<Rightarrow> int \<Rightarrow> string \<Rightarrow> vaultError + string" where
  "credentialAAD credentialID kind secretVersion keyID =
     (case encodeCredentialParts [credentialAADDomain, bytesOf credentialID, kind,
         frame64 (nat (secretVersion mod 2 ^ 64)), keyID] of
        Inl _ \<Rightarrow> Inl VaultPanic
      | Inr aad \<Rightarrow> Inr aad)"

section \<open>Envelopes\<close>

text \<open>An authenticated cipher under a key and a nonce, with what its documentation promises:
  \<^verbatim>\<open>Open\<close> returns exactly what \<^verbatim>\<open>Seal\<close> was given.\<close>

record cipher =
  Seal :: "string \<Rightarrow> string \<Rightarrow> string \<Rightarrow> string \<Rightarrow> string"
  Open :: "string \<Rightarrow> string \<Rightarrow> string \<Rightarrow> string \<Rightarrow> string option"

definition lawfulCipher :: "cipher \<Rightarrow> bool" where
  "lawfulCipher c \<longleftrightarrow> (\<forall>key nonce t aad p. Open c key nonce t aad = Some p \<longleftrightarrow> t = Seal c key nonce p aad)"

record CredentialEnvelope =
  envelope_credentialID :: UUID
  envelope_kind :: string
  envelope_secretVersion :: int
  envelope_keyID :: string
  envelope_nonce :: string
  envelope_ciphertext :: string

definition NewCredentialEnvelope ::
  "UUID \<Rightarrow> string \<Rightarrow> int \<Rightarrow> string \<Rightarrow> string \<Rightarrow> string \<Rightarrow> vaultError + CredentialEnvelope" where
  "NewCredentialEnvelope credentialID kind secretVersion keyID nonce ciphertext =
     (if \<not> kindValid kind \<or> secretVersion \<le> 0 \<or> length nonce \<noteq> 12 then Inl ErrCredentialEnvelope
      else Inr \<lparr>envelope_credentialID = credentialID, envelope_kind = kind, envelope_secretVersion = secretVersion,
                envelope_keyID = keyID, envelope_nonce = nonce, envelope_ciphertext = ciphertext\<rparr>)"

text \<open>A missing item of a Go map reads as the zero key.\<close>

definition keyOf :: "CredentialVault \<Rightarrow> string \<Rightarrow> string" where
  "keyOf vault keyID = (case vault_byID vault keyID of None \<Rightarrow> replicate 32 (char_of (0 :: nat)) | Some key \<Rightarrow> key)"

definition encryptWithNonce ::
  "cipher \<Rightarrow> CredentialVault \<Rightarrow> UUID \<Rightarrow> string \<Rightarrow> int \<Rightarrow> SecretValue option \<Rightarrow> string \<Rightarrow> vaultError + CredentialEnvelope" where
  "encryptWithNonce c vault credentialID kind secretVersion secret nonce =
     (case secret of
        None \<Rightarrow> Inl ErrCredentialEnvelope
      | Some v \<Rightarrow>
          if \<not> kindValid kind \<or> secretVersion \<le> 0 then Inl ErrCredentialEnvelope
          else bindE (credentialAAD credentialID kind secretVersion (vault_activeID vault)) (\<lambda>aad.
            NewCredentialEnvelope credentialID kind secretVersion (vault_activeID vault) nonce
              (Seal c (keyOf vault (vault_activeID vault)) nonce (Reveal v) aad)))"

text \<open>\<^verbatim>\<open>Encrypt\<close> with the bytes the random source returned, if it did.\<close>

definition Encrypt ::
  "cipher \<Rightarrow> CredentialVault \<Rightarrow> UUID \<Rightarrow> string \<Rightarrow> int \<Rightarrow> SecretValue option \<Rightarrow> string option \<Rightarrow> vaultError + CredentialEnvelope" where
  "Encrypt c vault credentialID kind secretVersion secret random =
     (case random of
        None \<Rightarrow> Inl (ErrVault ''generate credential nonce'')
      | Some nonce \<Rightarrow> encryptWithNonce c vault credentialID kind secretVersion secret nonce)"

definition Decrypt :: "cipher \<Rightarrow> CredentialVault \<Rightarrow> CredentialEnvelope \<Rightarrow> vaultError + SecretValue" where
  "Decrypt c vault envelope =
     (case vault_byID vault (envelope_keyID envelope) of
        None \<Rightarrow> Inl ErrCredentialKeyUnavailable
      | Some key \<Rightarrow>
          if \<not> kindValid (envelope_kind envelope) \<or> envelope_secretVersion envelope \<le> 0 then Inl ErrCredentialDecryption
          else bindE (credentialAAD (envelope_credentialID envelope) (envelope_kind envelope)
              (envelope_secretVersion envelope) (envelope_keyID envelope)) (\<lambda>aad.
            case Open c key (envelope_nonce envelope) (envelope_ciphertext envelope) aad of
              None \<Rightarrow> Inl ErrCredentialDecryption
            | Some plaintext \<Rightarrow> if \<not> utf8Valid plaintext then Inl ErrCredentialDecryption else NewSecretValue plaintext))"

section \<open>Keyed digests\<close>

definition KeyedDigests :: "(string \<Rightarrow> string \<Rightarrow> byte list) \<Rightarrow> CredentialVault \<Rightarrow> string list \<Rightarrow> vaultError + byte list list" where
  "KeyedDigests hmac vault parts =
     bindE (encodeCredentialParts (credentialDigestDomain # parts)) (\<lambda>message.
       Inr (map (\<lambda>item. hmac (key_bytes item) message) (vault_keys vault)))"

end
