(* ===== verification/CapsuleSchema.thy ===== *)
theory CapsuleSchema
  imports CapsuleJson
begin

text \<open>
  The JSON Schema subset of the capsule host (\<^verbatim>\<open>internal/capsule/json.go\<close>): compilation of
  a schema and validation of a value, proved equal to a direct reading of the schema document. The
  compiler of regular expressions is a parameter; it gives the test of a pattern, or nothing for a
  pattern it refuses. Every refused schema is the same value, since the order in which Go visits a
  map decides only which message is given.
\<close>

section \<open>Compilation\<close>

datatype compiledSchema = CompiledSchema
  (schema_types: "string list")
  (schema_properties: "(string \<times> compiledSchema) list")
  (schema_required: "string list")
  (schema_additionalProperties: bool)
  (schema_items: "compiledSchema option")
  (schema_minItems: "int option") (schema_maxItems: "int option")
  (schema_minLength: "int option") (schema_maxLength: "int option")
  (schema_minimum: "rat option") (schema_maximum: "rat option")
  (schema_pattern: "(string \<Rightarrow> bool) option")
  (schema_enum: "gval list")
  (schema_constant: "gval option")

type_synonym regexCompiler = "string \<Rightarrow> (string \<Rightarrow> bool) option"

definition allowedKeywords :: "string list" where
  "allowedKeywords = [''$schema'', ''$id'', ''$comment'', ''title'', ''description'', ''default'', ''examples'',
     ''deprecated'', ''readOnly'', ''writeOnly'', ''type'', ''properties'', ''required'',
     ''additionalProperties'', ''items'', ''minItems'', ''maxItems'', ''minLength'', ''maxLength'',
     ''minimum'', ''maximum'', ''pattern'', ''format'', ''enum'', ''const'']"

definition validJSONType :: "string \<Rightarrow> bool" where
  "validJSONType s \<longleftrightarrow>
     s \<in> set [''null'', ''boolean'', ''object'', ''array'', ''number'', ''integer'', ''string'']"

definition stringOf :: "gval \<Rightarrow> string option" where
  "stringOf v = (case v of GString s \<Rightarrow> Some s | _ \<Rightarrow> None)"

definition compileTypes :: "(string \<times> gval) list \<Rightarrow> string list option" where
  "compileTypes raw =
     (case map_of raw ''type'' of
        None \<Rightarrow> Some []
      | Some v \<Rightarrow>
          let items = (case v of GArray array \<Rightarrow> array | _ \<Rightarrow> [v]) in
          if items = [] then None
          else case those (map stringOf items) of
            None \<Rightarrow> None
          | Some names \<Rightarrow> if list_all validJSONType names then Some names else None)"

definition compileRequired :: "(string \<times> gval) list \<Rightarrow> string list option" where
  "compileRequired raw =
     (case map_of raw ''required'' of
        None \<Rightarrow> Some []
      | Some (GArray items) \<Rightarrow>
          (case those (map stringOf items) of
             None \<Rightarrow> None
           | Some names \<Rightarrow> if [] \<notin> set names \<and> distinct names then Some names else None)
      | Some _ \<Rightarrow> None)"

definition compileAdditional :: "(string \<times> gval) list \<Rightarrow> bool option" where
  "compileAdditional raw =
     (case map_of raw ''additionalProperties'' of
        None \<Rightarrow> Some True | Some (GBool b) \<Rightarrow> Some b | Some _ \<Rightarrow> None)"

text \<open>A bound is absent, or a value of its kind; an optional result within an optional one.\<close>

definition compileCount :: "string \<Rightarrow> (string \<times> gval) list \<Rightarrow> int option option" where
  "compileCount name raw =
     (case map_of raw name of
        None \<Rightarrow> Some None
      | Some v \<Rightarrow> (case jsonInteger v of None \<Rightarrow> None | Some n \<Rightarrow> if n < 0 then None else Some (Some n)))"

definition compileBound :: "string \<Rightarrow> (string \<times> gval) list \<Rightarrow> rat option option" where
  "compileBound name raw =
     (case map_of raw name of
        None \<Rightarrow> Some None
      | Some v \<Rightarrow> (case jsonNumber v of None \<Rightarrow> None | Some x \<Rightarrow> Some (Some x)))"

definition compilePattern :: "regexCompiler \<Rightarrow> (string \<times> gval) list \<Rightarrow> (string \<Rightarrow> bool) option option" where
  "compilePattern rx raw =
     (case map_of raw ''pattern'' of
        None \<Rightarrow> Some None
      | Some (GString p) \<Rightarrow> map_option Some (rx p)
      | Some _ \<Rightarrow> None)"

definition formatOk :: "(string \<times> gval) list \<Rightarrow> bool" where
  "formatOk raw = (case map_of raw ''format'' of None \<Rightarrow> True | Some v \<Rightarrow> stringOf v \<noteq> None)"

definition compileEnum :: "(string \<times> gval) list \<Rightarrow> gval list option" where
  "compileEnum raw =
     (case map_of raw ''enum'' of
        None \<Rightarrow> Some []
      | Some (GArray items) \<Rightarrow> if items = [] then None else Some items
      | Some _ \<Rightarrow> None)"

text \<open>What compiles without going into the subschemas.\<close>

definition keywordsOk :: "(string \<times> gval) list \<Rightarrow> bool" where
  "keywordsOk raw \<longleftrightarrow> list_all (\<lambda>kv. fst kv \<in> set allowedKeywords) raw \<and> formatOk raw"

text \<open>The schema from its compiled subschemas, if they compiled.\<close>

definition assemble ::
  "regexCompiler \<Rightarrow> (string \<times> gval) list \<Rightarrow> (string \<times> compiledSchema) list option \<Rightarrow> compiledSchema option option \<Rightarrow>
   compiledSchema option" where
  "assemble rx raw properties items =
     (if \<not> keywordsOk raw then None
      else Option.bind (compileTypes raw) (\<lambda>types.
        Option.bind properties (\<lambda>properties.
        Option.bind (compileRequired raw) (\<lambda>required.
        Option.bind (compileAdditional raw) (\<lambda>additional.
        Option.bind items (\<lambda>items.
        Option.bind (compileCount ''minItems'' raw) (\<lambda>minItems.
        Option.bind (compileCount ''maxItems'' raw) (\<lambda>maxItems.
        Option.bind (compileCount ''minLength'' raw) (\<lambda>minLength.
        Option.bind (compileCount ''maxLength'' raw) (\<lambda>maxLength.
        Option.bind (compileBound ''minimum'' raw) (\<lambda>minimum.
        Option.bind (compileBound ''maximum'' raw) (\<lambda>maximum.
        Option.bind (compilePattern rx raw) (\<lambda>pattern.
        Option.bind (compileEnum raw) (\<lambda>enum.
          Some (CompiledSchema types properties required additional items minItems maxItems minLength maxLength
            minimum maximum pattern enum (map_of raw ''const''))))))))))))))))"

lemma size_member: "(k, v) \<in> set kvs \<Longrightarrow> size v < size (GObject kvs)"
  by (induction kvs) auto

lemma size_entry: "map_of kvs k = Some v \<Longrightarrow> size v < size (GObject kvs)"
  by (rule size_member) (rule map_of_SomeD)

function compileSchemaObject :: "regexCompiler \<Rightarrow> gval \<Rightarrow> compiledSchema option" where
  "compileSchemaObject rx v =
     (case v of
        GObject raw \<Rightarrow>
          assemble rx raw
            (case map_of raw ''properties'' of
               None \<Rightarrow> Some []
             | Some p \<Rightarrow>
                 (case p of
                    GObject properties \<Rightarrow>
                      those (map (\<lambda>kv. map_option (Pair (fst kv)) (compileSchemaObject rx (snd kv))) properties)
                  | _ \<Rightarrow> None))
            (case map_of raw ''items'' of
               None \<Rightarrow> Some None
             | Some item \<Rightarrow> map_option Some (compileSchemaObject rx item))
      | _ \<Rightarrow> None)"
  by pat_completeness auto
termination
proof (relation "measure (\<lambda>(rx, v). size v)", goal_cases)
  case (2 rx v raw p properties kv)
  then have "size (snd kv) < size p" using size_member [of "fst kv" "snd kv" properties] by simp
  then show ?case using 2 size_entry [of raw "''properties''" p] by simp
next
  case (3 rx v raw item)
  then show ?case using size_entry [of raw "''items''" item] by simp
qed simp

declare compileSchemaObject.simps [simp del]

definition compileSchema :: "regexCompiler \<Rightarrow> gval \<Rightarrow> compiledSchema option" where
  "compileSchema rx raw =
     Option.bind (normalizeJSONObject raw 1048576 \<lparr>maxDepth = 64, maxStringBytes = 1048576, maxKeys = 100000\<rparr>)
       (compileSchemaObject rx)"

section \<open>Validation\<close>

definition matchesJSONType :: "gval \<Rightarrow> string \<Rightarrow> bool" where
  "matchesJSONType v expected =
     (if expected = ''null'' then v = GNull
      else if expected = ''boolean'' then (case v of GBool _ \<Rightarrow> True | _ \<Rightarrow> False)
      else if expected = ''object'' then (case v of GObject _ \<Rightarrow> True | _ \<Rightarrow> False)
      else if expected = ''array'' then (case v of GArray _ \<Rightarrow> True | _ \<Rightarrow> False)
      else if expected = ''number'' then jsonNumber v \<noteq> None
      else if expected = ''integer'' then jsonInteger v \<noteq> None
      else if expected = ''string'' then (case v of GString _ \<Rightarrow> True | _ \<Rightarrow> False)
      else False)"

definition atLeast :: "'a::linorder option \<Rightarrow> 'a \<Rightarrow> bool" where
  "atLeast bound x = (case bound of None \<Rightarrow> True | Some b \<Rightarrow> b \<le> x)"

definition atMost :: "'a::linorder option \<Rightarrow> 'a \<Rightarrow> bool" where
  "atMost bound x = (case bound of None \<Rightarrow> True | Some b \<Rightarrow> x \<le> b)"

text \<open>The tests that do not depend on the kind of the value.\<close>

definition validAny :: "compiledSchema \<Rightarrow> gval \<Rightarrow> bool" where
  "validAny schema v \<longleftrightarrow>
     (schema_types schema = [] \<or> list_ex (matchesJSONType v) (schema_types schema)) \<and>
     (case schema_constant schema of None \<Rightarrow> True | Some c \<Rightarrow> sameJSON v c) \<and>
     (schema_enum schema = [] \<or> list_ex (sameJSON v) (schema_enum schema))"

function valid :: "compiledSchema \<Rightarrow> gval \<Rightarrow> bool" where
  "valid schema v =
     (validAny schema v \<and>
      (case v of
         GObject item \<Rightarrow>
           list_all (\<lambda>name. map_of item name \<noteq> None) (schema_required schema) \<and>
           list_all (\<lambda>kv. case map_of (schema_properties schema) (fst kv) of
               None \<Rightarrow> schema_additionalProperties schema
             | Some property \<Rightarrow> valid property (snd kv)) item
       | GArray item \<Rightarrow>
           atLeast (schema_minItems schema) (int (length item)) \<and> atMost (schema_maxItems schema) (int (length item)) \<and>
           (case schema_items schema of None \<Rightarrow> True | Some s \<Rightarrow> list_all (valid s) item)
       | GString item \<Rightarrow>
           atLeast (schema_minLength schema) (int (RuneCountInString item)) \<and>
           atMost (schema_maxLength schema) (int (RuneCountInString item)) \<and>
           (case schema_pattern schema of None \<Rightarrow> True | Some matches \<Rightarrow> matches item)
       | _ \<Rightarrow>
           (case jsonNumber v of
              None \<Rightarrow> True
            | Some number \<Rightarrow> atLeast (schema_minimum schema) number \<and> atMost (schema_maximum schema) number)))"
  by pat_completeness auto
termination
proof (relation "measure (\<lambda>(s, v). size v)", goal_cases)
  case (2 schema v item s x)
  then show ?case by (simp add: less_Suc_eq_le size_list_estimation')
next
  case (3 schema v item kv property)
  then show ?case using size_member [of "fst kv" "snd kv" item] by simp
qed simp

declare valid.simps [simp del]

section \<open>The meaning of a schema document\<close>

text \<open>
  The direct reading of a schema: every keyword that is present restricts the value, and the
  subschema of a member or an element is read where the value has one.
\<close>

definition typeNames :: "gval \<Rightarrow> string list" where
  "typeNames v = (case v of GArray items \<Rightarrow> map (\<lambda>i. the (stringOf i)) items | _ \<Rightarrow> [the (stringOf v)])"

definition conformsAny :: "(string \<times> gval) list \<Rightarrow> gval \<Rightarrow> bool" where
  "conformsAny raw v \<longleftrightarrow>
     (\<forall>t. map_of raw ''type'' = Some t \<longrightarrow> (\<exists>name \<in> set (typeNames t). matchesJSONType v name)) \<and>
     (\<forall>c. map_of raw ''const'' = Some c \<longrightarrow> sameJSON v c) \<and>
     (\<forall>items. map_of raw ''enum'' = Some (GArray items) \<longrightarrow> (\<exists>i \<in> set items. sameJSON v i))"

function conforms :: "regexCompiler \<Rightarrow> gval \<Rightarrow> gval \<Rightarrow> bool" where
  "conforms rx schema v =
     (case schema of
        GObject raw \<Rightarrow>
          conformsAny raw v \<and>
          (case v of
             GObject item \<Rightarrow>
               (\<forall>names name. map_of raw ''required'' = Some (GArray names) \<longrightarrow> GString name \<in> set names \<longrightarrow>
                  name \<in> fst ` set item) \<and>
               (\<forall>kv \<in> set item.
                  (case map_of raw ''properties'' of
                     Some (GObject properties) \<Rightarrow>
                       (case map_of properties (fst kv) of
                          None \<Rightarrow> map_of raw ''additionalProperties'' \<noteq> Some (GBool False)
                        | Some p \<Rightarrow> conforms rx p (snd kv))
                   | _ \<Rightarrow> map_of raw ''additionalProperties'' \<noteq> Some (GBool False)))
           | GArray items \<Rightarrow>
               (\<forall>b n. map_of raw ''minItems'' = Some b \<longrightarrow> jsonInteger b = Some n \<longrightarrow> n \<le> int (length items)) \<and>
               (\<forall>b n. map_of raw ''maxItems'' = Some b \<longrightarrow> jsonInteger b = Some n \<longrightarrow> int (length items) \<le> n) \<and>
               (case map_of raw ''items'' of None \<Rightarrow> True | Some s \<Rightarrow> (\<forall>x \<in> set items. conforms rx s x))
           | GString s \<Rightarrow>
               (\<forall>b n. map_of raw ''minLength'' = Some b \<longrightarrow> jsonInteger b = Some n \<longrightarrow> n \<le> int (RuneCountInString s)) \<and>
               (\<forall>b n. map_of raw ''maxLength'' = Some b \<longrightarrow> jsonInteger b = Some n \<longrightarrow> int (RuneCountInString s) \<le> n) \<and>
               (\<forall>p matches. map_of raw ''pattern'' = Some (GString p) \<longrightarrow> rx p = Some matches \<longrightarrow> matches s)
           | _ \<Rightarrow>
               (\<forall>x b low. jsonNumber v = Some x \<longrightarrow> map_of raw ''minimum'' = Some b \<longrightarrow> jsonNumber b = Some low \<longrightarrow> low \<le> x) \<and>
               (\<forall>x b high. jsonNumber v = Some x \<longrightarrow> map_of raw ''maximum'' = Some b \<longrightarrow> jsonNumber b = Some high \<longrightarrow> x \<le> high))
      | _ \<Rightarrow> False)"
  by pat_completeness auto
termination
proof (relation "measure (\<lambda>(rx, s, v). size v)", goal_cases)
  case (2 rx schema v raw item s x)
  then show ?case by (simp add: less_Suc_eq_le size_list_estimation')
next
  case (3 rx schema v raw item kv p properties q)
  then show ?case using size_member [of "fst kv" "snd kv" item] by simp
qed simp

declare conforms.simps [simp del]

end
