(* ===== verification/CapsuleSse.thy ===== *)
theory CapsuleSse
  imports CapsuleSchema CapsuleWire
begin

text \<open>
  The provider's streamed answer (\<^verbatim>\<open>internal/capsule/sse.go\<close>): the events of the body,
  the checks on every chunk, and the one normalized answer the capsule gets to see. The loop over
  the events is a fold over the variables it keeps; each step of it is the part of the loop body
  named in its comment.
\<close>

section \<open>Types\<close>

record ResponseLimits =
  rl_MaxBytes :: int
  rl_MaxEvents :: int
  rl_MaxLineBytes :: int
  rl_MaxDepth :: int
  rl_MaxStringBytes :: int
  rl_MaxKeys :: int

record Usage =
  ModelCalls :: int
  InputTokens :: int
  OutputTokens :: int
  TotalTokens :: int
  TruncatedToolResults :: int

definition noUsage :: Usage where
  "noUsage = \<lparr>ModelCalls = 0, InputTokens = 0, OutputTokens = 0, TotalTokens = 0, TruncatedToolResults = 0\<rparr>"

definition usageAdd :: "Usage \<Rightarrow> Usage \<Rightarrow> Usage" where
  "usageAdd a b = \<lparr>ModelCalls = ModelCalls a + ModelCalls b, InputTokens = InputTokens a + InputTokens b,
     OutputTokens = OutputTokens a + OutputTokens b, TotalTokens = TotalTokens a + TotalTokens b,
     TruncatedToolResults = TruncatedToolResults a + TruncatedToolResults b\<rparr>"

record PendingToolCall =
  CallID :: string
  call_Name :: string
  call_Arguments :: gval

record AcceptedResponse =
  NormalizedSSE :: string
  AssistantMessage :: "(string \<times> gval) list"
  acc_Pending :: "PendingToolCall option"
  acc_Usage :: Usage

type_synonym validators = "string \<Rightarrow> compiledSchema option"

definition responseComplexity :: "ResponseLimits \<Rightarrow> complexityLimits" where
  "responseComplexity l = \<lparr>maxDepth = rl_MaxDepth l, maxStringBytes = rl_MaxStringBytes l, maxKeys = rl_MaxKeys l\<rparr>"

section \<open>Helpers\<close>

text \<open>A Go integer in a dynamically typed map is the number literal it is encoded as.\<close>

definition goInt :: "int \<Rightarrow> gval" where
  "goInt i = GNumber (decimal i)"

definition closedObject :: "gval \<Rightarrow> string list \<Rightarrow> (string \<times> gval) list option" where
  "closedObject v allowed =
     (case v of GObject object \<Rightarrow> if list_all (\<lambda>kv. fst kv \<in> set allowed) object then Some object else None | _ \<Rightarrow> None)"

definition parseUsage :: "gval \<Rightarrow> Usage option" where
  "parseUsage v =
     Option.bind (closedObject v [''prompt_tokens'', ''completion_tokens'', ''completion_tokens_details'', ''total_tokens'']) (\<lambda>object.
       if (case map_of object ''completion_tokens_details'' of
             None \<Rightarrow> True
           | Some raw \<Rightarrow>
               (case closedObject raw [''accepted_prediction_tokens'', ''audio_tokens'', ''reasoning_tokens'', ''rejected_prediction_tokens''] of
                  None \<Rightarrow> False
                | Some details \<Rightarrow> list_all (\<lambda>kv. snd kv = GNull \<or> numberInt (snd kv) \<noteq> None) details))
       then Option.bind (numberInt (entry ''prompt_tokens'' object)) (\<lambda>input.
         Option.bind (numberInt (entry ''completion_tokens'' object)) (\<lambda>output.
         Option.bind (numberInt (entry ''total_tokens'' object)) (\<lambda>total.
           if total \<noteq> input + output then None
           else Some \<lparr>ModelCalls = 1, InputTokens = input, OutputTokens = output, TotalTokens = total,
             TruncatedToolResults = 0\<rparr>)))
       else None)"

definition carriageReturn :: char where "carriageReturn = char_of (13 :: nat)"

text \<open>\<^verbatim>\<open>strings.ReplaceAll\<close> of both line ends, and \<^verbatim>\<open>strings.Split\<close> at blank lines.\<close>

fun dropCR :: "string \<Rightarrow> string" where
  "dropCR [] = []"
| "dropCR [c] = [c]"
| "dropCR (c # d # s) = (if c = carriageReturn \<and> d = newline then newline # dropCR s else c # dropCR (d # s))"

definition normalizeLines :: "string \<Rightarrow> string" where
  "normalizeLines s = map (\<lambda>c. if c = carriageReturn then newline else c) (dropCR s)"

fun splitBlank :: "string \<Rightarrow> string \<Rightarrow> string list" where
  "splitBlank acc [] = [rev acc]"
| "splitBlank acc [c] = [rev (c # acc)]"
| "splitBlank acc (c # d # s) =
     (if c = newline \<and> d = newline then rev acc # splitBlank [] s else splitBlank (c # acc) (d # s))"

section \<open>The events\<close>

record sseState =
  sse_content :: "string list"
  sse_reasoning :: "string list"
  sse_argumentParts :: "string list"
  sse_callID :: string
  sse_callName :: string
  sse_sawTool :: bool
  sse_finishReason :: "string option"
  sse_usage :: "Usage option"
  sse_done :: bool
  sse_totalKeys :: nat

definition sseStart :: sseState where
  "sseStart = \<lparr>sse_content = [], sse_reasoning = [], sse_argumentParts = [], sse_callID = [], sse_callName = [],
     sse_sawTool = False, sse_finishReason = None, sse_usage = None, sse_done = False, sse_totalKeys = 0\<rparr>"

definition choiceNames :: "string list" where
  "choiceNames = [''index'', ''delta'', ''finish_reason'', ''logprobs'']"

text \<open>The role, the reasoning text and the content of a delta.\<close>

definition acceptText :: "(string \<times> gval) list \<Rightarrow> sseState \<Rightarrow> string + sseState" where
  "acceptText delta s =
     bindE (ensureE (map_of delta ''role'' = None \<or> map_of delta ''role'' = Some (GString ''assistant''))
       ''provider response role is invalid'') (\<lambda>_.
     bindE (case entry ''reasoning_content'' delta of
         GNull \<Rightarrow> Inr s
       | GString v \<Rightarrow> Inr (if v \<noteq> [] then s\<lparr>sse_reasoning := sse_reasoning s @ [v]\<rparr> else s)
       | _ \<Rightarrow> Inl ''provider reasoning content is invalid'') (\<lambda>s1.
     case entry ''content'' delta of
       GNull \<Rightarrow> Inr s1
     | GString v \<Rightarrow>
         if sse_sawTool s1 \<and> v \<noteq> [] then Inl ''provider mixed content and tool call''
         else Inr (s1\<lparr>sse_content := sse_content s1 @ [v]\<rparr>)
     | _ \<Rightarrow> Inl ''provider assistant content is invalid''))"

text \<open>The identifier, name and arguments of the one tool call of a delta.\<close>

definition acceptCallID :: "gval option \<Rightarrow> sseState \<Rightarrow> string + sseState" where
  "acceptCallID rawID s =
     (case rawID of
        None \<Rightarrow> Inr s
      | Some raw \<Rightarrow>
          (case stringOf raw of
             Some candidate \<Rightarrow>
               if \<not> validOperationID candidate \<or> sse_callID s \<noteq> [] \<and> candidate \<noteq> sse_callID s
               then Inl ''provider tool-call ID is invalid'' else Inr (s\<lparr>sse_callID := candidate\<rparr>)
           | None \<Rightarrow> Inl ''provider tool-call ID is invalid''))"

definition acceptCallName :: "gval option \<Rightarrow> sseState \<Rightarrow> string + sseState" where
  "acceptCallName rawName s =
     (case rawName of
        None \<Rightarrow> Inr s
      | Some raw \<Rightarrow>
          (case stringOf raw of
             Some candidate \<Rightarrow>
               if sse_callName s \<noteq> [] \<and> candidate \<noteq> sse_callName s
               then Inl ''provider tool name is invalid'' else Inr (s\<lparr>sse_callName := candidate\<rparr>)
           | None \<Rightarrow> Inl ''provider tool name is invalid''))"

definition acceptArguments :: "gval option \<Rightarrow> sseState \<Rightarrow> string + sseState" where
  "acceptArguments rawArguments s =
     (case rawArguments of
        None \<Rightarrow> Inr s
      | Some raw \<Rightarrow>
          (case stringOf raw of
             Some part \<Rightarrow> Inr (s\<lparr>sse_argumentParts := sse_argumentParts s @ [part]\<rparr>)
           | None \<Rightarrow> Inl ''provider tool arguments are invalid''))"

definition acceptCall :: "gval \<Rightarrow> sseState \<Rightarrow> string + sseState" where
  "acceptCall raw s =
     (case closedObject raw [''index'', ''id'', ''type'', ''function''] of
        None \<Rightarrow> Inl ''provider tool call is invalid''
      | Some call \<Rightarrow>
          bindE (ensureE (jsonInteger (entry ''index'' call) = Some 0 \<and>
              (entry ''type'' call = GNull \<or> entry ''type'' call = GString ''function''))
            ''provider tool call is invalid'') (\<lambda>_.
          bindE (acceptCallID (map_of call ''id'') s) (\<lambda>s1.
          case closedObject (entry ''function'' call) [''name'', ''arguments''] of
            None \<Rightarrow> Inl ''provider tool function is invalid''
          | Some f \<Rightarrow>
              bindE (acceptCallName (map_of f ''name'') s1) (acceptArguments (map_of f ''arguments'')))))"

definition acceptTools :: "(string \<times> gval) list \<Rightarrow> sseState \<Rightarrow> string + sseState" where
  "acceptTools delta s =
     (case map_of delta ''tool_calls'' of
        None \<Rightarrow> Inr s
      | Some (GArray [raw]) \<Rightarrow>
          if list_ex (\<lambda>v. v \<noteq> []) (sse_content s) then Inl ''provider tool calls are invalid''
          else acceptCall raw (s\<lparr>sse_sawTool := True\<rparr>)
      | Some _ \<Rightarrow> Inl ''provider tool calls are invalid'')"

definition acceptFinish :: "(string \<times> gval) list \<Rightarrow> sseState \<Rightarrow> string + sseState" where
  "acceptFinish choice s =
     (case entry ''finish_reason'' choice of
        GNull \<Rightarrow> Inr s
      | GString v \<Rightarrow>
          if v \<noteq> ''stop'' \<and> v \<noteq> ''tool_calls'' then Inl ''provider finish reason is invalid''
          else Inr (s\<lparr>sse_finishReason := Some v\<rparr>)
      | _ \<Rightarrow> Inl ''provider finish reason is invalid'')"

text \<open>The choice of a chunk before and after the finish reason was given.\<close>

definition acceptChoice :: "gval \<Rightarrow> sseState \<Rightarrow> string + sseState" where
  "acceptChoice raw s =
     (case closedObject raw choiceNames of
        None \<Rightarrow> Inl ''provider choice is invalid''
      | Some choice \<Rightarrow>
          bindE (ensureE (jsonInteger (entry ''index'' choice) = Some 0 \<and> entry ''logprobs'' choice = GNull)
            ''provider choice index or logprobs is invalid'') (\<lambda>_.
          case closedObject (entry ''delta'' choice) [''role'', ''content'', ''reasoning_content'', ''tool_calls''] of
            None \<Rightarrow> Inl ''provider delta is invalid''
          | Some delta \<Rightarrow>
              bindE (acceptText delta s) (\<lambda>s1. bindE (acceptTools delta s1) (acceptFinish choice))))"

definition acceptAfterFinish :: "(string \<times> gval) list \<Rightarrow> gval \<Rightarrow> sseState \<Rightarrow> string + sseState" where
  "acceptAfterFinish chunk raw s =
     (case closedObject raw choiceNames of
        None \<Rightarrow> Inl ''provider choice is invalid''
      | Some choice \<Rightarrow>
          if closedObject (entry ''delta'' choice) [''role'', ''content'', ''tool_calls''] = Some [] \<and>
             jsonInteger (entry ''index'' choice) = Some 0 \<and> entry ''finish_reason'' choice = GNull \<and>
             entry ''logprobs'' choice = GNull \<and> map_of chunk ''usage'' \<noteq> None
          then Inr s else Inl ''provider emitted choices after finish'')"

text \<open>A decoded chunk.\<close>

definition acceptChunk :: "string \<Rightarrow> gval \<Rightarrow> sseState \<Rightarrow> string + sseState" where
  "acceptChunk modelID decoded s =
     (case closedObject decoded [''id'', ''object'', ''created'', ''model'', ''choices'', ''usage'',
             ''system_fingerprint'', ''service_tier''] of
        None \<Rightarrow> Inl ''provider chunk is invalid''
      | Some chunk \<Rightarrow>
          bindE (ensureE (map_of chunk ''model'' = None \<or> map_of chunk ''model'' = Some (GString modelID))
            ''provider response model does not match binding'') (\<lambda>_.
          bindE (ensureE (map_of chunk ''object'' = None \<or> map_of chunk ''object'' = Some (GString ''chat.completion.chunk''))
            ''provider response object is invalid'') (\<lambda>_.
          case entry ''choices'' chunk of
            GArray choices \<Rightarrow>
              if length choices > 1 then Inl ''provider choices are invalid''
              else bindE (case map_of chunk ''usage'' of
                  None \<Rightarrow> Inr s
                | Some rawUsage \<Rightarrow>
                    if sse_usage s \<noteq> None then Inl ''provider usage is duplicated''
                    else (case parseUsage rawUsage of
                        None \<Rightarrow> Inl ''provider usage is invalid''
                      | Some usage \<Rightarrow> Inr (s\<lparr>sse_usage := Some usage\<rparr>))) (\<lambda>s1.
                case choices of
                  [] \<Rightarrow>
                    if map_of chunk ''usage'' = None \<or> sse_finishReason s1 = None
                    then Inl ''provider empty choice event is invalid'' else Inr s1
                | raw # _ \<Rightarrow>
                    if sse_finishReason s1 \<noteq> None then acceptAfterFinish chunk raw s1 else acceptChoice raw s1)
          | _ \<Rightarrow> Inl ''provider choices are invalid'')))"

text \<open>One event: its single data line, the terminator, or a chunk.\<close>

definition acceptEvent :: "string \<Rightarrow> ResponseLimits \<Rightarrow> bool \<Rightarrow> string \<Rightarrow> sseState \<Rightarrow> string + sseState" where
  "acceptEvent modelID l isLast event s =
     (let lines = splitOn newline event in
      if \<not> list_all (\<lambda>line. int (length line) \<le> rl_MaxLineBytes l) lines then Inl ''provider SSE line exceeds limit''
      else if length lines \<noteq> 1 \<or> \<not> HasPrefix (hd lines) ''data:'' then Inl ''provider SSE field is invalid''
      else let data = TrimPrefix (TrimPrefix (hd lines) ''data:'') '' '' in
        if data = ''[DONE]'' then
          (if sse_done s \<or> \<not> isLast \<or> sse_finishReason s = None \<or> sse_usage s = None
           then Inl ''provider SSE terminator is invalid'' else Inr (s\<lparr>sse_done := True\<rparr>))
        else if sse_done s then Inl ''provider SSE has trailing data''
        else case parseStrictJSON data (responseComplexity l) of
          Inl _ \<Rightarrow> Inl ''provider SSE JSON is invalid''
        | Inr (decoded, keys) \<Rightarrow>
            let s1 = s\<lparr>sse_totalKeys := sse_totalKeys s + keys\<rparr> in
            if int (sse_totalKeys s1) > rl_MaxKeys l then Inl ''provider SSE key count exceeds limit''
            else acceptChunk modelID decoded s1)"

fun acceptEvents :: "string \<Rightarrow> ResponseLimits \<Rightarrow> string list \<Rightarrow> sseState \<Rightarrow> string + sseState" where
  "acceptEvents modelID l [] s = Inr s"
| "acceptEvents modelID l (event # rest) s =
     bindE (acceptEvent modelID l (rest = []) event s) (acceptEvents modelID l rest)"

section \<open>The normalized answer\<close>

definition joinParts :: "string list \<Rightarrow> string" where "joinParts parts = concat parts"

text \<open>The pending call, the assistant message and the delta of an answer that calls a tool.\<close>

definition toolAnswer ::
  "validators \<Rightarrow> ResponseLimits \<Rightarrow> sseState \<Rightarrow> string + PendingToolCall option \<times> (string \<times> gval) list \<times> (string \<times> gval) list" where
  "toolAnswer vs l s =
     (if sse_finishReason s \<noteq> Some ''tool_calls'' \<or> sse_callName s = [] \<or> sse_argumentParts s = []
      then Inl ''provider tool call is incomplete''
      else case vs (sse_callName s) of
        None \<Rightarrow> Inl ''provider requested an ungranted tool''
      | Some validator \<Rightarrow>
          (case parseStrictJSON (joinParts (sse_argumentParts s)) (responseComplexity l) of
             Inr (GObject arguments, _) \<Rightarrow>
               if \<not> valid validator (GObject arguments) then Inl ''provider tool arguments failed schema validation''
               else let canonical = (case canonicalJSON (GObject arguments) of Some e \<Rightarrow> e | None \<Rightarrow> []);
                        f = GObject [(''name'', GString (sse_callName s)), (''arguments'', GString canonical)];
                        call = [(''id'', GString (sse_callID s)), (''type'', GString ''function''), (''function'', f)]
                    in Inr (Some \<lparr>CallID = sse_callID s, call_Name = sse_callName s, call_Arguments = GObject arguments\<rparr>,
                      [(''role'', GString ''assistant''), (''content'', GNull), (''tool_calls'', GArray [GObject call])],
                      [(''role'', GString ''assistant''), (''tool_calls'', GArray [GObject ((''index'', goInt 0) # call)])])
           | _ \<Rightarrow> Inl ''provider tool arguments failed schema validation''))"

definition textAnswer ::
  "sseState \<Rightarrow> string + PendingToolCall option \<times> (string \<times> gval) list \<times> (string \<times> gval) list" where
  "textAnswer s =
     (if sse_finishReason s \<noteq> Some ''stop'' then Inl ''provider finish reason does not match content''
      else let message = [(''role'', GString ''assistant''), (''content'', GString (joinParts (sse_content s)))]
           in Inr (None, message, message))"

definition normalizedChunk :: "string \<Rightarrow> (string \<times> gval) list \<Rightarrow> gval" where
  "normalizedChunk modelID rest =
     GObject ([(''id'', GString ''host-normalized''), (''object'', GString ''chat.completion.chunk''),
       (''model'', GString modelID)] @ rest)"

definition normalizedChunks :: "string \<Rightarrow> (string \<times> gval) list \<Rightarrow> string \<Rightarrow> Usage \<Rightarrow> gval list" where
  "normalizedChunks modelID delta finishReason usage =
     [normalizedChunk modelID [(''choices'', GArray [GObject [(''index'', goInt 0), (''delta'', GObject delta),
        (''finish_reason'', GNull)]])],
      normalizedChunk modelID [(''choices'', GArray [GObject [(''index'', goInt 0), (''delta'', GObject []),
        (''finish_reason'', GString finishReason)]])],
      normalizedChunk modelID [(''choices'', GArray []), (''usage'', GObject [(''prompt_tokens'', goInt (InputTokens usage)),
        (''completion_tokens'', goInt (OutputTokens usage)), (''total_tokens'', goInt (TotalTokens usage))])]]"

definition normalizedText :: "gval list \<Rightarrow> string option" where
  "normalizedText chunks =
     map_option (\<lambda>es. concat (map (\<lambda>e. ''data: '' @ e @ [newline, newline]) es) @ ''data: [DONE]'' @ [newline, newline])
       (those (map canonicalJSON chunks))"

text \<open>The message and the normalized text with the reasoning, within the limit.\<close>

definition packAnswer ::
  "string \<Rightarrow> ResponseLimits \<Rightarrow> sseState \<Rightarrow> Usage \<Rightarrow> string \<Rightarrow>
   PendingToolCall option \<times> (string \<times> gval) list \<times> (string \<times> gval) list \<Rightarrow> string + AcceptedResponse" where
  "packAnswer modelID l s usage finishReason answer =
     (let (pending, assistant, delta) = answer;
          joined = joinParts (sse_reasoning s);
          extra = (if joined \<noteq> [] then [(''reasoning_content'', GString joined)] else []) in
      case normalizedText (normalizedChunks modelID (delta @ extra) finishReason usage) of
        None \<Rightarrow> Inl ''json encoding failed''
      | Some normalized \<Rightarrow>
          if int (length normalized) > rl_MaxBytes l then Inl ''normalized provider SSE exceeds limit''
          else Inr \<lparr>NormalizedSSE = normalized, AssistantMessage = assistant @ extra, acc_Pending = pending,
            acc_Usage = usage\<rparr>)"

definition finishAnswer :: "string \<Rightarrow> validators \<Rightarrow> ResponseLimits \<Rightarrow> sseState \<Rightarrow> string + AcceptedResponse" where
  "finishAnswer modelID vs l s =
     (case (sse_done s, sse_usage s, sse_finishReason s) of
        (True, Some usage, Some finishReason) \<Rightarrow>
          bindE (if sse_sawTool s then toolAnswer vs l s else textAnswer s) (packAnswer modelID l s usage finishReason)
      | _ \<Rightarrow> Inl ''provider SSE is incomplete'')"

definition ParseOpenAISSE :: "string \<Rightarrow> string \<Rightarrow> validators \<Rightarrow> ResponseLimits \<Rightarrow> string + AcceptedResponse" where
  "ParseOpenAISSE body modelID vs l =
     (if length body = 0 \<or> int (length body) > rl_MaxBytes l then Inl ''provider SSE size is invalid''
      else if \<not> utf8Valid body then Inl ''provider SSE is not UTF-8''
      else let text = normalizeLines body in
        if \<not> HasSuffix text [newline, newline] then Inl ''provider SSE is truncated''
        else let events = filter (\<lambda>e. e \<noteq> []) (splitBlank [] (TrimSuffix text [newline, newline])) in
          if length events < 1 \<or> int (length events) > rl_MaxEvents l then Inl ''provider SSE event count is invalid''
          else bindE (acceptEvents modelID l events sseStart) (finishAnswer modelID vs l))"

end
