(* ===== verification/CapsuleAttempt.thy ===== *)
theory CapsuleAttempt
  imports CapsuleSse ModelBudget
begin

text \<open>
  The trusted conversation of one attempt (\<^verbatim>\<open>internal/capsule/attempt.go\<close>): a state
  machine that decides which model request may be made next, which tool call of the capsule is the
  one the provider asked for, and which completion is the one it submitted. The handlers of tools
  are not part of the attempt; a tool says whether it has one.
\<close>

section \<open>State\<close>

datatype AttemptState =
    ReadyModel | ModelInFlight | AwaitTool | AwaitComplete | Terminal | AttemptFailed | AttemptCancelled

record Tool =
  tool_Name :: string
  tool_Description :: string
  tool_Parameters :: gval
  tool_hasHandler :: bool

record OpenAIAttempt =
  att_State :: AttemptState
  att_Usage :: Usage
  att_modelID :: string
  att_samplingOptions :: "(string \<times> gval) list"
  att_reasoningOptions :: "(string \<times> gval) list"
  att_contextWindow :: int
  att_maxOutputTokens :: int
  att_maxModelRequests :: int
  att_responseLimits :: ResponseLimits
  att_messages :: "gval list"
  att_tools :: "Tool list"
  att_outputSchema :: gval
  att_validators :: validators
  att_outputValidator :: compiledSchema
  att_pending :: "PendingToolCall option"
  att_nextTurn :: int
  att_currentTurn :: int

definition submitResult :: string where "submitResult = ''submit_result''"

definition hostRequestNames :: "string list" where
  "hostRequestNames = [''max_tokens'', ''messages'', ''model'', ''n'', ''parallel_tool_calls'', ''stream'',
     ''stream_options'', ''tool_choice'', ''tools'']"

definition validToolName :: "string \<Rightarrow> bool" where
  "validToolName v \<longleftrightarrow> v \<noteq> [] \<and> length v \<le> 128 \<and> validOperationID v"

definition reasoningNameOk :: "string \<Rightarrow> bool" where
  "reasoningNameOk name \<longleftrightarrow> name \<noteq> [] \<and> name \<notin> set samplingNames \<and> name \<notin> set hostRequestNames"

section \<open>Construction\<close>

definition toolError :: string where "toolError = ''capsule granted tool names are invalid''"

text \<open>The loop over the granted tools: the names seen so far, and the compiled and cloned tools.\<close>

fun compileTools ::
  "regexCompiler \<Rightarrow> ResponseLimits \<Rightarrow> string list \<Rightarrow> Tool list \<Rightarrow> string + (Tool \<times> compiledSchema) list" where
  "compileTools rx l seen [] = Inr []"
| "compileTools rx l seen (tool # rest) =
     (if \<not> validToolName (tool_Name tool) \<or> tool_Name tool = submitResult \<or> \<not> tool_hasHandler tool then Inl toolError
      else if tool_Name tool \<in> set seen then Inl toolError
      else case compileSchema rx (tool_Parameters tool) of
        None \<Rightarrow> Inl ''JSON Schema is invalid''
      | Some validator \<Rightarrow>
          (case normalizeJSONObject (tool_Parameters tool) (rl_MaxBytes l) (responseComplexity l) of
             None \<Rightarrow> Inl ''JSON object is invalid''
           | Some cloned \<Rightarrow>
               bindE (compileTools rx l (tool_Name tool # seen) rest) (\<lambda>compiled.
                 Inr ((tool\<lparr>tool_Parameters := cloned\<rparr>, validator) # compiled))))"

definition grantedValidators :: "(Tool \<times> compiledSchema) list \<Rightarrow> compiledSchema \<Rightarrow> validators" where
  "grantedValidators compiled output =
     (map_of (map (\<lambda>(tool, validator). (tool_Name tool, validator)) compiled))(submitResult \<mapsto> output)"

definition NewOpenAIAttempt ::
  "regexCompiler \<Rightarrow> string \<Rightarrow> string \<Rightarrow> string \<Rightarrow> Tool list \<Rightarrow> gval \<Rightarrow> gval \<Rightarrow> gval \<Rightarrow> int \<Rightarrow> int \<Rightarrow> int \<Rightarrow> ResponseLimits \<Rightarrow>
   string + OpenAIAttempt" where
  "NewOpenAIAttempt rx modelID systemPrompt prompt tools outputSchema samplingOptions reasoningOptions
     contextWindow maxOutputTokens maxModelRequests l =
     (if contextWindow \<le> 0 \<or> maxOutputTokens \<le> 0 \<or> maxModelRequests < 1 \<or> maxModelRequests > 1000
      then Inl ''model request budget is invalid''
      else case validateSamplingOptions samplingOptions of
        None \<Rightarrow> Inl ''custom model sampling options are invalid''
      | Some sampling \<Rightarrow>
          (case normalizeJSONObject reasoningOptions (rl_MaxBytes l) (responseComplexity l) of
             Some (GObject reasoning) \<Rightarrow>
               if length reasoning > 1 \<or> \<not> list_all (\<lambda>kv. reasoningNameOk (fst kv)) reasoning
               then Inl ''provider reasoning options are invalid''
               else (case compileSchema rx outputSchema of
                   None \<Rightarrow> Inl ''JSON Schema is invalid''
                 | Some outputValidator \<Rightarrow>
                     bindE (compileTools rx l [] tools) (\<lambda>compiled.
                     case normalizeJSONObject outputSchema (rl_MaxBytes l) (responseComplexity l) of
                       None \<Rightarrow> Inl ''JSON object is invalid''
                     | Some output \<Rightarrow>
                         Inr \<lparr>att_State = ReadyModel, att_Usage = noUsage, att_modelID = modelID,
                           att_samplingOptions = sampling, att_reasoningOptions = reasoning,
                           att_contextWindow = contextWindow, att_maxOutputTokens = maxOutputTokens,
                           att_maxModelRequests = maxModelRequests, att_responseLimits = l,
                           att_messages = [GObject [(''role'', GString ''system''), (''content'', GString systemPrompt)],
                             GObject [(''role'', GString ''user''), (''content'', GString prompt)]],
                           att_tools = map fst compiled, att_outputSchema = output,
                           att_validators = grantedValidators compiled outputValidator,
                           att_outputValidator = outputValidator, att_pending = None, att_nextTurn = 1,
                           att_currentTurn = 0\<rparr>))
           | _ \<Rightarrow> Inl ''provider reasoning options are invalid''))"

section \<open>Model requests\<close>

definition budgetText :: "int \<Rightarrow> string" where
  "budgetText remaining = ''Host model-request budget: '' @ decimal remaining @ '' request(s), including this one, remain. Inspect only what is essential and leave enough time to call submit_result with one complete valid result. On the final request, call submit_result and do not request a source tool.''"

definition functionTool :: "string \<Rightarrow> string \<Rightarrow> gval \<Rightarrow> gval" where
  "functionTool name description parameters =
     GObject [(''type'', GString ''function''), (''function'', GObject [(''name'', GString name),
       (''description'', GString description), (''parameters'', parameters), (''strict'', GBool True)])]"

definition requestBody :: "OpenAIAttempt \<Rightarrow> int \<Rightarrow> gval list \<Rightarrow> (string \<times> gval) list" where
  "requestBody a turn transcript =
     [(''model'', GString (att_modelID a)),
      (''messages'', GArray (transcript @ [GObject [(''role'', GString ''user''),
         (''content'', GString (budgetText (att_maxModelRequests a - turn + 1)))]])),
      (''stream'', GBool True), (''stream_options'', GObject [(''include_usage'', GBool True)]), (''n'', goInt 1),
      (''tools'', GArray (map (\<lambda>t. functionTool (tool_Name t) (tool_Description t) (tool_Parameters t)) (att_tools a) @
         [functionTool submitResult ''Validate and submit the final structured result.'' (att_outputSchema a)])),
      (''tool_choice'', if turn = att_maxModelRequests a
         then GObject [(''type'', GString ''function''), (''function'', GObject [(''name'', GString submitResult)])]
         else GString ''required''),
      (''parallel_tool_calls'', GBool False), (''max_tokens'', goInt (att_maxOutputTokens a))]"

text \<open>Setting an entry of the body that may be there already.\<close>

fun setEntry :: "string \<times> gval \<Rightarrow> (string \<times> gval) list \<Rightarrow> (string \<times> gval) list" where
  "setEntry kv [] = [kv]"
| "setEntry kv (m # ms) = (if fst m = fst kv then kv # ms else m # setEntry kv ms)"

definition modelRequest :: "OpenAIAttempt \<Rightarrow> int \<Rightarrow> gval list \<Rightarrow> string option" where
  "modelRequest a turn transcript =
     canonicalJSON (GObject (fold setEntry (att_reasoningOptions a)
       (fold setEntry (att_samplingOptions a) (requestBody a turn transcript))))"

definition requestFits :: "OpenAIAttempt \<Rightarrow> string option \<Rightarrow> bool" where
  "requestFits a request =
     (case request of
        None \<Rightarrow> False
      | Some encoded \<Rightarrow> int (length encoded) \<le> rl_MaxBytes (att_responseLimits a) \<and>
          Fits encoded (att_contextWindow a) (att_maxOutputTokens a) DefaultSafetyTokens)"

definition BeginModel :: "int \<Rightarrow> OpenAIAttempt \<Rightarrow> OpenAIAttempt \<times> (string + string)" where
  "BeginModel turn a =
     (if turn > att_maxModelRequests a then (a, Inl ''model request exceeds configured budget'')
      else if att_State a \<noteq> ReadyModel \<or> turn \<noteq> att_nextTurn a then (a, Inl ''model request is out of order'')
      else let a1 = a\<lparr>att_State := ModelInFlight, att_currentTurn := turn, att_nextTurn := turn + 1\<rparr>;
               request = modelRequest a1 turn (att_messages a1)
           in if requestFits a1 request then (a1, Inr (the request))
              else (a1, Inl ''provider request body exceeds model context''))"

definition AcceptModel :: "string \<Rightarrow> OpenAIAttempt \<Rightarrow> OpenAIAttempt \<times> (string + string)" where
  "AcceptModel body a =
     (if att_State a \<noteq> ModelInFlight then (a, Inl ''provider response is out of turn'')
      else case ParseOpenAISSE body (att_modelID a) (att_validators a) (att_responseLimits a) of
        Inl e \<Rightarrow> (a, Inl e)
      | Inr response \<Rightarrow>
          let a1 = a\<lparr>att_Usage := usageAdd (att_Usage a) (acc_Usage response)\<rparr> in
          case acc_Pending response of
            None \<Rightarrow> (a1, Inl ''provider response omitted the required tool call'')
          | Some call \<Rightarrow>
              if att_currentTurn a1 = att_maxModelRequests a1 \<and> call_Name call \<noteq> submitResult
              then (a1, Inl ''provider final model turn did not submit result'')
              else (a1\<lparr>att_messages := att_messages a1 @ [GObject (AssistantMessage response)],
                      att_pending := Some call,
                      att_State := (if call_Name call = submitResult then AwaitComplete else AwaitTool)\<rparr>,
                    Inr (NormalizedSSE response)))"

section \<open>Tool calls and completion\<close>

definition ValidateToolCall :: "gval \<Rightarrow> gval \<Rightarrow> gval \<Rightarrow> OpenAIAttempt \<Rightarrow> string + PendingToolCall" where
  "ValidateToolCall providerCallID name arguments a =
     (case att_pending a of
        None \<Rightarrow> Inl ''capsule tool call does not match provider call''
      | Some call \<Rightarrow>
          if att_State a \<noteq> AwaitTool \<or> providerCallID \<noteq> GString (CallID call) \<or> name \<noteq> GString (call_Name call) \<or>
             \<not> sameJSON arguments (call_Arguments call)
          then Inl ''capsule tool call does not match provider call'' else Inr call)"

definition transcriptFits :: "OpenAIAttempt \<Rightarrow> gval list \<Rightarrow> bool" where
  "transcriptFits a messages = requestFits a (modelRequest a (att_nextTurn a) messages)"

definition toolMessage :: "PendingToolCall \<Rightarrow> string \<Rightarrow> gval" where
  "toolMessage call content =
     GObject [(''role'', GString ''tool''), (''tool_call_id'', GString (CallID call)), (''content'', GString content)]"

definition envelopeValue :: "envelope \<Rightarrow> gval" where
  "envelopeValue e = GObject [(''content_prefix'', GString (content_prefix e)),
     (''original_bytes'', goInt (int (original_bytes e))), (''truncated'', GBool (truncated e))]"

text \<open>The transcript with an envelope in place of the result, if the envelope can be encoded.\<close>

definition envelopeFits :: "OpenAIAttempt \<Rightarrow> PendingToolCall \<Rightarrow> envelope \<Rightarrow> bool" where
  "envelopeFits a call e =
     (case canonicalJSON (envelopeValue e) of
        None \<Rightarrow> False
      | Some content \<Rightarrow> transcriptFits a (att_messages a @ [toolMessage call content]))"

definition resumeModel :: "string \<Rightarrow> PendingToolCall \<Rightarrow> OpenAIAttempt \<Rightarrow> OpenAIAttempt" where
  "resumeModel content call a =
     a\<lparr>att_messages := att_messages a @ [toolMessage call content], att_pending := None, att_State := ReadyModel\<rparr>"

definition AcceptToolResult :: "gval \<Rightarrow> OpenAIAttempt \<Rightarrow> OpenAIAttempt \<times> (string + string \<times> gval)" where
  "AcceptToolResult result a =
     (case att_pending a of
        None \<Rightarrow> (a, Inl ''tool result is out of turn'')
      | Some call \<Rightarrow>
          if att_State a \<noteq> AwaitTool then (a, Inl ''tool result is out of turn'')
          else case cloneJSON result (responseComplexity (att_responseLimits a)) of
            None \<Rightarrow> (a, Inl ''tool result is invalid'')
          | Some cloned \<Rightarrow>
              (case canonicalJSON cloned of
                 None \<Rightarrow> (a, Inl ''tool result is invalid'')
               | Some encoded \<Rightarrow>
                   if transcriptFits a (att_messages a @ [toolMessage call encoded])
                   then (resumeModel encoded call a, Inr (encoded, cloned))
                   else (case TruncateResult encoded (envelopeFits a call) of
                       Inl e \<Rightarrow> (a, Inl e)
                     | Inr bounded \<Rightarrow>
                         let content = (case canonicalJSON (envelopeValue bounded) of Some c \<Rightarrow> c | None \<Rightarrow> []);
                             a1 = a\<lparr>att_Usage := (att_Usage a)\<lparr>TruncatedToolResults := TruncatedToolResults (att_Usage a) + 1\<rparr>\<rparr>
                         in (resumeModel content call a1, Inr (content, envelopeValue bounded)))))"

definition AcceptComplete :: "gval \<Rightarrow> OpenAIAttempt \<Rightarrow> OpenAIAttempt \<times> (string + gval)" where
  "AcceptComplete output a =
     (case (att_pending a, output) of
        (Some call, GObject object) \<Rightarrow>
          if att_State a \<noteq> AwaitComplete \<or> call_Name call \<noteq> submitResult \<or> \<not> sameJSON output (call_Arguments call) \<or>
             \<not> valid (att_outputValidator a) output
          then (a, Inl ''capsule completion does not match provider submission'')
          else (a\<lparr>att_pending := None, att_State := Terminal\<rparr>, Inr (call_Arguments call))
      | _ \<Rightarrow> (a, Inl ''capsule completion does not match provider submission''))"

definition Fail :: "bool \<Rightarrow> OpenAIAttempt \<Rightarrow> OpenAIAttempt" where
  "Fail cancelled a = a\<lparr>att_State := (if cancelled then AttemptCancelled else AttemptFailed)\<rparr>"

end
