(* ===== verification/CapsuleSession.thy ===== *)
theory CapsuleSession
  imports CapsuleAttempt CapsuleWire
begin

text \<open>
  The message loop of a session with a capsule (\<^verbatim>\<open>internal/capsule/session.go\<close>): the host
  answers the capsule's messages and ends with the provider's submission or a failure. The outside
  is an environment: the provider's answers by request number, the handlers of the tools by call
  number, whether the peer closes the connection at the end, and whether the context is done when a
  message cannot be received. What the loop does to the outside is a trace of events.
\<close>

section \<open>Provider requests\<close>

record Response =
  resp_Status :: int
  resp_ContentType :: string
  resp_Headers :: "(string \<times> string) list"
  resp_Body :: string

datatype exchangeError = RequestFailed bool | OtherError

text \<open>The outcome of one request, and the delay before the next one, which may be refused or cut
  short by the context.\<close>

record provider =
  provider_answer :: "nat \<Rightarrow> string \<Rightarrow> exchangeError + Response"
  provider_pause :: "nat \<Rightarrow> (string \<times> string) list \<Rightarrow> bool"

definition retryableProviderStatus :: "int \<Rightarrow> bool" where
  "retryableProviderStatus status \<longleftrightarrow> status = 408 \<or> status = 409 \<or> status = 429 \<or> status \<ge> 500 \<and> status \<le> 599"

text \<open>
  The retry loop of \<^verbatim>\<open>exchange\<close> with the retries that are left; the number of the first
  request comes in and the number of the next one goes out.
\<close>

primrec exchangeFrom :: "provider \<Rightarrow> string \<Rightarrow> nat \<Rightarrow> nat \<Rightarrow> nat \<times> (exchangeError + Response)" where
  "exchangeFrom p body n 0 = (n + 1, provider_answer p n body)"
| "exchangeFrom p body n (Suc left) =
     (case provider_answer p n body of
        Inl (RequestFailed True) \<Rightarrow>
          if provider_pause p n [] then exchangeFrom p body (n + 1) left else (n + 1, Inl OtherError)
      | Inl e \<Rightarrow> (n + 1, Inl e)
      | Inr response \<Rightarrow>
          if resp_Status response = 200 \<or> \<not> retryableProviderStatus (resp_Status response) then (n + 1, Inr response)
          else if provider_pause p n (resp_Headers response) then exchangeFrom p body (n + 1) left
          else (n + 1, Inl OtherError))"

definition exchange :: "provider \<Rightarrow> int \<Rightarrow> string \<Rightarrow> nat \<Rightarrow> nat \<times> (exchangeError + Response)" where
  "exchange p maxRetries body n =
     (if maxRetries < 0 then (n, Inl OtherError) else exchangeFrom p body n (nat maxRetries))"

text \<open>\<^verbatim>\<open>strings.EqualFold\<close> with an ASCII text: the long s folds to the letter s.\<close>

definition foldsTo :: "nat \<Rightarrow> char \<Rightarrow> bool" where
  "foldsTo r c \<longleftrightarrow> r < 128 \<and> lowerByte (char_of r) = lowerByte c \<or> r = 0x17F \<and> lowerByte c = CHR ''s'' \<or>
     r = 0x212A \<and> lowerByte c = CHR ''k''"

definition equalFoldAscii :: "string \<Rightarrow> string \<Rightarrow> bool" where
  "equalFoldAscii s t \<longleftrightarrow> list_all2 foldsTo (map fst (runes s)) t"

definition eventStream :: "string \<Rightarrow> bool" where
  "eventStream v \<longleftrightarrow> equalFoldAscii (TrimSpace (takeWhile (\<lambda>c. c \<noteq> CHR '';'') v)) ''text/event-stream''"

section \<open>The session\<close>

datatype sessionEvent = ModelAnswered string | ToolHandled string gval

record environment =
  env_provider :: provider
  env_handle :: "nat \<Rightarrow> string \<Rightarrow> gval \<Rightarrow> string + gval"
  env_peerCloses :: bool
  env_ctxDone :: bool

record session =
  ses_wire :: wire
  ses_attempt :: OpenAIAttempt
  ses_seenIDs :: "string list"
  ses_fetches :: int
  ses_modelRequests :: int
  ses_requests :: nat
  ses_trace :: "sessionEvent list"

record sessionLimits =
  sl_tools :: "string list"
  sl_MaxRetries :: int
  sl_Limits :: Limits

datatype invokeError = InvocationError Usage | ContextError

datatype round = Continue session | Return session "invokeError + gval"

text \<open>The variables of the loop before its first round.\<close>

definition newSession :: "wire \<Rightarrow> OpenAIAttempt \<Rightarrow> session" where
  "newSession w a = \<lparr>ses_wire = w, ses_attempt = a, ses_seenIDs = [], ses_fetches = 0, ses_modelRequests = 0, ses_requests = 0,
     ses_trace = []\<rparr>"

definition uniqueID :: "(string \<times> gval) list \<Rightarrow> string list \<Rightarrow> string list \<times> string option" where
  "uniqueID message seen =
     (case entry ''id'' message of
        GString v \<Rightarrow>
          if \<not> validOperationID v then (seen, None)
          else if v \<in> set seen then (seen, None) else (v # seen, Some v)
      | _ \<Rightarrow> (seen, None))"

definition failSession :: "session \<Rightarrow> round" where
  "failSession s =
     Return (s\<lparr>ses_attempt := Fail False (ses_attempt s)\<rparr>) (Inl (InvocationError (att_Usage (ses_attempt s))))"

text \<open>The answer to a message, or failure when it cannot be sent.\<close>

definition sendOrFail :: "(string \<times> gval) list \<Rightarrow> session \<Rightarrow> round" where
  "sendOrFail message s =
     (case send message (ses_wire s) of
        (w, Inr _) \<Rightarrow> Continue (s\<lparr>ses_wire := w\<rparr>)
      | (w, Inl _) \<Rightarrow> failSession (s\<lparr>ses_wire := w\<rparr>))"

text \<open>\<^verbatim>\<open>base64.StdEncoding\<close>.\<close>

definition base64Digit :: "nat \<Rightarrow> char" where
  "base64Digit n = ''ABCDEFGHIJKLMNOPQRSTUVWXYZabcdefghijklmnopqrstuvwxyz0123456789+/'' ! n"

fun base64 :: "string \<Rightarrow> string" where
  "base64 [] = []"
| "base64 [a] = [base64Digit (code a div 4), base64Digit (code a mod 4 * 16), CHR ''='', CHR ''='']"
| "base64 [a, b] = [base64Digit (code a div 4), base64Digit (code a mod 4 * 16 + code b div 16),
     base64Digit (code b mod 16 * 4), CHR ''='']"
| "base64 (a # b # c # s) = [base64Digit (code a div 4), base64Digit (code a mod 4 * 16 + code b div 16),
     base64Digit (code b mod 16 * 4 + code c div 64), base64Digit (code c mod 64)] @ base64 s"

definition onModelRequest :: "environment \<Rightarrow> sessionLimits \<Rightarrow> (string \<times> gval) list \<Rightarrow> session \<Rightarrow> round" where
  "onModelRequest env l message s =
     (let (seen, operation) = uniqueID message (ses_seenIDs s);
          s1 = s\<lparr>ses_seenIDs := seen\<rparr> in
      case (operation, jsonInteger (entry ''turn'' message)) of
        (Some opID, Some turn) \<Rightarrow>
          if turn < 1 then failSession s1
          else let s2 = s1\<lparr>ses_fetches := ses_fetches s1 + 1, ses_modelRequests := ses_modelRequests s1 + 1\<rparr> in
            if ses_fetches s2 > MaxFetches (sl_Limits l) \<or> ses_modelRequests s2 > MaxModelRequests (sl_Limits l)
            then failSession s2
            else (case BeginModel turn (ses_attempt s2) of
                (a, Inl _) \<Rightarrow> failSession (s2\<lparr>ses_attempt := a\<rparr>)
              | (a, Inr body) \<Rightarrow>
                  (case exchange (env_provider env) (sl_MaxRetries l) body (ses_requests s2) of
                     (n, outcome) \<Rightarrow>
                       let s3 = s2\<lparr>ses_attempt := a, ses_requests := n\<rparr> in
                       case outcome of
                         Inl _ \<Rightarrow> failSession s3
                       | Inr response \<Rightarrow>
                           if resp_Status response \<noteq> 200 \<or> \<not> eventStream (resp_ContentType response) then failSession s3
                           else let s4 = s3\<lparr>ses_trace := ses_trace s3 @ [ModelAnswered (resp_Body response)]\<rparr> in
                             case AcceptModel (resp_Body response) a of
                               (a', Inl _) \<Rightarrow> failSession (s4\<lparr>ses_attempt := a'\<rparr>)
                             | (a', Inr normalized) \<Rightarrow>
                                 sendOrFail [(''type'', GString ''model_result''), (''id'', GString opID),
                                   (''body_base64'', GString (base64 normalized))] (s4\<lparr>ses_attempt := a'\<rparr>)))
      | _ \<Rightarrow> failSession s1)"

definition onToolCall :: "environment \<Rightarrow> sessionLimits \<Rightarrow> (string \<times> gval) list \<Rightarrow> session \<Rightarrow> round" where
  "onToolCall env l message s =
     (let (seen, operation) = uniqueID message (ses_seenIDs s);
          s1 = s\<lparr>ses_seenIDs := seen\<rparr> in
      case (operation, ValidateToolCall (entry ''provider_call_id'' message) (entry ''name'' message)
              (entry ''arguments'' message) (ses_attempt s1)) of
        (Some opID, Inr call) \<Rightarrow>
          if call_Name call \<notin> set (sl_tools l) then failSession s1
          else let s2 = s1\<lparr>ses_trace := ses_trace s1 @ [ToolHandled (call_Name call) (call_Arguments call)]\<rparr> in
            (case env_handle env (length (ses_trace s2)) (call_Name call) (call_Arguments call) of
               Inl _ \<Rightarrow> failSession s2
             | Inr toolResult \<Rightarrow>
                 (case AcceptToolResult toolResult (ses_attempt s2) of
                    (a, Inl _) \<Rightarrow> failSession (s2\<lparr>ses_attempt := a\<rparr>)
                  | (a, Inr (content, canonical)) \<Rightarrow>
                      sendOrFail [(''type'', GString ''tool_result''), (''id'', GString opID), (''result'', canonical),
                        (''content'', GString content)] (s2\<lparr>ses_attempt := a\<rparr>)))
      | _ \<Rightarrow> failSession s1)"

text \<open>The connection has to end right after the completion.\<close>

definition onComplete :: "environment \<Rightarrow> (string \<times> gval) list \<Rightarrow> session \<Rightarrow> round" where
  "onComplete env message s =
     (case AcceptComplete (entry ''output'' message) (ses_attempt s) of
        (a, Inl _) \<Rightarrow> failSession (s\<lparr>ses_attempt := a\<rparr>)
      | (a, Inr output) \<Rightarrow>
          if inbound (wire_connection (ses_wire s)) \<noteq> [] \<or> \<not> env_peerCloses env
          then failSession (s\<lparr>ses_attempt := a\<rparr>)
          else Return (s\<lparr>ses_attempt := a\<rparr>) (Inr output))"

definition sessionRound :: "environment \<Rightarrow> sessionLimits \<Rightarrow> session \<Rightarrow> round" where
  "sessionRound env l s =
     (case receive (ses_wire s) of
        (w, Inl _) \<Rightarrow>
          if env_ctxDone env then Return (s\<lparr>ses_wire := w\<rparr>) (Inl ContextError)
          else failSession (s\<lparr>ses_wire := w\<rparr>)
      | (w, Inr message) \<Rightarrow>
          let s1 = s\<lparr>ses_wire := w\<rparr> in
          if entry ''type'' message = GString ''model_request'' then onModelRequest env l message s1
          else if entry ''type'' message = GString ''tool_call'' then onToolCall env l message s1
          else if entry ''type'' message = GString ''complete'' then onComplete env message s1
          else failSession s1)"

section \<open>The loop ends\<close>

lemma writeFull_inbound: "inbound (fst (writeFull c v)) = inbound c"
  by (simp add: writeFull_def split: prod.splits)

lemma send_inbound: "inbound (wire_connection (fst (send m t))) = inbound (wire_connection t)"
proof -
  have "writeFull c v = (c', r) \<Longrightarrow> inbound c' = inbound c" for c v c' r using writeFull_inbound [of c v] by simp
  then show ?thesis by (auto simp: send_def Let_def split: sum.splits option.splits prod.splits)
qed

lemma sendOrFail_inbound:
  "sendOrFail m s = Continue s' \<Longrightarrow> inbound (wire_connection (ses_wire s')) = inbound (wire_connection (ses_wire s))"
  using send_inbound [of m "ses_wire s"] by (auto simp: sendOrFail_def failSession_def split: prod.splits sum.splits)

lemma receive_shorter:
  "receive t = (t', Inr m) \<Longrightarrow> length (inbound (wire_connection t')) < length (inbound (wire_connection t))"
  by (auto simp: receive_def ReadFull_def Let_def split: if_splits sum.splits gval.splits)

lemma onModelRequest_inbound:
  "onModelRequest env l m s = Continue s' \<Longrightarrow> inbound (wire_connection (ses_wire s')) = inbound (wire_connection (ses_wire s))"
  by (auto simp: onModelRequest_def Let_def failSession_def dest: sendOrFail_inbound split: prod.splits option.splits if_splits sum.splits)

lemma onToolCall_inbound:
  "onToolCall env l m s = Continue s' \<Longrightarrow> inbound (wire_connection (ses_wire s')) = inbound (wire_connection (ses_wire s))"
  by (auto simp: onToolCall_def Let_def failSession_def dest: sendOrFail_inbound split: prod.splits option.splits if_splits sum.splits)

lemma sessionRound_shorter:
  "sessionRound env l s = Continue s' \<Longrightarrow>
    length (inbound (wire_connection (ses_wire s'))) < length (inbound (wire_connection (ses_wire s)))"
  using receive_shorter [of "ses_wire s"]
  by (auto simp: sessionRound_def Let_def failSession_def onComplete_def dest: onModelRequest_inbound onToolCall_inbound
      split: prod.splits sum.splits if_splits)

function sessionLoop :: "environment \<Rightarrow> sessionLimits \<Rightarrow> session \<Rightarrow> session \<times> (invokeError + gval)" where
  "sessionLoop env l s =
     (case sessionRound env l s of
        Continue s' \<Rightarrow> sessionLoop env l s'
      | Return s' result \<Rightarrow> (s', result))"
  by pat_completeness auto
termination
  by (relation "measure (\<lambda>(env, l, s). length (inbound (wire_connection (ses_wire s))))") (auto dest: sessionRound_shorter)

declare sessionLoop.simps [simp del]

end
