(* ===== verification/JsonText.thy ===== *)
theory JsonText
  imports CapsuleJson
begin

text \<open>
  The lexical facts behind the round trip of canonical JSON
  (\<^verbatim>\<open>internal/capsule/json.go\<close>): UTF-8 decoding of concatenations, string literals
  through escaping and decoding, the line separators that the canonical form writes out, and
  number literals through scanning.
\<close>

section \<open>UTF-8 and concatenation\<close>

definition badRune :: "nat \<times> nat \<Rightarrow> bool" where
  "badRune d \<longleftrightarrow> d = (runeError, 1)"

text \<open>A rune that decodes without error is an ASCII byte or a group of bytes outside ASCII.\<close>

lemma separator_digits:
  fixes p q w r :: nat
  assumes "r = 0x2028 \<or> r = 0x2029" "q < 64" "w < 64" "p * 4096 + q * 64 + w = r"
  shows "p = 2" "q = 0" "w = r - 8192"
proof -
  have "\<not> p \<le> 1" "\<not> 3 \<le> p" using assms by linarith+
  then show p: "p = 2" by linarith
  have "\<not> 1 \<le> q" using assms p by linarith
  then show q: "q = 0" by linarith
  show "w = r - 8192" using assms(4) p q by linarith
qed

lemma EncodeRune_separators:
  assumes "r = 0x2028 \<or> r = 0x2029" "contByte b" "contByte c" "0xE0 \<le> code a"
    "(code a - 0xE0) * 4096 + (code b - 0x80) * 64 + (code c - 0x80) = r"
  shows "[a, b, c] = EncodeRune r"
proof -
  have "code b - 0x80 < 64" "code c - 0x80 < 64" using assms(2,3) by (auto simp: contByte_def)
  from separator_digits [OF assms(1) this assms(5)]
  have "code a = 226" "code b = 128" "code c = r - 8192 + 128"
    using assms(2-4) by (auto simp: contByte_def)
  then have "a = char_of (226 :: nat)" "b = char_of (128 :: nat)" "c = char_of (r - 8192 + 128)"
    by (metis char_of_char)+
  then show ?thesis using assms(1) by (elim disjE) (simp_all add: EncodeRune_def)
qed

lemma decodeRune_good:
  assumes "s \<noteq> []" "\<not> badRune (decodeRune s)"
  obtains (ascii) a t where "s = a # t" "code a < 0x80"
    | (wide) bs t r where "s = bs @ t" "2 \<le> length bs" "\<forall>c \<in> set bs. 0x80 \<le> code c" "0x80 \<le> r"
        "\<And>t'. decodeRune (bs @ t') = (r, length bs)" "r = 0x2028 \<or> r = 0x2029 \<Longrightarrow> bs = EncodeRune r"
proof -
  obtain a u where s: "s = a # u" using assms(1) by (cases s) auto
  let ?x = "code a"
  have bad: "\<not> badRune (decodeRune (a # u))" using assms(2) s by simp
  consider "?x < 0x80" | "0xC2 \<le> ?x" "?x \<le> 0xDF" | "0xE0 \<le> ?x" "?x \<le> 0xEF" | "0xF0 \<le> ?x" "?x \<le> 0xF4"
    using bad by (force simp: decodeRune_def badRune_def Let_def)
  then show thesis
  proof cases
    case 1
    then show thesis using s by (intro ascii)
  next
    case 2
    then obtain b v where u: "u = b # v" "contByte b"
      using bad by (cases u) (auto simp: decodeRune_def badRune_def Let_def split: if_splits)
    show thesis
      using 2 u by (intro wide [of "[a, b]" v]) (auto simp: s decodeRune_def contByte_def Let_def)
  next
    case 3
    then obtain b c v where u: "u = b # c # v" "contByte b" "contByte c" "?x = 0xE0 \<longrightarrow> 0xA0 \<le> code b"
        "?x = 0xED \<longrightarrow> code b \<le> 0x9F"
      using bad by (cases u; cases "tl u") (auto simp: decodeRune_def badRune_def Let_def split: if_splits)
    define r where "r = (?x - 0xE0) * 4096 + (code b - 0x80) * 64 + (code c - 0x80)"
    have "0x80 \<le> r" using 3 u(2,4) by (cases "?x = 0xE0") (auto simp: contByte_def r_def)
    moreover have "decodeRune ([a, b, c] @ t') = (r, 3)" for t'
      using 3 u by (simp add: decodeRune_def r_def)
    ultimately show thesis
      using 3(1) u(1-3) EncodeRune_separators [OF _ u(2,3) 3(1) r_def [symmetric]]
      by (intro wide [of "[a, b, c]" v r]) (simp_all add: s contByte_def)
  next
    case 4
    then obtain b c d v where u: "u = b # c # d # v" "contByte b" "contByte c" "contByte d" "?x = 0xF0 \<longrightarrow> 0x90 \<le> code b"
        "?x = 0xF4 \<longrightarrow> code b \<le> 0x8F"
      using bad by (cases u; cases "tl u"; cases "tl (tl u)") (auto simp: decodeRune_def badRune_def Let_def split: if_splits)
    have "0x80 \<le> (?x - 0xF0) * 262144 + (code b - 0x80) * 4096 + (code c - 0x80) * 64 + (code d - 0x80)"
      using 4 u(2,5) by (cases "?x = 0xF0") (auto simp: contByte_def)
    then show thesis
      using 4 u by (intro wide [of "[a, b, c, d]" v]) (auto simp: s decodeRune_def contByte_def Let_def)
  qed
qed

lemma decodeRune_append:
  assumes "s \<noteq> []" "\<not> badRune (decodeRune s)"
  shows "decodeRune (s @ t) = decodeRune s"
  using assms by (cases rule: decodeRune_good) auto

lemma utf8Valid_runes: "utf8Valid s \<longleftrightarrow> (\<forall>x \<in> set (runes s). \<not> (fst x = runeError \<and> length (snd x) = 1))"
  by (simp add: utf8Valid_def)

lemma runes_unfold:
  "s \<noteq> [] \<Longrightarrow> runes s = (fst (decodeRune s), take (snd (decodeRune s)) s) # runes (drop (snd (decodeRune s)) s)"
  by (cases s) (simp_all add: runes.simps(2) Let_def)

lemma length_take_rune: "s \<noteq> [] \<Longrightarrow> length (take (snd (decodeRune s)) s) = snd (decodeRune s)"
  using decodeRune_width(2) [of s] by simp

lemma utf8Valid_head:
  assumes "s \<noteq> []" "utf8Valid s"
  shows "\<not> badRune (decodeRune s)" "utf8Valid (drop (snd (decodeRune s)) s)"
  using assms runes_unfold [OF assms(1)] length_take_rune [OF assms(1)]
  by (auto simp: utf8Valid_def badRune_def prod_eq_iff)

lemma runes_append: "utf8Valid s \<Longrightarrow> runes (s @ t) = runes s @ runes t"
proof (induction s rule: runes.induct)
  case (2 a u)
  let ?s = "a # u" and ?w = "snd (decodeRune (a # u))"
  have d: "decodeRune (?s @ t) = decodeRune ?s"
    using utf8Valid_head(1) [of ?s] 2(2) by (intro decodeRune_append) auto
  have w: "?w \<le> length ?s" by (rule decodeRune_width) simp
  have "runes (drop ?w ?s @ t) = runes (drop ?w ?s) @ runes t"
    using 2(1) [OF refl] utf8Valid_head(2) [of ?s] 2(2) by simp
  moreover have "take ?w (?s @ t) = take ?w ?s" "drop ?w (?s @ t) = drop ?w ?s @ t"
    using w by (simp_all only: take_append drop_append) simp_all
  ultimately show ?case
    using runes_unfold [of "?s @ t"] runes_unfold [of ?s] d by (simp del: append_Cons)
qed simp

lemma utf8Valid_append: "utf8Valid s \<Longrightarrow> utf8Valid (s @ t) = utf8Valid t"
  by (auto simp: utf8Valid_runes runes_append)

lemma utf8Valid_Nil [simp]: "utf8Valid []"
  by (simp add: utf8Valid_def)

lemma utf8Valid_ascii [simp]: "code c < 0x80 \<Longrightarrow> utf8Valid (c # s) = utf8Valid s"
  by (auto simp: utf8Valid_runes runes_ascii runeError_def)

lemma utf8Valid_concat: "(\<And>x. x \<in> set xs \<Longrightarrow> utf8Valid x) \<Longrightarrow> utf8Valid (concat xs)"
  by (induction xs) (auto simp: utf8Valid_append)

text \<open>Induction over a valid string rune by rune.\<close>

lemma utf8_induct [consumes 1, case_names Nil ascii wide]:
  assumes "utf8Valid s" "P []"
    and ascii: "\<And>c t. code c < 0x80 \<Longrightarrow> utf8Valid t \<Longrightarrow> P t \<Longrightarrow> P (c # t)"
    and wide: "\<And>bs r t. 2 \<le> length bs \<Longrightarrow> \<forall>c \<in> set bs. 0x80 \<le> code c \<Longrightarrow> 0x80 \<le> r \<Longrightarrow>
      (\<And>t'. runes (bs @ t') = (r, bs) # runes t') \<Longrightarrow> utf8Valid t \<Longrightarrow> P t \<Longrightarrow> P (bs @ t)"
  shows "P s"
  using assms(1)
proof (induction s rule: runes.induct)
  case (2 a u)
  note head = utf8Valid_head [OF _ 2(2)]
  have IH: "P (drop (snd (decodeRune (a # u))) (a # u))" using 2(1) [OF refl] head(2) by simp
  have "a # u \<noteq> []" "\<not> badRune (decodeRune (a # u))" using head(1) by simp_all
  then show ?case
  proof (cases rule: decodeRune_good)
    case (ascii b t)
    then show ?thesis using IH head(2) assms(3) [of a u] by simp
  next
    case (wide bs t r)
    have d: "decodeRune (a # u) = (r, length bs)" using wide(1,5) by simp
    then have t: "drop (snd (decodeRune (a # u))) (a # u) = t" using wide(1) by simp
    have "runes (bs @ t') = (r, bs) # runes t'" for t'
    proof -
      have "bs @ t' \<noteq> []" using wide(2) by auto
      then show ?thesis using runes_unfold [of "bs @ t'"] wide(5) by simp
    qed
    then have "P (bs @ t)" using wide(2-4) IH head(2) t by (intro assms(4)) simp_all
    then show ?thesis using wide(1) by simp
  qed
qed (use assms(2) in simp)

section \<open>String literals\<close>

text \<open>The canonical literal: the two line separators are written as they are.\<close>

definition rawRune :: "nat \<times> string \<Rightarrow> string" where
  "rawRune x = (if fst x < 0x80 then concat (map escapeByte (snd x))
     else if fst x = runeError \<and> length (snd x) = 1 then backslash # ''ufffd'' else snd x)"

definition rawString :: "string \<Rightarrow> string" where
  "rawString s = quote # concat (map rawRune (runes s)) @ [quote]"

lemma quote_code [simp]: "code quote = 34" "code backslash = 92" "quote \<noteq> backslash" "backslash \<noteq> quote"
  by (simp_all add: quote_def backslash_def)

lemma code_inject: "code a = code b \<longleftrightarrow> a = b"
  by (metis char_of_char)

lemma consume_simps [simp]: "consume xs (Some (a, b)) = Some (xs @ a, b)" "consume xs None = None"
  by (simp_all add: consume_def)

lemma consume_append: "consume xs (consume ys r) = consume (xs @ ys) r"
  by (cases r) (auto simp: consume_def)

lemma char_of_small: "n < 256 \<Longrightarrow> code (char_of n) = n"
  by (simp add: of_char_of)

lemma decodeBody_plain: "c \<noteq> quote \<Longrightarrow> c \<noteq> backslash \<Longrightarrow> 32 \<le> code c \<Longrightarrow> decodeBody (c # t) = consume [c] (decodeBody t)"
  by (subst decodeBody.simps) simp

lemma decodeBody_escape:
  "e \<noteq> CHR ''u'' \<Longrightarrow> simpleEscape e = Some x \<Longrightarrow> decodeBody (backslash # e # t) = consume [x] (decodeBody t)"
  by (subst decodeBody.simps) simp

lemma decodeBody_unicode:
  "hex4 a b c d = Some r \<Longrightarrow> r < 0x80 \<Longrightarrow>
    decodeBody (backslash # CHR ''u'' # a # b # c # d # t) = consume [char_of r] (decodeBody t)"
  by (subst decodeBody.simps) (simp add: EncodeRune_def Let_def runeError_def)

lemma simpleEscape_simps:
  "simpleEscape quote = Some quote" "simpleEscape backslash = Some backslash"
  "simpleEscape CHR ''b'' = Some (char_of (8 :: nat))" "simpleEscape CHR ''f'' = Some (char_of (12 :: nat))"
  "simpleEscape CHR ''n'' = Some (char_of (10 :: nat))" "simpleEscape CHR ''r'' = Some (char_of (13 :: nat))"
  "simpleEscape CHR ''t'' = Some (char_of (9 :: nat))" "quote \<noteq> CHR ''u''" "backslash \<noteq> CHR ''u''"
  by (simp_all add: simpleEscape_def quote_def backslash_def)

lemma hexValue_zero: "hexValue CHR ''0'' = Some 0"
  using hexValue_hextable [of 0] by (simp add: hextable_def)

lemma decodeBody_escapeByte:
  assumes "code c < 0x80"
  shows "decodeBody (escapeByte c @ t) = consume [c] (decodeBody t)"
proof -
  let ?n = "code c"
  have inv: "char_of ?n = c" by simp
  consider "c = quote \<or> c = backslash" | "?n = 8" | "?n = 12" | "?n = 10" | "?n = 13" | "?n = 9"
    | "c \<noteq> quote" "c \<noteq> backslash" "?n \<notin> {8, 12, 10, 13, 9}" "?n < 32"
    | "c \<noteq> quote" "c \<noteq> backslash" "32 \<le> ?n" by force
  then show ?thesis
  proof cases
    case 7
    have "hex4 CHR ''0'' CHR ''0'' (hextable ! (?n div 16)) (hextable ! (?n mod 16)) = Some ?n"
      using 7(4) by (simp add: hex4_def hexValue_zero hexValue_hextable del: hexValue.simps)
    from decodeBody_unicode [OF this assms] show ?thesis
      using 7 inv by (simp add: escapeByte_def)
  next
    case 8
    then have "escapeByte c = [c]" by (auto simp: escapeByte_def)
    then show ?thesis using decodeBody_plain [of c t] 8 by simp
  qed (use inv in \<open>auto simp: escapeByte_def decodeBody_escape simpleEscape_simps\<close>)
qed

lemma decodeBody_wide:
  "\<forall>c \<in> set bs. 0x80 \<le> code c \<Longrightarrow> decodeBody (bs @ t) = consume bs (decodeBody t)"
proof (induction bs)
  case Nil
  then show ?case by (cases "decodeBody t") auto
next
  case (Cons c bs)
  then have "c \<noteq> quote" "c \<noteq> backslash" by auto
  then show ?case using Cons decodeBody_plain [of c "bs @ t"] by (simp add: consume_append)
qed

lemma runes_string_simps:
  "code c < 0x80 \<Longrightarrow> map rawRune (runes (c # t)) = escapeByte c # map rawRune (runes t)"
  by (simp add: runes_ascii rawRune_def)

lemma decodeBody_raw:
  "utf8Valid s \<Longrightarrow> decodeBody (concat (map rawRune (runes s)) @ quote # rest) = Some (s, rest)"
proof (induction s rule: utf8_induct)
  case Nil
  then show ?case by (simp add: decodeBody.simps)
next
  case (ascii c t)
  then show ?case by (simp add: runes_string_simps decodeBody_escapeByte)
next
  case (wide bs r t)
  then have "rawRune (r, bs) = bs" by (auto simp: rawRune_def)
  then show ?case using wide by (simp add: decodeBody_wide)
qed

lemma escapeByte_ascii: "code c < 0x80 \<Longrightarrow> x \<in> set (escapeByte c) \<Longrightarrow> code x < 0x80"
proof -
  have "code (hextable ! n) < 0x80" if "n < 16" for n
  proof -
    have "\<forall>x \<in> set hextable. code x < 0x80" "length hextable = 16" by (simp_all add: hextable_def)
    then show ?thesis using that nth_mem [of n hextable] by simp
  qed
  then show "code c < 0x80 \<Longrightarrow> x \<in> set (escapeByte c) \<Longrightarrow> code x < 0x80"
    by (auto simp: escapeByte_def split: if_splits)
qed

lemma utf8Valid_all_ascii: "\<forall>c \<in> set s. code c < 0x80 \<Longrightarrow> utf8Valid (s @ t) = utf8Valid t"
  by (induction s) auto

lemma utf8Valid_raw: "utf8Valid s \<Longrightarrow> utf8Valid (concat (map rawRune (runes s)))"
proof (induction s rule: utf8_induct)
  case (ascii c t)
  then show ?case by (simp add: runes_string_simps utf8Valid_all_ascii escapeByte_ascii)
next
  case (wide bs r t)
  then have "rawRune (r, bs) = bs" by (auto simp: rawRune_def)
  moreover have "utf8Valid bs" using wide(4) [of "[]"] wide(1) by (auto simp: utf8Valid_def)
  ultimately show ?case using wide by (simp add: utf8Valid_append)
qed simp

lemma utf8Valid_rawString: "utf8Valid s \<Longrightarrow> utf8Valid (rawString s @ t) = utf8Valid t"
  by (simp add: rawString_def utf8Valid_append utf8Valid_raw)

section \<open>Line separators\<close>

lemma unescape_Nil [simp]: "unescapeFrom n [] = []"
  by (simp add: unescapeFrom.simps)

lemma lineSeparator_plain: "c \<noteq> backslash \<Longrightarrow> lineSeparator (c # s) = None"
  by (simp add: lineSeparator_def HasPrefix_def)

lemma unescape_plain [simp]: "c \<noteq> backslash \<Longrightarrow> unescapeFrom n (c # s) = c # unescapeFrom 0 s"
  by (subst unescapeFrom.simps) (simp add: lineSeparator_plain)

lemma unescape_text: "backslash \<notin> set a \<Longrightarrow> unescapeFrom 0 (a @ b) = a @ unescapeFrom 0 b"
  by (induction a) auto

lemma lineSeparator_other:
  "e \<noteq> CHR ''u'' \<or> x \<noteq> CHR ''2'' \<Longrightarrow> lineSeparator (backslash # e # x # s) = None"
  "e \<noteq> CHR ''u'' \<Longrightarrow> lineSeparator (backslash # e # s) = None"
  by (auto simp: lineSeparator_def HasPrefix_def)

lemma unescape_backslash:
  "lineSeparator (backslash # s) = None \<Longrightarrow> unescapeFrom n (backslash # s) = backslash # unescapeFrom (Suc n) s"
  by (subst unescapeFrom.simps) simp

lemma unescape_escaped:
  "even n \<Longrightarrow> unescapeFrom n (backslash # backslash # s) = backslash # backslash # unescapeFrom (n + 2) s"
  using unescapeFrom.simps [of "Suc n" "backslash # s"]
  by (simp add: unescape_backslash lineSeparator_other simpleEscape_simps)

lemma hextable_plain: "n < 16 \<Longrightarrow> hextable ! n \<noteq> backslash"
proof -
  have "\<forall>x \<in> set hextable. x \<noteq> backslash" "length hextable = 16" by (simp_all add: hextable_def backslash_def)
  then show "n < 16 \<Longrightarrow> ?thesis" using nth_mem [of n hextable] by auto
qed

lemma ascii_not_backslash [simp]:
  "CHR ''u'' \<noteq> backslash" "CHR ''b'' \<noteq> backslash" "CHR ''f'' \<noteq> backslash" "CHR ''n'' \<noteq> backslash"
  "CHR ''r'' \<noteq> backslash" "CHR ''t'' \<noteq> backslash" "CHR ''0'' \<noteq> backslash" "CHR ''d'' \<noteq> backslash"
  by (simp_all add: backslash_def)

lemma unescape_escapeByte:
  assumes "even n" "code c < 0x80"
  shows "\<exists>m. even m \<and> unescapeFrom n (escapeByte c @ b) = escapeByte c @ unescapeFrom m b"
proof (cases "c = backslash")
  case True
  then have "even (n + 2)" "unescapeFrom n (escapeByte c @ b) = escapeByte c @ unescapeFrom (n + 2) b"
    using assms(1) by (simp_all add: escapeByte_def unescape_escaped)
  then show ?thesis by blast
next
  case False
  have "code c div 16 < 16" "code c mod 16 < 16" using assms(2) by auto
  then have "unescapeFrom n (escapeByte c @ b) = escapeByte c @ unescapeFrom 0 b"
    using False hextable_plain [of "code c div 16"] hextable_plain [of "code c mod 16"]
    by (simp add: escapeByte_def unescape_backslash lineSeparator_other simpleEscape_simps)
  then show ?thesis by (metis even_zero)
qed

text \<open>A byte that starts no rune is escaped as the error rune.\<close>

lemma unescape_invalid:
  "unescapeFrom n (backslash # ''ufffd'' @ b) = backslash # ''ufffd'' @ unescapeFrom 0 b"
  by (simp add: unescape_backslash lineSeparator_other)

lemma unescape_separators:
  assumes "even n"
  shows "unescapeFrom n (backslash # ''u2028'' @ b) = EncodeRune 0x2028 @ unescapeFrom 0 b"
    and "unescapeFrom n (backslash # ''u2029'' @ b) = EncodeRune 0x2029 @ unescapeFrom 0 b"
  using assms by (subst unescapeFrom.simps, simp add: lineSeparator_def HasPrefix_def)+

lemma unescape_rune:
  assumes "even n" "s \<noteq> []"
  defines "x \<equiv> (fst (decodeRune s), take (snd (decodeRune s)) s)"
  shows "\<exists>m. even m \<and> unescapeFrom n (escapeRune x @ b) = rawRune x @ unescapeFrom m b"
proof (cases "badRune (decodeRune s)")
  case True
  then have "escapeRune x = backslash # ''ufffd''" "rawRune x = backslash # ''ufffd''"
    using assms(2) by (simp_all add: x_def badRune_def escapeRune_def rawRune_def runeError_def Suc_le_eq)
  then show ?thesis using unescape_invalid [of n b] by (metis append_Cons even_zero)
next
  case False
  from assms(2) False show ?thesis
  proof (cases rule: decodeRune_good)
    case (ascii a t)
    then have "escapeRune x = escapeByte a" "rawRune x = escapeByte a"
      by (simp_all add: x_def escapeRune_def rawRune_def)
    then show ?thesis using unescape_escapeByte [OF assms(1) ascii(2)] by simp
  next
    case (wide bs t r)
    then have x: "x = (r, bs)" "\<not> r < 0x80" "length bs \<noteq> 1" by (auto simp: x_def)
    then have raw: "rawRune x = bs" by (simp add: rawRune_def)
    consider "r = 0x2028" | "r = 0x2029" | "r \<noteq> 0x2028" "r \<noteq> 0x2029" by blast
    then show ?thesis
    proof cases
      case 1
      then have "escapeRune x = backslash # ''u2028''" using x by (simp add: escapeRune_def runeError_def)
      then show ?thesis using unescape_separators(1) [OF assms(1), of b] wide(6) 1 raw
        by (metis append_Cons even_zero)
    next
      case 2
      then have "escapeRune x = backslash # ''u2029''" using x by (simp add: escapeRune_def runeError_def)
      then show ?thesis using unescape_separators(2) [OF assms(1), of b] wide(6) 2 raw
        by (metis append_Cons even_zero)
    next
      case 3
      then have "escapeRune x = bs" using x by (simp add: escapeRune_def)
      moreover obtain c cs where bs: "bs = c # cs" using wide(2) by (cases bs) auto
      moreover have "backslash \<notin> set bs" using wide(3) by auto
      ultimately have "unescapeFrom n (escapeRune x @ b) = bs @ unescapeFrom 0 b"
        using unescape_text [of cs b] by auto
      then show ?thesis using raw by (metis even_zero)
    qed
  qed
qed

lemma unescape_runes:
  "even n \<Longrightarrow> \<exists>m. even m \<and>
    unescapeFrom n (concat (map escapeRune (runes s)) @ b) = concat (map rawRune (runes s)) @ unescapeFrom m b"
proof (induction s arbitrary: n rule: runes.induct)
  case (2 a t)
  let ?s = "a # t"
  let ?x = "(fst (decodeRune ?s), take (snd (decodeRune ?s)) ?s)" and ?u = "drop (snd (decodeRune ?s)) ?s"
  let ?b = "concat (map escapeRune (runes ?u)) @ b"
  obtain m where m: "even m" "unescapeFrom n (escapeRune ?x @ ?b) = rawRune ?x @ unescapeFrom m ?b"
    using unescape_rune [OF 2(2), of ?s ?b] by blast
  moreover obtain k where "even k" "unescapeFrom m ?b = concat (map rawRune (runes ?u)) @ unescapeFrom k b"
    using 2(1) [OF refl m(1)] by auto
  ultimately show ?case using runes_unfold [of ?s] by auto
qed auto

lemma unescape_encodeString: "unescapeFrom n (encodeString s @ b) = rawString s @ unescapeFrom 0 b"
proof -
  obtain m where "unescapeFrom 0 (concat (map escapeRune (runes s)) @ quote # b) =
      concat (map rawRune (runes s)) @ unescapeFrom m (quote # b)"
    using unescape_runes [of 0 s "quote # b"] by auto
  then show ?thesis by (simp add: encodeString_def rawString_def)
qed

section \<open>Number literals\<close>

definition afterNumber :: "string \<Rightarrow> bool" where
  "afterNumber r \<longleftrightarrow> r = [] \<or> hd r \<in> set '',]}''"

lemma takeWhile_stop:
  "r = [] \<or> \<not> P (hd r) \<Longrightarrow> takeWhile P (s @ r) = takeWhile P s \<and> dropWhile P (s @ r) = dropWhile P s @ r"
  by (induction s) (auto simp: takeWhile_eq_Nil_iff dropWhile_eq_self_iff)

lemma afterNumber_hd: "afterNumber r \<Longrightarrow> r \<noteq> [] \<Longrightarrow> \<not> isDigit (hd r) \<and> hd r \<notin> set ''.eE+-''"
  by (auto simp: afterNumber_def isDigit_def)

lemma scanSign_append: "s \<noteq> [] \<Longrightarrow> scanSign signs (s @ r) = apsnd (\<lambda>b. b @ r) (scanSign signs s)"
  by (cases s) (auto simp: scanSign_def)

lemma scanSign_split: "scanSign signs s = (a, b) \<Longrightarrow> s = a @ b \<and> set a \<subseteq> set signs"
  by (cases s) (auto simp: scanSign_def split: if_splits)

lemma scanInteger_append:
  assumes "scanInteger s = Some (a, b)" "afterNumber r"
  shows "scanInteger (s @ r) = Some (a, b @ r)"
  using assms takeWhile_stop [of r isDigit s] afterNumber_hd [of r]
  by (cases s) (auto simp: scanInteger_def split: if_splits)

lemma scanFraction_append:
  assumes "scanFraction s = Some (a, b)" "afterNumber r"
  shows "scanFraction (s @ r) = Some (a, b @ r)"
  using assms takeWhile_stop [of r isDigit "tl s"] afterNumber_hd [of r]
  by (cases s; cases r) (auto simp: scanFraction_def split: if_splits)

lemma scanExponent_append:
  assumes "scanExponent s = Some (a, b)" "afterNumber r"
  shows "scanExponent (s @ r) = Some (a, b @ r)"
proof (cases s)
  case Nil
  then show ?thesis using assms afterNumber_hd [of r] by (cases r) (auto simp: scanExponent_def)
next
  case (Cons c t)
  show ?thesis
  proof (cases "c = CHR ''e'' \<or> c = CHR ''E''")
    case True
    obtain sign u where u: "scanSign ''+-'' t = (sign, u)" by fastforce
    have t: "t \<noteq> []" using assms(1) True Cons by (auto simp: scanExponent_def scanSign_def)
    have "r = [] \<or> \<not> isDigit (hd r)" using afterNumber_hd [OF assms(2)] by blast
    from takeWhile_stop [of r isDigit u, OF this] show ?thesis using assms(1) u True Cons
      by (auto simp: scanExponent_def scanSign_append [OF t] split: if_splits)
  qed (use assms Cons in \<open>auto simp: scanExponent_def\<close>)
qed

lemma scanNumber_append:
  assumes "scanNumber s = Some (n, b)" "afterNumber r" "s \<noteq> []"
  shows "scanNumber (s @ r) = Some (n, b @ r)"
proof -
  obtain sign s0 whole s1 fraction s2 e where parts: "scanSign ''-'' s = (sign, s0)" "scanInteger s0 = Some (whole, s1)"
      "scanFraction s1 = Some (fraction, s2)" "scanExponent s2 = Some (e, b)" "n = sign @ whole @ fraction @ e"
    using assms(1) by (auto simp: scanNumber_def split: prod.splits option.splits)
  then show ?thesis
    using assms(2,3) scanInteger_append [OF parts(2)] scanFraction_append [OF parts(3)] scanExponent_append [OF parts(4)]
    by (simp add: scanNumber_def scanSign_append)
qed

lemma scanInteger_split:
  assumes "scanInteger s = Some (a, b)"
  shows "s = a @ b" "a \<noteq> []" "\<forall>c \<in> set a. isDigit c"
    "x = [] \<or> \<not> isDigit (hd x) \<Longrightarrow> scanInteger (a @ x) = Some (a, x)"
  using assms takeWhile_stop [of x isDigit a]
  by (auto simp: scanInteger_def isDigit_def [of "CHR ''0''"] dest: set_takeWhileD split: list.splits if_splits)

lemma scanFraction_split:
  assumes "scanFraction s = Some (a, b)"
  shows "s = a @ b" "a = [] \<or> hd a = CHR ''.''" "\<forall>c \<in> set a. isDigit c \<or> c = CHR ''.''"
    "x = [] \<or> \<not> isDigit (hd x) \<and> hd x \<noteq> CHR ''.'' \<Longrightarrow> scanFraction (a @ x) = Some (a, x)"
  using assms takeWhile_stop [of x isDigit "tl a"]
  by (auto simp: scanFraction_def dest: set_takeWhileD split: list.splits if_splits)

lemma scanExponent_split:
  assumes "scanExponent s = Some (a, b)"
  shows "s = a @ b" "a = [] \<or> hd a \<in> set ''eE''" "\<forall>c \<in> set a. isDigit c \<or> c \<in> set ''eE+-''"
    "scanExponent a = Some (a, [])"
proof -
  have "s = a @ b \<and> (a = [] \<or> hd a \<in> set ''eE'') \<and> (\<forall>c \<in> set a. isDigit c \<or> c \<in> set ''eE+-'') \<and>
    scanExponent a = Some (a, [])"
  proof (cases s)
    case (Cons c t)
    show ?thesis
    proof (cases "c = CHR ''e'' \<or> c = CHR ''E''")
      case True
      obtain sign u where u: "scanSign ''+-'' t = (sign, u)" by fastforce
      let ?d = "takeWhile isDigit u"
      have a: "a = c # sign @ ?d" "b = dropWhile isDigit u" "?d \<noteq> []"
        using assms True Cons u by (auto simp: scanExponent_def split: if_splits)
      have sub: "t = sign @ u" "set sign \<subseteq> set ''+-''" using scanSign_split [OF u] by simp_all
      have "\<forall>x \<in> set ?d. isDigit x" by (auto dest: set_takeWhileD)
      moreover have "hd ?d \<notin> set ''+-''" using a(3) calculation by (cases ?d) (auto simp: isDigit_def)
      moreover have "scanSign ''+-'' (sign @ ?d) = (sign, ?d)"
        using u a(3) calculation(2) by (cases t) (auto simp: scanSign_def split: list.splits if_splits)
      ultimately show ?thesis using a sub Cons True
        by (auto simp: scanExponent_def)
    qed (use assms Cons in \<open>auto simp: scanExponent_def\<close>)
  qed (use assms in \<open>auto simp: scanExponent_def\<close>)
  then show "s = a @ b" "a = [] \<or> hd a \<in> set ''eE''" "\<forall>c \<in> set a. isDigit c \<or> c \<in> set ''eE+-''"
    "scanExponent a = Some (a, [])" by blast+
qed

definition numberChar :: "char \<Rightarrow> bool" where
  "numberChar c \<longleftrightarrow> isDigit c \<or> c \<in> set ''.eE+-''"

lemma scanNumber_split:
  assumes "scanNumber s = Some (n, b)"
  shows "s = n @ b \<and> n \<noteq> [] \<and> isValidNumber n \<and> (\<forall>c \<in> set n. numberChar c) \<and> (hd n = CHR ''-'' \<or> isDigit (hd n))"
proof -
  obtain sign s0 whole s1 fraction s2 e where parts: "scanSign ''-'' s = (sign, s0)" "scanInteger s0 = Some (whole, s1)"
      "scanFraction s1 = Some (fraction, s2)" "scanExponent s2 = Some (e, b)" and n: "n = sign @ whole @ fraction @ e"
    using assms by (auto simp: scanNumber_def split: prod.splits option.splits)
  note w = scanInteger_split [OF parts(2)] and f = scanFraction_split [OF parts(3)] and x = scanExponent_split [OF parts(4)]
  have sign: "s = sign @ s0" "sign = [] \<or> sign = ''-''"
    using scanSign_split [OF parts(1)] parts(1) by (auto simp: scanSign_def split: list.splits if_splits)
  have "e = [] \<or> \<not> isDigit (hd e) \<and> hd e \<noteq> CHR ''.''" using x(2) by (auto simp: isDigit_def)
  then have fe: "scanFraction (fraction @ e) = Some (fraction, e)" by (rule f(4))
  have "fraction @ e = [] \<or> \<not> isDigit (hd (fraction @ e))"
    using f(2) x(2) by (cases fraction) (auto simp: isDigit_def)
  then have we: "scanInteger (whole @ fraction @ e) = Some (whole, fraction @ e)" by (rule w(4))
  have hd: "isDigit (hd whole)" "hd whole \<noteq> CHR ''-''" using w(2,3) by (cases whole; auto simp: isDigit_def)+
  then have "scanSign ''-'' n = (sign, whole @ fraction @ e)"
    using sign(2) w(2) n by (cases whole) (auto simp: scanSign_def)
  then have "isValidNumber n" using we fe x(4) n by (simp add: isValidNumber_def scanNumber_def)
  moreover have "hd n = CHR ''-'' \<or> isDigit (hd n)" using sign(2) hd(1) w(2) n by (cases whole) auto
  ultimately show ?thesis
    using sign w(1,2,3) f(1,3) x(1,3) n by (auto simp: numberChar_def)
qed

lemma validNumber:
  assumes "isValidNumber n"
  shows "n \<noteq> []" "\<forall>c \<in> set n. numberChar c" "hd n = CHR ''-'' \<or> isDigit (hd n)"
    "afterNumber r \<Longrightarrow> scanNumber (n @ r) = Some (n, r)"
  using scanNumber_split [of n n "[]"] scanNumber_append [of n n "[]" r] assms by (simp_all add: isValidNumber_def)

end
