(* ===== verification/CapsuleCodec.thy ===== *)
theory CapsuleCodec
  imports JsonText
begin

text \<open>
  The strict decoder reads back what the canonical encoder writes
  (\<^verbatim>\<open>internal/capsule/json.go\<close>), and everything it accepts is within its limits.
\<close>

section \<open>What the decoder may return\<close>

text \<open>
  The values within the limits, at a depth: sorted objects without duplicate members, valid
  strings of bounded length, number literals with a finite value.
\<close>

fun accepted :: "complexityLimits \<Rightarrow> nat \<Rightarrow> gval \<Rightarrow> bool" where
  "accepted limits d GNull \<longleftrightarrow> int d \<le> maxDepth limits"
| "accepted limits d (GBool b) \<longleftrightarrow> int d \<le> maxDepth limits"
| "accepted limits d (GNumber n) \<longleftrightarrow> int d \<le> maxDepth limits \<and> isValidNumber n \<and> checkScalar limits (GNumber n) = Inr ()"
| "accepted limits d (GString s) \<longleftrightarrow> int d \<le> maxDepth limits \<and> checkScalar limits (GString s) = Inr ()"
| "accepted limits d (GArray xs) \<longleftrightarrow> int d \<le> maxDepth limits \<and> list_all (accepted limits (Suc d)) xs"
| "accepted limits d (GObject kvs) \<longleftrightarrow> int d \<le> maxDepth limits \<and> sorted_wrt (<) (map fst kvs) \<and>
     list_all (\<lambda>kv. utf8Valid (fst kv) \<and> int (length (fst kv)) \<le> maxStringBytes limits \<and>
       accepted limits (Suc d) (snd kv)) kvs"
| "accepted limits d GOpaque \<longleftrightarrow> False"

fun members :: "gval \<Rightarrow> nat" where
  "members (GArray xs) = sum_list (map members xs)"
| "members (GObject kvs) = sum_list (map (\<lambda>kv. Suc (members (snd kv))) kvs)"
| "members _ = 0"

section \<open>Canonical encoding without escapes\<close>

lemma those_eq_Some: "those xs = Some ys \<longleftrightarrow> xs = map Some ys"
  by (induction xs arbitrary: ys) (auto split: option.splits)

lemma those_eq_None: "those xs = None \<longleftrightarrow> None \<in> set xs"
  by (induction xs) (auto split: option.splits)

lemma those_rel: "list_all2 (rel_option R) xs ys \<Longrightarrow> rel_option (list_all2 R) (those xs) (those ys)"
proof (induction rule: list_all2_induct)
  case (Cons x xs y ys)
  then show ?case by (cases x; cases y; cases "those xs"; cases "those ys") auto
qed simp

definition unescapesTo :: "string \<Rightarrow> string \<Rightarrow> bool" where
  "unescapesTo e f \<longleftrightarrow> (\<forall>b. unescapeFrom 0 (e @ b) = f @ unescapeFrom 0 b)"

lemma unescapesTo_append: "unescapesTo a b \<Longrightarrow> unescapesTo c d \<Longrightarrow> unescapesTo (a @ c) (b @ d)"
  by (simp add: unescapesTo_def)

lemma unescapesTo_text: "backslash \<notin> set a \<Longrightarrow> unescapesTo a a"
  by (simp add: unescapesTo_def unescape_text)

lemma unescapesTo_commas: "list_all2 unescapesTo es fs \<Longrightarrow> unescapesTo (commas es) (commas fs)"
proof (induction es arbitrary: fs rule: commas.induct)
  case (3 x y xs)
  then obtain x' y' xs' where fs: "fs = x' # y' # xs'" "unescapesTo x x'" "list_all2 unescapesTo (y # xs) (y' # xs')"
    by (auto simp: list_all2_Cons1)
  have "unescapesTo '','' '',''" by (rule unescapesTo_text) (simp add: backslash_def)
  then show ?case using 3(1) [OF fs(3)] fs(1,2) by (simp only: commas.simps unescapesTo_append)
qed (auto simp: list_all2_Cons1 unescapesTo_def)

lemma unescape_value: "rel_option unescapesTo (encodeWith encodeString v) (encodeWith rawString v)"
proof (induction v)
  case (GNumber n)
  have "isValidNumber n \<Longrightarrow> backslash \<notin> set n"
    using validNumber(2) [of n] by (force simp: numberChar_def isDigit_def backslash_def)
  then show ?case by (simp add: unescapesTo_text backslash_def)
next
  case (GString s)
  then show ?case by (simp add: unescapesTo_def unescape_encodeString)
next
  case (GArray xs)
  then have "rel_option (list_all2 unescapesTo) (those (map (encodeWith encodeString) xs)) (those (map (encodeWith rawString) xs))"
    by (intro those_rel) (simp add: list_all2_conv_all_nth)
  then show ?case
    by (cases "those (map (encodeWith encodeString) xs)"; cases "those (map (encodeWith rawString) xs)")
      (auto intro!: unescapesTo_append unescapesTo_text unescapesTo_commas simp: backslash_def
        simp del: append_Cons append_Nil)
next
  case (GObject kvs)
  let ?m = "\<lambda>q kv. map_option (\<lambda>e. q (fst kv) @ '':'' @ e) (encodeWith q (snd kv))"
  have colon: "unescapesTo '':'' '':''" by (rule unescapesTo_text) (simp add: backslash_def)
  have "rel_option unescapesTo (?m encodeString kv) (?m rawString kv)" if "kv \<in> set kvs" for kv
    using GObject [of kv "snd kv"] that colon
    by (cases "encodeWith encodeString (snd kv)"; cases "encodeWith rawString (snd kv)")
      (auto intro!: unescapesTo_append simp: unescapesTo_def unescape_encodeString snds.simps simp del: append_Cons append_Nil)
  then have "rel_option (list_all2 unescapesTo) (those (map (?m encodeString) (sort_key fst kvs)))
      (those (map (?m rawString) (sort_key fst kvs)))"
    by (intro those_rel) (simp add: list_all2_conv_all_nth nth_mem [of _ "sort_key fst kvs", simplified])
  then show ?case
    by (cases "those (map (?m encodeString) (sort_key fst kvs))"; cases "those (map (?m rawString) (sort_key fst kvs))")
      (auto intro!: unescapesTo_append unescapesTo_text unescapesTo_commas simp: backslash_def
        simp del: append_Cons append_Nil)
qed (auto intro!: unescapesTo_text simp: backslash_def)

lemma TrimSuffix_newline: "TrimSuffix (e @ [newline]) [newline] = e"
  by (simp add: TrimSuffix_def HasSuffix_def)

lemma canonicalJSON_raw: "canonicalJSON v = encodeWith rawString v"
proof -
  have "unescapesTo e f \<Longrightarrow> unescapeFrom 0 e = f" for e f
    unfolding unescapesTo_def by (metis append_Nil2 unescape_Nil)
  then show ?thesis using unescape_value [of v]
    by (cases "encodeWith encodeString v"; cases "encodeWith rawString v")
      (auto simp: canonicalJSON_def encodeValue_def TrimSuffix_newline unescapeJSONLineSeparators_def)
qed

section \<open>The decoder makes progress\<close>

lemma decodeBody_shorter: "decodeBody s = Some (x, r) \<Longrightarrow> length r < length s"
proof (induction "length s" arbitrary: s x r rule: less_induct)
  case less
  have IH: "consume y (decodeBody u) = Some (x, r) \<Longrightarrow> length u < length s \<Longrightarrow> length r < length s" for y u
    using less(1) [of u] by (cases "decodeBody u") (force simp: consume_def)+
  show ?case using less(2) by (subst (asm) decodeBody.simps) (auto split: list.splits if_splits option.splits dest!: IH)
qed

lemma skipSpace_le: "length (skipSpace s) \<le> length s"
  by (simp add: skipSpace_def length_dropWhile_le)

lemma skipSpace_Cons_less: "skipSpace s = c # t \<Longrightarrow> length t < length s"
  using skipSpace_le [of s] by simp

lemma tokenStart_le: "tokenStart st s = Some t \<Longrightarrow> length t \<le> length s"
  using skipSpace_le [of s] le_trans [OF skipSpace_le less_imp_le [OF skipSpace_Cons_less]]
  by (auto simp: tokenStart_def Let_def split: tokenState.splits list.splits if_splits)

lemma scanScalar_ok:
  assumes "scanScalar s = Some (token, r)"
  shows "length r < length s" "token = GNull \<or> (\<exists>b. token = GBool b) \<or> (\<exists>t. token = GString t) \<or> (\<exists>n. token = GNumber n \<and> isValidNumber n)"
proof -
  have num: "scanNumber u = Some (n, r) \<Longrightarrow> length r < length u \<and> isValidNumber n" for u n
    using scanNumber_split [of u n r] by auto
  have "length r < length s \<and> (token = GNull \<or> (\<exists>b. token = GBool b) \<or> (\<exists>t. token = GString t) \<or> (\<exists>n. token = GNumber n \<and> isValidNumber n))"
    using assms by (auto simp: scanScalar_def split: list.splits if_splits dest: decodeBody_shorter dest!: num)
  then show "length r < length s" "token = GNull \<or> (\<exists>b. token = GBool b) \<or> (\<exists>t. token = GString t) \<or> (\<exists>n. token = GNumber n \<and> isValidNumber n)"
    by blast+
qed

text \<open>What a decoder of values promises to the loops around it.\<close>

definition decodesWithin :: "complexityLimits \<Rightarrow> nat \<Rightarrow> (nat \<Rightarrow> string \<Rightarrow> decoded) \<Rightarrow> bool" where
  "decodesWithin limits d decode \<longleftrightarrow> (\<forall>k s. decode k s \<noteq> Inl ErrOutOfFuel \<and>
     (\<forall>v k' r. decode k s = Inr (v, k', r) \<longrightarrow> length r < length s \<and> accepted limits d v \<and> k' = k + members v \<and>
       (k' = k \<or> int k' \<le> maxKeys limits)))"

lemma decodesWithinD:
  assumes "decodesWithin limits d decode" "decode k s = Inr (v, k', r)"
  shows "length r < length s" "accepted limits d v" "k' = k + members v" "k' = k \<or> int k' \<le> maxKeys limits"
  using assms by (auto simp: decodesWithin_def)

lemma decodeElements_total:
  assumes "\<And>st. decodesWithin limits (Suc d) (decode st)"
  shows "length s < n \<Longrightarrow> decodeElements n decode st k acc s \<noteq> Inl ErrOutOfFuel"
proof (induction n arbitrary: st k acc s)
  case (Suc n)
  have "decodeElements n decode tokenArrayComma k' acc' t \<noteq> Inl ErrOutOfFuel" if "decode st k s = Inr (v, k', t)" for v k' t acc'
    using Suc.IH Suc.prems decodesWithinD(1) [OF assms that] by simp
  moreover have "decode st k s \<noteq> Inl ErrOutOfFuel" using assms by (simp add: decodesWithin_def)
  ultimately show ?case by (auto simp: result_simps split: list.splits)
qed simp

lemma decodeElements_sound:
  assumes "\<And>st. decodesWithin limits (Suc d) (decode st)"
  shows "decodeElements n decode st k acc s = Inr (v, k', r) \<Longrightarrow> list_all (accepted limits (Suc d)) acc \<Longrightarrow>
    \<exists>xs. v = GArray (acc @ xs) \<and> list_all (accepted limits (Suc d)) (acc @ xs) \<and> length r < length s \<and>
      k' = k + sum_list (map members xs) \<and> (k' = k \<or> int k' \<le> maxKeys limits)"
proof (induction n arbitrary: st k acc s)
  case (Suc n)
  show ?case
  proof (cases "More s")
    case True
    then obtain x k1 t where x: "decode st k s = Inr (x, k1, t)"
        "decodeElements n decode tokenArrayComma k1 (acc @ [x]) t = Inr (v, k', r)"
      using Suc.prems(1) by (auto simp: result_simps)
    note d = decodesWithinD [OF assms x(1)]
    from Suc.IH [OF x(2)] Suc.prems(2) d(2) obtain xs where
      xs: "v = GArray (acc @ x # xs)" "list_all (accepted limits (Suc d)) (acc @ x # xs)" "length r < length t"
      "k' = k1 + sum_list (map members xs)" "k' = k1 \<or> int k' \<le> maxKeys limits" by auto
    have "k' = k \<or> int k' \<le> maxKeys limits" using xs(5) d(4) by blast
    then show ?thesis using xs(1-4) d(1,3) by (intro exI [of _ "x # xs"]) simp
  next
    case False
    then show ?thesis using Suc.prems skipSpace_Cons_less [of s]
      by (auto simp: result_simps split: list.splits if_splits)
  qed
qed simp

lemma putMember_keys: "set (map fst (putMember k v ms)) = insert k (set (map fst ms))"
  by (induction ms) auto

lemma putMember_sorted: "sorted_wrt (<) (map fst ms) \<Longrightarrow> sorted_wrt (<) (map fst (putMember k v ms))"
proof (induction ms)
  case (Cons m ms)
  then show ?case using putMember_keys [of k v ms] by (auto simp: image_iff)
qed simp

lemma putMember_all:
  "P (k, v) \<Longrightarrow> list_all P ms \<Longrightarrow> list_all P (putMember k v ms)"
  by (induction ms) auto

lemma putMember_members:
  "map_of ms k = None \<Longrightarrow> members (GObject (putMember k v ms)) = Suc (members v) + members (GObject ms)"
  by (induction ms) (auto split: if_splits)

definition memberOk :: "complexityLimits \<Rightarrow> nat \<Rightarrow> string \<times> gval \<Rightarrow> bool" where
  "memberOk limits d kv \<longleftrightarrow> utf8Valid (fst kv) \<and> int (length (fst kv)) \<le> maxStringBytes limits \<and> accepted limits d (snd kv)"

lemma accepted_object:
  "accepted limits d (GObject kvs) \<longleftrightarrow> int d \<le> maxDepth limits \<and> sorted_wrt (<) (map fst kvs) \<and>
    list_all (memberOk limits (Suc d)) kvs"
  by (simp add: memberOk_def [abs_def])

declare accepted.simps(6) [simp del]

lemma scanName_shorter: "Option.bind (tokenStart st s) scanName = Some (name, t) \<Longrightarrow> length t < length s"
proof -
  assume "Option.bind (tokenStart st s) scanName = Some (name, t)"
  then obtain u where "tokenStart st s = Some u" "scanName u = Some (name, t)" by (auto simp: bind_eq_Some_conv)
  then show "length t < length s" using tokenStart_le [of st s u]
    by (auto simp: scanName_def split: list.splits if_splits dest!: decodeBody_shorter)
qed

lemma decodeMembers_total:
  assumes "decodesWithin limits (Suc d) decode"
  shows "length s < n \<Longrightarrow> decodeMembers n decode limits st k object s \<noteq> Inl ErrOutOfFuel"
proof (induction n arbitrary: st k object s)
  case (Suc n)
  have "decodeMembers n decode limits tokenObjectComma k' object' t' \<noteq> Inl ErrOutOfFuel"
    if "Option.bind (tokenStart st s) scanName = Some (name, t)" "decode (k + 1) t = Inr (v, k', t')" for name v k' t t' object'
    using Suc.IH Suc.prems scanName_shorter [OF that(1)] decodesWithinD(1) [OF assms that(2)] by simp
  moreover have "decode j t \<noteq> Inl ErrOutOfFuel" for j t using assms by (simp add: decodesWithin_def)
  ultimately show ?case by (auto simp: result_simps split: list.splits option.splits)
qed simp

lemma decodeMembers_sound:
  assumes "decodesWithin limits (Suc d) decode"
  shows "decodeMembers n decode limits st k object s = Inr (v, k', r) \<Longrightarrow>
    list_all (memberOk limits (Suc d)) object \<Longrightarrow> sorted_wrt (<) (map fst object) \<Longrightarrow>
    \<exists>object'. v = GObject object' \<and> list_all (memberOk limits (Suc d)) object' \<and> sorted_wrt (<) (map fst object') \<and>
      length r < length s \<and> k' + members (GObject object) = k + members (GObject object') \<and>
      (k' = k \<or> int k' \<le> maxKeys limits)"
proof (induction n arbitrary: st k object s)
  case (Suc n)
  show ?case
  proof (cases "More s")
    case True
    then obtain name t x k1 t1 where x: "Option.bind (tokenStart st s) scanName = Some (name, t)" "decode (k + 1) t = Inr (x, k1, t1)"
        "decodeMembers n decode limits tokenObjectComma k1 (putMember name x object) t1 = Inr (v, k', r)"
        "utf8Valid name" "int (length name) \<le> maxStringBytes limits" "map_of object name = None" "int (k + 1) \<le> maxKeys limits"
      using Suc.prems(1) by (auto simp: result_simps split: option.splits if_splits)
    note d = decodesWithinD [OF assms x(2)]
    have "memberOk limits (Suc d) (name, x)" using x(4,5) d(2) by (simp add: memberOk_def)
    from Suc.IH [OF x(3) putMember_all [OF this Suc.prems(2)] putMember_sorted [OF Suc.prems(3)]]
    obtain object' where o: "v = GObject object'" "list_all (memberOk limits (Suc d)) object'" "sorted_wrt (<) (map fst object')"
      "length r < length t1" "k' + members (GObject (putMember name x object)) = k1 + members (GObject object')"
      "k' = k1 \<or> int k' \<le> maxKeys limits" by blast
    have "int k' \<le> maxKeys limits" using o(6) d(4) x(7) by auto
    moreover have "k' + members (GObject object) = k + members (GObject object')"
      using o(5) d(3) putMember_members [OF x(6), of x] by linarith
    moreover have "length r < length s" using o(4) d(1) scanName_shorter [OF x(1)] by linarith
    ultimately show ?thesis using o(1-3) by blast
  next
    case False
    then show ?thesis using Suc.prems skipSpace_Cons_less [of s]
      by (auto simp: result_simps split: list.splits if_splits)
  qed
qed simp

lemma decodeJSONValue_within:
  "n + d = nat (maxDepth limits) + 1 \<Longrightarrow> decodesWithin limits d (decodeJSONValue n limits d st)"
proof (induction n arbitrary: d st)
  case 0
  then have "int d > maxDepth limits" by linarith
  then show ?case by (simp add: decodesWithin_def)
next
  case (Suc n)
  then have IH: "decodesWithin limits (Suc d) (decodeJSONValue n limits (Suc d) st)" for st by simp
  show ?case unfolding decodesWithin_def
  proof (intro allI conjI impI)
    fix k s
    have "decodeElements (length t + 1) (decodeJSONValue n limits (Suc d)) st' k [] t \<noteq> Inl ErrOutOfFuel" for t st'
      by (rule decodeElements_total [OF IH]) simp
    moreover have "decodeMembers (length t + 1) (decodeJSONValue n limits (Suc d) st') limits st'' k [] t \<noteq> Inl ErrOutOfFuel" for t st' st''
      by (rule decodeMembers_total [OF IH]) simp
    moreover have "checkScalar limits token = Inl e \<Longrightarrow> e \<noteq> ErrOutOfFuel" for token e
      by (auto simp: checkScalar_def split: gval.splits if_splits)
    ultimately show "decodeJSONValue (Suc n) limits d st k s \<noteq> Inl ErrOutOfFuel"
      by (simp add: bindE_def del: decodeElements.simps decodeMembers.simps split: option.split list.split sum.split)
  next
    fix k s v k' r
    assume ok: "decodeJSONValue (Suc n) limits d st k s = Inr (v, k', r)"
    then obtain c t where start: "tokenStart st s = Some (c # t)" and depth: "int d \<le> maxDepth limits"
      by (auto split: if_splits option.splits list.splits)
    have len: "length t < length s" using tokenStart_le [OF start] by simp
    consider (object) "c = CHR ''{''" | (array) "c = CHR ''[''" | (scalar) "c \<noteq> CHR ''{''" "c \<noteq> CHR ''[''" by blast
    then have "length r < length s \<and> accepted limits d v \<and> k' = k + members v \<and> (k' = k \<or> int k' \<le> maxKeys limits)"
    proof cases
      case object
      then have "decodeMembers (length t + 1) (decodeJSONValue n limits (Suc d) tokenObjectColon) limits tokenObjectStart k [] t = Inr (v, k', r)"
        using ok start depth by simp
      from decodeMembers_sound [OF IH this] show ?thesis using len depth by (auto simp: accepted_object)
    next
      case array
      then have "decodeElements (length t + 1) (decodeJSONValue n limits (Suc d)) tokenArrayStart k [] t = Inr (v, k', r)"
        using ok start depth by simp
      from decodeElements_sound [where decode = "decodeJSONValue n limits (Suc d)", OF IH this] show ?thesis using len depth by auto
    next
      case scalar
      then have "scanScalar (c # t) = Some (v, r)" "checkScalar limits v = Inr ()" "k' = k"
        using ok start depth by (auto simp: result_simps split: option.splits prod.splits)
      then show ?thesis using scanScalar_ok [of "c # t" v r] tokenStart_le [OF start] depth by auto
    qed
    then show "length r < length s" "accepted limits d v" "k' = k + members v" "k' = k \<or> int k' \<le> maxKeys limits"
      by blast+
  qed
qed

section \<open>The decoder reads canonical text back\<close>

text \<open>The first byte of an encoded value starts a value, wherever it stands.\<close>

definition startsValue :: "string \<Rightarrow> bool" where
  "startsValue e \<longleftrightarrow> e \<noteq> [] \<and> \<not> isSpace (hd e) \<and> hd e \<notin> set ''],}:''"

lemma startsValue_append: "startsValue e \<Longrightarrow> startsValue (e @ r)"
  by (cases e) (auto simp: startsValue_def)

lemma encode_startsValue: "encodeWith rawString v = Some e \<Longrightarrow> startsValue e"
proof (cases v)
  case (GNumber n)
  moreover assume "encodeWith rawString v = Some e"
  ultimately show ?thesis using validNumber(1,3) [of e]
    by (auto simp: startsValue_def isSpace_def isDigit_def split: if_splits)
qed (auto simp: startsValue_def isSpace_def rawString_def quote_def split: if_splits)

lemma startsValue_skip: "startsValue e \<Longrightarrow> skipSpace (e @ r) = e @ r"
  by (cases e) (auto simp: startsValue_def skipSpace_def)

lemma startsValue_More: "startsValue e \<Longrightarrow> More (e @ r)"
  by (cases e) (auto simp: More_def startsValue_def skipSpace_def)

lemma skipSpace_punct: "c \<in> set ''],}:'' \<Longrightarrow> skipSpace (c # s) = c # s"
  by (auto simp: skipSpace_def isSpace_def)

lemma tokenStart_simps:
  assumes "startsValue e"
  shows "tokenStart tokenTopValue (e @ r) = Some (e @ r)" "tokenStart tokenArrayStart (e @ r) = Some (e @ r)"
    "tokenStart tokenObjectStart (e @ r) = Some (e @ r)" "tokenStart tokenArrayComma (CHR '','' # e @ r) = Some (e @ r)"
    "tokenStart tokenObjectComma (CHR '','' # e @ r) = Some (e @ r)" "tokenStart tokenObjectColon (CHR '':'' # e @ r) = Some (e @ r)"
  using startsValue_skip [OF assms] by (simp_all add: tokenStart_def skipSpace_punct)

lemma commas_Cons: "commas (x # xs) = x @ (if xs = [] then [] else CHR '','' # commas xs)"
  by (cases xs) auto

text \<open>A decoder that reads back the encoding of a value, followed by anything that may follow it.\<close>

definition readsBack :: "complexityLimits \<Rightarrow> (tokenState \<Rightarrow> nat \<Rightarrow> string \<Rightarrow> decoded) \<Rightarrow> string \<Rightarrow> gval \<Rightarrow> bool" where
  "readsBack limits decode e v \<longleftrightarrow> (\<forall>st k s r. tokenStart st s = Some (e @ r) \<longrightarrow> afterNumber r \<longrightarrow>
     int (k + members v) \<le> maxKeys limits \<longrightarrow> decode st k s = Inr (v, k + members v, r))"

lemma decodeElements_reads:
  assumes "list_all2 (readsBack limits decode) es xs" "list_all startsValue es"
    "st = tokenArrayStart \<and> pre = [] \<or> st = tokenArrayComma \<and> pre = '',''" "length xs < n"
    "int (k + sum_list (map members xs)) \<le> maxKeys limits"
  shows "decodeElements n decode st k acc ((if es = [] then [] else pre @ commas es) @ CHR '']'' # r) =
    Inr (GArray (acc @ xs), k + sum_list (map members xs), r)"
  using assms
proof (induction es xs arbitrary: n st pre k acc rule: list_all2_induct)
  case Nil
  then show ?case by (cases n) (simp_all add: More_def skipSpace_punct)
next
  case (Cons e es x xs)
  then obtain m where n: "n = Suc m" "length xs < m" by (cases n) auto
  let ?r = "(if es = [] then [] else CHR '','' # commas es) @ CHR '']'' # r"
  have enc: "(if e # es = [] then [] else pre @ commas (e # es)) @ CHR '']'' # r = pre @ e @ ?r" by (simp add: commas_Cons)
  have e: "startsValue e" using Cons.prems(1) by simp
  have "tokenStart st (pre @ e @ ?r) = Some (e @ ?r)" using Cons.prems(2) tokenStart_simps [OF e, of ?r] by auto
  moreover have "afterNumber ?r" by (simp add: afterNumber_def)
  moreover have "int (k + members x) \<le> maxKeys limits" using Cons.prems(4) by simp
  ultimately have x: "decode st k (pre @ e @ ?r) = Inr (x, k + members x, ?r)"
    using Cons.hyps(1) unfolding readsBack_def by blast
  have more: "More (pre @ e @ ?r)"
    using Cons.prems(2) startsValue_More [OF e, of ?r] by (auto simp: More_def skipSpace_punct)
  have "decodeElements m decode tokenArrayComma (k + members x) (acc @ [x]) ?r =
      Inr (GArray ((acc @ [x]) @ xs), k + members x + sum_list (map members xs), r)"
    using Cons.IH [of tokenArrayComma "'',''" m "k + members x" "acc @ [x]"] Cons.prems(1,4) n(2)
    by (simp add: add.assoc split: if_splits)
  then show ?case unfolding enc n using more x by (simp add: add.assoc)
qed

lemma putMember_last: "\<forall>m \<in> set ms. fst m < k \<Longrightarrow> putMember k v ms = ms @ [(k, v)]"
  by (induction ms) auto

lemma scanName_raw: "utf8Valid k \<Longrightarrow> scanName (rawString k @ r) = Some (k, r)"
  by (simp add: scanName_def rawString_def decodeBody_raw)

lemma rawString_startsValue: "startsValue (rawString s @ r)"
  by (simp add: startsValue_def rawString_def isSpace_def quote_def)

definition memberText :: "string \<times> string \<Rightarrow> string" where
  "memberText m = rawString (fst m) @ CHR '':'' # snd m"

lemma decodeMembers_reads:
  assumes "list_all2 (\<lambda>m kv. fst m = fst kv \<and> startsValue (snd m) \<and> readsBack limits decode (snd m) (snd kv)) ms kvs"
    "list_all (\<lambda>kv. utf8Valid (fst kv) \<and> int (length (fst kv)) \<le> maxStringBytes limits) kvs"
    "sorted_wrt (<) (map fst (acc @ kvs))"
    "st = tokenObjectStart \<and> pre = [] \<or> st = tokenObjectComma \<and> pre = '',''" "length kvs < n"
    "int (k + members (GObject kvs)) \<le> maxKeys limits"
  shows "decodeMembers n (decode tokenObjectColon) limits st k acc
      ((if ms = [] then [] else pre @ commas (map memberText ms)) @ CHR ''}'' # r) =
    Inr (GObject (acc @ kvs), k + members (GObject kvs), r)"
  using assms
proof (induction ms kvs arbitrary: n st pre k acc rule: list_all2_induct)
  case Nil
  then show ?case by (cases n) (simp_all add: More_def skipSpace_punct)
next
  case (Cons m ms kv kvs)
  then obtain j where n: "n = Suc j" "length kvs < j" by (cases n) auto
  let ?r = "(if ms = [] then [] else CHR '','' # commas (map memberText ms)) @ CHR ''}'' # r"
  let ?t = "CHR '':'' # snd m @ ?r"
  have enc: "(if m # ms = [] then [] else pre @ commas (map memberText (m # ms))) @ CHR ''}'' # r =
      pre @ rawString (fst kv) @ ?t"
    using Cons.hyps(1) by (simp add: commas_Cons memberText_def)
  let ?s = "pre @ rawString (fst kv) @ ?t"
  have key: "utf8Valid (fst kv)" "int (length (fst kv)) \<le> maxStringBytes limits" using Cons.prems(1) by simp_all
  have q: "startsValue (rawString (fst kv))" using rawString_startsValue [of "fst kv" "[]"] by simp
  have "tokenStart st ?s = Some (rawString (fst kv) @ ?t)" using Cons.prems(3) tokenStart_simps [OF q, of ?t] by auto
  then have name: "Option.bind (tokenStart st ?s) scanName = Some (fst kv, ?t)" by (simp add: scanName_raw [OF key(1)])
  have more: "More ?s" using Cons.prems(3) startsValue_More [OF q, of ?t] by (auto simp: More_def skipSpace_punct)
  have "tokenStart tokenObjectColon ?t = Some (snd m @ ?r)" using tokenStart_simps(6) Cons.hyps(1) by blast
  moreover have "afterNumber ?r" by (simp add: afterNumber_def)
  moreover have "int (k + 1 + members (snd kv)) \<le> maxKeys limits" using Cons.prems(5) by simp
  ultimately have x: "decode tokenObjectColon (k + 1) ?t = Inr (snd kv, k + 1 + members (snd kv), ?r)"
    using Cons.hyps(1) unfolding readsBack_def by blast
  have below: "\<forall>a \<in> set acc. fst a < fst kv" using Cons.prems(2) by (auto simp: sorted_wrt_append)
  then have fresh: "map_of acc (fst kv) = None" by (auto simp: map_of_eq_None_iff image_iff)
  have budget: "int (k + 1) \<le> maxKeys limits" "int (k + 1 + members (snd kv) + members (GObject kvs)) \<le> maxKeys limits"
    using Cons.prems(5) by simp_all
  have "decodeMembers j (decode tokenObjectColon) limits tokenObjectComma (k + 1 + members (snd kv)) (acc @ [kv]) ?r =
      Inr (GObject ((acc @ [kv]) @ kvs), k + 1 + members (snd kv) + members (GObject kvs), r)"
    using Cons.IH [of "acc @ [kv]" tokenObjectComma "'',''" j "k + 1 + members (snd kv)"] Cons.prems(1,2) n(2) budget(2)
    by (simp split: if_splits)
  then show ?case unfolding enc n using more name x key fresh budget(1) putMember_last [OF below, of "snd kv"]
    by (simp add: add.assoc)
qed

lemma scanScalar_number: "isValidNumber n \<Longrightarrow> afterNumber r \<Longrightarrow> scanScalar (n @ r) = Some (GNumber n, r)"
proof -
  assume n: "isValidNumber n" "afterNumber r"
  then obtain c t where ct: "n = c # t" "c = CHR ''-'' \<or> isDigit c" using validNumber(1,3) [of n] by (cases n) auto
  then have "c \<noteq> quote" "c \<notin> set ''tfn''" by (auto simp: quote_def isDigit_def)
  then show ?thesis using validNumber(4) [OF n] ct(1) by (simp add: scanScalar_def HasPrefix_def)
qed

lemma those_map_Some: "those (map f xs) = Some ys \<Longrightarrow> list_all2 (\<lambda>y x. f x = Some y) ys xs"
  by (simp add: those_eq_Some list_all2_conv_all_nth) (metis length_map nth_map)

lemma sorted_keys_id: "sorted_wrt (<) (map fst kvs) \<Longrightarrow> sort_key fst kvs = kvs"
  by (rule sort_key_id_if_sorted) (simp add: strict_sorted_imp_sorted)

lemma encode_object:
  assumes "sorted_wrt (<) (map fst kvs)" "encodeWith rawString (GObject kvs) = Some e"
  obtains ms where "e = CHR ''{'' # commas (map memberText ms) @ ''}''"
    "list_all2 (\<lambda>m kv. fst m = fst kv \<and> encodeWith rawString (snd kv) = Some (snd m)) ms kvs"
proof -
  let ?f = "\<lambda>kv. map_option (\<lambda>e. rawString (fst kv) @ '':'' @ e) (encodeWith rawString (snd kv))"
  obtain es where es: "those (map ?f kvs) = Some es" "e = ''{'' @ commas es @ ''}''"
    using assms(2) by (auto simp: sorted_keys_id [OF assms(1)])
  let ?ms = "map (\<lambda>kv. (fst kv, the (encodeWith rawString (snd kv)))) kvs"
  note all = those_map_Some [OF es(1)]
  then have len: "length es = length kvs" and nth: "i < length kvs \<Longrightarrow> ?f (kvs ! i) = Some (es ! i)" for i
    by (auto simp: list_all2_conv_all_nth)
  have "es = map memberText ?ms"
  proof (rule nth_equalityI)
    fix i assume "i < length es"
    then show "es ! i = map memberText ?ms ! i" using nth [of i] len by (auto simp: memberText_def)
  qed (simp add: len)
  moreover have "list_all2 (\<lambda>m kv. fst m = fst kv \<and> encodeWith rawString (snd kv) = Some (snd m)) ?ms kvs"
    using nth by (fastforce simp: list_all2_conv_all_nth)
  ultimately show thesis using that [of ?ms] es(2) by simp
qed

lemma accepted_fuel:
  assumes "accepted limits d v" "n + d = nat (maxDepth limits) + 1"
  obtains m where "n = Suc m" "m + Suc d = nat (maxDepth limits) + 1" "int d \<le> maxDepth limits"
proof -
  have "int d \<le> maxDepth limits" using assms(1) by (cases v) (auto simp: accepted_object)
  then show thesis using that [of "n - 1"] assms(2) by simp
qed

lemma commas_length: "\<forall>e \<in> set es. e \<noteq> [] \<Longrightarrow> length es \<le> length (commas es)"
proof (induction es)
  case (Cons x xs)
  then show ?case by (cases x) (auto simp: commas_Cons)
qed simp

lemma decode_array:
  assumes "accepted limits d (GArray xs)" "encodeWith rawString (GArray xs) = Some e" "n + d = nat (maxDepth limits) + 1"
    "\<And>x e m. x \<in> set xs \<Longrightarrow> accepted limits (Suc d) x \<Longrightarrow> encodeWith rawString x = Some e \<Longrightarrow>
      m + Suc d = nat (maxDepth limits) + 1 \<Longrightarrow> readsBack limits (decodeJSONValue m limits (Suc d)) e x"
  shows "readsBack limits (decodeJSONValue n limits d) e (GArray xs)"
proof -
  obtain m where m: "n = Suc m" "m + Suc d = nat (maxDepth limits) + 1" "int d \<le> maxDepth limits"
    by (rule accepted_fuel [OF assms(1,3)])
  obtain es where es: "those (map (encodeWith rawString) xs) = Some es" "e = ''['' @ commas es @ '']''"
    using assms(2) by auto
  have rel: "list_all2 (\<lambda>e x. encodeWith rawString x = Some e) es xs" by (rule those_map_Some [OF es(1)])
  have reads: "list_all2 (readsBack limits (decodeJSONValue m limits (Suc d))) es xs"
    using rel assms(1,4) m(2) by (auto simp: list_all2_conv_all_nth list_all_iff)
  have starts: "list_all startsValue es"
    using rel encode_startsValue by (auto simp: list_all2_conv_all_nth list_all_length)
  then have "length es \<le> length (commas es)" by (intro commas_length) (auto simp: startsValue_def list_all_iff)
  moreover have "length xs = length es" using rel by (simp add: list_all2_lengthD)
  ultimately have len: "length xs < length (commas es @ CHR '']'' # r) + 1" for r by simp
  show ?thesis unfolding readsBack_def
  proof (intro allI impI)
    fix st k s r
    assume s: "tokenStart st s = Some (e @ r)" "int (k + members (GArray xs)) \<le> maxKeys limits"
    have "decodeElements (length (commas es @ CHR '']'' # r) + 1) (decodeJSONValue m limits (Suc d)) tokenArrayStart k []
        (commas es @ CHR '']'' # r) = Inr (GArray xs, k + members (GArray xs), r)"
      using decodeElements_reads [OF reads starts _ len, where st = tokenArrayStart and pre = "[]" and k = k and acc = "[]" and r = r] s(2)
      by (cases es) (simp_all del: decodeElements.simps)
    then show "decodeJSONValue n limits d st k s = Inr (GArray xs, k + members (GArray xs), r)"
      using s(1) es(2) m(1,3) by (simp del: decodeElements.simps)
  qed
qed

lemma decode_object:
  assumes "accepted limits d (GObject kvs)" "encodeWith rawString (GObject kvs) = Some e" "n + d = nat (maxDepth limits) + 1"
    "\<And>kv e m. kv \<in> set kvs \<Longrightarrow> accepted limits (Suc d) (snd kv) \<Longrightarrow> encodeWith rawString (snd kv) = Some e \<Longrightarrow>
      m + Suc d = nat (maxDepth limits) + 1 \<Longrightarrow> readsBack limits (decodeJSONValue m limits (Suc d)) e (snd kv)"
  shows "readsBack limits (decodeJSONValue n limits d) e (GObject kvs)"
proof -
  obtain m where m: "n = Suc m" "m + Suc d = nat (maxDepth limits) + 1" "int d \<le> maxDepth limits"
    by (rule accepted_fuel [OF assms(1,3)])
  have ok: "sorted_wrt (<) (map fst ([] @ kvs))" "list_all (memberOk limits (Suc d)) kvs"
    using assms(1) by (simp_all add: accepted_object)
  obtain ms where ms: "e = CHR ''{'' # commas (map memberText ms) @ ''}''"
      "list_all2 (\<lambda>m kv. fst m = fst kv \<and> encodeWith rawString (snd kv) = Some (snd m)) ms kvs"
    using encode_object [OF _ assms(2)] ok(1) by auto
  have reads: "list_all2 (\<lambda>m' kv. fst m' = fst kv \<and> startsValue (snd m') \<and>
      readsBack limits (decodeJSONValue m limits (Suc d)) (snd m') (snd kv)) ms kvs"
    using ms(2)
  proof (rule list.rel_mono_strong)
    fix m' kv
    assume kv: "kv \<in> set kvs" "fst m' = fst kv \<and> encodeWith rawString (snd kv) = Some (snd m')"
    moreover have "accepted limits (Suc d) (snd kv)" using ok(2) kv(1) by (simp add: list_all_iff memberOk_def)
    ultimately show "fst m' = fst kv \<and> startsValue (snd m') \<and> readsBack limits (decodeJSONValue m limits (Suc d)) (snd m') (snd kv)"
      using assms(4) [OF kv(1)] m(2) encode_startsValue by blast
  qed
  have keys: "list_all (\<lambda>kv. utf8Valid (fst kv) \<and> int (length (fst kv)) \<le> maxStringBytes limits) kvs"
    using ok(2) by (auto simp: list_all_iff memberOk_def)
  have "length (map memberText ms) \<le> length (commas (map memberText ms))"
    by (rule commas_length) (auto simp: memberText_def)
  moreover have "length kvs = length ms" using ms(2) by (simp add: list_all2_lengthD)
  ultimately have len: "length kvs < length (commas (map memberText ms) @ CHR ''}'' # r) + 1" for r by simp
  show ?thesis unfolding readsBack_def
  proof (intro allI impI)
    fix st k s r
    assume s: "tokenStart st s = Some (e @ r)" "int (k + members (GObject kvs)) \<le> maxKeys limits"
    have "decodeMembers (length (commas (map memberText ms) @ CHR ''}'' # r) + 1) (decodeJSONValue m limits (Suc d) tokenObjectColon)
        limits tokenObjectStart k [] (commas (map memberText ms) @ CHR ''}'' # r) = Inr (GObject kvs, k + members (GObject kvs), r)"
      using decodeMembers_reads [OF reads keys ok(1) _ len s(2), where st = tokenObjectStart and pre = "[]" and r = r]
      by (cases ms) (simp_all del: decodeMembers.simps)
    then show "decodeJSONValue n limits d st k s = Inr (GObject kvs, k + members (GObject kvs), r)"
      using s(1) ms(1) m(1,3) by (simp del: decodeMembers.simps)
  qed
qed

lemma decode_scalar:
  assumes "accepted limits d v" "n + d = nat (maxDepth limits) + 1" "startsValue e" "hd e \<notin> set ''{[''"
    "\<And>r. afterNumber r \<Longrightarrow> scanScalar (e @ r) = Some (v, r)" "checkScalar limits v = Inr ()" "members v = 0"
  shows "readsBack limits (decodeJSONValue n limits d) e v"
proof -
  obtain m where m: "n = Suc m" "int d \<le> maxDepth limits" by (rule accepted_fuel [OF assms(1,2)])
  obtain c t where ct: "e = c # t" using assms(3) by (cases e) (auto simp: startsValue_def)
  show ?thesis using m ct assms(4-7) by (auto simp: readsBack_def)
qed

lemma decode_encoded:
  "accepted limits d v \<Longrightarrow> encodeWith rawString v = Some e \<Longrightarrow> n + d = nat (maxDepth limits) + 1 \<Longrightarrow>
    readsBack limits (decodeJSONValue n limits d) e v"
proof (induction v arbitrary: d e n)
  case (GArray xs)
  then show ?case by (intro decode_array) auto
next
  case (GObject kvs)
  then show ?case by (intro decode_object) (auto simp: snds.simps)
next
  case (GNumber m)
  have m: "isValidNumber m" "e = m" using GNumber.prems validNumber(1) by (auto split: if_splits)
  show ?case
    using GNumber.prems(1,3) m validNumber(1,3) [OF m(1)] encode_startsValue [OF GNumber.prems(2)] scanScalar_number [OF m(1)]
    by (intro decode_scalar) (auto simp: isDigit_def)
next
  case (GString t)
  have "utf8Valid t" using GString.prems(1) by (auto simp: checkScalar_def split: if_splits)
  then show ?case using GString.prems rawString_startsValue [of t "[]"] decodeBody_raw [of t]
    by (intro decode_scalar) (auto simp: scanScalar_def rawString_def quote_def)
qed (auto intro!: decode_scalar dest: encode_startsValue simp: scanScalar_def quote_def HasPrefix_def checkScalar_def startsValue_def isSpace_def split: if_splits)

lemma encode_total: "accepted limits d v \<Longrightarrow> \<exists>e. encodeWith rawString v = Some e"
proof (induction v arbitrary: d)
  case (GArray xs)
  then have "None \<notin> set (map (encodeWith rawString) xs)" by (fastforce simp: list_all_iff)
  then show ?case using those_eq_None [of "map (encodeWith rawString) xs"] by auto
next
  case (GObject kvs)
  let ?f = "\<lambda>kv. map_option (\<lambda>e. rawString (fst kv) @ '':'' @ e) (encodeWith rawString (snd kv))"
  have "?f kv \<noteq> None" if "kv \<in> set kvs" for kv
    using GObject.IH [of kv "snd kv" "Suc d"] GObject.prems that by (auto simp: accepted_object list_all_iff memberOk_def snds.simps)
  then have "None \<notin> set (map ?f (sort_key fst kvs))" by force
  then show ?case using those_eq_None [of "map ?f (sort_key fst kvs)"] by auto
next
  case (GNumber n)
  then show ?case using validNumber(1) by auto
qed auto

lemma utf8Valid_commas: "\<forall>e \<in> set es. utf8Valid e \<Longrightarrow> utf8Valid (commas es)"
  by (induction es rule: commas.induct) (auto simp: utf8Valid_append)

lemma numberChar_ascii: "numberChar c \<Longrightarrow> code c < 0x80"
  by (auto simp: numberChar_def isDigit_def)

lemma utf8Valid_encoded: "accepted limits d v \<Longrightarrow> encodeWith rawString v = Some e \<Longrightarrow> utf8Valid e"
proof (induction v arbitrary: d e)
  case (GNumber n)
  then have "isValidNumber n" "e = n" using validNumber(1) by (auto split: if_splits)
  then show ?case using validNumber(2) [of n] utf8Valid_all_ascii [of n "[]"] numberChar_ascii by auto
next
  case (GString s)
  then show ?case using utf8Valid_rawString [of s "[]"] by (auto simp: checkScalar_def split: if_splits)
next
  case (GArray xs)
  then obtain es where es: "those (map (encodeWith rawString) xs) = Some es" "e = ''['' @ commas es @ '']''" by auto
  have rel: "length es = length xs" "\<forall>i < length xs. encodeWith rawString (xs ! i) = Some (es ! i)"
    using those_map_Some [OF es(1)] by (auto simp: list_all2_conv_all_nth)
  have "utf8Valid (es ! i)" if "i < length es" for i
    using GArray.IH [of "xs ! i" "Suc d" "es ! i"] GArray.prems(1) rel that by (simp add: list_all_length)
  then have "\<forall>f \<in> set es. utf8Valid f" by (auto simp: in_set_conv_nth)
  then show ?case using es(2) by (simp add: utf8Valid_append utf8Valid_commas)
next
  case (GObject kvs)
  then have ok: "sorted_wrt (<) (map fst kvs)" "list_all (memberOk limits (Suc d)) kvs" by (simp_all add: accepted_object)
  obtain ms where ms: "e = CHR ''{'' # commas (map memberText ms) @ ''}''"
      "list_all2 (\<lambda>m kv. fst m = fst kv \<and> encodeWith rawString (snd kv) = Some (snd m)) ms kvs"
    by (rule encode_object [OF ok(1) GObject.prems(2)])
  have "utf8Valid (memberText (ms ! i))" if "i < length ms" for i
  proof -
    have i: "kvs ! i \<in> set kvs" "fst (ms ! i) = fst (kvs ! i)" "encodeWith rawString (snd (kvs ! i)) = Some (snd (ms ! i))"
      using ms(2) that by (auto simp: list_all2_conv_all_nth)
    have "utf8Valid (fst (kvs ! i))" "accepted limits (Suc d) (snd (kvs ! i))"
      using ok(2) i(1) by (auto simp: list_all_iff memberOk_def)
    moreover have "utf8Valid (snd (ms ! i))" using GObject.IH [OF i(1) _ calculation(2) i(3)] by (simp add: snds.simps)
    ultimately show ?thesis using i(2) by (simp add: memberText_def utf8Valid_rawString)
  qed
  then have "list_all utf8Valid (map memberText ms)" by (simp add: list_all_length)
  then have "\<forall>f \<in> set (map memberText ms). utf8Valid f" by (simp only: list_all_iff)
  then show ?case using ms(1) by (simp add: utf8Valid_append utf8Valid_commas)
qed auto

section \<open>Round trip\<close>

lemma parse_canonical:
  assumes "accepted limits 1 v" "int (members v) \<le> maxKeys limits"
  obtains e where "canonicalJSON v = Some e" "parseStrictJSON e limits = Inr (v, members v)"
proof -
  obtain e where e: "encodeWith rawString v = Some e" using encode_total [OF assms(1)] by blast
  have "tokenStart tokenTopValue (e @ []) = Some (e @ [])" by (rule tokenStart_simps) (rule encode_startsValue [OF e])
  then have "decodeJSONValue (nat (maxDepth limits)) limits 1 tokenTopValue 0 (e @ []) = Inr (v, 0 + members v, [])"
    using decode_encoded [OF assms(1) e, of "nat (maxDepth limits)"] assms(2)
    unfolding readsBack_def by (metis One_nat_def add.commute add_0 afterNumber_def)
  then show thesis
    using that e utf8Valid_encoded [OF assms(1) e] by (simp add: canonicalJSON_raw parseStrictJSON_def skipSpace_def)
qed

lemma parse_sound:
  assumes "parseStrictJSON raw limits = Inr (v, k)"
  shows "accepted limits 1 v" "k = members v" "k = 0 \<or> int k \<le> maxKeys limits"
proof -
  obtain r where "decodeJSONValue (nat (maxDepth limits)) limits 1 tokenTopValue 0 raw = Inr (v, k, r)"
    using assms by (auto simp: parseStrictJSON_def result_simps split: if_splits)
  from decodesWithinD [OF decodeJSONValue_within this] show "accepted limits 1 v" "k = members v" "k = 0 \<or> int k \<le> maxKeys limits"
    by simp_all
qed

lemma canonical_inject:
  assumes "accepted limits 1 a" "int (members a) \<le> maxKeys limits" "accepted limits' 1 b" "canonicalJSON a = canonicalJSON b"
  shows "a = b"
proof -
  define big where "big = \<lparr>maxDepth = max (maxDepth limits) (maxDepth limits'),
    maxStringBytes = max (maxStringBytes limits) (maxStringBytes limits'), maxKeys = int (members a + members b)\<rparr>"
  have mono: "accepted l d v \<Longrightarrow> l = limits \<or> l = limits' \<Longrightarrow> accepted big d v" for l d v
  proof (induction v arbitrary: d)
    case (GObject kvs)
    then show ?case by (auto simp: accepted_object list_all_iff memberOk_def big_def snds.simps; fastforce)
  next
    case (GArray xs)
    then show ?case by (auto simp: list_all_iff big_def)
  qed (auto simp: checkScalar_def big_def split: if_splits)
  have "accepted big 1 a" "accepted big 1 b" using mono assms(1,3) by blast+
  moreover have "int (members a) \<le> maxKeys big" "int (members b) \<le> maxKeys big" by (simp_all add: big_def)
  ultimately show ?thesis using assms(4) by (metis Inr_inject option.inject parse_canonical prod.inject)
qed

text \<open>
  The values within the limits, without reference to the decoder: how deep a value nests, how many
  members its objects have, and what its strings, names and numbers are.
\<close>

fun nesting :: "gval \<Rightarrow> nat" where
  "nesting (GArray xs) = Suc (fold max (map nesting xs) 0)"
| "nesting (GObject kvs) = Suc (fold max (map (\<lambda>kv. nesting (snd kv)) kvs) 0)"
| "nesting _ = 1"

fun lawful :: "complexityLimits \<Rightarrow> gval \<Rightarrow> bool" where
  "lawful limits GNull \<longleftrightarrow> True"
| "lawful limits (GBool b) \<longleftrightarrow> True"
| "lawful limits (GNumber n) \<longleftrightarrow> isValidNumber n \<and> (ParseInt64 n \<noteq> None \<or> ParseFloat64 n \<noteq> None)"
| "lawful limits (GString s) \<longleftrightarrow> utf8Valid s \<and> int (length s) \<le> maxStringBytes limits"
| "lawful limits (GArray xs) \<longleftrightarrow> list_all (lawful limits) xs"
| "lawful limits (GObject kvs) \<longleftrightarrow> sorted_wrt (<) (map fst kvs) \<and>
     list_all (\<lambda>kv. utf8Valid (fst kv) \<and> int (length (fst kv)) \<le> maxStringBytes limits \<and> lawful limits (snd kv)) kvs"
| "lawful limits GOpaque \<longleftrightarrow> False"

definition withinLimits :: "complexityLimits \<Rightarrow> gval \<Rightarrow> bool" where
  "withinLimits limits v \<longleftrightarrow> int (nesting v) \<le> maxDepth limits \<and> int (members v) \<le> maxKeys limits \<and> lawful limits v"

lemma fold_max_le: "fold max xs (n :: nat) \<le> m \<longleftrightarrow> n \<le> m \<and> (\<forall>x \<in> set xs. x \<le> m)"
  by (induction xs arbitrary: n) auto

lemma nesting_pos: "1 \<le> nesting v"
  by (cases v) simp_all

lemma accepted_iff: "accepted limits (Suc d) v \<longleftrightarrow> int (d + nesting v) \<le> maxDepth limits \<and> lawful limits v"
proof (induction v arbitrary: d)
  case (GArray xs)
  have "int (d + nesting (GArray xs)) \<le> maxDepth limits \<longleftrightarrow>
      int (Suc d) \<le> maxDepth limits \<and> (\<forall>x \<in> set xs. int (Suc d + nesting x) \<le> maxDepth limits)"
    using fold_max_le [of "map nesting xs" 0 "nat (maxDepth limits) - Suc d"] by auto
  moreover have "accepted limits (Suc (Suc d)) x \<longleftrightarrow> int (Suc d + nesting x) \<le> maxDepth limits \<and> lawful limits x"
    if "x \<in> set xs" for x using GArray [OF that, of "Suc d"] by simp
  ultimately show ?case by (simp add: list_all_iff) blast
next
  case (GObject kvs)
  have "int (d + nesting (GObject kvs)) \<le> maxDepth limits \<longleftrightarrow>
      int (Suc d) \<le> maxDepth limits \<and> (\<forall>kv \<in> set kvs. int (Suc d + nesting (snd kv)) \<le> maxDepth limits)"
    using fold_max_le [of "map (\<lambda>kv. nesting (snd kv)) kvs" 0 "nat (maxDepth limits) - Suc d"] by auto
  moreover have "accepted limits (Suc (Suc d)) (snd kv) \<longleftrightarrow>
      int (Suc d + nesting (snd kv)) \<le> maxDepth limits \<and> lawful limits (snd kv)" if "kv \<in> set kvs" for kv
    using GObject [OF that, of "snd kv" "Suc d"] by (cases kv) (simp add: snds.simps)
  ultimately show ?case by (simp add: list_all_iff accepted.simps(6)) blast
qed (auto simp: checkScalar_def)

lemma accepted_within: "accepted limits 1 v \<and> int (members v) \<le> maxKeys limits \<longleftrightarrow> withinLimits limits v"
  using accepted_iff [of limits 0 v] by (auto simp: withinLimits_def)

text \<open>
  C31. The strict parser accepts exactly the values within the limits, and canonical encoding is
  right inverse to it. A value is the result of parsing some text if and only if its nesting is at
  most the maximal depth, its members are at most the maximal number, its names are sorted, distinct
  and like its strings valid UTF-8 of bounded length, and its numbers denote finite values; the
  reported number of members is the true one. And a value is within the limits if and only if its
  canonical encoding exists and parses back to it.
\<close>

theorem strict_json_roundtrip:
  assumes "0 \<le> maxKeys limits"
  shows "((\<exists>raw. parseStrictJSON raw limits = Inr (v, k)) \<longleftrightarrow> withinLimits limits v \<and> k = members v) \<and>
    (withinLimits limits v \<longleftrightarrow> (\<exists>e. canonicalJSON v = Some e \<and> parseStrictJSON e limits = Inr (v, members v)))"
proof -
  have sound: "withinLimits limits v \<and> i = members v" if "parseStrictJSON raw limits = Inr (v, i)" for raw i
    using parse_sound [OF that] assms accepted_within [of limits v] by fastforce
  have complete: "\<exists>e. canonicalJSON v = Some e \<and> parseStrictJSON e limits = Inr (v, members v)" if "withinLimits limits v"
    using parse_canonical [of limits v] that accepted_within [of limits v] by metis
  show ?thesis using sound complete by blast
qed

definition demoLimits :: complexityLimits where
  "demoLimits = \<lparr>maxDepth = 4, maxStringBytes = 256, maxKeys = 32\<rparr>"

theorem strict_json_roundtrip_witness:
  "\<exists>e. canonicalJSON (GObject [(''a'', GNull), (''b'', GArray [GBool True])]) = Some e \<and>
     parseStrictJSON e demoLimits = Inr (GObject [(''a'', GNull), (''b'', GArray [GBool True])], 2)"
proof -
  let ?v = "GObject [(''a'', GNull), (''b'', GArray [GBool True])]"
  have "utf8Valid ''a''" "utf8Valid ''b''" by (simp_all add: utf8Valid_all_ascii [where t = "[]", simplified])
  then have "withinLimits demoLimits ?v" "members ?v = 2" "0 \<le> maxKeys demoLimits"
    by (simp_all add: withinLimits_def demoLimits_def less_char_def)
  then show ?thesis using strict_json_roundtrip [of demoLimits ?v 2] by metis
qed

text \<open>
  Two values that came out of the strict parser are the same to \<^verbatim>\<open>sameJSON\<close> exactly
  when they are equal: no two different arguments of a tool call are taken for each other.
\<close>

lemma same_json_exact:
  assumes "parseStrictJSON r1 l1 = Inr (a, i)" "parseStrictJSON r2 l2 = Inr (b, j)" "0 \<le> maxKeys l1"
  shows "sameJSON a b \<longleftrightarrow> a = b"
proof -
  note a = parse_sound [OF assms(1)] and b = parse_sound [OF assms(2)]
  obtain e where e: "canonicalJSON a = Some e" using encode_total [OF a(1)] by (auto simp: canonicalJSON_raw)
  obtain f where f: "canonicalJSON b = Some f" using encode_total [OF b(1)] by (auto simp: canonicalJSON_raw)
  have "int (members a) \<le> maxKeys l1" using a(2,3) assms(3) by auto
  from canonical_inject [OF a(1) this b(1)] show ?thesis using e f by (auto simp: sameJSON_def)
qed

lemma same_json_exact_example:
  "sameJSON (GBool True) (GBool False) \<longleftrightarrow> GBool True = GBool False"
proof (rule same_json_exact)
  show "parseStrictJSON ''true'' demoLimits = Inr (GBool True, 0)" "parseStrictJSON ''false'' demoLimits = Inr (GBool False, 0)"
    by (simp_all add: parseStrictJSON_def demoLimits_def numeral_eq_Suc tokenStart_def skipSpace_def isSpace_def scanScalar_def
        HasPrefix_def quote_def checkScalar_def)
qed (simp add: demoLimits_def)

end
