(* ===== verification/SseProperties.thy ===== *)
theory SseProperties
  imports CapsuleSse CapsuleCodec
begin

text \<open>
  What an accepted provider answer guarantees (\<^verbatim>\<open>internal/capsule/sse.go\<close>), and how the
  attempt and the session may rely on it.
\<close>

section \<open>What the loop over the events keeps\<close>

definition usageCoherent :: "Usage \<Rightarrow> bool" where
  "usageCoherent u \<longleftrightarrow> ModelCalls u = 1 \<and> 0 \<le> InputTokens u \<and> InputTokens u \<le> 1000000000 \<and> 0 \<le> OutputTokens u \<and>
     OutputTokens u \<le> 1000000000 \<and> TotalTokens u = InputTokens u + OutputTokens u \<and> TruncatedToolResults u = 0"

lemma parseUsage_coherent: "parseUsage v = Some u \<Longrightarrow> usageCoherent u"
  by (auto simp: parseUsage_def usageCoherent_def numberInt_def bind_eq_Some_conv split: if_splits option.splits)

definition sseInv :: "sseState \<Rightarrow> bool" where
  "sseInv s \<longleftrightarrow> (\<forall>u. sse_usage s = Some u \<longrightarrow> usageCoherent u) \<and> (sse_callID s = [] \<or> validOperationID (sse_callID s))"

lemma sseInv_updates [simp]:
  "sseInv (s\<lparr>sse_content := x\<rparr>) = sseInv s" "sseInv (s\<lparr>sse_reasoning := x\<rparr>) = sseInv s"
  "sseInv (s\<lparr>sse_argumentParts := x\<rparr>) = sseInv s" "sseInv (s\<lparr>sse_callName := y\<rparr>) = sseInv s"
  "sseInv (s\<lparr>sse_sawTool := b\<rparr>) = sseInv s" "sseInv (s\<lparr>sse_finishReason := f\<rparr>) = sseInv s"
  "sseInv (s\<lparr>sse_done := b\<rparr>) = sseInv s" "sseInv (s\<lparr>sse_totalKeys := n\<rparr>) = sseInv s"
  "sseInv (s\<lparr>sse_callID := c\<rparr>) \<longleftrightarrow> (\<forall>u. sse_usage s = Some u \<longrightarrow> usageCoherent u) \<and> (c = [] \<or> validOperationID c)"
  "sseInv (s\<lparr>sse_usage := Some u\<rparr>) \<longleftrightarrow> usageCoherent u \<and> (sse_callID s = [] \<or> validOperationID (sse_callID s))"
  by (simp_all add: sseInv_def)

lemma acceptText_inv: "acceptText d s = Inr s' \<Longrightarrow> sseInv s \<Longrightarrow> sseInv s'"
  by (auto simp: acceptText_def result_simps split: gval.splits if_splits)

lemma acceptCallParts_inv:
  "acceptCallID i s = Inr s' \<Longrightarrow> sseInv s \<Longrightarrow> sseInv s'"
  "acceptCallName n s = Inr s' \<Longrightarrow> sseInv s \<Longrightarrow> sseInv s'"
  "acceptArguments r s = Inr s' \<Longrightarrow> sseInv s \<Longrightarrow> sseInv s'"
  by (auto simp: acceptCallID_def acceptCallName_def acceptArguments_def sseInv_def split: option.splits if_splits)

lemma acceptCall_inv: "acceptCall raw s = Inr s' \<Longrightarrow> sseInv s \<Longrightarrow> sseInv s'"
  by (auto simp: acceptCall_def result_simps split: option.splits dest: acceptCallParts_inv)

lemma acceptTools_inv: "acceptTools d s = Inr s' \<Longrightarrow> sseInv s \<Longrightarrow> sseInv s'"
  by (auto simp: acceptTools_def split: option.splits gval.splits list.splits if_splits dest: acceptCall_inv)

lemma acceptFinish_inv: "acceptFinish c s = Inr s' \<Longrightarrow> sseInv s \<Longrightarrow> sseInv s'"
  by (auto simp: acceptFinish_def split: gval.splits if_splits)

lemma acceptChoice_inv: "acceptChoice raw s = Inr s' \<Longrightarrow> sseInv s \<Longrightarrow> sseInv s'"
  by (auto simp: acceptChoice_def result_simps split: option.splits dest: acceptText_inv acceptTools_inv acceptFinish_inv)

lemma acceptAfterFinish_inv: "acceptAfterFinish chunk raw s = Inr s' \<Longrightarrow> s' = s"
  by (auto simp: acceptAfterFinish_def split: option.splits if_splits)

lemma acceptChunk_inv: "acceptChunk modelID decoded s = Inr s' \<Longrightarrow> sseInv s \<Longrightarrow> sseInv s'"
  by (auto simp: acceptChunk_def result_simps sseInv_def [of s] split: option.splits gval.splits if_splits list.splits
      dest!: acceptChoice_inv acceptAfterFinish_inv parseUsage_coherent)

lemma acceptEvent_inv: "acceptEvent modelID l b e s = Inr s' \<Longrightarrow> sseInv s \<Longrightarrow> sseInv s'"
  by (auto simp: acceptEvent_def Let_def split: if_splits sum.splits prod.splits dest!: acceptChunk_inv)

lemma acceptEvents_inv: "acceptEvents modelID l es s = Inr s' \<Longrightarrow> sseInv s \<Longrightarrow> sseInv s'"
  by (induction es arbitrary: s) (auto simp: result_simps dest: acceptEvent_inv)

section \<open>Accepted answers\<close>

lemma toolAnswer_ok:
  assumes "toolAnswer vs l s = Inr (pending, assistant, delta)"
  obtains call schema where "pending = Some call" "vs (call_Name call) = Some schema" "valid schema (call_Arguments call)"
    "call_Name call \<noteq> []" "CallID call = sse_callID s" "accepted (responseComplexity l) 1 (call_Arguments call)"
    "\<exists>kvs. call_Arguments call = GObject kvs"
proof -
  obtain validator arguments k where v: "vs (sse_callName s) = Some validator" "sse_callName s \<noteq> []" "valid validator (GObject arguments)"
      "parseStrictJSON (joinParts (sse_argumentParts s)) (responseComplexity l) = Inr (GObject arguments, k)"
      "pending = Some \<lparr>CallID = sse_callID s, call_Name = sse_callName s, call_Arguments = GObject arguments\<rparr>"
    using assms by (auto simp: toolAnswer_def Let_def split: if_splits option.splits sum.splits prod.splits gval.splits)
  then show thesis using that parse_sound(1) [OF v(4)] by simp
qed

lemma textAnswer_ok: "textAnswer s = Inr (pending, assistant, delta) \<Longrightarrow> pending = None"
  by (auto simp: textAnswer_def Let_def split: if_splits)

lemma packAnswer_ok:
  assumes "packAnswer modelID l s usage finishReason (pending, assistant, delta) = Inr r"
  shows "int (length (NormalizedSSE r)) \<le> rl_MaxBytes l \<and> acc_Pending r = pending \<and> acc_Usage r = usage"
  using assms by (auto simp: packAnswer_def Let_def split: option.splits if_splits)

lemma finishAnswer_ok:
  assumes "finishAnswer modelID vs l s = Inr r"
  obtains usage pending assistant delta where "sse_usage s = Some usage"
    "(if sse_sawTool s then toolAnswer vs l s else textAnswer s) = Inr (pending, assistant, delta)"
    "acc_Usage r = usage" "acc_Pending r = pending" "int (length (NormalizedSSE r)) \<le> rl_MaxBytes l"
proof -
  obtain usage finishReason answer where u: "sse_usage s = Some usage"
      "(if sse_sawTool s then toolAnswer vs l s else textAnswer s) = Inr answer"
      "packAnswer modelID l s usage finishReason answer = Inr r"
    using assms by (auto simp: finishAnswer_def result_simps split: option.splits bool.splits)
  obtain pending assistant delta where a: "answer = (pending, assistant, delta)" by (cases answer)
  show thesis using u(1,2) packAnswer_ok [of modelID l s usage finishReason pending assistant delta r] u(3) unfolding a
    by (intro that) simp_all
qed

lemma accepted_response:
  assumes "ParseOpenAISSE body modelID vs l = Inr r"
  shows "int (length (NormalizedSSE r)) \<le> rl_MaxBytes l" "usageCoherent (acc_Usage r)"
    "acc_Pending r = Some call \<Longrightarrow> \<exists>schema. vs (call_Name call) = Some schema \<and> valid schema (call_Arguments call) \<and>
       call_Name call \<noteq> [] \<and> accepted (responseComplexity l) 1 (call_Arguments call) \<and>
       (CallID call = [] \<or> validOperationID (CallID call)) \<and> (\<exists>kvs. call_Arguments call = GObject kvs)"
proof -
  obtain events s usage pending assistant delta where e: "acceptEvents modelID l events sseStart = Inr s"
      "sse_usage s = Some usage" "(if sse_sawTool s then toolAnswer vs l s else textAnswer s) = Inr (pending, assistant, delta)"
      "acc_Usage r = usage" "acc_Pending r = pending" "int (length (NormalizedSSE r)) \<le> rl_MaxBytes l"
    using assms by (auto simp: ParseOpenAISSE_def Let_def result_simps split: if_splits elim: finishAnswer_ok)
  have "sseInv sseStart" by (simp add: sseInv_def sseStart_def)
  then have inv: "sseInv s" using acceptEvents_inv [OF e(1)] by simp
  show "int (length (NormalizedSSE r)) \<le> rl_MaxBytes l" by (rule e(6))
  show "usageCoherent (acc_Usage r)" using inv e(2,4) by (simp add: sseInv_def)
  show "\<exists>schema. vs (call_Name call) = Some schema \<and> valid schema (call_Arguments call) \<and>
       call_Name call \<noteq> [] \<and> accepted (responseComplexity l) 1 (call_Arguments call) \<and>
       (CallID call = [] \<or> validOperationID (CallID call)) \<and> (\<exists>kvs. call_Arguments call = GObject kvs)"
    if p: "acc_Pending r = Some call"
  proof (cases "sse_sawTool s")
    case True
    then have "toolAnswer vs l s = Inr (pending, assistant, delta)" using e(3) by simp
    then show ?thesis
    proof (cases rule: toolAnswer_ok)
      case (1 call' schema)
      then show ?thesis using p e(5) inv by (auto simp: sseInv_def)
    qed
  next
    case False
    then show ?thesis using e(3,5) p by (auto dest!: textAnswer_ok)
  qed
qed

end
