(* ===== verification/AttemptProperties.thy ===== *)
theory AttemptProperties
  imports CapsuleAttempt SseProperties
begin

text \<open>
  The invariant of an attempt (\<^verbatim>\<open>internal/capsule/attempt.go\<close>) and what each of its
  operations does to it: requests in order and within the budget, a pending call only while one is
  due, and always one that the provider made and the host granted.
\<close>

section \<open>Invariant\<close>

text \<open>What no operation changes.\<close>

record attemptConfig =
  cf_modelID :: string
  cf_validators :: validators
  cf_limits :: ResponseLimits
  cf_max :: int
  cf_output :: compiledSchema

definition config :: "OpenAIAttempt \<Rightarrow> attemptConfig" where
  "config a = \<lparr>cf_modelID = att_modelID a, cf_validators = att_validators a, cf_limits = att_responseLimits a,
     cf_max = att_maxModelRequests a, cf_output = att_outputValidator a\<rparr>"

text \<open>The calls in the given provider answers.\<close>

definition callOf :: "attemptConfig \<Rightarrow> string \<Rightarrow> PendingToolCall \<Rightarrow> bool" where
  "callOf cf body call \<longleftrightarrow> (\<exists>r. ParseOpenAISSE body (cf_modelID cf) (cf_validators cf) (cf_limits cf) = Inr r \<and>
     acc_Pending r = Some call)"

definition granted :: "attemptConfig \<Rightarrow> PendingToolCall \<Rightarrow> bool" where
  "granted cf call \<longleftrightarrow> (\<exists>schema. cf_validators cf (call_Name call) = Some schema \<and> valid schema (call_Arguments call))"

lemma callOf_granted: "callOf cf body call \<Longrightarrow> granted cf call"
  unfolding callOf_def granted_def using accepted_response(3) by blast

text \<open>The invariant, over the bodies of the answers so far.\<close>

definition attemptInv :: "attemptConfig \<Rightarrow> string set \<Rightarrow> OpenAIAttempt \<Rightarrow> bool" where
  "attemptInv cf bodies a \<longleftrightarrow> config a = cf \<and> att_nextTurn a = att_currentTurn a + 1 \<and> 0 \<le> att_currentTurn a \<and>
     att_currentTurn a \<le> cf_max cf \<and>
     (case att_State a of
        ReadyModel \<Rightarrow> att_pending a = None
      | AwaitTool \<Rightarrow> (\<exists>call body. att_pending a = Some call \<and> body \<in> bodies \<and> callOf cf body call \<and>
          call_Name call \<noteq> submitResult)
      | AwaitComplete \<Rightarrow> (\<exists>call body. att_pending a = Some call \<and> body \<in> bodies \<and> callOf cf body call \<and>
          call_Name call = submitResult)
      | _ \<Rightarrow> True)"

lemma attemptInv_D:
  assumes "attemptInv cf bodies a"
  shows "config a = cf" "att_currentTurn a \<le> cf_max cf" "0 \<le> att_currentTurn a" "att_nextTurn a = att_currentTurn a + 1"
    "att_maxModelRequests a = cf_max cf"
  using assms by (auto simp: attemptInv_def config_def)

section \<open>Operations\<close>

lemma NewOpenAIAttempt_inv:
  assumes "NewOpenAIAttempt rx modelID systemPrompt prompt tools outputSchema sampling reasoning window maxOut maxReq l = Inr a"
  shows "attemptInv (config a) {} a" "att_State a = ReadyModel" "att_currentTurn a = 0" "att_Usage a = noUsage"
    "att_maxModelRequests a = maxReq" "1 \<le> maxReq" "maxReq \<le> 1000"
    "att_validators a submitResult = Some (att_outputValidator a)"
  using assms
  by (auto simp: NewOpenAIAttempt_def attemptInv_def config_def result_simps grantedValidators_def
      split: if_splits option.splits gval.splits)

lemma compileTools_sound:
  "compileTools rx l seen tools = Inr compiled \<Longrightarrow> (tool', schema) \<in> set compiled \<Longrightarrow>
    \<exists>tool \<in> set tools. tool_Name tool = tool_Name tool' \<and> compileSchema rx (tool_Parameters tool) = Some schema"
  by (induction rx l seen tools arbitrary: compiled rule: compileTools.induct)
    (fastforce simp: result_simps split: if_splits option.splits)+

lemma compileTools_names:
  assumes "NewOpenAIAttempt rx modelID systemPrompt prompt tools outputSchema sampling reasoning window maxOut maxReq l = Inr a"
  shows "submitResult \<notin> set (map tool_Name tools)"
proof -
  have "compileTools rx l seen tools = Inr compiled \<Longrightarrow> submitResult \<notin> set (map tool_Name tools)" for seen compiled
    by (induction rx l seen tools arbitrary: compiled rule: compileTools.induct)
      (auto simp: result_simps split: if_splits option.splits)
  then show ?thesis using assms by (auto simp: NewOpenAIAttempt_def result_simps split: if_splits option.splits gval.splits)
qed

text \<open>The granted validators are those of the tools, and of the output schema for the submission.\<close>

lemma NewOpenAIAttempt_grants:
  assumes "NewOpenAIAttempt rx modelID systemPrompt prompt tools outputSchema sampling reasoning window maxOut maxReq l = Inr a"
    "att_validators a name = Some schema"
  shows "name = submitResult \<and> compileSchema rx outputSchema = Some schema \<or>
    (\<exists>tool \<in> set tools. tool_Name tool = name \<and> compileSchema rx (tool_Parameters tool) = Some schema)"
proof -
  obtain compiled final where c: "compileTools rx l [] tools = Inr compiled" "compileSchema rx outputSchema = Some final"
      "att_validators a = grantedValidators compiled final"
    using assms(1) by (auto simp: NewOpenAIAttempt_def result_simps split: if_splits option.splits gval.splits)
  show ?thesis
  proof (cases "name = submitResult")
    case True
    then show ?thesis using assms(2) c by (simp add: grantedValidators_def)
  next
    case False
    then obtain tool' where "(tool', schema) \<in> set compiled" "tool_Name tool' = name"
      using assms(2) c(3) by (auto simp: grantedValidators_def dest!: map_of_SomeD)
    then show ?thesis using compileTools_sound [OF c(1)] by blast
  qed
qed

lemma BeginModel_ok:
  assumes "BeginModel turn a = (a', Inr body)" "attemptInv cf bodies a"
  shows "attemptInv cf bodies a'" "att_State a' = ModelInFlight" "att_State a = ReadyModel" "turn = att_currentTurn a + 1"
    "att_currentTurn a' = turn" "att_Usage a' = att_Usage a" "turn \<le> cf_max cf"
    "int (length body) \<le> rl_MaxBytes (cf_limits cf)"
    "Fits body (att_contextWindow a) (att_maxOutputTokens a) DefaultSafetyTokens"
proof -
  let ?a = "a\<lparr>att_State := ModelInFlight, att_currentTurn := turn, att_nextTurn := turn + 1\<rparr>"
  have ok: "turn \<le> att_maxModelRequests a" "att_State a = ReadyModel" "turn = att_nextTurn a" "a' = ?a"
      "requestFits ?a (modelRequest ?a turn (att_messages ?a))" "body = the (modelRequest ?a turn (att_messages ?a))"
    using assms(1) by (auto simp: BeginModel_def Let_def split: if_splits)
  then show "attemptInv cf bodies a'" "att_State a' = ModelInFlight" "att_State a = ReadyModel" "turn = att_currentTurn a + 1"
    "att_currentTurn a' = turn" "att_Usage a' = att_Usage a" "turn \<le> cf_max cf"
    using assms(2) by (auto simp: attemptInv_def config_def)
  show "int (length body) \<le> rl_MaxBytes (cf_limits cf)" "Fits body (att_contextWindow a) (att_maxOutputTokens a) DefaultSafetyTokens"
    using ok(5,6) attemptInv_D(1) [OF assms(2)] by (auto simp: requestFits_def config_def split: option.splits)
qed

lemma BeginModel_config: "config (fst (BeginModel turn a)) = config a"
  by (simp add: BeginModel_def Let_def config_def)

lemma AcceptModel_ok:
  assumes "AcceptModel body a = (a', Inr normalized)" "attemptInv cf bodies a"
  shows "attemptInv cf (insert body bodies) a'" "att_State a = ModelInFlight" "att_State a' = AwaitTool \<or> att_State a' = AwaitComplete"
    "att_currentTurn a' = att_currentTurn a" "int (length normalized) \<le> rl_MaxBytes (cf_limits cf)"
    "att_State a' = AwaitTool \<Longrightarrow> att_currentTurn a < cf_max cf"
proof -
  obtain r call where r: "att_State a = ModelInFlight"
      "ParseOpenAISSE body (att_modelID a) (att_validators a) (att_responseLimits a) = Inr r" "acc_Pending r = Some call"
      "\<not> (att_currentTurn a = att_maxModelRequests a \<and> call_Name call \<noteq> submitResult)"
      "a' = a\<lparr>att_Usage := usageAdd (att_Usage a) (acc_Usage r), att_messages := att_messages a @ [GObject (AssistantMessage r)],
         att_pending := Some call, att_State := (if call_Name call = submitResult then AwaitComplete else AwaitTool)\<rparr>"
      "normalized = NormalizedSSE r"
    using assms(1) by (auto simp: AcceptModel_def Let_def split: if_splits sum.splits option.splits)
  note inv = attemptInv_D [OF assms(2)]
  have "callOf cf body call" using r(2,3) inv(1) by (auto simp: callOf_def config_def)
  then show "attemptInv cf (insert body bodies) a'" "att_State a = ModelInFlight" "att_State a' = AwaitTool \<or> att_State a' = AwaitComplete"
    "att_currentTurn a' = att_currentTurn a" using assms(2) r by (auto simp: attemptInv_def config_def)
  show "int (length normalized) \<le> rl_MaxBytes (cf_limits cf)"
    using accepted_response(1) [OF r(2)] r(6) inv(1) by (auto simp: config_def)
  show "att_currentTurn a < cf_max cf" if "att_State a' = AwaitTool"
    using that r(4,5) inv(2,5) by (auto split: if_splits)
qed

lemma AcceptModel_config: "config (fst (AcceptModel body a)) = config a"
  by (simp add: AcceptModel_def Let_def config_def split: sum.splits option.splits)

lemma ValidateToolCall_ok:
  assumes "ValidateToolCall i n args a = Inr call" "attemptInv cf bodies a"
  shows "att_State a = AwaitTool" "att_pending a = Some call" "n = GString (call_Name call)" "sameJSON args (call_Arguments call)"
    "\<exists>body \<in> bodies. callOf cf body call" "call_Name call \<noteq> submitResult"
  using assms by (auto simp: ValidateToolCall_def attemptInv_def split: option.splits if_splits)

lemma AcceptToolResult_ok:
  assumes "AcceptToolResult result a = (a', Inr x)" "attemptInv cf bodies a"
  shows "attemptInv cf bodies a'" "att_State a' = ReadyModel" "att_State a = AwaitTool" "att_currentTurn a' = att_currentTurn a"
  using assms
  by (auto simp: AcceptToolResult_def attemptInv_def resumeModel_def config_def Let_def split: option.splits if_splits sum.splits)

lemma AcceptToolResult_config: "config (fst (AcceptToolResult result a)) = config a"
  by (simp add: AcceptToolResult_def resumeModel_def config_def Let_def split: option.splits sum.splits)

lemma AcceptComplete_ok:
  assumes "AcceptComplete output a = (a', Inr v)" "attemptInv cf bodies a"
  shows "\<exists>body \<in> bodies. \<exists>call. callOf cf body call \<and> call_Name call = submitResult \<and> v = call_Arguments call \<and>
      sameJSON output v \<and> valid (cf_output cf) output" "att_State a = AwaitComplete" "att_State a' = Terminal"
  using assms by (auto simp: AcceptComplete_def attemptInv_def config_def split: option.splits gval.splits if_splits) blast

end
