(* ===== verification/WireProperties.thy ===== *)
theory WireProperties
  imports CapsuleWire CapsuleCodec Transitions
begin

text \<open>
  Properties of the capsule protocol (\<^verbatim>\<open>internal/capsule/wire.go\<close>): the closed schema of
  messages, frames that arrive as they were sent, and the byte budget of a connection.
\<close>

section \<open>Closed messages\<close>

lemma map_of_messageFields_distinct:
  "map_of messageFields ty = Some required \<Longrightarrow> distinct (map fst required)"
  by (auto simp: messageFields_def split: if_splits)

lemma list_all_required:
  assumes "distinct (map fst fs)"
  shows "list_all (fieldPresent m) fs \<longleftrightarrow>
    (\<forall>name validator. map_of fs name = Some validator \<longrightarrow> (\<exists>v. map_of m name = Some v \<and> validator v))"
  using assms by (auto simp: list_all_iff fieldPresent_def split: option.splits) (force dest: map_of_SomeD)+

text \<open>
  C32. The protocol schema is closed: a message is accepted exactly when its type is one of the
  eight known ones, it has precisely the members that type asks for, no more and no fewer, and
  each of them satisfies the check of its field.
\<close>

theorem wire_message_typed:
  assumes "distinct (map fst message)"
  shows "validateWireMessage message = Inr () \<longleftrightarrow>
    (\<exists>ty required. map_of message ''type'' = Some (GString ty) \<and> map_of messageFields ty = Some required \<and>
      dom (map_of message) = dom (map_of required) \<and>
      (\<forall>name validator v. map_of required name = Some validator \<longrightarrow> map_of message name = Some v \<longrightarrow> validator v))"
    (is "_ \<longleftrightarrow> ?typed")
proof -
  have only: "list_all (memberKnown fs) message \<longleftrightarrow>
      (\<forall>name v. map_of message name = Some v \<longrightarrow> (\<exists>validator. map_of fs name = Some validator \<and> validator v))" for fs
    using assms by (auto simp: list_all_iff memberKnown_def split: option.splits) (force dest: map_of_SomeD)+
  show ?thesis
  proof
    assume "validateWireMessage message = Inr ()"
    then obtain ty required where ty: "map_of message ''type'' = Some (GString ty)" "map_of messageFields ty = Some required"
      "\<forall>name validator. map_of required name = Some validator \<longrightarrow> (\<exists>v. map_of message name = Some v \<and> validator v)"
      "\<forall>name v. map_of message name = Some v \<longrightarrow> (\<exists>validator. map_of required name = Some validator \<and> validator v)"
      using list_all_required [OF map_of_messageFields_distinct] only
      by (auto simp: validateWireMessage_def split: option.splits gval.splits if_splits)
    have "dom (map_of message) = dom (map_of required)" using ty(3,4) by blast
    moreover have "validator v" if "map_of required name = Some validator" "map_of message name = Some v" for name validator v
      using ty(3) that by fastforce
    ultimately show ?typed using ty(1,2) by blast
  next
    assume ?typed
    then obtain ty required where ty: "map_of message ''type'' = Some (GString ty)" "map_of messageFields ty = Some required"
      and same: "dom (map_of message) = dom (map_of required)"
      and ok: "\<And>name validator v. map_of required name = Some validator \<Longrightarrow> map_of message name = Some v \<Longrightarrow> validator v" by blast
    have "\<exists>v. map_of message name = Some v \<and> validator v" if "map_of required name = Some validator" for name validator
      using same ok that by blast
    moreover have "\<exists>validator. map_of required name = Some validator \<and> validator v" if "map_of message name = Some v" for name v
      using same ok that by blast
    ultimately show "validateWireMessage message = Inr ()"
      using ty list_all_required [OF map_of_messageFields_distinct [OF ty(2)], of message] only [of required]
      by (simp add: validateWireMessage_def)
  qed
qed

definition demoComplete :: "(string \<times> gval) list" where
  "demoComplete = [(''output'', GObject []), (''type'', GString ''complete'')]"

lemma demoComplete_valid: "validateWireMessage demoComplete = Inr ()"
  by (simp add: validateWireMessage_def demoComplete_def messageFields_def fieldPresent_def memberKnown_def
      exactString_def objectField_def)

theorem wire_message_typed_witness:
  "\<exists>ty required. map_of demoComplete ''type'' = Some (GString ty) \<and> map_of messageFields ty = Some required \<and>
     dom (map_of demoComplete) = dom (map_of required)"
proof -
  have "distinct (map fst demoComplete)" by (simp add: demoComplete_def)
  from wire_message_typed [OF this] demoComplete_valid show ?thesis by blast
qed

section \<open>Frames\<close>

lemma code_char_of_mod: "code (char_of (n :: nat)) = n mod 256"
  by (simp add: of_char_of)

lemma Uint32_PutUint32: "Uint32 (PutUint32 w) = unat w"
proof -
  have w: "unat w < 256 ^ 4" using unsigned_less [of w, where 'a = nat] by simp
  have "Uint32 (PutUint32 w) =
      ((unat w div 256 ^ 3 mod 256 * 256 + unat w div 256 ^ 2 mod 256) * 256 + unat w div 256 mod 256) * 256 + unat w mod 256"
    by (simp add: Uint32_def PutUint32_def code_char_of_mod)
  moreover have "unat w div 256 ^ 3 mod 256 = unat w div 256 ^ 3" using w by (simp add: less_mult_imp_div_less)
  moreover have "unat w div 256 ^ 3 * 256 + unat w div 256 ^ 2 mod 256 = unat w div 256 ^ 2"
    using div_mult_mod_eq [of "unat w div 256 ^ 2" 256] by (simp add: div_mult2_eq [symmetric])
  moreover have "unat w div 256 ^ 2 * 256 + unat w div 256 mod 256 = unat w div 256"
    using div_mult_mod_eq [of "unat w div 256" 256] by (simp add: div_mult2_eq [symmetric] power2_eq_square)
  ultimately show ?thesis using div_mult_mod_eq [of "unat w" 256] by (simp only:)
qed

lemma length_PutUint32 [simp]: "length (PutUint32 w) = 4"
  by (simp add: PutUint32_def)

lemma writeLoop_ok: "writeLoop ws out v = ((ws', out'), Inr ()) \<Longrightarrow> out' = out @ v"
proof (induction ws arbitrary: out v)
  case (Cons w ws)
  show ?case
  proof (cases "v = []")
    case False
    then obtain n where "writeLoop ws (out @ take (min n (length v)) v) (drop (min n (length v)) v) = ((ws', out'), Inr ())"
      using Cons.prems by (auto simp: Let_def split: if_splits option.splits)
    from Cons.IH [OF this] show ?thesis by simp
  qed (use Cons.prems in simp)
qed (auto split: if_splits)

lemma writeLoop_prefix: "writeLoop ws out v = ((ws', out'), r) \<Longrightarrow> \<exists>n \<le> length v. out' = out @ take n v"
proof (induction ws arbitrary: out v)
  case (Cons w ws)
  show ?case
  proof (cases "v = [] \<or> w = None \<or> (\<exists>n. w = Some n \<and> min n (length v) = 0)")
    case True
    then show ?thesis using Cons.prems by (auto intro!: exI [of _ 0] split: if_splits option.splits)
  next
    case False
    then obtain n where n: "w = Some n" "min n (length v) \<noteq> 0" "v \<noteq> []" by (cases w) auto
    let ?k = "min n (length v)"
    obtain j where "j \<le> length (drop ?k v)" "out' = (out @ take ?k v) @ take j (drop ?k v)"
      using Cons n by (force simp: Let_def)
    then show ?thesis by (intro exI [of _ "?k + j"]) (auto simp: take_add)
  qed
qed (auto split: if_splits)

lemma send_ok:
  assumes "send message t = (t', Inr ())"
  obtains encoded c where "canonicalJSON (GObject message) = Some encoded" "validateWireMessage message = Inr ()"
    "encoded \<noteq> []" "int (length encoded) \<le> MaxFrameBytes (wire_limits t)"
    "wire_aggregate t + int (length encoded) + 4 \<le> MaxAggregateBytes (wire_limits t)"
    "writeFull (wire_connection t) (PutUint32 (of_nat (length encoded)) @ encoded) = (c, Inr ())"
    "t' = t\<lparr>wire_aggregate := wire_aggregate t + int (length encoded) + 4, wire_connection := c\<rparr>"
    "isOk (parseStrictJSON encoded (complexityOf (wire_limits t)))"
  using assms by (auto simp: send_def Let_def split: sum.splits option.splits if_splits prod.splits)

lemma writeFull_ok:
  "writeFull c v = (c', Inr ()) \<Longrightarrow> outbound c' = outbound c @ v \<and> inbound c' = inbound c"
  by (auto simp: writeFull_def split: prod.splits dest: writeLoop_ok)

lemma limits_frame: "limitsValidate l = Inr () \<Longrightarrow> MaxFrameBytes l \<le> 4194304 \<and> 0 \<le> MaxKeys l"
  by (auto simp: limitsValidate_def split: if_splits)

text \<open>
  C33. A message arrives as it was sent: when \<^verbatim>\<open>send\<close> succeeds on a message in normal form
  (members sorted, within the JSON limits), a peer with the same limits and at least as much of
  the byte budget left that finds the written bytes next on its connection receives exactly that
  message, consumes exactly those bytes, and counts them as the sender did.
\<close>

theorem wire_roundtrip:
  assumes sent: "send message t = (t', Inr ())"
    and valid: "limitsValidate (wire_limits t) = Inr ()"
    and normal: "accepted (complexityOf (wire_limits t)) 1 (GObject message)"
      "int (members (GObject message)) \<le> MaxKeys (wire_limits t)"
    and peer: "wire_limits p = wire_limits t" "wire_aggregate p \<le> wire_aggregate t"
      "outbound (wire_connection t') @ rest = outbound (wire_connection t) @ inbound (wire_connection p)"
  shows "\<exists>p'. receive p = (p', Inr message) \<and> inbound (wire_connection p') = rest \<and>
    wire_aggregate p' - wire_aggregate p = wire_aggregate t' - wire_aggregate t"
  using sent
proof (cases rule: send_ok)
  case (1 encoded c)
  let ?l = "complexityOf (wire_limits t)"
  have small: "int (length encoded) \<le> 4194304" using 1(4) limits_frame [OF valid] by linarith
  then have len: "Uint32 (PutUint32 (of_nat (length encoded))) = length encoded"
    by (simp add: Uint32_PutUint32 unat_of_nat take_bit_nat_eq_self_iff)
  have inb: "inbound (wire_connection p) = PutUint32 (of_nat (length encoded)) @ encoded @ rest"
    using peer(3) writeFull_ok [OF 1(6)] 1(7) by simp
  have keys: "int (members (GObject message)) \<le> maxKeys ?l" using normal(2) by (simp add: complexityOf_def)
  have parsed: "parseStrictJSON encoded ?l = Inr (GObject message, members (GObject message))"
    using parse_canonical [OF normal(1) keys] 1(1) by force
  have budget: "wire_aggregate p + int (length encoded) + 4 \<le> MaxAggregateBytes (wire_limits t)"
    using 1(5) peer(2) by linarith
  show ?thesis
    using 1(2-4,7) len parsed budget peer(1) by (simp add: receive_def inb Let_def ReadFull_def Suc_le_eq)
qed

text \<open>The normal message on a fresh connection whose writes take everything at once.\<close>

definition demoWire :: "string \<Rightarrow> wire" where
  "demoWire bytes = newWire \<lparr>inbound = bytes, outbound = [], writes = [Some 100]\<rparr> DefaultLimits"

lemma DefaultLimits_valid: "limitsValidate DefaultLimits = Inr ()"
  by (simp add: limitsValidate_def DefaultLimits_def second_def fetchFrameReserve_def)

lemma demoComplete_accepted:
  "accepted (complexityOf DefaultLimits) 1 (GObject demoComplete)" "members (GObject demoComplete) = 2"
proof -
  have "utf8Valid ''output''" "utf8Valid ''type''" "utf8Valid ''complete''" by simp_all
  then show "accepted (complexityOf DefaultLimits) 1 (GObject demoComplete)" "members (GObject demoComplete) = 2"
    by (simp_all add: accepted_object memberOk_def demoComplete_def complexityOf_def DefaultLimits_def less_char_def
        checkScalar_def)
qed

lemma length_escapeByte: "length (escapeByte c) \<le> 6"
  by (simp add: escapeByte_def)

lemma demoComplete_sent: "\<exists>t'. send demoComplete (demoWire []) = (t', Inr ())"
proof -
  let ?l = "complexityOf DefaultLimits"
  have keys: "int (members (GObject demoComplete)) \<le> maxKeys ?l"
    unfolding demoComplete_accepted(2) by (simp add: complexityOf_def DefaultLimits_def)
  obtain e where e: "canonicalJSON (GObject demoComplete) = Some e" "parseStrictJSON e ?l = Inr (GObject demoComplete, 2)"
    using parse_canonical [OF demoComplete_accepted(1) keys] demoComplete_accepted(2) by metis
  have "sort_key fst demoComplete = demoComplete" by (rule sorted_keys_id) (simp add: demoComplete_def less_char_def)
  then have "length e = 31"
    using e(1) by (simp add: canonicalJSON_raw) (auto simp: demoComplete_def rawString_def runes_ascii rawRune_def escapeByte_def
        quote_def backslash_def)
  then show ?thesis using e demoComplete_valid
    by (auto simp: send_def demoWire_def newWire_def DefaultLimits_def Let_def writeFull_def complexityOf_def)
qed

theorem wire_roundtrip_witness:
  "\<exists>t' p'. send demoComplete (demoWire []) = (t', Inr ()) \<and>
     receive (demoWire (outbound (wire_connection t'))) = (p', Inr demoComplete)"
proof -
  obtain t' where t': "send demoComplete (demoWire []) = (t', Inr ())" using demoComplete_sent by blast
  have same: "wire_limits (demoWire x) = DefaultLimits" "wire_aggregate (demoWire x) = 0"
    "outbound (wire_connection (demoWire x)) = []" "inbound (wire_connection (demoWire x)) = x" for x
    by (simp_all add: demoWire_def newWire_def)
  have "int (members (GObject demoComplete)) \<le> MaxKeys DefaultLimits"
    unfolding demoComplete_accepted(2) by (simp add: DefaultLimits_def)
  with wire_roundtrip [OF t', of "demoWire (outbound (wire_connection t'))" "[]"] t' show ?thesis
    using DefaultLimits_valid demoComplete_accepted(1) by (auto simp: same simp del: members.simps)
qed

section \<open>The byte budget\<close>

text \<open>A step of a connection is a send or a receive that succeeds.\<close>

inductive wireStep :: "wire \<Rightarrow> wire \<Rightarrow> bool" where
  "send message t = (t', Inr ()) \<Longrightarrow> wireStep t t'"
| "receive t = (t', Inr message) \<Longrightarrow> wireStep t t'"

inductive_cases wireStepE: "wireStep t t'"

lemma receive_ok:
  assumes "receive t = (t', Inr message)"
  obtains n where "1 \<le> n" "n + 4 \<le> length (inbound (wire_connection t))"
    "t' = t\<lparr>wire_aggregate := wire_aggregate t + int n + 4,
      wire_connection := (wire_connection t)\<lparr>inbound := drop (n + 4) (inbound (wire_connection t))\<rparr>\<rparr>"
    "wire_aggregate t + int n + 4 \<le> MaxAggregateBytes (wire_limits t)" "int n \<le> MaxFrameBytes (wire_limits t)"
    "validateWireMessage message = Inr ()" "accepted (complexityOf (wire_limits t)) 1 (GObject message)"
proof -
  let ?n = "Uint32 (take 4 (inbound (wire_connection t)))"
  let ?e = "take ?n (drop 4 (inbound (wire_connection t)))"
  obtain k where "parseStrictJSON ?e (complexityOf (wire_limits t)) = Inr (GObject message, k)"
    using assms by (auto simp: receive_def ReadFull_def Let_def split: if_splits sum.splits gval.splits)
  then have acc: "accepted (complexityOf (wire_limits t)) 1 (GObject message)" by (rule parse_sound)
  show thesis
    by (rule that [of ?n])
      (use assms acc in \<open>auto simp: receive_def ReadFull_def Let_def add.commute split: if_splits sum.splits gval.splits\<close>)
qed

text \<open>
  The invariant of a connection on which the peer sends some bytes in all: the count is that of
  the bytes moved in either direction, and within the limit.
\<close>

definition wireInv :: "Limits \<Rightarrow> string \<Rightarrow> wire \<Rightarrow> bool" where
  "wireInv l bytes t \<longleftrightarrow> wire_limits t = l \<and> length (inbound (wire_connection t)) \<le> length bytes \<and>
     wire_aggregate t = int (length (outbound (wire_connection t))) +
       int (length bytes - length (inbound (wire_connection t))) \<and>
     wire_aggregate t \<le> MaxAggregateBytes l"

definition freshWire :: "Limits \<Rightarrow> string \<Rightarrow> wire \<Rightarrow> bool" where
  "freshWire l bytes t \<longleftrightarrow> 0 \<le> MaxAggregateBytes l \<and>
     (\<exists>ws. t = newWire \<lparr>inbound = bytes, outbound = [], writes = ws\<rparr> l)"

lemma wireStep_progress:
  assumes "wireStep t t'"
  obtains n where "5 \<le> n" "wire_aggregate t' = wire_aggregate t + int n" "wire_limits t' = wire_limits t"
    "wire_aggregate t' \<le> MaxAggregateBytes (wire_limits t)"
    "outbound (wire_connection t') = outbound (wire_connection t) \<and> n \<le> length (inbound (wire_connection t)) \<and>
       length (inbound (wire_connection t')) = length (inbound (wire_connection t)) - n \<or>
     inbound (wire_connection t') = inbound (wire_connection t) \<and>
       length (outbound (wire_connection t')) = length (outbound (wire_connection t)) + n"
  using assms
proof (cases rule: wireStep.cases)
  case (1 message)
  then show thesis
  proof (cases rule: send_ok)
    case sent: (1 encoded c)
    have "0 < length encoded" using sent(3) by simp
    then show thesis
      using sent writeFull_ok [OF sent(6)] by (intro that [of "length encoded + 4"]) (auto simp: Suc_le_eq)
  qed
next
  case (2 message)
  then show thesis
  proof (cases rule: receive_ok)
    case (1 n)
    then show thesis by (intro that [of "n + 4"]) auto
  qed
qed

interpretation wireBudget: never_grows "freshWire l bytes" wireStep "wireInv l bytes"
  "\<lambda>t. nat (MaxAggregateBytes l - wire_aggregate t)"
proof (unfold_locales, goal_cases)
  case (1 s)
  then show ?case by (auto simp: freshWire_def wireInv_def newWire_def)
next
  case (2 s t)
  from 2(2) obtain n where "wire_aggregate t = wire_aggregate s + int n" "wire_limits t = wire_limits s"
    "wire_aggregate t \<le> MaxAggregateBytes (wire_limits s)"
    "outbound (wire_connection t) = outbound (wire_connection s) \<and> n \<le> length (inbound (wire_connection s)) \<and>
       length (inbound (wire_connection t)) = length (inbound (wire_connection s)) - n \<or>
     inbound (wire_connection t) = inbound (wire_connection s) \<and>
       length (outbound (wire_connection t)) = length (outbound (wire_connection s)) + n"
    by (rule wireStep_progress)
  then show ?case using 2(1) by (elim disjE) (auto simp: wireInv_def)
next
  case (3 s t)
  then show ?case by (metis diff_left_mono nat_mono wireStep_progress zle_iff_zadd)
qed

text \<open>
  The byte budget of a session: after any sequence of successful sends and receives on a fresh
  connection, the count kept by the host is the number of bytes that crossed the connection, in
  both directions together, and it is within the aggregate limit.
\<close>

lemma wire_budget:
  assumes "reach wireStep (newWire \<lparr>inbound = bytes, outbound = [], writes = ws\<rparr> l) t" "limitsValidate l = Inr ()"
  shows "wire_aggregate t = int (length (outbound (wire_connection t)) + (length bytes - length (inbound (wire_connection t)))) \<and>
    wire_aggregate t \<le> MaxAggregateBytes l"
proof -
  have "freshWire l bytes (newWire \<lparr>inbound = bytes, outbound = [], writes = ws\<rparr> l)"
    using assms(2) by (auto simp: freshWire_def limitsValidate_def split: if_splits)
  then have "wireInv l bytes t" using wireBudget.always [OF assms(1)] by blast
  then show ?thesis by (auto simp: wireInv_def)
qed

lemma wire_budget_example:
  "\<exists>t. send demoComplete (demoWire []) = (t, Inr ()) \<and> wire_aggregate t = int (length (outbound (wire_connection t)))"
proof -
  obtain t where t: "send demoComplete (demoWire []) = (t, Inr ())" using demoComplete_sent by blast
  then have "reach wireStep (newWire \<lparr>inbound = [], outbound = [], writes = [Some 100]\<rparr> DefaultLimits) t"
    unfolding demoWire_def by (intro reach_one wireStep.intros)
  from wire_budget [OF this DefaultLimits_valid] t show ?thesis by auto
qed

end
