(* ===== verification/SessionProperties.thy ===== *)
theory SessionProperties
  imports CapsuleSession AttemptProperties WireProperties
begin

text \<open>
  What holds of every session (\<^verbatim>\<open>internal/capsule/session.go\<close>), whatever the capsule
  sends, the provider answers and the tools return.
\<close>

section \<open>The invariant of a session\<close>

definition answers :: "sessionEvent list \<Rightarrow> string set" where
  "answers tr = {body. ModelAnswered body \<in> set tr}"

definition isAnswer :: "sessionEvent \<Rightarrow> bool" where
  "isAnswer e = (case e of ModelAnswered _ \<Rightarrow> True | _ \<Rightarrow> False)"

definition isHandled :: "sessionEvent \<Rightarrow> bool" where
  "isHandled e = (case e of ToolHandled _ _ \<Rightarrow> True | _ \<Rightarrow> False)"

definition answered :: "sessionEvent list \<Rightarrow> nat" where "answered tr = length (filter isAnswer tr)"

definition handled :: "sessionEvent list \<Rightarrow> nat" where "handled tr = length (filter isHandled tr)"

lemma trace_append [simp]:
  "answers (tr @ [ModelAnswered b]) = insert b (answers tr)" "answers (tr @ [ToolHandled n v]) = answers tr"
  "answered (tr @ [ModelAnswered b]) = Suc (answered tr)" "answered (tr @ [ToolHandled n v]) = answered tr"
  "handled (tr @ [ModelAnswered b]) = handled tr" "handled (tr @ [ToolHandled n v]) = Suc (handled tr)"
  by (auto simp: answers_def answered_def handled_def isAnswer_def isHandled_def)

text \<open>Every handled call is one the provider made in an answer, for a granted tool, with the
  arguments it gave.\<close>

definition handledOk :: "attemptConfig \<Rightarrow> string list \<Rightarrow> sessionEvent list \<Rightarrow> bool" where
  "handledOk cf tools tr \<longleftrightarrow> (\<forall>n v. ToolHandled n v \<in> set tr \<longrightarrow> n \<in> set tools \<and>
     (\<exists>body call. body \<in> answers tr \<and> callOf cf body call \<and> call_Name call = n \<and> call_Arguments call = v))"

lemma handledOk_answer: "handledOk cf tools tr \<Longrightarrow> handledOk cf tools (tr @ [ModelAnswered b])"
  unfolding handledOk_def trace_append(1) by fastforce

lemma handledOk_handled:
  assumes "handledOk cf tools tr" "call_Name call \<in> set tools" "\<exists>body \<in> answers tr. callOf cf body call"
  shows "handledOk cf tools (tr @ [ToolHandled (call_Name call) (call_Arguments call)])"
  using assms unfolding handledOk_def trace_append(2) by fastforce

definition awaiting :: "OpenAIAttempt \<Rightarrow> nat" where
  "awaiting a = (if att_State a = AwaitTool \<or> att_State a = AwaitComplete then 1 else 0)"

definition sessionInv :: "attemptConfig \<Rightarrow> sessionLimits \<Rightarrow> session \<Rightarrow> bool" where
  "sessionInv cf l s \<longleftrightarrow> attemptInv cf (answers (ses_trace s)) (ses_attempt s) \<and>
     handledOk cf (sl_tools l) (ses_trace s) \<and> distinct (ses_seenIDs s) \<and>
     ses_modelRequests s = att_currentTurn (ses_attempt s) \<and> ses_modelRequests s \<le> MaxModelRequests (sl_Limits l) \<and>
     int (answered (ses_trace s)) = att_currentTurn (ses_attempt s) \<and>
     att_State (ses_attempt s) \<in> {ReadyModel, AwaitTool, AwaitComplete} \<and>
     handled (ses_trace s) + awaiting (ses_attempt s) = answered (ses_trace s)"

text \<open>What holds when the loop returns.\<close>

definition sessionPost :: "attemptConfig \<Rightarrow> sessionLimits \<Rightarrow> session \<Rightarrow> invokeError + gval \<Rightarrow> bool" where
  "sessionPost cf l s result \<longleftrightarrow> handledOk cf (sl_tools l) (ses_trace s) \<and>
     int (answered (ses_trace s)) \<le> cf_max cf \<and> int (answered (ses_trace s)) \<le> MaxModelRequests (sl_Limits l) \<and>
     handled (ses_trace s) \<le> answered (ses_trace s) \<and>
     (\<forall>output. result = Inr output \<longrightarrow> att_State (ses_attempt s) = Terminal \<and>
        (\<exists>body call. body \<in> answers (ses_trace s) \<and> callOf cf body call \<and> call_Name call = submitResult \<and>
           call_Arguments call = output))"

primrec roundOk :: "attemptConfig \<Rightarrow> sessionLimits \<Rightarrow> round \<Rightarrow> bool" where
  "roundOk cf l (Continue s) = sessionInv cf l s"
| "roundOk cf l (Return s r) = sessionPost cf l s r"

lemma failSession_ok:
  "handledOk cf (sl_tools l) (ses_trace s) \<Longrightarrow> int (answered (ses_trace s)) \<le> cf_max cf \<Longrightarrow>
    int (answered (ses_trace s)) \<le> MaxModelRequests (sl_Limits l) \<Longrightarrow> handled (ses_trace s) \<le> answered (ses_trace s) \<Longrightarrow>
    roundOk cf l (failSession s)"
  by (simp add: failSession_def sessionPost_def)

lemma sessionInv_bounds:
  assumes "sessionInv cf l s"
  shows "handledOk cf (sl_tools l) (ses_trace s)" "int (answered (ses_trace s)) \<le> cf_max cf"
    "int (answered (ses_trace s)) \<le> MaxModelRequests (sl_Limits l)" "handled (ses_trace s) \<le> answered (ses_trace s)"
  using assms attemptInv_D(2) [of cf] by (auto simp: sessionInv_def)

lemma sessionInv_fail:
  "sessionInv cf l s \<Longrightarrow> ses_trace s' = ses_trace s \<Longrightarrow> roundOk cf l (failSession s')"
  using sessionInv_bounds [of cf l s] by (intro failSession_ok) simp_all

lemma sendOrFail_ok: "sessionInv cf l s \<Longrightarrow> roundOk cf l (sendOrFail m s)"
  by (auto simp: sendOrFail_def split: prod.split sum.split intro: sessionInv_fail) (simp add: sessionInv_def)

lemma uniqueID_distinct: "uniqueID m seen = (seen', i) \<Longrightarrow> distinct seen \<Longrightarrow> distinct seen'"
  by (auto simp: uniqueID_def split: gval.splits if_splits)

lemma sessionInv_seen: "sessionInv cf l s \<Longrightarrow> distinct seen \<Longrightarrow> sessionInv cf l (s\<lparr>ses_seenIDs := seen\<rparr>)"
  by (simp add: sessionInv_def)

lemma sessionInv_wire: "sessionInv cf l s \<Longrightarrow> sessionInv cf l (s\<lparr>ses_wire := w\<rparr>)"
  by (simp add: sessionInv_def)

lemma modelAnswer_ok:
  assumes inv: "sessionInv cf l s" and begun: "BeginModel turn (ses_attempt s) = (a, Inr body)"
    and requests: "ses_modelRequests s + 1 \<le> MaxModelRequests (sl_Limits l)"
    and s': "ses_trace s' = ses_trace s @ [ModelAnswered answer]" "ses_seenIDs s' = ses_seenIDs s"
      "ses_modelRequests s' = ses_modelRequests s + 1"
  shows "AcceptModel answer a = (a', Inl e) \<Longrightarrow> roundOk cf l (failSession (s'\<lparr>ses_attempt := a'\<rparr>))"
    and "AcceptModel answer a = (a', Inr normalized) \<Longrightarrow> sessionInv cf l (s'\<lparr>ses_attempt := a'\<rparr>)"
proof -
  have att: "attemptInv cf (answers (ses_trace s)) (ses_attempt s)" using inv by (simp add: sessionInv_def)
  note b = BeginModel_ok [OF begun att] and bounds = sessionInv_bounds [OF inv]
  show "AcceptModel answer a = (a', Inl e) \<Longrightarrow> roundOk cf l (failSession (s'\<lparr>ses_attempt := a'\<rparr>))"
    using bounds b(4,7) inv requests s'(1) by (intro failSession_ok) (auto simp: sessionInv_def intro: handledOk_answer)
  assume ok: "AcceptModel answer a = (a', Inr normalized)"
  note c = AcceptModel_ok [OF ok b(1)]
  have "awaiting (ses_attempt s) = 0" "awaiting a' = 1" using b(3) c(3) by (auto simp: awaiting_def)
  then show "sessionInv cf l (s'\<lparr>ses_attempt := a'\<rparr>)"
    using inv c(1,3,4) b(4,5) requests s' handledOk_answer [OF bounds(1)] by (auto simp: sessionInv_def)
qed

lemma onModelRequest_ok:
  assumes inv: "sessionInv cf l s"
  shows "roundOk cf l (onModelRequest env l m s)"
proof -
  obtain seen operation where u: "uniqueID m (ses_seenIDs s) = (seen, operation)" by fastforce
  define s1 where "s1 = s\<lparr>ses_seenIDs := seen\<rparr>"
  define s2 where "s2 = s1\<lparr>ses_fetches := ses_fetches s1 + 1, ses_modelRequests := ses_modelRequests s1 + 1\<rparr>"
  have inv1: "sessionInv cf l s1"
    using inv uniqueID_distinct [OF u] unfolding s1_def by (intro sessionInv_seen) (simp_all add: sessionInv_def)
  have fail: "roundOk cf l (failSession s')" if "ses_trace s' = ses_trace s" for s' using sessionInv_fail [OF inv that] .
  have tr: "ses_trace s1 = ses_trace s" "ses_trace s2 = ses_trace s" by (simp_all add: s1_def s2_def)
  show ?thesis
  proof (cases "\<exists>opID turn. operation = Some opID \<and> jsonInteger (entry ''turn'' m) = Some turn \<and> \<not> turn < 1 \<and>
      ses_fetches s2 \<le> MaxFetches (sl_Limits l) \<and> ses_modelRequests s2 \<le> MaxModelRequests (sl_Limits l)")
    case False
    then show ?thesis using fail tr
      by (auto simp: onModelRequest_def u Let_def s1_def [symmetric] s2_def [symmetric] split: option.split)
  next
    case True
    then obtain opID turn where t: "operation = Some opID" "jsonInteger (entry ''turn'' m) = Some turn" "\<not> turn < 1"
      "ses_fetches s2 \<le> MaxFetches (sl_Limits l)" "ses_modelRequests s2 \<le> MaxModelRequests (sl_Limits l)" by blast
    obtain a begun where b: "BeginModel turn (ses_attempt s2) = (a, begun)" by fastforce
    show ?thesis
    proof (cases begun)
      case (Inl e)
      then show ?thesis using fail tr t b
        by (simp add: onModelRequest_def u Let_def s1_def [symmetric] s2_def [symmetric])
    next
      case (Inr body)
      obtain n outcome where x: "exchange (env_provider env) (sl_MaxRetries l) body (ses_requests s2) = (n, outcome)" by fastforce
      have begin1: "BeginModel turn (ses_attempt s1) = (a, Inr body)" using b Inr by (simp add: s2_def)
      have req: "ses_modelRequests s1 + 1 \<le> MaxModelRequests (sl_Limits l)" using t(5) by (simp add: s2_def)
      show ?thesis
      proof (cases "\<exists>response. outcome = Inr response \<and> resp_Status response = 200 \<and> eventStream (resp_ContentType response)")
        case False
        then show ?thesis using fail tr t b Inr x
          by (auto simp: onModelRequest_def u Let_def s1_def [symmetric] s2_def [symmetric] split: sum.splits)
      next
        case True
        then obtain response where r: "outcome = Inr response" "resp_Status response = 200" "eventStream (resp_ContentType response)" by blast
        let ?s4 = "s2\<lparr>ses_attempt := a, ses_requests := n, ses_trace := ses_trace s2 @ [ModelAnswered (resp_Body response)]\<rparr>"
        have "ses_trace ?s4 = ses_trace s1 @ [ModelAnswered (resp_Body response)]" "ses_seenIDs ?s4 = ses_seenIDs s1"
          "ses_modelRequests ?s4 = ses_modelRequests s1 + 1" by (simp_all add: s2_def)
        note answer = modelAnswer_ok [OF inv1 begin1 req this]
        obtain a' accepted where acc: "AcceptModel (resp_Body response) a = (a', accepted)" by fastforce
        have run: "onModelRequest env l m s = (case accepted of
            Inl _ \<Rightarrow> failSession (?s4\<lparr>ses_attempt := a'\<rparr>)
          | Inr normalized \<Rightarrow> sendOrFail [(''type'', GString ''model_result''), (''id'', GString opID),
              (''body_base64'', GString (base64 normalized))] (?s4\<lparr>ses_attempt := a'\<rparr>))"
          using t b Inr x r acc by (simp add: onModelRequest_def u Let_def s1_def [symmetric] s2_def [symmetric])
        show ?thesis
          using answer [of a'] sendOrFail_ok [of cf l] acc unfolding run by (cases accepted) simp_all
      qed
    qed
  qed
qed

text \<open>A handled call, whatever its result.\<close>

lemma handledCall_ok:
  assumes inv: "sessionInv cf l s" and checked: "ValidateToolCall i n args (ses_attempt s) = Inr call"
    and tool: "call_Name call \<in> set (sl_tools l)"
  defines "s' \<equiv> s\<lparr>ses_trace := ses_trace s @ [ToolHandled (call_Name call) (call_Arguments call)]\<rparr>"
  shows "roundOk cf l (failSession s')" and "roundOk cf l (failSession (s'\<lparr>ses_attempt := a\<rparr>))"
    and "AcceptToolResult result (ses_attempt s') = (a, Inr x) \<Longrightarrow> sessionInv cf l (s'\<lparr>ses_attempt := a\<rparr>)"
proof -
  have att: "attemptInv cf (answers (ses_trace s)) (ses_attempt s)" using inv by (simp add: sessionInv_def)
  note v = ValidateToolCall_ok [OF checked att] and bounds = sessionInv_bounds [OF inv]
  have aw: "awaiting (ses_attempt s) = 1" using v(1) by (simp add: awaiting_def)
  have tr: "handledOk cf (sl_tools l) (ses_trace s')" "answers (ses_trace s') = answers (ses_trace s)"
      "answered (ses_trace s') = answered (ses_trace s)" "handled (ses_trace s') = Suc (handled (ses_trace s))"
    using handledOk_handled [OF bounds(1) tool v(5)] by (simp_all add: s'_def)
  have count: "handled (ses_trace s') = answered (ses_trace s')" using inv aw tr by (simp add: sessionInv_def)
  show "roundOk cf l (failSession s')" using bounds tr count by (intro failSession_ok) simp_all
  show "roundOk cf l (failSession (s'\<lparr>ses_attempt := a\<rparr>))" using bounds tr count by (intro failSession_ok) simp_all
  assume ok: "AcceptToolResult result (ses_attempt s') = (a, Inr x)"
  have "ses_attempt s' = ses_attempt s" by (simp add: s'_def)
  note r = AcceptToolResult_ok [OF ok [unfolded this] att]
  have "awaiting a = 0" using r(2) by (simp add: awaiting_def)
  moreover have "ses_seenIDs s' = ses_seenIDs s" "ses_modelRequests s' = ses_modelRequests s" by (simp_all add: s'_def)
  ultimately show "sessionInv cf l (s'\<lparr>ses_attempt := a\<rparr>)" using inv r tr count by (simp add: sessionInv_def)
qed

lemma onToolCall_ok:
  assumes inv: "sessionInv cf l s"
  shows "roundOk cf l (onToolCall env l m s)"
proof -
  obtain seen operation where u: "uniqueID m (ses_seenIDs s) = (seen, operation)" by fastforce
  define s1 where "s1 = s\<lparr>ses_seenIDs := seen\<rparr>"
  obtain checked where v: "ValidateToolCall (entry ''provider_call_id'' m) (entry ''name'' m) (entry ''arguments'' m)
      (ses_attempt s1) = checked" by simp
  have inv1: "sessionInv cf l s1"
    using inv uniqueID_distinct [OF u] unfolding s1_def by (intro sessionInv_seen) (simp_all add: sessionInv_def)
  have fail: "roundOk cf l (failSession s1)" using sessionInv_fail [OF inv1] by simp
  show ?thesis
  proof (cases "\<exists>opID call. operation = Some opID \<and> checked = Inr call \<and> call_Name call \<in> set (sl_tools l)")
    case False
    then show ?thesis using fail v
      by (auto simp: onToolCall_def u Let_def s1_def [symmetric] split: option.split sum.split)
  next
    case True
    then obtain opID call where c: "operation = Some opID" "checked = Inr call" "call_Name call \<in> set (sl_tools l)" by blast
    define s2 where "s2 = s1\<lparr>ses_trace := ses_trace s1 @ [ToolHandled (call_Name call) (call_Arguments call)]\<rparr>"
    have run: "onToolCall env l m s = (case env_handle env (length (ses_trace s2)) (call_Name call) (call_Arguments call) of
        Inl _ \<Rightarrow> failSession s2
      | Inr toolResult \<Rightarrow> (case AcceptToolResult toolResult (ses_attempt s2) of
            (a, Inl _) \<Rightarrow> failSession (s2\<lparr>ses_attempt := a\<rparr>)
          | (a, Inr (content, canonical)) \<Rightarrow>
              sendOrFail [(''type'', GString ''tool_result''), (''id'', GString opID), (''result'', canonical),
                (''content'', GString content)] (s2\<lparr>ses_attempt := a\<rparr>)))"
      using c v by (simp add: onToolCall_def u Let_def s1_def [symmetric] s2_def [symmetric])
    note step = handledCall_ok [OF inv1 v [unfolded c(2)] c(3), folded s2_def]
    show ?thesis
      unfolding run using step by (auto split: prod.split sum.split intro: sendOrFail_ok)
  qed
qed

lemma onComplete_ok:
  assumes inv: "sessionInv cf l s"
  shows "roundOk cf l (onComplete env m s)"
proof -
  obtain a completed where c: "AcceptComplete (entry ''output'' m) (ses_attempt s) = (a, completed)" by fastforce
  have att: "attemptInv cf (answers (ses_trace s)) (ses_attempt s)" using inv by (simp add: sessionInv_def)
  have fail: "roundOk cf l (failSession (s\<lparr>ses_attempt := a\<rparr>))" using sessionInv_fail [OF inv] by simp
  show ?thesis
  proof (cases completed)
    case (Inl e)
    then show ?thesis using fail c by (simp add: onComplete_def)
  next
    case (Inr v)
    note d = AcceptComplete_ok [OF c [unfolded Inr] att]
    have "roundOk cf l (Return (s\<lparr>ses_attempt := a\<rparr>) (Inr v))"
      using sessionInv_bounds [OF inv] d(1,3) by (auto simp: sessionPost_def)
    then show ?thesis using fail c Inr by (simp add: onComplete_def)
  qed
qed

lemma sessionRound_ok:
  assumes inv: "sessionInv cf l s"
  shows "roundOk cf l (sessionRound env l s)"
proof -
  obtain w received where r: "receive (ses_wire s) = (w, received)" by fastforce
  have inv1: "sessionInv cf l (s\<lparr>ses_wire := w\<rparr>)" using inv by (rule sessionInv_wire)
  have fail: "roundOk cf l (failSession (s\<lparr>ses_wire := w\<rparr>))" using sessionInv_fail [OF inv] by simp
  have stop: "roundOk cf l (Return (s\<lparr>ses_wire := w\<rparr>) (Inl ContextError))"
    using sessionInv_bounds [OF inv] by (simp add: sessionPost_def)
  show ?thesis
    using fail stop onModelRequest_ok [OF inv1] onToolCall_ok [OF inv1] onComplete_ok [OF inv1]
    by (cases received) (simp_all add: sessionRound_def r Let_def)
qed


section \<open>Sessions\<close>

text \<open>The rounds after which the session goes on.\<close>

definition sessionStep :: "environment \<Rightarrow> sessionLimits \<Rightarrow> session \<Rightarrow> session \<Rightarrow> bool" where
  "sessionStep env l s s' \<longleftrightarrow> sessionRound env l s = Continue s'"

text \<open>The session at the start of its loop: nothing asked, nothing answered.\<close>

definition sessionStart :: "attemptConfig \<Rightarrow> sessionLimits \<Rightarrow> session \<Rightarrow> bool" where
  "sessionStart cf l s \<longleftrightarrow> attemptInv cf {} (ses_attempt s) \<and> att_State (ses_attempt s) = ReadyModel \<and>
     att_currentTurn (ses_attempt s) = 0 \<and> ses_seenIDs s = [] \<and> ses_fetches s = 0 \<and> ses_modelRequests s = 0 \<and>
     filter (\<lambda>e. isAnswer e \<or> isHandled e) (ses_trace s) = [] \<and> 0 \<le> MaxModelRequests (sl_Limits l)"

lemma quietTrace:
  assumes "filter (\<lambda>e. isAnswer e \<or> isHandled e) tr = []"
  shows "answers tr = {}" "answered tr = 0" "handled tr = 0" "handledOk cf tools tr"
proof -
  have q: "\<not> isAnswer e" "\<not> isHandled e" if "e \<in> set tr" for e using assms that by (auto simp: filter_empty_conv)
  then show "answered tr = 0" "handled tr = 0" by (auto simp: answered_def handled_def filter_empty_conv)
  show "answers tr = {}" using q(1) by (force simp: answers_def isAnswer_def)
  show "handledOk cf tools tr" using q(2) by (force simp: handledOk_def isHandled_def)
qed

lemma sessionStart_inv: "sessionStart cf l s \<Longrightarrow> sessionInv cf l s"
  by (simp add: sessionStart_def sessionInv_def quietTrace awaiting_def)

interpretation sessionRun: inductive_invariant "sessionStart cf l" "sessionStep env l" "sessionInv cf l" for cf l env
proof unfold_locales
  fix s s' assume "sessionInv cf l s" "sessionStep env l s s'"
  then show "sessionInv cf l s'" using sessionRound_ok [of cf l s env] by (simp add: sessionStep_def)
qed (rule sessionStart_inv)

text \<open>The loop runs to the last round, which returns.\<close>

lemma sessionLoop_last:
  "\<exists>t. reach (sessionStep env l) s t \<and> sessionRound env l t = Return (fst (sessionLoop env l s)) (snd (sessionLoop env l s))"
proof (induction env l s rule: sessionLoop.induct)
  case (1 env l s)
  show ?case
  proof (cases "sessionRound env l s")
    case (Continue s')
    then have "sessionLoop env l s = sessionLoop env l s'" by (simp add: sessionLoop.simps [of env l s])
    moreover have "reach (sessionStep env l) s s'" using Continue by (intro reach_one) (simp add: sessionStep_def)
    ultimately show ?thesis using 1 [OF Continue] reach_trans by metis
  next
    case (Return s' r)
    then show ?thesis using reach_refl by (fastforce simp: sessionLoop.simps [of env l s])
  qed
qed

lemma sessionLoop_ok:
  assumes "sessionStart cf l s" "sessionLoop env l s = (s', result)"
  shows "sessionPost cf l s' result"
proof -
  obtain t where t: "reach (sessionStep env l) s t" "sessionRound env l t = Return s' result"
    using sessionLoop_last [of env l s] assms(2) by auto
  show ?thesis using sessionRound_ok [OF sessionRun.always [OF t(1) assms(1)], of env] t(2) by simp
qed

lemma newSession_start:
  assumes "NewOpenAIAttempt rx modelID systemPrompt prompt tools outputSchema sampling reasoning window maxOut
      (MaxModelRequests (sl_Limits l)) rl = Inr a"
  shows "sessionStart (config a) l (newSession w a)"
  using NewOpenAIAttempt_inv [OF assms] by (simp add: sessionStart_def newSession_def)

end
