(* ===== verification/Evaluation.thy ===== *)
theory Evaluation
  imports SessionProperties "HOL-Library.Code_Target_Nat"
begin

text \<open>
  Code equations under which the simplifier evaluates whole sessions on concrete bytes: binary
  naturals, the encoder without its detour through escaped separators, ends of strings from
  their reverse, and a test of ASCII text on the bits of its characters. Each is proved equal to the definition
  it evaluates.
\<close>

declare canonicalJSON_raw [code]

lemma newline_code [code]: "newline = CHR 0x0A"
  unfolding newline_def by code_simp

lemma carriageReturn_code [code]: "carriageReturn = CHR 0x0D"
  unfolding carriageReturn_def by code_simp

lemma HasSuffix_code [code]: "HasSuffix s p \<longleftrightarrow> HasPrefix (rev s) (rev p)"
  by (auto simp: HasSuffix_def HasPrefix_def take_rev dest: arg_cong [where f = length])

lemma TrimSuffix_code [code]: "TrimSuffix s p = (if HasSuffix s p then rev (drop (length p) (rev s)) else s)"
  by (simp add: TrimSuffix_def drop_rev)

declare runes.simps(1) [code]

lemma runes_code [code]:
  "runes (a # t) = (if code a < 0x80 then (code a, [a]) # runes t else
     (let w = snd (decodeRune (a # t)) in (fst (decodeRune (a # t)), take w (a # t)) # runes (drop w (a # t))))"
proof (cases "code a < 0x80")
  case True
  then show ?thesis using runes_ascii [OF True, of t] by simp
next
  case False
  then show ?thesis using runes.simps(2) [of a t] by simp
qed

primrec isAscii :: "char \<Rightarrow> bool" where
  "isAscii (Char b0 b1 b2 b3 b4 b5 b6 b7) = (\<not> b7)"

lemma isAscii_code: "isAscii c \<Longrightarrow> code c < 0x80"
  by (cases c) simp

lemma utf8Valid_isAscii: "list_all isAscii s \<Longrightarrow> utf8Valid s"
  by (induction s) (simp_all add: isAscii_code)

lemma utf8Valid_code [code]:
  "utf8Valid s \<longleftrightarrow> list_all isAscii s \<or> list_all (\<lambda>x. \<not> (fst x = runeError \<and> length (snd x) = 1)) (runes s)"
  using utf8Valid_isAscii by (auto simp: utf8Valid_def list_all_iff)

end
