(* ===== verification/VaultProperties.thy ===== *)
theory VaultProperties
  imports CredentialVault Evaluation
begin

text \<open>
  What the vault promises: the ring of keys is well formed, an envelope opens under every later
  ring that still knows its key, and only as the credential, kind and version it was sealed for.
\<close>

section \<open>Framed texts\<close>

lemma framed_inject:
  assumes "framed p @ r = framed q @ s" "length p < 2 ^ 32" "length q < 2 ^ 32"
  shows "p = q \<and> r = s"
proof -
  have "PutUint32 (of_nat (length p)) = PutUint32 (of_nat (length q))" and rest: "p @ r = q @ s"
    using assms(1) by (simp_all add: framed_def append_eq_append_conv)
  then have "unat (of_nat (length p) :: 32 word) = unat (of_nat (length q) :: 32 word)"
    using Uint32_PutUint32 by metis
  then have "length p = length q"
    using assms(2,3) by (simp add: unat_of_nat take_bit_nat_eq_self_iff [THEN iffD2])
  then show ?thesis using rest by (simp add: append_eq_append_conv)
qed

lemma parts_inject:
  assumes "concat (map framed ps) = concat (map framed qs)" "\<forall>p \<in> set ps \<union> set qs. length p < 2 ^ 32"
  shows "ps = qs"
  using assms
proof (induction ps arbitrary: qs)
  case Nil
  then show ?case by (cases qs) (auto simp: framed_def PutUint32_def)
next
  case (Cons p ps)
  then obtain q qs' where qs: "qs = q # qs'" by (cases qs) (auto simp: framed_def PutUint32_def)
  have "p = q \<and> concat (map framed ps) = concat (map framed qs')"
    using Cons.prems qs by (intro framed_inject) auto
  then show ?case using Cons.IH [of qs'] Cons.prems(2) qs by auto
qed

lemma partsFit_bounded: "partsFit n ps \<Longrightarrow> p \<in> set ps \<Longrightarrow> length p < 2 ^ 32"
  by (induction n ps rule: partsFit.induct) auto

lemma encodeCredentialParts_inject:
  "encodeCredentialParts ps = Inr t \<Longrightarrow> encodeCredentialParts qs = Inr t \<Longrightarrow> ps = qs"
  using parts_inject [of ps qs] partsFit_bounded [of 0 ps] partsFit_bounded [of 0 qs]
  by (auto simp: encodeCredentialParts_def split: if_splits)

lemma bytesOf_inject: "bytesOf as = bytesOf bs \<Longrightarrow> as = bs"
proof (induction as arbitrary: bs)
  case (Cons a as)
  then obtain b bs' where bs: "bs = b # bs'" by (cases bs) (auto simp: bytesOf_def)
  have "unat a = unat b" using Cons.prems bs by (auto simp: bytesOf_def intro!: char_of_inject unat_byte_bound)
  then have "a = b" by (simp add: word_unat_eq_iff)
  then show ?case using Cons bs by (auto simp: bytesOf_def)
qed (simp add: bytesOf_def)

text \<open>The associated data determines the credential, its kind, the version and the key.\<close>

lemma credentialAAD_inject:
  assumes "credentialAAD i k v d = Inr aad" "credentialAAD i' k' v' d' = Inr aad"
    and "0 < v" "v < 2 ^ 63" "0 < v'" "v' < 2 ^ 63"
  shows "i = i' \<and> k = k' \<and> v = v' \<and> d = d'"
proof -
  have "[credentialAADDomain, bytesOf i, k, frame64 (nat (v mod 2 ^ 64)), d] =
      [credentialAADDomain, bytesOf i', k', frame64 (nat (v' mod 2 ^ 64)), d']"
    using assms(1,2) by (intro encodeCredentialParts_inject) (auto simp: credentialAAD_def split: sum.splits)
  moreover have "v mod 2 ^ 64 = v" "v' mod 2 ^ 64 = v'" using assms(3-6) by (simp_all add: mod_pos_pos_trivial)
  ultimately have "bytesOf i = bytesOf i'" "k = k'" "d = d'" "frame64 (nat v) = frame64 (nat v')" by simp_all
  moreover have "nat v < 2 ^ 64" "nat v' < 2 ^ 64" using assms(3-6) by (simp_all add: nat_less_iff)
  ultimately show ?thesis using frame64_inject [of "nat v" "nat v'"] bytesOf_inject assms(3,5) by (simp add: nat_eq_iff)
qed

section \<open>The ring of keys\<close>

definition vaultOk :: "CredentialVault \<Rightarrow> bool" where
  "vaultOk v \<longleftrightarrow> vault_byID v = map_of (map (\<lambda>k. (key_id k, key_bytes k)) (vault_keys v)) \<and>
     distinct (map key_id (vault_keys v)) \<and> distinct (map key_bytes (vault_keys v)) \<and>
     (\<forall>k \<in> set (vault_keys v). length (key_bytes k) = 32 \<and> key_id k \<noteq> [] \<and> length (key_id k) \<le> 128) \<and>
     vault_keys v \<noteq> [] \<and> vault_activeID v = key_id (hd (vault_keys v))"

lemma decodeCredentialKey_ok:
  "decodeCredentialKey item = Inr (i, key) \<Longrightarrow> length key = 32 \<and> i \<noteq> [] \<and> length i \<le> 128"
  by (auto simp: decodeCredentialKey_def Let_def split: if_splits option.splits)

lemma decodeCredentialKey_Nil: "\<exists>e. decodeCredentialKey [] = Inl e"
  by (simp add: decodeCredentialKey_def)

definition grows :: "CredentialVault \<Rightarrow> CredentialVault \<Rightarrow> bool" where
  "grows v v' \<longleftrightarrow> vault_activeID v' = vault_activeID v \<and> (\<exists>ks. vault_keys v' = vault_keys v @ ks)"

definition knows :: "CredentialVault \<Rightarrow> string \<Rightarrow> bool" where
  "knows v raw \<longleftrightarrow> (\<exists>i key. decodeCredentialKey (TrimSpace raw) = Inr (i, key) \<and>
     \<lparr>key_id = i, key_bytes = key\<rparr> \<in> set (vault_keys v))"

lemma addPrevious_ok:
  "addPrevious v raws = Inr v' \<Longrightarrow> vaultOk v \<Longrightarrow> vaultOk v' \<and> grows v v' \<and> (\<forall>raw \<in> set raws. knows v' raw)"
proof (induction v raws arbitrary: v' rule: addPrevious.induct)
  case (2 v raw rest)
  obtain i key where d: "decodeCredentialKey (TrimSpace raw) = Inr (i, key)" and new: "vault_byID v i = None"
      "\<forall>k \<in> set (vault_keys v). key_bytes k \<noteq> key"
    and more: "addPrevious (v\<lparr>vault_keys := vault_keys v @ [\<lparr>key_id = i, key_bytes = key\<rparr>],
        vault_byID := (vault_byID v)(i \<mapsto> key)\<rparr>) rest = Inr v'"
    using "2.prems"(1) by (auto simp: Let_def result_simps list_ex_iff split: if_splits)
  let ?v = "v\<lparr>vault_keys := vault_keys v @ [\<lparr>key_id = i, key_bytes = key\<rparr>], vault_byID := (vault_byID v)(i \<mapsto> key)\<rparr>"
  have none: "map_of (map (\<lambda>k. (key_id k, key_bytes k)) (vault_keys v)) i = None"
    using new(1) "2.prems"(2) by (simp add: vaultOk_def)
  have "i \<notin> key_id ` set (vault_keys v)"
    using new(1) "2.prems"(2) by (auto simp: vaultOk_def map_of_eq_None_iff image_iff)
  moreover have "key \<notin> key_bytes ` set (vault_keys v)" using new(2) by auto
  ultimately have "vaultOk ?v"
    using "2.prems"(2) decodeCredentialKey_ok [OF d] none by (auto simp: vaultOk_def map_add_def fun_eq_iff split: option.splits)
  then have "vaultOk v' \<and> grows ?v v' \<and> (\<forall>raw \<in> set rest. knows v' raw)"
    using "2.IH" [of "TrimSpace raw" i key v'] more "2.prems"(1) new by (auto simp: Let_def list_ex_iff split: if_splits)
  then show ?case using d by (auto simp: grows_def knows_def)
qed (auto simp: grows_def)

lemma NewCredentialVault_ok:
  assumes "NewCredentialVault active previous = Inr v"
  shows "vaultOk v" "knows v active" "raw \<in> set (splitOn CHR '','' previous) \<Longrightarrow> decodeCredentialKey (TrimSpace raw) = Inr x \<Longrightarrow> knows v raw"
    "\<exists>key. decodeCredentialKey (TrimSpace active) = Inr (vault_activeID v, key)"
proof -
  obtain i key where d: "decodeCredentialKey (TrimSpace active) = Inr (i, key)"
    using assms by (auto simp: NewCredentialVault_def result_simps)
  let ?v = "\<lparr>vault_activeID = i, vault_keys = [\<lparr>key_id = i, key_bytes = key\<rparr>], vault_byID = [i \<mapsto> key]\<rparr>"
  have v: "vaultOk ?v" "knows ?v active" using d decodeCredentialKey_ok [OF d] by (auto simp: vaultOk_def knows_def)
  have one: "previous = [] \<and> v = ?v \<or> addPrevious ?v (splitOn CHR '','' previous) = Inr v"
    using assms d by (auto simp: NewCredentialVault_def Let_def split: if_splits)
  moreover have "TrimSpace [] = []" by (simp add: TrimSpace_def)
  ultimately have facts: "vaultOk v \<and> grows ?v v \<and> (previous = [] \<or> (\<forall>raw \<in> set (splitOn CHR '','' previous). knows v raw))"
    using v(1) addPrevious_ok [of ?v "splitOn CHR '','' previous" v] by (auto simp: grows_def)
  then show "vaultOk v" "knows v active" "\<exists>key. decodeCredentialKey (TrimSpace active) = Inr (vault_activeID v, key)"
    using v(2) d by (auto simp: grows_def knows_def)
  show "knows v raw" if "raw \<in> set (splitOn CHR '','' previous)" "decodeCredentialKey (TrimSpace raw) = Inr x"
    using facts that \<open>TrimSpace [] = []\<close> decodeCredentialKey_Nil by (cases "previous = []") auto
qed

lemma knows_byID:
  assumes "vaultOk v" "knows v raw" "decodeCredentialKey (TrimSpace raw) = Inr (i, key)"
  shows "vault_byID v i = Some key" "keyOf v i = key"
proof -
  have "(i, key) \<in> set (map (\<lambda>k. (key_id k, key_bytes k)) (vault_keys v))" using assms(2,3) by (force simp: knows_def)
  moreover have "distinct (map fst (map (\<lambda>k. (key_id k, key_bytes k)) (vault_keys v)))" using assms(1) by (simp add: vaultOk_def comp_def)
  ultimately show "vault_byID v i = Some key" using assms(1) by (simp add: vaultOk_def)
  then show "keyOf v i = key" by (simp add: keyOf_def)
qed

lemma encryptWithNonce_ok:
  assumes "encryptWithNonce c v i kind ver secret nonce = Inr envelope"
  obtains s aad where "secret = Some s" "credentialAAD i kind ver (vault_activeID v) = Inr aad" "kindValid kind" "0 < ver"
    "length nonce = 12"
    "envelope = \<lparr>envelope_credentialID = i, envelope_kind = kind, envelope_secretVersion = ver, envelope_keyID = vault_activeID v,
       envelope_nonce = nonce, envelope_ciphertext = Seal c (keyOf v (vault_activeID v)) nonce (Reveal s) aad\<rparr>"
  using assms by (auto simp: encryptWithNonce_def NewCredentialEnvelope_def result_simps split: option.splits if_splits)

lemma Decrypt_ok:
  assumes "Decrypt c v envelope = Inr secret" "lawfulCipher c"
  obtains aad where "vault_byID v (envelope_keyID envelope) = Some (keyOf v (envelope_keyID envelope))" "0 < envelope_secretVersion envelope"
    "credentialAAD (envelope_credentialID envelope) (envelope_kind envelope) (envelope_secretVersion envelope) (envelope_keyID envelope) = Inr aad"
    "envelope_ciphertext envelope = Seal c (keyOf v (envelope_keyID envelope)) (envelope_nonce envelope) (Reveal secret) aad"
proof -
  obtain key aad p where d: "vault_byID v (envelope_keyID envelope) = Some key" "0 < envelope_secretVersion envelope"
      "credentialAAD (envelope_credentialID envelope) (envelope_kind envelope) (envelope_secretVersion envelope) (envelope_keyID envelope) = Inr aad"
      "Open c key (envelope_nonce envelope) (envelope_ciphertext envelope) aad = Some p" "Reveal secret = p"
    using assms(1) by (auto simp: Decrypt_def NewSecretValue_def result_simps split: option.splits if_splits)
  moreover have "envelope_ciphertext envelope = Seal c key (envelope_nonce envelope) p aad"
    using assms(2) d(4) by (simp add: lawfulCipher_def)
  ultimately show thesis by (intro that [of aad]) (simp_all add: keyOf_def)
qed

text \<open>The law of the cipher makes the sealed text determine the plaintext under one key, nonce and
  associated data.\<close>

lemma Seal_inject: "lawfulCipher c \<Longrightarrow> Seal c key nonce p aad = Seal c key nonce q aad \<Longrightarrow> p = q"
  unfolding lawfulCipher_def by (metis option.inject)

lemma Decrypt_encrypted:
  assumes "lawfulCipher c" "vault_byID v' (vault_activeID v) = Some (keyOf v (vault_activeID v))"
    and "NewSecretValue x = Inr secret" "encryptWithNonce c v i kind ver (Some secret) nonce = Inr envelope"
  shows "Decrypt c v' envelope = Inr secret"
proof -
  let ?key = "keyOf v (vault_activeID v)"
  obtain aad where e: "credentialAAD i kind ver (vault_activeID v) = Inr aad" "kindValid kind" "0 < ver"
    "envelope = \<lparr>envelope_credentialID = i, envelope_kind = kind, envelope_secretVersion = ver, envelope_keyID = vault_activeID v,
       envelope_nonce = nonce, envelope_ciphertext = Seal c ?key nonce (Reveal secret) aad\<rparr>"
    using encryptWithNonce_ok [OF assms(4)] by (metis option.inject)
  have "utf8Valid (Reveal secret)" "NewSecretValue (Reveal secret) = Inr secret"
    using assms(3) by (auto simp: NewSecretValue_def split: if_splits)
  moreover have "Open c ?key nonce (Seal c ?key nonce (Reveal secret) aad) aad = Some (Reveal secret)"
    using assms(1) by (simp add: lawfulCipher_def)
  ultimately show ?thesis using e assms(2) by (simp add: Decrypt_def)
qed

section \<open>Properties\<close>

text \<open>
  C13. Rotating the keys loses no credential: what was encrypted under an active key decrypts to
  the same secret in every vault whose configuration has that key's text as its active key or
  among its comma separated previous keys.
\<close>

theorem vault_rotation_roundtrip:
  assumes "lawfulCipher c" "NewCredentialVault active previous = Inr v" "NewCredentialVault active' previous' = Inr v'"
    and "active' = active \<or> active \<in> set (splitOn CHR '','' previous')"
    and "NewSecretValue x = Inr secret" "encryptWithNonce c v i kind ver (Some secret) nonce = Inr envelope"
  shows "Decrypt c v' envelope = Inr secret"
proof -
  note v = NewCredentialVault_ok [OF assms(2)] and v' = NewCredentialVault_ok [OF assms(3)]
  obtain key where d: "decodeCredentialKey (TrimSpace active) = Inr (vault_activeID v, key)" using v(4) by blast
  have "knows v' active" using assms(4) v'(2) v'(3) [OF _ d] by auto
  then have keys: "keyOf v (vault_activeID v) = key" "vault_byID v' (vault_activeID v) = Some key"
    using knows_byID [OF v(1) v(2) d] knows_byID [OF v'(1) _ d] by simp_all
  show ?thesis by (rule Decrypt_encrypted [OF assms(1) _ assms(5,6)]) (simp add: keys)
qed

text \<open>
  C12. A ciphertext cannot be passed off as another credential's: if the nonce and ciphertext of an
  envelope, put under any credential, kind, version and key identifier, decrypt in any vault, then
  they were put under the ones they were sealed for and give the sealed secret, or the cipher
  itself produced the same sealed text for two different pairs of key and associated data.
\<close>

theorem envelope_bound_to_credential:
  assumes "lawfulCipher c" "encryptWithNonce c v i kind ver (Some secret) nonce = Inr envelope"
    and "Decrypt c v' envelope' = Inr secret'" "ver < 2 ^ 63" "envelope_secretVersion envelope' < 2 ^ 63"
    and "envelope_nonce envelope' = envelope_nonce envelope" "envelope_ciphertext envelope' = envelope_ciphertext envelope"
  shows "envelope' = envelope \<and> secret' = secret \<or>
    (\<exists>key aad key' aad'. (key, aad) \<noteq> (key', aad') \<and>
       Seal c key nonce (Reveal secret) aad = Seal c key' nonce (Reveal secret') aad')"
proof -
  let ?key = "keyOf v (vault_activeID v)" and ?key' = "keyOf v' (envelope_keyID envelope')"
  obtain aad where e: "credentialAAD i kind ver (vault_activeID v) = Inr aad" "0 < ver"
    "envelope = \<lparr>envelope_credentialID = i, envelope_kind = kind, envelope_secretVersion = ver, envelope_keyID = vault_activeID v,
       envelope_nonce = nonce, envelope_ciphertext = Seal c ?key nonce (Reveal secret) aad\<rparr>"
    using encryptWithNonce_ok [OF assms(2)] by (metis option.inject)
  obtain aad' where e': "credentialAAD (envelope_credentialID envelope') (envelope_kind envelope')
      (envelope_secretVersion envelope') (envelope_keyID envelope') = Inr aad'" "0 < envelope_secretVersion envelope'"
      "envelope_ciphertext envelope' = Seal c ?key' (envelope_nonce envelope') (Reveal secret') aad'"
    using Decrypt_ok [OF assms(3,1)] by metis
  have same: "Seal c ?key nonce (Reveal secret) aad = Seal c ?key' nonce (Reveal secret') aad'"
    using assms(6,7) e(3) e'(3) by simp
  show ?thesis
  proof (cases "(?key, aad) = (?key', aad')")
    case True
    then have "Reveal secret = Reveal secret'" using Seal_inject [OF assms(1)] same by auto
    moreover have "i = envelope_credentialID envelope' \<and> kind = envelope_kind envelope' \<and>
        ver = envelope_secretVersion envelope' \<and> vault_activeID v = envelope_keyID envelope'"
      using True by (intro credentialAAD_inject [OF e(1) _ e(2) assms(4) e'(2) assms(5)]) (use e'(1) in simp)
    ultimately show ?thesis using e(3) assms(6,7) by (intro disjI1) (auto simp: SecretValue.expand)
  qed (use same in blast)
qed

text \<open>A cipher for the examples, which marks the text with key, nonce and associated data.\<close>

definition markCipher :: cipher where
  "markCipher = \<lparr>Seal = (\<lambda>key nonce p aad. p @ key @ nonce @ aad),
     Open = (\<lambda>key nonce t aad. if HasSuffix t (key @ nonce @ aad) then Some (TrimSuffix t (key @ nonce @ aad)) else None)\<rparr>"

lemma markCipher_lawful: "lawfulCipher markCipher"
proof -
  have "(if HasSuffix t m then Some (TrimSuffix t m) else None) = Some p \<longleftrightarrow> t = p @ m" for t m p :: string
  proof
    assume a: "(if HasSuffix t m then Some (TrimSuffix t m) else None) = Some p"
    then have h: "HasSuffix t m" "TrimSuffix t m = p" by (auto split: if_splits)
    then have "drop (length t - length m) t = m" "take (length t - length m) t = p"
      by (simp_all add: HasSuffix_def TrimSuffix_def)
    then show "t = p @ m" using append_take_drop_id [of "length t - length m" t] by simp
  qed (simp add: HasSuffix_def TrimSuffix_def)
  then show ?thesis by (simp add: lawfulCipher_def markCipher_def)
qed

definition demoKey1 :: string where
  "demoKey1 = ''k1:'' @ replicate 43 CHR ''A''"

definition demoKey2 :: string where
  "demoKey2 = ''k2:B'' @ replicate 42 CHR ''A''"

lemma demoVaults: "isOk (NewCredentialVault demoKey1 [])" "isOk (NewCredentialVault demoKey2 demoKey1)"
  by code_simp+

lemma demoSecret: "NewSecretValue ''sk-12345678'' = Inr (SecretValue ''sk-12345678'')"
  by code_simp

lemma demoParts: "partsFit 0 [credentialAADDomain, bytesOf [7], ''PROVIDER_API_KEY'', frame64 1, ''k1'']" "kindValid ''PROVIDER_API_KEY''"
  by code_simp+

definition demoSealed :: "CredentialVault \<Rightarrow> vaultError + CredentialEnvelope" where
  "demoSealed v = encryptWithNonce markCipher v [7] ''PROVIDER_API_KEY'' 1 (Some (SecretValue ''sk-12345678'')) (replicate 12 CHR ''n'')"

lemma demoSealed_ok:
  obtains v v' envelope where "NewCredentialVault demoKey1 [] = Inr v" "NewCredentialVault demoKey2 demoKey1 = Inr v'"
    "demoSealed v = Inr envelope"
proof -
  obtain v v' where v: "NewCredentialVault demoKey1 [] = Inr v" "NewCredentialVault demoKey2 demoKey1 = Inr v'"
    using demoVaults by (cases "NewCredentialVault demoKey1 []"; cases "NewCredentialVault demoKey2 demoKey1") auto
  have "decodeCredentialKey (TrimSpace demoKey1) = Inr (''k1'', replicate 32 (CHR 0x00))" by code_simp
  then have "vault_activeID v = ''k1''" using NewCredentialVault_ok(4) [OF v(1)] by auto
  then obtain envelope where "demoSealed v = Inr envelope"
    using demoParts by (auto simp: demoSealed_def encryptWithNonce_def NewCredentialEnvelope_def credentialAAD_def encodeCredentialParts_def)
  then show thesis using that v by blast
qed

theorem vault_rotation_roundtrip_witness:
  "\<exists>v v' envelope. NewCredentialVault demoKey1 [] = Inr v \<and> NewCredentialVault demoKey2 demoKey1 = Inr v' \<and>
     demoSealed v = Inr envelope \<and> Decrypt markCipher v' envelope = Inr (SecretValue ''sk-12345678'')"
proof -
  obtain v v' envelope where d: "NewCredentialVault demoKey1 [] = Inr v" "NewCredentialVault demoKey2 demoKey1 = Inr v'"
    "demoSealed v = Inr envelope" by (rule demoSealed_ok)
  have "demoKey1 \<in> set (splitOn CHR '','' demoKey1)" by code_simp
  then show ?thesis
    using vault_rotation_roundtrip [OF markCipher_lawful d(1,2) _ demoSecret d(3) [unfolded demoSealed_def]] d by blast
qed

theorem envelope_bound_to_credential_witness:
  "\<exists>v envelope secret. demoSealed v = Inr envelope \<and> Decrypt markCipher v envelope = Inr secret \<and>
     (secret = SecretValue ''sk-12345678'' \<or> (\<exists>key aad key' aad'. (key, aad) \<noteq> (key', aad') \<and>
        Seal markCipher key (replicate 12 CHR ''n'') ''sk-12345678'' aad = Seal markCipher key' (replicate 12 CHR ''n'') (Reveal secret) aad'))"
proof -
  obtain v v' envelope where d: "NewCredentialVault demoKey1 [] = Inr v" "demoSealed v = Inr envelope" by (rule demoSealed_ok)
  obtain key where "decodeCredentialKey (TrimSpace demoKey1) = Inr (vault_activeID v, key)"
    using NewCredentialVault_ok(4) [OF d(1)] by blast
  then have "vault_byID v (vault_activeID v) = Some (keyOf v (vault_activeID v))"
    using knows_byID NewCredentialVault_ok(1,2) [OF d(1)] by metis
  then have dec: "Decrypt markCipher v envelope = Inr (SecretValue ''sk-12345678'')"
    by (rule Decrypt_encrypted [OF markCipher_lawful _ demoSecret d(2) [unfolded demoSealed_def]])
  have "envelope_secretVersion envelope < 2 ^ 63" using encryptWithNonce_ok [OF d(2) [unfolded demoSealed_def]] by fastforce
  then show ?thesis
    using envelope_bound_to_credential [OF markCipher_lawful d(2) [unfolded demoSealed_def] dec] d(2) dec by auto
qed

end
