(* ===== verification/EventStream.thy ===== *)
theory EventStream
  imports GoJson Transitions
begin

text \<open>
  The committed event stream: events and audit records written in the transaction of the change
  they report (\<^verbatim>\<open>internal/events\<close>), the bounded reads of the log, the server-sent stream
  an operator follows (\<^verbatim>\<open>internal/api/events.go\<close>), and the retention step that prunes the
  log (\<^verbatim>\<open>internal/retention/database.go\<close>). A \<^verbatim>\<open>jsonb\<close> column holds the value
  it denotes, so the snapshot of an event is that value and not its bytes.
\<close>

section \<open>Tables\<close>

record LogRow =
  log_sequence :: int
  log_event_type :: string
  log_resource_type :: string
  log_resource_id :: UUID
  log_snapshot :: gval
  log_created_at :: pgtime

record AuditRow =
  audit_actor_type :: string
  audit_actor_id :: "UUID option"
  audit_action :: string
  audit_target_type :: string
  audit_target_id :: "UUID option"
  audit_request_id :: UUID
  audit_details :: gval
  audit_created_at :: pgtime

text \<open>The log with the next value of its sequence and the watermark of retention.\<close>

record eventTables =
  log_rows :: "LogRow list"
  log_next :: int
  pruned_through :: int
  audit_rows :: "AuditRow list"

datatype eventError = ErrInvalidCursor | ErrCursorPruned | ErrInvalidRead | ErrInvalidEvent

section \<open>Writing\<close>

definition validLabel :: "string \<Rightarrow> nat \<Rightarrow> bool" where
  "validLabel v maximum \<longleftrightarrow> v \<noteq> [] \<and> utf8Valid v \<and> RuneCountInString v \<le> maximum \<and>
     \<not> list_ex (\<lambda>c. code c = 0 \<or> code c = 13 \<or> code c = 10) v"

text \<open>What is encoded and decoded again: the encoder accepts the object, and the decoder, which
  gives up below ten thousand levels, reads it back.\<close>

fun nesting :: "gval \<Rightarrow> nat" where
  "nesting (GArray xs) = Suc (foldr (\<lambda>x n. max (nesting x) n) xs 0)"
| "nesting (GObject kvs) = Suc (foldr (\<lambda>kv n. max (nesting (snd kv)) n) kvs 0)"
| "nesting _ = 0"

definition normalizes :: "(string \<times> gval) list \<Rightarrow> bool" where
  "normalizes object \<longleftrightarrow> encodeValue (GObject object) \<noteq> None \<and> nesting (GObject object) \<le> 10000"

record ResourceEvent =
  event_Type :: string
  event_ResourceType :: string
  event_ResourceID :: UUID
  event_Snapshot :: "(string \<times> gval) list option"

definition Append :: "ResourceEvent \<Rightarrow> pgtime \<Rightarrow> (eventTables, eventError, unit) txn" where
  "Append event now s =
     (case event_Snapshot event of
        None \<Rightarrow> Inl ErrInvalidEvent
      | Some snapshot \<Rightarrow>
          if \<not> validLabel (event_Type event) 128 \<or> \<not> validLabel (event_ResourceType event) 64 \<or> \<not> normalizes snapshot
          then Inl ErrInvalidEvent
          else Inr (s\<lparr>log_rows := log_rows s @ [\<lparr>log_sequence = log_next s, log_event_type = event_Type event,
                      log_resource_type = event_ResourceType event, log_resource_id = event_ResourceID event,
                      log_snapshot = GObject snapshot, log_created_at = now\<rparr>],
                    log_next := log_next s + 1\<rparr>, ()))"

record AuditEvent =
  ActorType :: string
  audit_ActorID :: "UUID option"
  Action :: string
  audit_TargetType :: string
  audit_TargetID :: "UUID option"
  RequestID :: UUID
  Details :: "(string \<times> gval) list option"

definition AppendAudit :: "AuditEvent \<Rightarrow> pgtime \<Rightarrow> (eventTables, eventError, unit) txn" where
  "AppendAudit event now s =
     (case Details event of
        None \<Rightarrow> Inl ErrInvalidEvent
      | Some details \<Rightarrow>
          if \<not> validLabel (ActorType event) 32 \<or> \<not> validLabel (Action event) 128 \<or>
             \<not> validLabel (audit_TargetType event) 64 \<or> \<not> normalizes details
          then Inl ErrInvalidEvent
          else Inr (s\<lparr>audit_rows := audit_rows s @ [\<lparr>audit_actor_type = ActorType event, audit_actor_id = audit_ActorID event,
                      audit_action = Action event, audit_target_type = audit_TargetType event,
                      audit_target_id = audit_TargetID event, audit_request_id = RequestID event,
                      audit_details = GObject details, audit_created_at = now\<rparr>]\<rparr>, ()))"

section \<open>Reading\<close>

record Event =
  Sequence :: int
  Event_Type :: string
  Event_Snapshot :: gval

definition eventOf :: "LogRow \<Rightarrow> Event" where
  "eventOf r = \<lparr>Sequence = log_sequence r, Event_Type = log_event_type r, Event_Snapshot = log_snapshot r\<rparr>"

definition MaxReadLimit :: int where
  "MaxReadLimit = 500"

text \<open>The rows after a cursor, in the order of the sequence.\<close>

definition batchAfter :: "int \<Rightarrow> nat \<Rightarrow> eventTables \<Rightarrow> LogRow list" where
  "batchAfter cursor limit s = take limit (sort_key log_sequence (filter (\<lambda>r. cursor < log_sequence r) (log_rows s)))"

definition ReadAfter :: "int \<Rightarrow> int \<Rightarrow> eventTables \<Rightarrow> eventError + Event list" where
  "ReadAfter cursor limit s =
     (if cursor < 0 \<or> limit < 1 \<or> limit > MaxReadLimit then Inl ErrInvalidRead
      else if cursor < pruned_through s then Inl ErrCursorPruned
      else Inr (map eventOf (batchAfter cursor (nat limit) s)))"

record CursorWindow =
  Tail :: int
  PrunedThrough :: int

definition Window :: "eventTables \<Rightarrow> CursorWindow" where
  "Window s = \<lparr>Tail = max (foldr (\<lambda>r n. max (log_sequence r) n) (log_rows s) 0) (pruned_through s),
     PrunedThrough = pruned_through s\<rparr>"

definition ParseCursor :: "string option \<Rightarrow> string option \<Rightarrow> eventError + int" where
  "ParseCursor after lastEventID =
     (case (case lastEventID of Some v \<Rightarrow> Some v | None \<Rightarrow> after) of
        None \<Rightarrow> Inr 0
      | Some raw \<Rightarrow>
          (case ParseInt64 raw of
             None \<Rightarrow> Inl ErrInvalidCursor
           | Some v \<Rightarrow> if v < 0 \<or> decimal v \<noteq> raw then Inl ErrInvalidCursor else Inr v))"

section \<open>The text of an event\<close>

definition appendUnicodeEscape :: "nat \<Rightarrow> string" where
  "appendUnicodeEscape v = [backslash, CHR ''u'', hextable ! (v div 4096 mod 16), hextable ! (v div 256 mod 16),
     hextable ! (v div 16 mod 16), hextable ! (v mod 16)]"

definition escapeNonASCII :: "nat \<times> string \<Rightarrow> string" where
  "escapeNonASCII x =
     (let r = fst x in
      if r < 0x80 then [char_of r]
      else if r \<le> 0xFFFF then appendUnicodeEscape r
      else appendUnicodeEscape (0xD800 + (r - 0x10000) div 1024) @ appendUnicodeEscape (0xDC00 + (r - 0x10000) mod 1024))"

definition escapeNonASCIIJSON :: "string \<Rightarrow> string" where
  "escapeNonASCIIJSON encoded = concat (map escapeNonASCII (runes encoded))"

definition lf :: char where "lf = char_of (10 :: nat)"

definition Message :: "Event \<Rightarrow> eventError + string" where
  "Message event =
     (if Sequence event < 0 \<or> Event_Type event = [] \<or> list_ex (\<lambda>c. code c = 13 \<or> code c = 10) (Event_Type event)
      then Inl ErrInvalidEvent
      else case Event_Snapshot event of
        GObject snapshot \<Rightarrow>
          (case encodeValue (GObject snapshot) of
             None \<Rightarrow> Inl ErrInvalidEvent
           | Some encoded \<Rightarrow>
               Inr (''id: '' @ decimal (Sequence event) @ [lf] @ ''event: '' @ Event_Type event @ [lf] @
                 ''data: '' @ escapeNonASCIIJSON encoded @ [lf, lf]))
      | _ \<Rightarrow> Inl ErrInvalidEvent)"

section \<open>Pruning\<close>

text \<open>
  \<^verbatim>\<open>deleteEventLog\<close>: the oldest rows up to the cutoff and before the first one that is to be
  kept, at most a batch of them; the watermark moves to the last one deleted.
\<close>

definition deleteEventLog :: "pgtime \<Rightarrow> nat \<Rightarrow> eventTables \<Rightarrow> eventTables \<times> nat" where
  "deleteEventLog cutoff batchSize s =
     (let rows = sort_key log_sequence (log_rows s);
          retained = filter (\<lambda>r. cutoff < log_created_at r) rows;
          first = (case retained of [] \<Rightarrow> 9223372036854775807 | r # _ \<Rightarrow> log_sequence r);
          candidates = take batchSize (filter (\<lambda>r. log_created_at r \<le> cutoff \<and> log_sequence r < first) rows);
          deleted = map log_sequence candidates in
      (if deleted = [] then s
       else s\<lparr>log_rows := filter (\<lambda>r. log_sequence r \<notin> set deleted) (log_rows s),
              pruned_through := max (pruned_through s) (last deleted)\<rparr>,
       length deleted))"

section \<open>The stream of one operator\<close>

text \<open>What the stream writes: the text of an event, or the notice that events were skipped.\<close>

datatype record_sent = Delivered Event | StreamReset int string

definition resetEvent :: "int \<Rightarrow> string \<Rightarrow> Event" where
  "resetEvent cursor reason = \<lparr>Sequence = cursor, Event_Type = ''stream.reset'',
     Event_Snapshot = GObject [(''id'', GString ''event_stream''), (''reason'', GString reason)]\<rparr>"

text \<open>The cursor a request starts with, and the reason of the notice it starts with.\<close>

definition openStream :: "string option \<Rightarrow> string option \<Rightarrow> eventTables \<Rightarrow> eventError + int \<times> string" where
  "openStream after lastEventID s =
     bindE (ParseCursor after lastEventID) (\<lambda>cursor.
       let window = Window s in
       if after = None \<and> lastEventID = None then Inr (Tail window, [])
       else if cursor < PrunedThrough window then Inr (Tail window, ''cursor_pruned'')
       else if cursor > Tail window then Inr (Tail window, ''cursor_ahead'')
       else Inr (cursor, []))"

record stream =
  stream_cursor :: int
  stream_sent :: "record_sent list"
  stream_emitted :: nat
  stream_open :: bool

text \<open>Whether the client still takes what is written to it is decided from outside, by the number
  of the record.\<close>

record streamSettings =
  eventLimit :: int
  client_takes :: "nat \<Rightarrow> bool"

definition newStream :: "int \<Rightarrow> string \<Rightarrow> streamSettings \<Rightarrow> stream" where
  "newStream cursor resetReason set' =
     (let st = \<lparr>stream_cursor = cursor, stream_sent = [], stream_emitted = 0, stream_open = True\<rparr> in
      if resetReason = [] then st
      else if isOk (Message (resetEvent cursor resetReason)) \<and> client_takes set' 0
      then st\<lparr>stream_sent := [StreamReset cursor resetReason]\<rparr>
      else st\<lparr>stream_open := False\<rparr>)"

text \<open>The loop over one batch: it ends the stream at a record that cannot be written or at the
  limit.\<close>

fun sendBatch :: "streamSettings \<Rightarrow> Event list \<Rightarrow> stream \<Rightarrow> stream" where
  "sendBatch set' [] st = st"
| "sendBatch set' (event # rest) st =
     (if \<not> isOk (Message event) \<or> \<not> client_takes set' (length (stream_sent st)) then st\<lparr>stream_open := False\<rparr>
      else let st' = st\<lparr>stream_sent := stream_sent st @ [Delivered event], stream_cursor := Sequence event,
                        stream_emitted := stream_emitted st + 1\<rparr> in
        if eventLimit set' > 0 \<and> int (stream_emitted st') \<ge> eventLimit set' then st'\<lparr>stream_open := False\<rparr>
        else sendBatch set' rest st')"

text \<open>One round of \<^verbatim>\<open>streamEvents\<close>: a read, and what is sent for it. The tables may change
  between the read that finds the cursor pruned and the read of the window.\<close>

definition streamRound :: "streamSettings \<Rightarrow> eventTables \<Rightarrow> eventTables \<Rightarrow> stream \<Rightarrow> stream" where
  "streamRound set' s s' st =
     (case ReadAfter (stream_cursor st) 100 s of
        Inl ErrCursorPruned \<Rightarrow>
          let tl = Tail (Window s') in
          if isOk (Message (resetEvent tl ''cursor_pruned'')) \<and> client_takes set' (length (stream_sent st))
          then st\<lparr>stream_sent := stream_sent st @ [StreamReset tl ''cursor_pruned''], stream_cursor := tl\<rparr>
          else st\<lparr>stream_open := False\<rparr>
      | Inl _ \<Rightarrow> st\<lparr>stream_open := False\<rparr>
      | Inr committed \<Rightarrow> sendBatch set' committed st)"

end
