(* ===== verification/JobService.thy ===== *)
theory JobService
  imports JobProperties Idempotency VaultProperties EventStream
begin

text \<open>
  The operator's view of the job queue (\<^verbatim>\<open>internal/jobs/service.go\<close>): cancellation as an
  idempotent request that cancels through the queue, reads the job back and writes one audit
  record, all in one transaction. The rendering of instants is an argument.
\<close>

section \<open>The service\<close>

record 'w jobTables =
  job_db :: "'w db"
  job_audit :: "AuditRow list"

datatype serviceError = ServiceJob jobError | ServiceConflict | ServiceError string

record 'w jobService =
  service_store :: "'w Store"
  service_hmac :: "string \<Rightarrow> string \<Rightarrow> byte list"
  service_vault :: CredentialVault
  pythonISOTime :: "pgtime \<Rightarrow> string"

text \<open>The clock readings of one request and the identifier of its audit record.\<close>

record cancelTimes =
  time_execute :: pgtime
  time_cancel :: pgtime
  time_audit :: pgtime
  audit_raw :: "byte list"

definition cancellationTTL :: duration where
  "cancellationTTL = 24 * 3600 * 1000000000"

definition optionalPythonTime :: "(pgtime \<Rightarrow> string) \<Rightarrow> pgtime option \<Rightarrow> gval" where
  "optionalPythonTime render t = (case t of None \<Rightarrow> GNull | Some v \<Rightarrow> GString (render v))"

definition PublicSnapshot :: "(pgtime \<Rightarrow> string) \<Rightarrow> Snapshot \<Rightarrow> (string \<times> gval) list" where
  "PublicSnapshot render v =
     [(''id'', GString (uuidString (snap_ID v))), (''job_type'', GString (map lowerByte (snap_Type v))),
      (''target_type'', GString (snap_TargetType v)), (''target_id'', GString (uuidString (snap_TargetID v))),
      (''status'', GString (map lowerByte (statusName (snap_Status v)))), (''attempt_count'', GNumber (decimal (snap_AttemptCount v))),
      (''max_attempts'', GNumber (decimal (snap_MaxAttempts v))), (''progress'', GNumber (decimal (snap_Progress v))),
      (''lease_owner'', case snap_LeaseOwner v of None \<Rightarrow> GNull | Some o' \<Rightarrow> GString o'),
      (''lease_expires_at'', optionalPythonTime render (snap_LeaseExpiresAt v)),
      (''lease_generation'', GNumber (decimal (snap_LeaseGeneration v))), (''not_before'', optionalPythonTime render (snap_NotBefore v)),
      (''result'', case snap_Result v of None \<Rightarrow> GNull | Some o' \<Rightarrow> GObject o'),
      (''sanitized_error'', case snap_SanitizedError v of None \<Rightarrow> GNull | Some e \<Rightarrow> GString e),
      (''created_at'', GString (render (snap_CreatedAt v))), (''updated_at'', GString (render (snap_UpdatedAt v))),
      (''started_at'', optionalPythonTime render (snap_StartedAt v)), (''finished_at'', optionalPythonTime render (snap_FinishedAt v))]"

definition newAuditUUID :: "byte list \<Rightarrow> UUID" where
  "newAuditUUID raw = raw[6 := or (and (raw ! 6) 0x0F) 0x40, 8 := or (and (raw ! 8) 0x3F) 0x80]"

definition appendCancellationAudit ::
  "(pgtime \<Rightarrow> string) \<Rightarrow> cancelTimes \<Rightarrow> UUID \<Rightarrow> Snapshot \<Rightarrow> AuditRow list \<Rightarrow> serviceError + AuditRow list" where
  "appendCancellationAudit render t actor v rows =
     (if encodeValue (GObject (PublicSnapshot render v)) = None then Inl (ServiceError ''encode cancellation audit'')
      else Inr (rows @ [\<lparr>audit_actor_type = ''operator'', audit_actor_id = Some actor, audit_action = ''job.cancel'',
             audit_target_type = ''job'', audit_target_id = Some (snap_ID v), audit_request_id = newAuditUUID (audit_raw t),
             audit_details = GObject (PublicSnapshot render v), audit_created_at = time_audit t\<rparr>]))"

definition cancellationDigests :: "byte list list \<Rightarrow> serviceError + byte list list" where
  "cancellationDigests digests =
     (if list_ex (\<lambda>d. length d \<noteq> 32) digests then Inl (ServiceError ''cancellation digest is invalid'') else Inr digests)"

definition cancellationResultApplies :: "string \<Rightarrow> Status \<Rightarrow> bool" where
  "cancellationResultApplies expected current \<longleftrightarrow>
     statusName current = expected \<or> expected = statusName CancelRequested \<and> current = Cancelled"

definition cancelOperation ::
  "'w jobService \<Rightarrow> cancelTimes \<Rightarrow> JobID \<Rightarrow> UUID \<Rightarrow> ('w jobTables, serviceError, Result) txn" where
  "cancelOperation svc t i actor s =
     (case requestCancel (service_store svc) i (time_cancel t) (job_db s) of
        Inl e \<Rightarrow> Inl (ServiceJob e)
      | Inr (d, _) \<Rightarrow>
          (case Get i d of
             Inl e \<Rightarrow> Inl (ServiceJob e)
           | Inr v \<Rightarrow>
               bindE (appendCancellationAudit (pythonISOTime svc) t actor v (job_audit s)) (\<lambda>rows.
                 Inr (s\<lparr>job_db := d, job_audit := rows\<rparr>,
                   \<lparr>res_Type = ''job_cancel:'' @ statusName (snap_Status v), res_ID = i\<rparr>))))"

definition cancelRequest :: "UUID \<Rightarrow> string \<Rightarrow> byte list list \<Rightarrow> Request" where
  "cancelRequest actor requestKey digests =
     \<lparr>req_Scope = ''operator:'' @ uuidString actor, req_Key = requestKey, req_Operation = ''job.cancel'',
      req_Digest = hd digests, req_AcceptedDigests = tl digests, req_TTL = cancellationTTL\<rparr>"

fun serviceFailure :: "serviceError idemError \<Rightarrow> serviceError" where
  "serviceFailure (ErrOperation e) = e"
| "serviceFailure ErrConflict = ServiceConflict"
| "serviceFailure (ErrRequest m) = ServiceError m"

definition Cancel ::
  "'w jobService \<Rightarrow> cancelTimes \<Rightarrow> JobID \<Rightarrow> UUID \<Rightarrow> string \<Rightarrow> ('w jobTables idemTables, serviceError, Snapshot) action" where
  "Cancel svc t i actor requestKey s =
     (if requestKey = [] then (s, Inl (ServiceError ''idempotency key is required''))
      else case KeyedDigests (service_hmac svc) (service_vault svc) [''job.cancel'', bytesOf i] of
        Inl _ \<Rightarrow> (s, Inl (ServiceError ''compute cancellation digest''))
      | Inr digests \<Rightarrow>
          if digests = [] then (s, Inl (ServiceError ''compute cancellation digest''))
          else (case cancellationDigests digests of
              Inl e \<Rightarrow> (s, Inl e)
            | Inr requestDigests \<Rightarrow>
                (case Execute (cancelRequest actor requestKey requestDigests) (time_execute t) (cancelOperation svc t i actor) s of
                   Inl e \<Rightarrow> (s, Inl (serviceFailure e))
                 | Inr (s1, result) \<Rightarrow>
                     (case Get (res_ID result) (job_db (other_tables s1)) of
                        Inl e \<Rightarrow> (s, Inl (ServiceJob e))
                      | Inr v \<Rightarrow>
                          if \<not> HasPrefix (res_Type result) ''job_cancel:'' \<or> TrimPrefix (res_Type result) ''job_cancel:'' = [] \<or>
                             \<not> cancellationResultApplies (TrimPrefix (res_Type result) ''job_cancel:'') (snap_Status v)
                          then (s, Inl (ServiceJob (ErrJobConflict (snap_Status v))))
                          else (s1, Inr v)))))"

section \<open>Facts\<close>

lemma statusName_nonempty [simp]: "statusName x \<noteq> []"
  by (cases x) simp_all

lemma prefix_status:
  "HasPrefix (''job_cancel:'' @ x) ''job_cancel:''" "TrimPrefix (''job_cancel:'' @ x) ''job_cancel:'' = x"
  by (simp_all add: HasPrefix_def TrimPrefix_def)

text \<open>The digest of a request under the active key is among its digests under every later ring
  that still knows that key.\<close>

lemma digest_survives:
  assumes "NewCredentialVault active previous = Inr v" "NewCredentialVault active' previous' = Inr v'"
    and "active' = active \<or> active \<in> set (splitOn CHR '','' previous')"
    and "KeyedDigests hmac v parts = Inr ds" "KeyedDigests hmac v' parts = Inr ds'"
  shows "ds \<noteq> [] \<and> hd ds \<in> set ds'"
proof -
  note v = NewCredentialVault_ok [OF assms(1)] and v' = NewCredentialVault_ok [OF assms(2)]
  obtain key where d: "decodeCredentialKey (TrimSpace active) = Inr (vault_activeID v, key)" using v(4) by blast
  have ks: "vault_keys v \<noteq> []" "vault_activeID v = key_id (hd (vault_keys v))" "distinct (map key_id (vault_keys v))"
    using v(1) by (simp_all add: vaultOk_def)
  have "knows v' active" using assms(3) v'(2) v'(3) [OF _ d] by auto
  then have mem: "\<lparr>key_id = vault_activeID v, key_bytes = key\<rparr> \<in> set (vault_keys v')" using d by (auto simp: knows_def)
  have "\<lparr>key_id = vault_activeID v, key_bytes = key\<rparr> \<in> set (vault_keys v)" using v(2) d by (auto simp: knows_def)
  then have "key_bytes (hd (vault_keys v)) = key"
    using ks by (metis credentialKey.select_convs(1,2) distinct_map hd_in_set inj_onD)
  moreover obtain m where "encodeCredentialParts (credentialDigestDomain # parts) = Inr m"
    using assms(4) by (auto simp: KeyedDigests_def result_simps)
  moreover from this have m: "ds = map (\<lambda>k. hmac (key_bytes k) m) (vault_keys v)" "ds' = map (\<lambda>k. hmac (key_bytes k) m) (vault_keys v')"
    using assms(4,5) by (auto simp: KeyedDigests_def)
  ultimately have "hd ds = hmac key m" using ks(1) by (simp add: hd_map)
  moreover have "hmac key m \<in> set ds'" using image_eqI [OF _ mem, of _ "\<lambda>k. hmac (key_bytes k) m"] m(2) by simp
  ultimately show ?thesis using m(1) ks(1) by simp
qed

text \<open>A request that was carried out under a new key.\<close>

lemma Cancel_first:
  assumes "Cancel svc t i actor key s = (s1, Inr v)" "keysUnique s"
    and "\<forall>r \<in> set (idempotency_records s). \<not> (rec_scope r = ''operator:'' @ uuidString actor \<and> rec_request_key r = key)"
  obtains ds d c rows where "KeyedDigests (service_hmac svc) (service_vault svc) [''job.cancel'', bytesOf i] = Inr ds"
    "requestCancel (service_store svc) i (time_cancel t) (job_db (other_tables s)) = Inr (d, c)" "Get i d = Inr v"
    "job_db (other_tables s1) = d" "job_audit (other_tables s1) = rows"
    "appendCancellationAudit (pythonISOTime svc) t actor v (job_audit (other_tables s)) = Inr rows"
    "newRecord (cancelRequest actor key ds) (time_execute t) \<lparr>res_Type = ''job_cancel:'' @ statusName (snap_Status v), res_ID = i\<rparr>
       \<in> set (idempotency_records s1)" "keysUnique s1" "key \<noteq> []"
proof -
  obtain ds where ds: "KeyedDigests (service_hmac svc) (service_vault svc) [''job.cancel'', bytesOf i] = Inr ds" "key \<noteq> []"
    using assms(1) by (auto simp: Cancel_def split: if_splits sum.splits)
  have "cancellationDigests ds = Inr ds" using assms(1) ds by (auto simp: Cancel_def cancellationDigests_def split: if_splits)
  then obtain result where ex: "Execute (cancelRequest actor key ds) (time_execute t) (cancelOperation svc t i actor) s = Inr (s1, result)"
      and get: "Get (res_ID result) (job_db (other_tables s1)) = Inr v"
    using assms(1) ds by (auto simp: Cancel_def split: if_splits sum.splits)
  show thesis using ex assms(2)
  proof (cases rule: Execute_ok)
    case (replayed r)
    then show ?thesis using assms(3) by (auto simp: sameKey_def cancelRequest_def)
  next
    case (executed u)
    then obtain d c w rows where op: "requestCancel (service_store svc) i (time_cancel t) (job_db (other_tables s)) = Inr (d, c)" "Get i d = Inr w"
        "appendCancellationAudit (pythonISOTime svc) t actor w (job_audit (other_tables s)) = Inr rows"
        "u = (other_tables s)\<lparr>job_db := d, job_audit := rows\<rparr>"
        "result = \<lparr>res_Type = ''job_cancel:'' @ statusName (snap_Status w), res_ID = i\<rparr>"
      by (auto simp: cancelOperation_def result_simps split: sum.splits)
    moreover have "w = v" using get op executed(2) by simp
    ultimately show ?thesis using that [OF ds(1), of d c rows] executed ds(2) by auto
  qed
qed

lemma Get_eq: "Get i s = Inr v \<longleftrightarrow> (\<exists>row. selectJob i s = Some row \<and> v = snapshot row)"
  by (auto simp: Get_def split: option.splits)

section \<open>Property\<close>

text \<open>
  C14. A cancellation is carried out once for one request key: the first request cancels through
  the queue and writes exactly one audit record; repeating it within a day changes nothing, even
  when the vault's keys have been rotated in between, and answers with the job as it is then, or
  with a conflict when the job has since left the outcome that was recorded.
\<close>

theorem cancel_once:
  assumes vaults: "NewCredentialVault active previous = Inr (service_vault svc)"
      "NewCredentialVault active' previous' = Inr (service_vault svc')"
      "active' = active \<or> active \<in> set (splitOn CHR '','' previous')" "service_hmac svc' = service_hmac svc"
      "\<forall>k m. length (service_hmac svc k m) = 32"
    and first: "Cancel svc t i actor key s = (s1, Inr v)" "keysUnique s"
      "\<forall>r \<in> set (idempotency_records s). \<not> (rec_scope r = ''operator:'' @ uuidString actor \<and> rec_request_key r = key)"
    and later: "idempotency_records s2 = idempotency_records s1" "time_execute t' < time_execute t + Microseconds cancellationTTL"
  shows "(\<exists>c. RequestCancel (service_store svc) i (time_cancel t) (job_db (other_tables s)) = (job_db (other_tables s1), Inr c)) \<and>
    length (job_audit (other_tables s1)) = Suc (length (job_audit (other_tables s))) \<and>
    other_tables (fst (Cancel svc' t' i actor key s2)) = other_tables s2 \<and>
    snd (Cancel svc' t' i actor key s2) =
      (case selectJob i (job_db (other_tables s2)) of
         None \<Rightarrow> Inl (ServiceJob ErrJobNotFound)
       | Some row \<Rightarrow> if cancellationResultApplies (statusName (snap_Status v)) (status row) then Inr (snapshot row)
           else Inl (ServiceJob (ErrJobConflict (status row))))"
proof -
  obtain ds d c rows where f: "KeyedDigests (service_hmac svc) (service_vault svc) [''job.cancel'', bytesOf i] = Inr ds"
    "requestCancel (service_store svc) i (time_cancel t) (job_db (other_tables s)) = Inr (d, c)" "Get i d = Inr v"
    "job_db (other_tables s1) = d" "job_audit (other_tables s1) = rows"
    "appendCancellationAudit (pythonISOTime svc) t actor v (job_audit (other_tables s)) = Inr rows"
    "newRecord (cancelRequest actor key ds) (time_execute t) \<lparr>res_Type = ''job_cancel:'' @ statusName (snap_Status v), res_ID = i\<rparr>
       \<in> set (idempotency_records s1)" "keysUnique s1" "key \<noteq> []"
    by (rule Cancel_first [OF first])
  let ?r = "newRecord (cancelRequest actor key ds) (time_execute t) \<lparr>res_Type = ''job_cancel:'' @ statusName (snap_Status v), res_ID = i\<rparr>"
  obtain ds' where ds': "KeyedDigests (service_hmac svc') (service_vault svc') [''job.cancel'', bytesOf i] = Inr ds'"
    using f(1) by (auto simp: KeyedDigests_def result_simps)
  have hd: "ds \<noteq> []" "hd ds \<in> set ds'"
    using digest_survives [OF vaults(1-3) f(1)] ds' vaults(4) by auto
  have checked: "cancellationDigests ds' = Inr ds'"
    using ds' vaults(4,5) by (auto simp: KeyedDigests_def cancellationDigests_def result_simps list_ex_iff)
  have "digestAccepted (rec_request_digest ?r) (cancelRequest actor key ds')"
    using hd by (cases ds') (auto simp: digestAccepted_def cancelRequest_def newRecord_def list_ex_iff)
  then obtain s3 where ex: "Execute (cancelRequest actor key ds') (time_execute t') (cancelOperation svc' t' i actor) s2 =
      Inr (s3, \<lparr>res_Type = ''job_cancel:'' @ statusName (snap_Status v), res_ID = i\<rparr>)" "other_tables s3 = other_tables s2"
    using Execute_replay [of s2 ?r "cancelRequest actor key ds'" "time_execute t'" "cancelOperation svc' t' i actor"] f(7-9) later
    by (auto simp: keysUnique_def requestValidate_def cancelRequest_def newRecord_def sameKey_def cancellationTTL_def Microseconds_def)
  have "Cancel svc' t' i actor key s2 =
      (case selectJob i (job_db (other_tables s2)) of
         None \<Rightarrow> (s2, Inl (ServiceJob ErrJobNotFound))
       | Some row \<Rightarrow> if cancellationResultApplies (statusName (snap_Status v)) (status row) then (s3, Inr (snapshot row))
           else (s2, Inl (ServiceJob (ErrJobConflict (status row)))))"
    using ds' hd checked ex f(9)
    by (auto simp: Cancel_def Get_def prefix_status snapshot_def simp del: append.simps split: option.splits)
  moreover have "length rows = Suc (length (job_audit (other_tables s)))"
    using f(6) by (auto simp: appendCancellationAudit_def split: if_splits)
  ultimately show ?thesis using f(2,4,5) ex(2)
    by (auto simp: RequestCancel_def transaction_def split: option.splits)
qed

definition demoJobService :: "string \<Rightarrow> string \<Rightarrow> unit jobService" where
  "demoJobService active previous = \<lparr>service_store = demoStore, service_hmac = (\<lambda>k m. replicate 32 0),
     service_vault = (case NewCredentialVault active previous of Inr v \<Rightarrow> v | Inl _ \<Rightarrow> \<lparr>vault_activeID = [], vault_keys = [], vault_byID = Map.empty\<rparr>),
     pythonISOTime = (\<lambda>_. ''now'')\<rparr>"

definition demoJobTables :: "unit jobTables idemTables" where
  "demoJobTables = \<lparr>idempotency_records = [], other_tables = \<lparr>job_db = demoPending, job_audit = []\<rparr>\<rparr>"

definition demoTimes :: cancelTimes where
  "demoTimes = \<lparr>time_execute = 30, time_cancel = 30, time_audit = 30, audit_raw = replicate 16 0\<rparr>"

definition demoCancelled :: "unit jobTables idemTables \<times> (serviceError + Snapshot)" where
  "demoCancelled = Cancel (demoJobService demoKey1 []) demoTimes [1] [9] ''key'' demoJobTables"

lemma demoCancelled_ok: "isOk (snd demoCancelled)"
  by code_simp

lemma demoVault_known:
  "isOk (NewCredentialVault a p) \<Longrightarrow> NewCredentialVault a p = Inr (service_vault (demoJobService a p))"
  by (cases "NewCredentialVault a p") (simp_all add: demoJobService_def)

theorem cancel_once_witness:
  "\<exists>s1 v. Cancel (demoJobService demoKey1 []) demoTimes [1] [9] ''key'' demoJobTables = (s1, Inr v) \<and>
     length (job_audit (other_tables s1)) = 1 \<and>
     other_tables (fst (Cancel (demoJobService demoKey2 demoKey1) demoTimes [1] [9] ''key'' s1)) = other_tables s1"
proof -
  obtain v where v: "Cancel (demoJobService demoKey1 []) demoTimes [1] [9] ''key'' demoJobTables = (fst demoCancelled, Inr v)"
    using demoCancelled_ok by (cases "snd demoCancelled") (auto simp: demoCancelled_def prod_eq_iff)
  have key: "demoKey1 \<in> set (splitOn CHR '','' demoKey1)" by code_simp
  have hmac: "service_hmac (demoJobService demoKey2 demoKey1) = service_hmac (demoJobService demoKey1 [])"
    "\<forall>k m. length (service_hmac (demoJobService demoKey1 []) k m) = 32" by (simp_all add: demoJobService_def)
  have start: "keysUnique demoJobTables"
    "\<forall>r \<in> set (idempotency_records demoJobTables). \<not> (rec_scope r = ''operator:'' @ uuidString [9] \<and> rec_request_key r = ''key'')"
    "job_audit (other_tables demoJobTables) = []" by (simp_all add: keysUnique_def demoJobTables_def)
  have day: "time_execute demoTimes < time_execute demoTimes + Microseconds cancellationTTL"
    by (simp add: cancellationTTL_def Microseconds_def)
  from cancel_once [OF demoVault_known [OF demoVaults(1)] demoVault_known [OF demoVaults(2)] disjI2 [OF key] hmac v start(1,2) refl day]
  show ?thesis using v start(3) by simp
qed

end
