(* ===== verification/SchemaProperties.thy ===== *)
theory SchemaProperties
  imports CapsuleSchema CapsuleCodec
begin

text \<open>
  Compiling a schema and validating with it (\<^verbatim>\<open>internal/capsule/json.go\<close>) is reading
  the schema document directly.
\<close>

lemma assemble_Some:
  assumes "assemble rx raw properties items = Some s"
  shows "keywordsOk raw" "compileTypes raw = Some (schema_types s)" "properties = Some (schema_properties s)"
    "compileRequired raw = Some (schema_required s)" "compileAdditional raw = Some (schema_additionalProperties s)"
    "items = Some (schema_items s)" "compileCount ''minItems'' raw = Some (schema_minItems s)"
    "compileCount ''maxItems'' raw = Some (schema_maxItems s)" "compileCount ''minLength'' raw = Some (schema_minLength s)"
    "compileCount ''maxLength'' raw = Some (schema_maxLength s)" "compileBound ''minimum'' raw = Some (schema_minimum s)"
    "compileBound ''maximum'' raw = Some (schema_maximum s)" "compilePattern rx raw = Some (schema_pattern s)"
    "compileEnum raw = Some (schema_enum s)" "schema_constant s = map_of raw ''const''"
  using assms by (auto simp: assemble_def bind_eq_Some_conv split: if_splits)

lemma stringOf_eq_Some [simp]: "stringOf v = Some s \<longleftrightarrow> v = GString s"
  by (cases v) (simp_all add: stringOf_def)

lemma those_strings: "those (map stringOf items) = Some names \<longleftrightarrow> items = map GString names"
  by (induction items arbitrary: names) (auto simp: stringOf_def split: option.splits gval.splits)

lemma compileTypes_meaning:
  assumes "compileTypes raw = Some types"
  shows "types = [] \<or> list_ex P types \<longleftrightarrow> (\<forall>t. map_of raw ''type'' = Some t \<longrightarrow> (\<exists>name \<in> set (typeNames t). P name))"
proof (cases "map_of raw ''type''")
  case None
  then show ?thesis using assms by (simp add: compileTypes_def)
next
  case (Some t)
  let ?items = "case t of GArray array \<Rightarrow> array | _ \<Rightarrow> [t]"
  have "?items \<noteq> []" "those (map stringOf ?items) = Some types"
    using assms Some by (auto simp: compileTypes_def Let_def split: if_splits option.splits)
  moreover have "typeNames t = map (\<lambda>i. the (stringOf i)) ?items" by (cases t) (simp_all add: typeNames_def)
  ultimately have "types = typeNames t" "types \<noteq> []"
    using those_strings [of ?items types] by (simp_all add: stringOf_def comp_def)
  then show ?thesis using Some by (simp add: list_ex_iff)
qed

lemma compileEnum_meaning:
  assumes "compileEnum raw = Some enum"
  shows "enum = [] \<or> list_ex P enum \<longleftrightarrow> (\<forall>items. map_of raw ''enum'' = Some (GArray items) \<longrightarrow> (\<exists>i \<in> set items. P i))"
  using assms by (auto simp: compileEnum_def list_ex_iff split: option.splits gval.splits if_splits)

lemma validAny_conforms:
  assumes "assemble rx raw properties items = Some s"
  shows "validAny s v \<longleftrightarrow> conformsAny raw v"
  using compileTypes_meaning [OF assemble_Some(2) [OF assms], of "matchesJSONType v"]
    compileEnum_meaning [OF assemble_Some(14) [OF assms], of "sameJSON v"] assemble_Some(15) [OF assms]
  by (simp add: validAny_def conformsAny_def split: option.split)

lemma compileRequired_meaning:
  assumes "compileRequired raw = Some required"
  shows "list_all P required \<longleftrightarrow> (\<forall>names name. map_of raw ''required'' = Some (GArray names) \<longrightarrow> GString name \<in> set names \<longrightarrow> P name)"
proof (cases "map_of raw ''required''")
  case None
  then show ?thesis using assms by (simp add: compileRequired_def)
next
  case (Some r)
  then obtain names where r: "r = GArray names" "those (map stringOf names) = Some required"
    using assms by (auto simp: compileRequired_def split: gval.splits option.splits if_splits)
  then show ?thesis using Some by (auto simp: those_strings list_all_iff)
qed

lemma compileCount_meaning:
  assumes "compileCount name raw = Some bound"
  shows "atLeast bound x \<longleftrightarrow> (\<forall>b n. map_of raw name = Some b \<longrightarrow> jsonInteger b = Some n \<longrightarrow> n \<le> x)"
    "atMost bound x \<longleftrightarrow> (\<forall>b n. map_of raw name = Some b \<longrightarrow> jsonInteger b = Some n \<longrightarrow> x \<le> n)"
  using assms by (auto simp: compileCount_def atLeast_def atMost_def split: option.splits if_splits)

lemma compileBound_meaning:
  assumes "compileBound name raw = Some bound"
  shows "atLeast bound x \<longleftrightarrow> (\<forall>b n. map_of raw name = Some b \<longrightarrow> jsonNumber b = Some n \<longrightarrow> n \<le> x)"
    "atMost bound x \<longleftrightarrow> (\<forall>b n. map_of raw name = Some b \<longrightarrow> jsonNumber b = Some n \<longrightarrow> x \<le> n)"
  using assms by (auto simp: compileBound_def atLeast_def atMost_def split: option.splits)

lemma compilePattern_meaning:
  assumes "compilePattern rx raw = Some pattern"
  shows "(case pattern of None \<Rightarrow> True | Some matches \<Rightarrow> matches s) \<longleftrightarrow>
    (\<forall>p matches. map_of raw ''pattern'' = Some (GString p) \<longrightarrow> rx p = Some matches \<longrightarrow> matches s)"
  using assms by (auto simp: compilePattern_def split: option.splits gval.splits)

lemma compileAdditional_meaning:
  "compileAdditional raw = Some a \<Longrightarrow> a \<longleftrightarrow> map_of raw ''additionalProperties'' \<noteq> Some (GBool False)"
  by (auto simp: compileAdditional_def split: option.splits gval.splits)

lemma compiled_properties:
  assumes "(case map_of raw ''properties'' of None \<Rightarrow> Some [] | Some p \<Rightarrow> (case p of
      GObject properties \<Rightarrow> those (map (\<lambda>kv. map_option (Pair (fst kv)) (compileSchemaObject rx (snd kv))) properties)
    | _ \<Rightarrow> None)) = Some compiled"
  shows "(case map_of compiled name of None \<Rightarrow> a | Some c \<Rightarrow> P c) \<longleftrightarrow>
    (case map_of raw ''properties'' of
       Some (GObject properties) \<Rightarrow>
         (case map_of properties name of None \<Rightarrow> a | Some d \<Rightarrow> P (the (compileSchemaObject rx d)))
     | _ \<Rightarrow> a)"
    "map_of raw ''properties'' = Some (GObject properties) \<Longrightarrow> map_of properties name = Some d \<Longrightarrow> compileSchemaObject rx d \<noteq> None"
proof -
  have lookup: "those (map (\<lambda>kv. map_option (Pair (fst kv)) (f (snd kv))) ps) = Some qs \<Longrightarrow>
      map_of qs name = Option.bind (map_of ps name) f \<and> (\<forall>d. map_of ps name = Some d \<longrightarrow> f d \<noteq> None)"
    for f :: "gval \<Rightarrow> compiledSchema option" and ps qs
    by (induction ps arbitrary: qs) (auto split: option.splits)
  show "(case map_of compiled name of None \<Rightarrow> a | Some c \<Rightarrow> P c) \<longleftrightarrow>
    (case map_of raw ''properties'' of
       Some (GObject properties) \<Rightarrow>
         (case map_of properties name of None \<Rightarrow> a | Some d \<Rightarrow> P (the (compileSchemaObject rx d)))
     | _ \<Rightarrow> a)"
    using assms lookup [where f = "compileSchemaObject rx"]
    by (fastforce split: option.splits gval.splits simp: bind_eq_Some_conv)
  show "map_of raw ''properties'' = Some (GObject properties) \<Longrightarrow> map_of properties name = Some d \<Longrightarrow> compileSchemaObject rx d \<noteq> None"
    using assms lookup [where f = "compileSchemaObject rx"] by auto
qed

lemma compile_Some:
  assumes "compileSchemaObject rx d = Some s"
  obtains raw where "d = GObject raw"
    "assemble rx raw
       (case map_of raw ''properties'' of None \<Rightarrow> Some [] | Some p \<Rightarrow> (case p of
          GObject properties \<Rightarrow> those (map (\<lambda>kv. map_option (Pair (fst kv)) (compileSchemaObject rx (snd kv))) properties)
        | _ \<Rightarrow> None))
       (case map_of raw ''items'' of None \<Rightarrow> Some None | Some item \<Rightarrow> map_option Some (compileSchemaObject rx item)) = Some s"
  using assms by (subst (asm) compileSchemaObject.simps, cases d) simp_all

lemma valid_conforms: "compileSchemaObject rx d = Some s \<Longrightarrow> valid s v \<longleftrightarrow> conforms rx d v"
proof (induction "size v" arbitrary: v s d rule: less_induct)
  case less
  obtain raw where d: "d = GObject raw" and a: "assemble rx raw
       (case map_of raw ''properties'' of None \<Rightarrow> Some [] | Some p \<Rightarrow> (case p of
          GObject properties \<Rightarrow> those (map (\<lambda>kv. map_option (Pair (fst kv)) (compileSchemaObject rx (snd kv))) properties)
        | _ \<Rightarrow> None))
       (case map_of raw ''items'' of None \<Rightarrow> Some None | Some item \<Rightarrow> map_option Some (compileSchemaObject rx item)) = Some s"
    by (rule compile_Some [OF less.prems])
  note c = assemble_Some [OF a] and any = validAny_conforms [OF a, of v]
  show ?case
  proof (cases v)
    case (GObject item)
    have child: "(case map_of (schema_properties s) (fst kv) of
          None \<Rightarrow> schema_additionalProperties s | Some property \<Rightarrow> valid property (snd kv)) \<longleftrightarrow>
        (case map_of raw ''properties'' of
           Some (GObject properties) \<Rightarrow>
             (case map_of properties (fst kv) of
                None \<Rightarrow> map_of raw ''additionalProperties'' \<noteq> Some (GBool False)
              | Some p \<Rightarrow> conforms rx p (snd kv))
         | _ \<Rightarrow> map_of raw ''additionalProperties'' \<noteq> Some (GBool False))" if "kv \<in> set item" for kv
    proof -
      have "size (snd kv) < size v" using size_member [of "fst kv" "snd kv" item] that GObject by simp
      then have "valid (the (compileSchemaObject rx p)) (snd kv) \<longleftrightarrow> conforms rx p (snd kv)"
        if "map_of raw ''properties'' = Some (GObject properties)" "map_of properties (fst kv) = Some p" for properties p
        using less.hyps [of "snd kv" p] compiled_properties(2) [OF c(3) that] by auto
      then show ?thesis
        unfolding compiled_properties(1) [OF c(3)] compileAdditional_meaning [OF c(5)]
        by (auto split: option.splits gval.splits)
    qed
    have "list_all (\<lambda>name. map_of item name \<noteq> None) (schema_required s) \<longleftrightarrow>
        (\<forall>names name. map_of raw ''required'' = Some (GArray names) \<longrightarrow> GString name \<in> set names \<longrightarrow> name \<in> fst ` set item)"
      unfolding compileRequired_meaning [OF c(4)] by (metis map_of_eq_None_iff)
    then show ?thesis using any child unfolding d GObject
      by (simp add: valid.simps [of s "GObject item"] conforms.simps [of rx "GObject raw" "GObject item"] list_all_iff)
  next
    case (GArray xs)
    have "valid t x \<longleftrightarrow> conforms rx e x" if "compileSchemaObject rx e = Some t" "x \<in> set xs" for e t x
      using less.hyps [OF _ that(1), of x] that(2) GArray by (simp add: less_Suc_eq_le size_list_estimation')
    then have "(case schema_items s of None \<Rightarrow> True | Some t \<Rightarrow> list_all (valid t) xs) \<longleftrightarrow>
        (case map_of raw ''items'' of None \<Rightarrow> True | Some t \<Rightarrow> (\<forall>x \<in> set xs. conforms rx t x))"
      using c(6) by (auto simp: list_all_iff split: option.splits)
    then show ?thesis using any compileCount_meaning [OF c(7)] compileCount_meaning [OF c(8)]
      unfolding d GArray by (simp add: valid.simps [of s "GArray xs"] conforms.simps [of rx "GObject raw" "GArray xs"])
  next
    case (GString t)
    then show ?thesis using any compileCount_meaning [OF c(9)] compileCount_meaning [OF c(10)] compilePattern_meaning [OF c(13)]
      unfolding d by (simp add: valid.simps [of s "GString t"] conforms.simps [of rx "GObject raw" "GString t"])
  qed (use any compileBound_meaning [OF c(11)] compileBound_meaning [OF c(12)] in
      \<open>simp_all add: d valid.simps [of s GNull] valid.simps [of s "GBool _"] valid.simps [of s "GNumber _"] valid.simps [of s GOpaque]
        conforms.simps [of rx "GObject raw" GNull] conforms.simps [of rx "GObject raw" "GBool _"] conforms.simps [of rx "GObject raw" "GNumber _"]
        conforms.simps [of rx "GObject raw" GOpaque] jsonNumber_def split: option.split\<close>)
qed

text \<open>
  C30. Validation against a compiled schema decides exactly what the schema document says: a value
  is valid for the compiled form of a document if and only if every keyword of the document,
  read directly, holds of it, at every depth.
\<close>

theorem schema_meaning:
  assumes "compileSchema rx raw = Some s"
  shows "\<exists>d. normalizeJSONObject raw 1048576 \<lparr>maxDepth = 64, maxStringBytes = 1048576, maxKeys = 100000\<rparr> = Some d \<and>
    (\<forall>v. valid s v \<longleftrightarrow> conforms rx d v)"
  using assms valid_conforms by (auto simp: compileSchema_def bind_eq_Some_conv)

definition demoSchema :: gval where
  "demoSchema = GObject [(''additionalProperties'', GBool False), (''type'', GString ''object'')]"

theorem schema_meaning_witness:
  "\<exists>s d. compileSchema (\<lambda>_. None) demoSchema = Some s \<and> (valid s (GObject []) \<longleftrightarrow> conforms (\<lambda>_. None) d (GObject []))"
proof -
  let ?l = "\<lparr>maxDepth = 64, maxStringBytes = 1048576, maxKeys = 100000\<rparr>"
  have utf: "utf8Valid ''additionalProperties''" "utf8Valid ''type''" "utf8Valid ''object''" by simp_all
  have ok: "accepted ?l 1 demoSchema" "members demoSchema = 2"
    using utf by (simp_all add: accepted_object memberOk_def demoSchema_def less_char_def checkScalar_def)
  obtain e where e: "canonicalJSON demoSchema = Some e" "parseStrictJSON e ?l = Inr (demoSchema, members demoSchema)"
    by (rule parse_canonical [OF ok(1)]) (use ok(2) in simp_all)
  have "sort_key fst [(''additionalProperties'', GBool False), (''type'', GString ''object'')] =
      [(''additionalProperties'', GBool False), (''type'', GString ''object'')]"
    by (rule sorted_keys_id) (simp add: less_char_def)
  then have "length e \<le> 1048576"
    using e(1) by (simp add: canonicalJSON_raw demoSchema_def) (auto simp: rawString_def runes_ascii rawRune_def escapeByte_def
        quote_def backslash_def)
  then have norm: "normalizeJSONObject demoSchema 1048576 ?l = Some demoSchema"
    using e by (simp add: normalizeJSONObject_def demoSchema_def)
  have "\<exists>s. compileSchema (\<lambda>_. None) demoSchema = Some s"
    unfolding compileSchema_def norm
    by (simp add: compileSchemaObject.simps) (simp add: demoSchema_def assemble_def keywordsOk_def formatOk_def allowedKeywords_def
        compileTypes_def compileRequired_def compileAdditional_def compileCount_def compileBound_def compilePattern_def
        compileEnum_def stringOf_def validJSONType_def)
  then show ?thesis using schema_meaning by blast
qed

end
