(* ===== verification/SessionBounds.thy ===== *)
theory SessionBounds
  imports SessionProperties
begin

text \<open>
  Bounds of a session (\<^verbatim>\<open>internal/capsule/session.go\<close>): the number of rounds and of
  provider requests, and which normalized answers can be sent on to the capsule under the limits of
  the protocol (\<^verbatim>\<open>internal/capsule/types.go\<close>).
\<close>

section \<open>Base 64\<close>

lemma base64_length: "length (base64 s) = 4 * ((length s + 2) div 3)"
proof (induction s rule: base64.induct)
  case (4 a b c s)
  have "(length (a # b # c # s) + 2) div 3 = (length s + 2) div 3 + 1" by simp
  then show ?case using 4 by simp
qed simp_all

text \<open>The bytes that a string literal of JSON holds as they are.\<close>

definition plainByte :: "char \<Rightarrow> bool" where
  "plainByte c \<longleftrightarrow> 32 \<le> code c \<and> code c < 128 \<and> c \<noteq> quote \<and> c \<noteq> backslash"

lemma base64Digit_plain: "n < 64 \<Longrightarrow> plainByte (base64Digit n)"
proof -
  have "list_all plainByte ''ABCDEFGHIJKLMNOPQRSTUVWXYZabcdefghijklmnopqrstuvwxyz0123456789+/''"
    by (simp add: plainByte_def quote_def backslash_def)
  moreover assume "n < 64"
  ultimately show ?thesis by (auto simp: base64Digit_def list_all_length)
qed

lemma sextets:
  fixes x y z :: nat
  assumes "x < 256" "y < 256" "z < 256"
  shows "x div 4 < 64" "x mod 4 * 16 < 64" "x mod 4 * 16 + y div 16 < 64" "y mod 16 * 4 < 64"
    "y mod 16 * 4 + z div 64 < 64" "z mod 64 < 64"
proof -
  have "x mod 4 < 4" "y mod 16 < 16" "x div 4 < 64" "y div 16 < 16" "z div 64 < 4" using assms by simp_all
  then show "x div 4 < 64" "x mod 4 * 16 < 64" "x mod 4 * 16 + y div 16 < 64" "y mod 16 * 4 < 64"
    "y mod 16 * 4 + z div 64 < 64" "z mod 64 < 64" by linarith+
qed

lemma code_less: "code (c :: char) < 256"
  by (cases c) simp

lemma base64_plain: "list_all plainByte (base64 s)"
proof -
  have pad: "plainByte CHR ''=''" by (simp add: plainByte_def quote_def backslash_def)
  show ?thesis
    by (induction s rule: base64.induct)
      (simp_all add: pad base64Digit_plain sextets [OF code_less code_less code_less])
qed

lemma rawString_plain:
  assumes "list_all plainByte s"
  shows "rawString s = quote # s @ [quote]"
proof -
  have "runes s = map (\<lambda>c. (code c, [c])) s"
    using assms by (intro runes_all_ascii) (auto simp: list_all_iff plainByte_def)
  moreover have "rawRune (code c, [c]) = [c]" if "c \<in> set s" for c
    using that assms by (auto simp: list_all_iff plainByte_def rawRune_def escapeByte_def)
  then have "concat (map (\<lambda>c. rawRune (code c, [c])) s) = concat (map (\<lambda>c. [c]) s)" by (metis (no_types, lifting) map_eq_conv)
  ultimately show ?thesis by (simp add: rawString_def comp_def)
qed

lemma utf8Valid_plain: "list_all plainByte s \<Longrightarrow> utf8Valid s"
  by (induction s) (simp_all add: plainByte_def)

section \<open>Sending an answer on\<close>

lemma operation_plain: "validOperationID i \<Longrightarrow> list_all plainByte i"
proof -
  have "operationChar c \<Longrightarrow> plainByte c" for c
    by (auto simp: operationChar_def plainByte_def quote_def backslash_def)
  moreover assume "validOperationID i"
  ultimately show ?thesis by (auto simp: validOperationID_def list_all_iff)
qed

text \<open>The canonical text of a model result: the answer grows by a third, the rest is the length of
  the identifier and fifty bytes.\<close>

lemma model_result_text:
  assumes "list_all plainByte opID" "list_all plainByte payload"
  shows "canonicalJSON (GObject [(''type'', GString ''model_result''), (''id'', GString opID), (''body_base64'', GString payload)]) =
    Some (''{'' @ rawString ''body_base64'' @ '':'' @ rawString payload @ '','' @ rawString ''id'' @ '':'' @ rawString opID @ '','' @
      rawString ''type'' @ '':'' @ rawString ''model_result'' @ ''}'')"
proof -
  have "sort_key fst [(''type'', GString ''model_result''), (''id'', GString opID), (''body_base64'', GString payload)] =
      [(''body_base64'', GString payload), (''id'', GString opID), (''type'', GString ''model_result'')]"
    by (simp add: less_char_def)
  then show ?thesis unfolding canonicalJSON_raw by simp
qed

lemma model_result_valid:
  assumes "validOperationID opID"
  shows "validateWireMessage [(''type'', GString ''model_result''), (''id'', GString opID), (''body_base64'', GString payload)] = Inr ()"
  using assms
  by (simp add: validateWireMessage_def messageFields_def fieldPresent_def memberKnown_def exactString_def operationIDField_def
      stringField_def Let_def)

lemma model_result_length:
  assumes "list_all plainByte opID" "list_all plainByte payload"
  obtains e where "canonicalJSON (GObject [(''type'', GString ''model_result''), (''id'', GString opID), (''body_base64'', GString payload)]) = Some e"
    "length e = length payload + length opID + 48"
proof -
  have plain: "list_all plainByte ''body_base64''" "list_all plainByte ''id''" "list_all plainByte ''type''" "list_all plainByte ''model_result''"
    by (simp_all add: plainByte_def quote_def backslash_def)
  show thesis by (rule that [OF model_result_text [OF assms]]) (simp add: plain [THEN rawString_plain] assms [THEN rawString_plain])
qed

text \<open>A text whose first member is a string beyond the limit is refused.\<close>

lemma parse_long_member:
  assumes "utf8Valid name" "utf8Valid payload" "maxStringBytes limits < int (length payload)"
  shows "\<not> isOk (parseStrictJSON (CHR ''{'' # rawString name @ CHR '':'' # rawString payload @ rest) limits)"
proof -
  let ?t = "rawString name @ CHR '':'' # rawString payload @ rest"
  have start: "tokenStart tokenTopValue (CHR ''{'' # ?t) = Some (CHR ''{'' # ?t)"
    by (simp add: tokenStart_def skipSpace_def isSpace_def)
  have name: "Option.bind (tokenStart tokenObjectStart ?t) scanName = Some (name, CHR '':'' # rawString payload @ rest)"
    using tokenStart_simps(3) [OF rawString_startsValue [of name "[]"], of "CHR '':'' # rawString payload @ rest"]
    by (simp add: scanName_raw [OF assms(1)])
  have more: "More ?t" using startsValue_More [OF rawString_startsValue [of name "[]"]] by (metis append_Nil2)
  have colon: "tokenStart tokenObjectColon (CHR '':'' # rawString payload @ rest) = Some (rawString payload @ rest)"
    using tokenStart_simps(6) [OF rawString_startsValue [of payload "[]"], of rest] by simp
  have "scanScalar (rawString payload @ rest) = Some (GString payload, rest)"
    by (simp add: scanScalar_def rawString_def decodeBody_raw [OF assms(2)])
  moreover obtain t where t: "rawString payload @ rest = quote # t" by (simp add: rawString_def)
  ultimately have inner: "\<not> isOk (decodeJSONValue n limits d tokenObjectColon k (CHR '':'' # rawString payload @ rest))" for n d k
    using assms(3) colon by (cases n) (auto simp: quote_def checkScalar_def result_simps split: list.splits)
  have members: "\<not> isOk (decodeMembers m (decodeJSONValue n limits d tokenObjectColon) limits tokenObjectStart k [] ?t)" for m n d k
    using inner [of n d "k + 1"] name more by (cases m) (auto simp: bindE_def split: sum.splits list.splits)
  have "\<not> isOk (decodeJSONValue n limits 1 tokenTopValue 0 (CHR ''{'' # ?t))" for n
    using members start by (cases n) (auto simp del: decodeMembers.simps)
  from this [of "nat (maxDepth limits)"] show ?thesis
    by (cases "decodeJSONValue (nat (maxDepth limits)) limits 1 tokenTopValue 0 (CHR ''{'' # ?t)") (simp_all add: parseStrictJSON_def)
qed

lemma limits_bounds:
  assumes "limitsValidate l = Inr ()"
  shows "256 \<le> MaxStringBytes l" "4 \<le> MaxDepth l" "32 \<le> MaxKeys l" "4 * ((MaxFetchBodyBytes l + 2) div 3) + 8192 \<le> MaxFrameBytes l"
    "1024 \<le> MaxFetchBodyBytes l" "1 \<le> MaxModelRequests l" "MaxModelRequests l \<le> MaxFetches l" "4096 \<le> MaxAggregateBytes l"
  using assms by (auto simp: limitsValidate_def fetchFrameReserve_def split: if_splits)

lemma writeLoop_errors: "snd (writeLoop ws out v) \<in> {Inr (), Inl ''write failed'', Inl ''short write''}"
  by (induction ws arbitrary: out v) (auto simp: Let_def split: option.split)

text \<open>A model result of a validated connection, exactly: the frame is never too long, since the
  limits reserve room for the largest answer, but the text of the answer may be.\<close>

lemma model_result_sent:
  assumes l: "limitsValidate (wire_limits t) = Inr ()" and i: "validOperationID opID"
    and n: "int (length normalized) \<le> MaxFetchBodyBytes (wire_limits t)"
  defines "message \<equiv> [(''type'', GString ''model_result''), (''id'', GString opID), (''body_base64'', GString (base64 normalized))]"
  shows "int (length (base64 normalized)) > MaxStringBytes (wire_limits t) \<Longrightarrow>
      send message t = (t, Inl ''capsule outbound message exceeds JSON limits'')"
    and "int (length (base64 normalized)) \<le> MaxStringBytes (wire_limits t) \<Longrightarrow>
      (\<exists>e. canonicalJSON (GObject message) = Some e \<and> int (length e) \<le> MaxFrameBytes (wire_limits t) \<and> e \<noteq> [] \<and>
         length e = length (base64 normalized) + length opID + 48 \<and> isOk (parseStrictJSON e (complexityOf (wire_limits t))))"
proof -
  note b = limits_bounds [OF l]
  have plain: "list_all plainByte opID" "list_all plainByte (base64 normalized)" using operation_plain [OF i] base64_plain by auto
  obtain e where e: "canonicalJSON (GObject message) = Some e" "length e = length (base64 normalized) + length opID + 48"
    using model_result_length [OF plain] unfolding message_def by blast
  have len: "length opID \<le> 128" using i by (simp add: validOperationID_def)
  have "int (length (base64 normalized)) \<le> 4 * ((MaxFetchBodyBytes (wire_limits t) + 2) div 3)"
    using n by (simp add: base64_length zdiv_int zdiv_mono1)
  then have frame: "int (length e) \<le> MaxFrameBytes (wire_limits t)" "e \<noteq> []" using e(2) len b(4) by auto
  have ok: "validateWireMessage message = Inr ()" unfolding message_def by (rule model_result_valid [OF i])
  show "int (length (base64 normalized)) > MaxStringBytes (wire_limits t) \<Longrightarrow>
      send message t = (t, Inl ''capsule outbound message exceeds JSON limits'')"
  proof -
    assume long: "int (length (base64 normalized)) > MaxStringBytes (wire_limits t)"
    have "\<not> isOk (parseStrictJSON e (complexityOf (wire_limits t)))"
      using parse_long_member [of "''body_base64''" "base64 normalized" "complexityOf (wire_limits t)"] long e(1)
        model_result_text [OF plain] utf8Valid_plain [OF plain(2)]
      by (auto simp: message_def complexityOf_def)
    then show ?thesis using ok e(1) frame by (simp add: send_def)
  qed
  assume short: "int (length (base64 normalized)) \<le> MaxStringBytes (wire_limits t)"
  let ?sorted = "GObject [(''body_base64'', GString (base64 normalized)), (''id'', GString opID), (''type'', GString ''model_result'')]"
  have "accepted (complexityOf (wire_limits t)) 1 ?sorted" "int (members ?sorted) \<le> maxKeys (complexityOf (wire_limits t))"
    using short b(1-3) len plain [THEN utf8Valid_plain]
    by (simp_all add: accepted_object memberOk_def less_char_def checkScalar_def complexityOf_def)
  then obtain f where f: "canonicalJSON ?sorted = Some f" "parseStrictJSON f (complexityOf (wire_limits t)) = Inr (?sorted, members ?sorted)"
    by (rule parse_canonical)
  have "canonicalJSON ?sorted = canonicalJSON (GObject message)"
    unfolding canonicalJSON_raw message_def by (simp add: less_char_def)
  then show "\<exists>e. canonicalJSON (GObject message) = Some e \<and> int (length e) \<le> MaxFrameBytes (wire_limits t) \<and> e \<noteq> [] \<and>
      length e = length (base64 normalized) + length opID + 48 \<and> isOk (parseStrictJSON e (complexityOf (wire_limits t)))"
    using e f frame by auto
qed



section \<open>Rounds and requests\<close>

lemma sendOrFail_wire: "sendOrFail m s = Continue s' \<Longrightarrow> wireStep (ses_wire s) (ses_wire s')"
  by (auto simp: sendOrFail_def failSession_def split: prod.splits sum.splits intro: wireStep.intros)

lemma onModelRequest_wire: "onModelRequest env l m s = Continue s' \<Longrightarrow> wireStep (ses_wire s) (ses_wire s')"
  by (auto simp: onModelRequest_def Let_def failSession_def dest!: sendOrFail_wire split: prod.splits option.splits if_splits sum.splits)

lemma onToolCall_wire: "onToolCall env l m s = Continue s' \<Longrightarrow> wireStep (ses_wire s) (ses_wire s')"
  by (auto simp: onToolCall_def Let_def failSession_def dest!: sendOrFail_wire split: prod.splits option.splits if_splits sum.splits)

lemma wireStep_cost: "wireStep t t' \<Longrightarrow> wire_aggregate t + 5 \<le> wire_aggregate t' \<and> wire_limits t' = wire_limits t \<and>
    wire_aggregate t' \<le> MaxAggregateBytes (wire_limits t)"
  by (erule wireStep_progress) simp

text \<open>A round that goes on has received a frame and sent one.\<close>

lemma sessionStep_cost:
  assumes "sessionStep env l s s'"
  shows "wire_aggregate (ses_wire s) + 10 \<le> wire_aggregate (ses_wire s')" "wire_limits (ses_wire s') = wire_limits (ses_wire s)"
    "wire_aggregate (ses_wire s') \<le> MaxAggregateBytes (wire_limits (ses_wire s))"
proof -
  obtain w m where r: "receive (ses_wire s) = (w, Inr m)"
    using assms by (auto simp: sessionStep_def sessionRound_def failSession_def split: prod.splits sum.splits if_splits)
  then have first: "wireStep (ses_wire s) w" by (rule wireStep.intros)
  have second: "wireStep w (ses_wire s')"
    using assms r onModelRequest_wire [of env l m "s\<lparr>ses_wire := w\<rparr>" s'] onToolCall_wire [of env l m "s\<lparr>ses_wire := w\<rparr>" s']
    by (auto simp: sessionStep_def sessionRound_def Let_def failSession_def onComplete_def split: if_splits prod.splits sum.splits)
  show "wire_aggregate (ses_wire s) + 10 \<le> wire_aggregate (ses_wire s')" "wire_limits (ses_wire s') = wire_limits (ses_wire s)"
    "wire_aggregate (ses_wire s') \<le> MaxAggregateBytes (wire_limits (ses_wire s))"
    using wireStep_cost [OF first] wireStep_cost [OF second] by auto
qed

lemma rounds_cost:
  assumes "(sessionStep env l ^^ n) s t" "wire_aggregate (ses_wire s) \<le> MaxAggregateBytes (wire_limits (ses_wire s))"
  shows "wire_aggregate (ses_wire s) + 10 * int n \<le> wire_aggregate (ses_wire t) \<and> wire_limits (ses_wire t) = wire_limits (ses_wire s) \<and>
    wire_aggregate (ses_wire t) \<le> MaxAggregateBytes (wire_limits (ses_wire s))"
  using assms
proof (induction n arbitrary: t)
  case (Suc n)
  then obtain u where u: "(sessionStep env l ^^ n) s u" "sessionStep env l u t" by (auto elim: relcomppE)
  then show ?case using Suc.IH [OF u(1) Suc.prems(2)] sessionStep_cost [OF u(2)] by auto
qed simp

lemma exchangeFrom_count:
  "exchangeFrom p body n left = (n', r) \<Longrightarrow> n < n' \<and> n' \<le> n + left + 1"
proof (induction left arbitrary: n)
  case (Suc left)
  show ?case using Suc.prems Suc.IH [of "n + 1"]
    by (fastforce split: sum.splits exchangeError.splits bool.splits if_splits)
qed simp

lemma exchange_count: "exchange p maxRetries body n = (n', r) \<Longrightarrow> 0 \<le> maxRetries \<Longrightarrow> n \<le> n' \<and> int n' \<le> int n + maxRetries + 1"
  by (auto simp: exchange_def dest!: exchangeFrom_count)

primrec roundState :: "round \<Rightarrow> session" where
  "roundState (Continue s) = s"
| "roundState (Return s r) = s"

text \<open>A round makes no request, or one exchange for a model request that the limits allow.\<close>

definition requestStep :: "sessionLimits \<Rightarrow> session \<Rightarrow> session \<Rightarrow> bool" where
  "requestStep l s s' \<longleftrightarrow> ses_requests s' = ses_requests s \<and> ses_modelRequests s \<le> ses_modelRequests s' \<or>
     int (ses_requests s') \<le> int (ses_requests s) + sl_MaxRetries l + 1 \<and> ses_modelRequests s' = ses_modelRequests s + 1 \<and>
     ses_modelRequests s' \<le> MaxModelRequests (sl_Limits l)"

lemma roundState_simps [simp]:
  "ses_requests (roundState (failSession s)) = ses_requests s" "ses_modelRequests (roundState (failSession s)) = ses_modelRequests s"
  "ses_requests (roundState (sendOrFail m s)) = ses_requests s" "ses_modelRequests (roundState (sendOrFail m s)) = ses_modelRequests s"
  by (simp_all add: failSession_def sendOrFail_def split: prod.split sum.split)

lemma onModelRequest_requests: "0 \<le> sl_MaxRetries l \<Longrightarrow> requestStep l s (roundState (onModelRequest env l m s))"
  by (auto simp: onModelRequest_def Let_def requestStep_def dest!: exchange_count split: prod.split option.split if_split sum.split)

lemma onToolCall_requests: "requestStep l s (roundState (onToolCall env l m s))"
  by (auto simp: onToolCall_def Let_def requestStep_def split: prod.split option.split if_split sum.split)

lemma onComplete_requests: "requestStep l s (roundState (onComplete env m s))"
  by (auto simp: onComplete_def requestStep_def split: prod.split if_split sum.split)

lemma sessionRound_requests:
  assumes "0 \<le> sl_MaxRetries l"
  shows "requestStep l s (roundState (sessionRound env l s))"
proof -
  obtain w r where r: "receive (ses_wire s) = (w, r)" by fastforce
  let ?s = "s\<lparr>ses_wire := w\<rparr>"
  have wire: "requestStep l s = requestStep l ?s" by (rule ext) (simp add: requestStep_def)
  have "requestStep l ?s (roundState (failSession ?s))" "requestStep l ?s ?s" by (simp_all add: requestStep_def)
  then show ?thesis
    unfolding wire using onModelRequest_requests [OF assms] onToolCall_requests onComplete_requests
    by (cases r) (simp_all add: sessionRound_def r Let_def)
qed

lemma loop_requests:
  assumes "0 \<le> sl_MaxRetries l" "sessionInv cf l s" "int (ses_requests s) \<le> (sl_MaxRetries l + 1) * ses_modelRequests s"
  shows "int (ses_requests (fst (sessionLoop env l s))) \<le> (sl_MaxRetries l + 1) * MaxModelRequests (sl_Limits l)"
  using assms
proof (induction env l s rule: sessionLoop.induct)
  case (1 env l s)
  let ?R = "sl_MaxRetries l + 1"
  have max: "ses_modelRequests s \<le> MaxModelRequests (sl_Limits l)" using 1(3) by (simp add: sessionInv_def)
  note step = sessionRound_requests [OF 1(2), of s env]
  have bound: "int (ses_requests s') \<le> ?R * MaxModelRequests (sl_Limits l) \<and> int (ses_requests s') \<le> ?R * ses_modelRequests s'"
    if "s' = roundState (sessionRound env l s)" for s'
  proof -
    have mono: "a \<le> b \<Longrightarrow> ?R * a \<le> ?R * b" for a b using 1(2) by (intro mult_left_mono) auto
    from step [folded that] show ?thesis unfolding requestStep_def
    proof (elim disjE conjE)
      assume "ses_requests s' = ses_requests s" "ses_modelRequests s \<le> ses_modelRequests s'"
      then show ?thesis using 1(4) mono [OF max] mono [of "ses_modelRequests s" "ses_modelRequests s'"] by linarith
    next
      assume q: "int (ses_requests s') \<le> int (ses_requests s) + sl_MaxRetries l + 1" "ses_modelRequests s' = ses_modelRequests s + 1"
        "ses_modelRequests s' \<le> MaxModelRequests (sl_Limits l)"
      have "?R * ses_modelRequests s' = ?R * ses_modelRequests s + ?R" by (simp add: q(2) algebra_simps)
      then show ?thesis using q(1) 1(4) mono [OF q(3)] by linarith
    qed
  qed
  show ?case
  proof (cases "sessionRound env l s")
    case (Continue s')
    then have "sessionInv cf l s'" using sessionRound_ok [OF 1(3), of env] by simp
    then show ?thesis using 1(1) [OF Continue 1(2)] bound [of s'] Continue by (simp add: sessionLoop.simps [of env l s])
  next
    case (Return s' r)
    then show ?thesis using bound [of s'] by (simp add: sessionLoop.simps [of env l s])
  qed
qed

end
