(* ===== verification/SessionExample.thy ===== *)
theory SessionExample
  imports SessionBounds Evaluation
begin

text \<open>
  A whole session on concrete bytes: the capsule asks for a model request, the provider calls a
  granted tool, the capsule passes the call on and gets the result, asks again, and the provider
  submits a result which the capsule completes with.
\<close>

section \<open>The connection\<close>

text \<open>A connection under the default limits on which some bytes are still to come, at most so much of
  the budget is used, and the next writes succeed.\<close>

definition wireAt :: "wire \<Rightarrow> string \<Rightarrow> int \<Rightarrow> nat \<Rightarrow> bool" where
  "wireAt w bytes used k \<longleftrightarrow> wire_limits w = DefaultLimits \<and> inbound (wire_connection w) = bytes \<and>
     wire_aggregate w \<le> used \<and> writes (wire_connection w) = replicate k (Some 2000000)"

definition frame :: "string \<Rightarrow> string" where
  "frame e = PutUint32 (of_nat (length e)) @ e"

lemma default_values: "MaxFrameBytes DefaultLimits = 2097152" "MaxAggregateBytes DefaultLimits = 16777216"
  by (simp_all add: DefaultLimits_def)

lemma receive_frame:
  assumes "wireAt w (frame e @ bytes) used k" "parseStrictJSON e (complexityOf DefaultLimits) = Inr (GObject m, n)"
    "validateWireMessage m = Inr ()" "e \<noteq> []" "length e \<le> 1000" "used \<le> 10000000"
  obtains w' where "receive w = (w', Inr m)" "wireAt w' bytes (used + 1004) k"
proof -
  have w: "wire_limits w = DefaultLimits" "inbound (wire_connection w) = PutUint32 (of_nat (length e)) @ e @ bytes"
      "wire_aggregate w \<le> used" "writes (wire_connection w) = replicate k (Some 2000000)"
    using assms(1) by (simp_all add: wireAt_def frame_def)
  have size: "Uint32 (PutUint32 (of_nat (length e))) = length e"
    using assms(5) by (simp add: Uint32_PutUint32 unat_of_nat take_bit_nat_eq_self_iff)
  have "0 < length e" using assms(4) by simp
  let ?w = "w\<lparr>wire_aggregate := wire_aggregate w + int (length e) + 4, wire_connection := (wire_connection w)\<lparr>inbound := bytes\<rparr>\<rparr>"
  have "receive w = (?w, Inr m)"
    using assms(2,3,5,6) w size \<open>0 < length e\<close> by (simp add: receive_def ReadFull_def Let_def default_values)
  moreover have "wireAt ?w bytes (used + 1004) k" using w assms(5) by (simp add: wireAt_def)
  ultimately show thesis by (rule that)
qed

lemma send_frame:
  assumes "wireAt w bytes used (Suc k)" "canonicalJSON (GObject m) = Some e" "isOk (parseStrictJSON e (complexityOf DefaultLimits))"
    "validateWireMessage m = Inr ()" "e \<noteq> []" "length e \<le> 1500000" "used \<le> 10000000"
  obtains w' where "send m w = (w', Inr ())" "wireAt w' bytes (used + 1500004) k"
proof -
  have w: "wire_limits w = DefaultLimits" "inbound (wire_connection w) = bytes"
      "wire_aggregate w \<le> used" "writes (wire_connection w) = Some 2000000 # replicate k (Some 2000000)"
    using assms(1) by (simp_all add: wireAt_def)
  let ?f = "PutUint32 (of_nat (length e)) @ e"
  let ?c = "(wire_connection w)\<lparr>outbound := outbound (wire_connection w) @ ?f, writes := replicate k (Some 2000000)\<rparr>"
  have empty: "writeLoop ws out [] = ((ws, out), Inr ())" for ws out by (cases ws) simp_all
  have "length ?f \<le> 2000000" "?f \<noteq> []" using assms(5,6) by simp_all
  then have "writeFull (wire_connection w) ?f = (?c, Inr ())"
    using assms(5) unfolding writeFull_def w(4) by (simp add: Let_def empty min_absorb2)
  then have "send m w = (w\<lparr>wire_aggregate := wire_aggregate w + int (length e) + 4, wire_connection := ?c\<rparr>, Inr ())"
    using assms(2-7) w(1,3) by (simp add: send_def Let_def default_values)
  moreover have "wireAt (w\<lparr>wire_aggregate := wire_aggregate w + int (length e) + 4, wire_connection := ?c\<rparr>) bytes (used + 1500004) k"
    using w assms(6) by (simp add: wireAt_def)
  ultimately show thesis by (rule that)
qed

lemma send_answer:
  assumes "wireAt w bytes used (Suc k)" "validOperationID opID" "length normalized \<le> 700000" "used \<le> 10000000"
  obtains w' where "send [(''type'', GString ''model_result''), (''id'', GString opID), (''body_base64'', GString (base64 normalized))] w = (w', Inr ())"
    "wireAt w' bytes (used + 1500004) k"
proof -
  have l: "wire_limits w = DefaultLimits" using assms(1) by (simp add: wireAt_def)
  have len: "length (base64 normalized) \<le> 1000000" using assms(3) by (simp add: base64_length)
  have "limitsValidate (wire_limits w) = Inr ()" "int (length normalized) \<le> MaxFetchBodyBytes (wire_limits w)"
      "int (length (base64 normalized)) \<le> MaxStringBytes (wire_limits w)"
    unfolding l using assms(3) len by (simp_all add: DefaultLimits_valid, simp_all add: DefaultLimits_def)
  then obtain e where e: "canonicalJSON (GObject [(''type'', GString ''model_result''), (''id'', GString opID), (''body_base64'', GString (base64 normalized))]) = Some e"
      "e \<noteq> []" "length e = length (base64 normalized) + length opID + 48" "isOk (parseStrictJSON e (complexityOf DefaultLimits))"
    using model_result_sent(2) [of w opID normalized] assms(2) l by auto
  have "length e \<le> 1500000" using e(3) len assms(2) by (simp add: validOperationID_def)
  from send_frame [OF assms(1) e(1,4) model_result_valid [OF assms(2)] e(2) this assms(4)] show thesis using that by blast
qed

section \<open>The conversation\<close>

text \<open>Quotes and line ends in the texts below are written as tildes and carets.\<close>

definition plain :: "string \<Rightarrow> string" where
  "plain s = map (\<lambda>c. if c = CHR ''~'' then CHR 0x22 else if c = CHR ''^'' then CHR 0x0A else c) s"

definition callText :: "string \<Rightarrow> string" where
  "callText name = plain (''data:{~choices~:[{~index~:0,~delta~:{~tool_calls~:[{~index~:0,~id~:~c~,~function~:{~name~:~'' @ name @
     ''~,~arguments~:~{}~}}]},~finish_reason~:~tool_calls~}]}^^data:{~choices~:[],~usage~:{~prompt_tokens~:7,~completion_tokens~:2,~total_tokens~:9}}^^data:[DONE]^^'')"

definition demoSchema :: compiledSchema where
  "demoSchema = CompiledSchema [''object''] [] [] True None None None None None None None None [] None"

definition demoResponseLimits :: ResponseLimits where
  "demoResponseLimits = \<lparr>rl_MaxBytes = 700000, rl_MaxEvents = 10000, rl_MaxLineBytes = 1048576, rl_MaxDepth = 32,
     rl_MaxStringBytes = 1048576, rl_MaxKeys = 50000\<rparr>"

definition demoParameters :: gval where
  "demoParameters = GObject [(''type'', GString ''object'')]"

definition demoTool :: Tool where
  "demoTool = \<lparr>tool_Name = ''look'', tool_Description = ''d'', tool_Parameters = demoParameters, tool_hasHandler = True\<rparr>"

definition demoPrompt :: "gval list" where
  "demoPrompt = [GObject [(''role'', GString ''system''), (''content'', GString ''s'')],
     GObject [(''role'', GString ''user''), (''content'', GString ''p'')]]"

definition demoAttempt :: OpenAIAttempt where
  "demoAttempt = \<lparr>att_State = ReadyModel, att_Usage = noUsage, att_modelID = ''m'', att_samplingOptions = [],
     att_reasoningOptions = [], att_contextWindow = 100000, att_maxOutputTokens = 1000, att_maxModelRequests = 16,
     att_responseLimits = demoResponseLimits, att_messages = demoPrompt, att_tools = [demoTool], att_outputSchema = demoParameters,
     att_validators = grantedValidators [(demoTool, demoSchema)] demoSchema, att_outputValidator = demoSchema,
     att_pending = None, att_nextTurn = 1, att_currentTurn = 0\<rparr>"

lemma demo_compiled: "compileSchema (\<lambda>_. None) demoParameters = Some demoSchema"
proof -
  have "normalizeJSONObject demoParameters 1048576 \<lparr>maxDepth = 64, maxStringBytes = 1048576, maxKeys = 100000\<rparr> = Some demoParameters"
    by code_simp
  then show ?thesis
    by (simp add: compileSchema_def compileSchemaObject.simps)
      (simp add: demoParameters_def demoSchema_def assemble_def keywordsOk_def formatOk_def allowedKeywords_def
        compileTypes_def compileRequired_def compileAdditional_def compileCount_def compileBound_def compilePattern_def
        compileEnum_def stringOf_def validJSONType_def)
qed

lemma demo_created:
  "NewOpenAIAttempt (\<lambda>_. None) ''m'' ''s'' ''p'' [demoTool] demoParameters (GObject []) (GObject []) 100000 1000 16 demoResponseLimits =
    Inr demoAttempt"
proof -
  have "validateSamplingOptions (GObject []) = Some []"
    "normalizeJSONObject (GObject []) (rl_MaxBytes demoResponseLimits) (responseComplexity demoResponseLimits) = Some (GObject [])"
    "normalizeJSONObject demoParameters (rl_MaxBytes demoResponseLimits) (responseComplexity demoResponseLimits) = Some demoParameters"
    "validToolName ''look''" by code_simp+
  then show ?thesis using demo_compiled
    by (simp add: NewOpenAIAttempt_def demoAttempt_def demoPrompt_def demoTool_def submitResult_def)
qed

definition demoCall :: "string \<Rightarrow> PendingToolCall" where
  "demoCall name = \<lparr>CallID = ''c'', call_Name = name, call_Arguments = GObject []\<rparr>"

definition demoMessage :: "string \<Rightarrow> (string \<times> gval) list" where
  "demoMessage name = [(''role'', GString ''assistant''), (''content'', GNull), (''tool_calls'', GArray [GObject
     [(''id'', GString ''c''), (''type'', GString ''function''), (''function'', GObject [(''name'', GString name),
      (''arguments'', GString ''{}'')])]])]"

definition answersCall :: "string \<Rightarrow> bool" where
  "answersCall name = (case ParseOpenAISSE (callText name) ''m'' (att_validators demoAttempt) demoResponseLimits of
     Inl _ \<Rightarrow> False
   | Inr r \<Rightarrow> acc_Pending r = Some (demoCall name) \<and> AssistantMessage r = demoMessage name)"

lemma demo_answers: "answersCall ''look''" "answersCall ''submit_result''"
  by code_simp+

section \<open>The messages of the capsule\<close>

definition askText :: "string \<Rightarrow> string \<Rightarrow> string" where
  "askText i turn = plain (''{~id~:~'' @ i @ ''~,~turn~:'' @ turn @ '',~type~:~model_request~}'')"

definition ask :: "string \<Rightarrow> string \<Rightarrow> (string \<times> gval) list" where
  "ask i turn = [(''id'', GString i), (''turn'', GNumber turn), (''type'', GString ''model_request'')]"

definition toolCallText :: string where
  "toolCallText = plain ''{~arguments~:{},~id~:~b~,~name~:~look~,~provider_call_id~:~c~,~type~:~tool_call~}''"

definition toolCall :: "(string \<times> gval) list" where
  "toolCall = [(''arguments'', GObject []), (''id'', GString ''b''), (''name'', GString ''look''), (''provider_call_id'', GString ''c''),
     (''type'', GString ''tool_call'')]"

definition completeText :: string where
  "completeText = plain ''{~output~:{},~type~:~complete~}''"

definition complete :: "(string \<times> gval) list" where
  "complete = [(''output'', GObject []), (''type'', GString ''complete'')]"

lemma demo_parsed:
  "parseStrictJSON (askText ''a'' ''1'') (complexityOf DefaultLimits) = Inr (GObject (ask ''a'' ''1''), 3)"
  "parseStrictJSON (askText ''d'' ''2'') (complexityOf DefaultLimits) = Inr (GObject (ask ''d'' ''2''), 3)"
  "parseStrictJSON toolCallText (complexityOf DefaultLimits) = Inr (GObject toolCall, 5)"
  "parseStrictJSON completeText (complexityOf DefaultLimits) = Inr (GObject complete, 2)"
  by code_simp+

lemma demo_valid:
  "validateWireMessage (ask ''a'' ''1'') = Inr ()" "validateWireMessage (ask ''d'' ''2'') = Inr ()"
  "validateWireMessage toolCall = Inr ()" "validateWireMessage complete = Inr ()"
  by code_simp+

lemma demo_lengths:
  "length (askText i turn) = length i + length turn + 40" "askText i turn \<noteq> []" "length toolCallText \<le> 1000" "toolCallText \<noteq> []"
  "length completeText \<le> 1000" "completeText \<noteq> []"
  by (simp_all add: askText_def toolCallText_def completeText_def plain_def)

definition toolResult :: "(string \<times> gval) list" where
  "toolResult = [(''type'', GString ''tool_result''), (''id'', GString ''b''), (''result'', GBool True), (''content'', GString ''true'')]"

lemma toolResult_sent:
  "validateWireMessage toolResult = Inr ()"
  "canonicalJSON (GObject toolResult) = Some (plain ''{~content~:~true~,~id~:~b~,~result~:true,~type~:~tool_result~}'')"
  "isOk (parseStrictJSON (plain ''{~content~:~true~,~id~:~b~,~result~:true,~type~:~tool_result~}'') (complexityOf DefaultLimits))"
  by code_simp+

lemma demo_numbers: "jsonInteger (GNumber ''1'') = Some 1" "jsonInteger (GNumber ''2'') = Some 2" "eventStream ''text/event-stream''"
  by code_simp+

section \<open>The states of the attempt\<close>

definition begun :: "int \<Rightarrow> OpenAIAttempt \<Rightarrow> OpenAIAttempt" where
  "begun turn a = a\<lparr>att_State := ModelInFlight, att_currentTurn := turn, att_nextTurn := turn + 1\<rparr>"

lemma BeginModel_begun:
  assumes "requestFits (begun turn a) (modelRequest (begun turn a) turn (att_messages a))" "att_State a = ReadyModel"
    "turn = att_nextTurn a" "turn \<le> att_maxModelRequests a"
  obtains body where "BeginModel turn a = (begun turn a, Inr body)"
  using assms that by (simp add: BeginModel_def begun_def Let_def)

definition called :: "string \<Rightarrow> OpenAIAttempt \<Rightarrow> OpenAIAttempt" where
  "called name a = a\<lparr>att_messages := att_messages a @ [GObject (demoMessage name)], att_pending := Some (demoCall name),
     att_State := (if name = submitResult then AwaitComplete else AwaitTool)\<rparr>"

lemma AcceptModel_called:
  assumes "answersCall name" "att_State a = ModelInFlight" "att_modelID a = ''m''" "att_validators a = att_validators demoAttempt"
    "att_responseLimits a = demoResponseLimits" "\<not> (att_currentTurn a = att_maxModelRequests a \<and> name \<noteq> submitResult)"
  obtains u normalized where "AcceptModel (callText name) a = (called name (a\<lparr>att_Usage := u\<rparr>), Inr normalized)" "length normalized \<le> 700000"
proof -
  obtain r where r: "ParseOpenAISSE (callText name) ''m'' (att_validators demoAttempt) demoResponseLimits = Inr r"
      "acc_Pending r = Some (demoCall name)" "AssistantMessage r = demoMessage name"
    using assms(1) by (auto simp: answersCall_def split: sum.splits)
  have "int (length (NormalizedSSE r)) \<le> 700000" using accepted_response(1) [OF r(1)] by (simp add: demoResponseLimits_def)
  moreover have "AcceptModel (callText name) a = (called name (a\<lparr>att_Usage := usageAdd (att_Usage a) (acc_Usage r)\<rparr>), Inr (NormalizedSSE r))"
    using assms(2-6) r by (simp add: AcceptModel_def called_def Let_def demoCall_def)
  ultimately show thesis by (intro that) simp_all
qed

text \<open>Whether a request fits depends on the settings of the attempt only.\<close>

definition sameSettings :: "OpenAIAttempt \<Rightarrow> bool" where
  "sameSettings a \<longleftrightarrow> att_modelID a = ''m'' \<and> att_samplingOptions a = [] \<and> att_reasoningOptions a = [] \<and> att_contextWindow a = 100000 \<and>
     att_maxOutputTokens a = 1000 \<and> att_maxModelRequests a = 16 \<and> att_responseLimits a = demoResponseLimits \<and> att_tools a = [demoTool] \<and>
     att_outputSchema a = demoParameters \<and> att_validators a = att_validators demoAttempt \<and> att_outputValidator a = demoSchema"

lemma sameSettings_states [simp]:
  "sameSettings demoAttempt" "sameSettings (begun turn a) = sameSettings a" "sameSettings (called name a) = sameSettings a"
  "sameSettings (a\<lparr>att_Usage := u\<rparr>) = sameSettings a" "sameSettings (resumeModel content call a) = sameSettings a"
  by (simp_all add: sameSettings_def demoAttempt_def begun_def called_def resumeModel_def)

definition fitsDemo :: "int \<Rightarrow> gval list \<Rightarrow> bool" where
  "fitsDemo turn messages = requestFits demoAttempt (modelRequest demoAttempt turn messages)"

lemma fitsDemo_settings: "sameSettings a \<Longrightarrow> requestFits a (modelRequest a turn messages) = fitsDemo turn messages"
  by (simp add: fitsDemo_def sameSettings_def requestFits_def modelRequest_def requestBody_def demoAttempt_def split: option.split)

definition demoTranscript :: "gval list" where
  "demoTranscript = demoPrompt @ [GObject (demoMessage ''look''), toolMessage (demoCall ''look'') ''true'']"

lemma demo_fits: "fitsDemo 1 demoPrompt" "fitsDemo 2 demoTranscript"
  by code_simp+

lemma AcceptToolResult_true:
  assumes "sameSettings a" "att_messages a = demoPrompt @ [GObject (demoMessage ''look'')]" "att_pending a = Some (demoCall ''look'')"
    "att_State a = AwaitTool" "att_nextTurn a = 2"
  shows "AcceptToolResult (GBool True) a = (resumeModel ''true'' (demoCall ''look'') a, Inr (''true'', GBool True))"
proof -
  have "cloneJSON (GBool True) (responseComplexity demoResponseLimits) = Some (GBool True)" "canonicalJSON (GBool True) = Some ''true''"
    by code_simp+
  moreover have "att_responseLimits a = demoResponseLimits" using assms(1) by (simp add: sameSettings_def)
  moreover have "transcriptFits a (att_messages a @ [toolMessage (demoCall ''look'') ''true''])"
    using fitsDemo_settings [OF assms(1)] demo_fits(2) assms(2,5) by (simp add: transcriptFits_def demoTranscript_def)
  ultimately show ?thesis using assms by (simp add: AcceptToolResult_def)
qed

lemma sameJSON_empty: "sameJSON (GObject []) (GObject [])" "valid demoSchema (GObject [])"
  by code_simp+

section \<open>The session\<close>

definition exampleEnv :: environment where
  "exampleEnv = \<lparr>env_provider = \<lparr>provider_answer = (\<lambda>n _. Inr \<lparr>resp_Status = 200, resp_ContentType = ''text/event-stream'',
       resp_Headers = [], resp_Body = callText (if n = 0 then ''look'' else ''submit_result'')\<rparr>), provider_pause = (\<lambda>_ _. True)\<rparr>,
     env_handle = (\<lambda>_ _ _. Inr (GBool True)), env_peerCloses = True, env_ctxDone = False\<rparr>"

definition exampleLimits :: sessionLimits where
  "exampleLimits = \<lparr>sl_tools = [''look''], sl_MaxRetries = 2, sl_Limits = DefaultLimits\<rparr>"

definition sessionAt :: "wire \<Rightarrow> OpenAIAttempt \<Rightarrow> string list \<Rightarrow> int \<Rightarrow> nat \<Rightarrow> sessionEvent list \<Rightarrow> session" where
  "sessionAt w a seen f n tr = \<lparr>ses_wire = w, ses_attempt = a, ses_seenIDs = seen, ses_fetches = f, ses_modelRequests = f,
     ses_requests = n, ses_trace = tr\<rparr>"

lemma exampleExchange:
  "exchange (env_provider exampleEnv) (sl_MaxRetries exampleLimits) body n = (Suc n, Inr \<lparr>resp_Status = 200,
     resp_ContentType = ''text/event-stream'', resp_Headers = [], resp_Body = callText (if n = 0 then ''look'' else ''submit_result'')\<rparr>)"
  by (simp add: exchange_def exampleEnv_def exampleLimits_def numeral_2_eq_2)

lemma round_ask:
  assumes wire: "wireAt w (frame (askText i t) @ bytes) used (Suc k)" "used \<le> 8000000"
    and message: "parseStrictJSON (askText i t) (complexityOf DefaultLimits) = Inr (GObject (ask i t), m)"
      "validateWireMessage (ask i t) = Inr ()" "jsonInteger (GNumber t) = Some turn" "validOperationID i" "i \<notin> set seen"
      "length i + length t \<le> 100"
    and attempt: "sameSettings a" "att_State a = ReadyModel" "turn = att_nextTurn a" "1 \<le> turn" "turn \<le> 2" "fitsDemo turn (att_messages a)"
    and name: "name = (if n = 0 then ''look'' else ''submit_result'')" "answersCall name" "\<not> (turn = 16 \<and> name \<noteq> submitResult)" "f + 1 \<le> 16"
  obtains w' u where "sessionRound exampleEnv exampleLimits (sessionAt w a seen f n tr) =
      Continue (sessionAt w' (called name ((begun turn a)\<lparr>att_Usage := u\<rparr>)) (i # seen) (f + 1) (Suc n) (tr @ [ModelAnswered (callText name)]))"
    "wireAt w' bytes (used + 2000000) k"
proof -
  have "length (askText i t) \<le> 1000" "askText i t \<noteq> []" using message(6) demo_lengths(1,2) by simp_all
  with wire message(1,2) obtain w1 where w1: "receive w = (w1, Inr (ask i t))" "wireAt w1 bytes (used + 1004) (Suc k)"
    using receive_frame [of w "askText i t" bytes used "Suc k" "ask i t" m] by auto
  obtain body where body: "BeginModel turn a = (begun turn a, Inr body)"
    by (rule BeginModel_begun [of turn a])
      (use attempt fitsDemo_settings [of "begun turn a"] in \<open>simp_all add: sameSettings_def [of a]\<close>)
  have "att_State (begun turn a) = ModelInFlight" "att_currentTurn (begun turn a) = turn" by (simp_all add: begun_def)
  moreover have "sameSettings (begun turn a)" using attempt(1) by simp
  ultimately obtain u normalized where u: "AcceptModel (callText name) (begun turn a) = (called name ((begun turn a)\<lparr>att_Usage := u\<rparr>), Inr normalized)"
      "length normalized \<le> 700000"
    using AcceptModel_called [OF name(2), of "begun turn a"] name(3) unfolding sameSettings_def by metis
  obtain w2 where w2: "send [(''type'', GString ''model_result''), (''id'', GString i), (''body_base64'', GString (base64 normalized))] w1 = (w2, Inr ())"
      "wireAt w2 bytes (used + 1004 + 1500004) k"
    using send_answer [OF w1(2) message(4) u(2)] wire(2) by auto
  have limits: "MaxFetches (sl_Limits exampleLimits) = 64" "MaxModelRequests (sl_Limits exampleLimits) = 16"
    by (simp_all add: exampleLimits_def DefaultLimits_def)
  have round: "sessionRound exampleEnv exampleLimits (sessionAt w a seen f n tr) =
      Continue (sessionAt w2 (called name ((begun turn a)\<lparr>att_Usage := u\<rparr>)) (i # seen) (f + 1) (Suc n) (tr @ [ModelAnswered (callText name)]))"
    using w1(1) body u(1) w2(1) message(3-5) attempt(4) name(1,4) demo_numbers(3)
    by (simp add: sessionRound_def sessionAt_def Let_def ask_def entry_def onModelRequest_def uniqueID_def limits exampleExchange sendOrFail_def)
  have "wireAt w2 bytes (used + 2000000) k" using w2(2) by (simp add: wireAt_def)
  with round show thesis by (rule that)
qed

lemma round_tool:
  assumes wire: "wireAt w (frame toolCallText @ bytes) used (Suc k)" "used \<le> 8000000"
    and attempt: "sameSettings a" "att_messages a = demoPrompt @ [GObject (demoMessage ''look'')]" "att_pending a = Some (demoCall ''look'')"
      "att_State a = AwaitTool" "att_nextTurn a = 2" and seen: "''b'' \<notin> set seen"
  obtains w' where "sessionRound exampleEnv exampleLimits (sessionAt w a seen f n tr) =
      Continue (sessionAt w' (resumeModel ''true'' (demoCall ''look'') a) (''b'' # seen) f n (tr @ [ToolHandled ''look'' (GObject [])]))"
    "wireAt w' bytes (used + 2000000) k"
proof -
  obtain w1 where w1: "receive w = (w1, Inr toolCall)" "wireAt w1 bytes (used + 1004) (Suc k)"
    using receive_frame [OF wire(1) demo_parsed(3) demo_valid(3) demo_lengths(4,3)] wire(2) by auto
  obtain w2 where w2: "send toolResult w1 = (w2, Inr ())" "wireAt w2 bytes (used + 1004 + 1500004) k"
    using send_frame [OF w1(2) toolResult_sent(2,3,1)] wire(2) by (auto simp: plain_def)
  have id: "validOperationID ''b''" by (simp add: validOperationID_def operationChar_def)
  have "sessionRound exampleEnv exampleLimits (sessionAt w a seen f n tr) =
      Continue (sessionAt w2 (resumeModel ''true'' (demoCall ''look'') a) (''b'' # seen) f n (tr @ [ToolHandled ''look'' (GObject [])]))"
    using w1(1) w2(1) id seen AcceptToolResult_true [OF attempt] attempt sameJSON_empty(1)
    by (simp add: sessionRound_def sessionAt_def Let_def toolCall_def toolResult_def entry_def onToolCall_def uniqueID_def exampleLimits_def
        ValidateToolCall_def exampleEnv_def sendOrFail_def demoCall_def)
  moreover have "wireAt w2 bytes (used + 2000000) k" using w2(2) by (simp add: wireAt_def)
  ultimately show thesis by (rule that)
qed

lemma round_complete:
  assumes wire: "wireAt w (frame completeText) used k" "used \<le> 8000000"
    and attempt: "sameSettings a" "att_pending a = Some (demoCall submitResult)" "att_State a = AwaitComplete"
  obtains s' where "sessionRound exampleEnv exampleLimits (sessionAt w a seen f n tr) = Return s' (Inr (GObject []))" "ses_trace s' = tr"
proof -
  obtain w1 where w1: "receive w = (w1, Inr complete)" "wireAt w1 [] (used + 1004) k"
    using receive_frame [OF _ demo_parsed(4) demo_valid(4) demo_lengths(6,5), of w "[]" used k] wire by auto
  have "att_outputValidator a = demoSchema" using attempt(1) by (simp add: sameSettings_def)
  then have "sessionRound exampleEnv exampleLimits (sessionAt w a seen f n tr) =
      Return (sessionAt w1 (a\<lparr>att_pending := None, att_State := Terminal\<rparr>) seen f n tr) (Inr (GObject []))"
    using w1 attempt sameJSON_empty
    by (simp add: sessionRound_def sessionAt_def Let_def complete_def entry_def onComplete_def AcceptComplete_def demoCall_def
        exampleEnv_def wireAt_def)
  then show thesis by (rule that) (simp add: sessionAt_def)
qed

definition exampleWire :: wire where
  "exampleWire = newWire \<lparr>inbound = frame (askText ''a'' ''1'') @ frame toolCallText @ frame (askText ''d'' ''2'') @ frame completeText,
     outbound = [], writes = replicate 3 (Some 2000000)\<rparr> DefaultLimits"

definition exampleSession :: session where
  "exampleSession = newSession exampleWire demoAttempt"

text \<open>The attempt after the first answer, after the result of the tool, and after the second answer.\<close>

definition asked :: "Usage \<Rightarrow> OpenAIAttempt" where
  "asked u = called ''look'' ((begun 1 demoAttempt)\<lparr>att_Usage := u\<rparr>)"

definition resumed :: "Usage \<Rightarrow> OpenAIAttempt" where
  "resumed u = resumeModel ''true'' (demoCall ''look'') (asked u)"

definition submitted :: "Usage \<Rightarrow> Usage \<Rightarrow> OpenAIAttempt" where
  "submitted u v = called submitResult ((begun 2 (resumed u))\<lparr>att_Usage := v\<rparr>)"

lemma attempt_settings: "sameSettings (asked u)" "sameSettings (resumed u)" "sameSettings (submitted u v)"
  by (simp_all add: asked_def resumed_def submitted_def)

lemma attempt_states:
  "att_State demoAttempt = ReadyModel" "att_nextTurn demoAttempt = 1" "att_messages demoAttempt = demoPrompt"
  "att_messages (asked u) = demoPrompt @ [GObject (demoMessage ''look'')]" "att_pending (asked u) = Some (demoCall ''look'')"
  "att_State (asked u) = AwaitTool" "att_nextTurn (asked u) = 2"
  "att_State (resumed u) = ReadyModel" "att_nextTurn (resumed u) = 2" "att_messages (resumed u) = demoTranscript"
  "att_pending (submitted u v) = Some (demoCall submitResult)" "att_State (submitted u v) = AwaitComplete"
  by (simp_all add: asked_def resumed_def submitted_def demoAttempt_def begun_def called_def submitResult_def resumeModel_def demoTranscript_def)

lemma example_first:
  obtains w u where "sessionRound exampleEnv exampleLimits exampleSession =
      Continue (sessionAt w (asked u) [''a''] 1 1 [ModelAnswered (callText ''look'')])"
    "wireAt w (frame toolCallText @ frame (askText ''d'' ''2'') @ frame completeText) 2000000 (Suc 1)"
proof (rule round_ask [of exampleWire "''a''" "''1''" "frame toolCallText @ frame (askText ''d'' ''2'') @ frame completeText" 0 "Suc 1" 3 1
      "[]" demoAttempt "''look''" 0 0 "[]"], goal_cases)
  case 1
  then show ?case by (simp add: wireAt_def exampleWire_def newWire_def numeral_3_eq_3)
qed (use that demo_parsed(1) demo_valid(1) demo_numbers(1) attempt_states(1-3) demo_fits(1) demo_answers(1) in
    \<open>simp_all add: asked_def exampleSession_def newSession_def sessionAt_def validOperationID_def operationChar_def\<close>)

lemma example_third:
  assumes "wireAt w (frame (askText ''d'' ''2'') @ frame completeText) 4000000 (Suc 0)"
  obtains w' v where "sessionRound exampleEnv exampleLimits (sessionAt w (resumed u) [''b'', ''a''] 1 1 tr) =
      Continue (sessionAt w' (submitted u v) [''d'', ''b'', ''a''] 2 2 (tr @ [ModelAnswered (callText ''submit_result'')]))"
    "wireAt w' (frame completeText) 6000000 0"
proof (rule round_ask [of w "''d''" "''2''" "frame completeText" 4000000 0 3 2 "[''b'', ''a'']" "resumed u" "''submit_result''" 1 1 tr])
qed (use that assms demo_parsed(2) demo_valid(2) demo_numbers(2) attempt_states(8-10) attempt_settings(2) demo_fits(2) demo_answers(2) in
    \<open>simp_all add: submitted_def validOperationID_def operationChar_def submitResult_def numeral_2_eq_2\<close>)

text \<open>The session runs to its end and returns the submission, having handled the one call.\<close>

lemma example_run:
  "\<exists>s'. sessionLoop exampleEnv exampleLimits exampleSession = (s', Inr (GObject [])) \<and>
     ses_trace s' = [ModelAnswered (callText ''look''), ToolHandled ''look'' (GObject []), ModelAnswered (callText ''submit_result'')]"
proof -
  obtain w1 u where r1: "sessionRound exampleEnv exampleLimits exampleSession =
        Continue (sessionAt w1 (asked u) [''a''] 1 1 [ModelAnswered (callText ''look'')])"
      "wireAt w1 (frame toolCallText @ frame (askText ''d'' ''2'') @ frame completeText) 2000000 (Suc 1)"
    by (rule example_first)
  obtain w2 where r2: "sessionRound exampleEnv exampleLimits (sessionAt w1 (asked u) [''a''] 1 1 [ModelAnswered (callText ''look'')]) =
        Continue (sessionAt w2 (resumed u) [''b'', ''a''] 1 1 [ModelAnswered (callText ''look''), ToolHandled ''look'' (GObject [])])"
      "wireAt w2 (frame (askText ''d'' ''2'') @ frame completeText) 4000000 (Suc 0)"
    using round_tool [where seen = "[''a'']" and f = 1 and n = 1 and tr = "[ModelAnswered (callText ''look'')]",
        OF r1(2) _ attempt_settings(1) attempt_states(4-7)]
    by (auto simp: resumed_def)
  obtain w3 v where r3: "sessionRound exampleEnv exampleLimits (sessionAt w2 (resumed u) [''b'', ''a''] 1 1
        [ModelAnswered (callText ''look''), ToolHandled ''look'' (GObject [])]) =
        Continue (sessionAt w3 (submitted u v) [''d'', ''b'', ''a''] 2 2 ([ModelAnswered (callText ''look''), ToolHandled ''look'' (GObject [])] @
          [ModelAnswered (callText ''submit_result'')]))" "wireAt w3 (frame completeText) 6000000 0"
    using example_third [OF r2(2)] by blast
  obtain s' where r4: "sessionRound exampleEnv exampleLimits (sessionAt w3 (submitted u v) [''d'', ''b'', ''a''] 2 2
        ([ModelAnswered (callText ''look''), ToolHandled ''look'' (GObject [])] @ [ModelAnswered (callText ''submit_result'')])) =
        Return s' (Inr (GObject []))"
      "ses_trace s' = [ModelAnswered (callText ''look''), ToolHandled ''look'' (GObject [])] @ [ModelAnswered (callText ''submit_result'')]"
    by (rule round_complete [OF r3(2) _ attempt_settings(3) attempt_states(11,12)]) (simp, blast)
  have "sessionLoop exampleEnv exampleLimits exampleSession = (s', Inr (GObject []))"
    by (subst sessionLoop.simps, subst r1(1), unfold round.case, subst sessionLoop.simps, subst r2(1), unfold round.case,
        subst sessionLoop.simps, subst r3(1), unfold round.case, subst sessionLoop.simps, subst r4(1), unfold round.case, rule refl)
  then show ?thesis using r4(2) by simp
qed

end
