(* ===== verification/SessionTheorems.thy ===== *)
theory SessionTheorems
  imports SessionExample
begin

text \<open>
  The theorems about a session of the capsule host as a whole (\<^verbatim>\<open>internal/capsule/session.go\<close>
  over \<^verbatim>\<open>attempt.go\<close>, \<^verbatim>\<open>sse.go\<close>, \<^verbatim>\<open>json.go\<close> and \<^verbatim>\<open>wire.go\<close>), each
  applied to the session of the example.
\<close>

lemma session_post:
  assumes "NewOpenAIAttempt rx modelID systemPrompt prompt tools outputSchema sampling reasoning window maxOut
      (MaxModelRequests (sl_Limits l)) rl = Inr a" "sessionLoop env l (newSession w a) = (s', result)"
  shows "sessionPost (config a) l s' result"
  by (rule sessionLoop_ok [OF newSession_start [OF assms(1)] assms(2)])

lemma NewOpenAIAttempt_settings:
  assumes "NewOpenAIAttempt rx modelID systemPrompt prompt tools outputSchema sampling reasoning window maxOut maxReq rl = Inr a"
  shows "att_modelID a = modelID" "att_responseLimits a = rl"
  using assms by (auto simp: NewOpenAIAttempt_def result_simps split: if_splits option.splits gval.splits)

text \<open>A call of the given answer: the answer parses to it, and it passed the validator granted for it.\<close>

lemma callOf_parsed:
  assumes "callOf (config a) body call"
  shows "\<exists>r. ParseOpenAISSE body (att_modelID a) (att_validators a) (att_responseLimits a) = Inr r \<and> acc_Pending r = Some call"
    "\<exists>schema. att_validators a (call_Name call) = Some schema \<and> valid schema (call_Arguments call)"
  using assms callOf_granted [OF assms] by (simp_all add: callOf_def granted_def config_def)

text \<open>
  C18. What a capsule can make the host do, however it behaves: every tool the host runs is one of
  the tools of the session, with arguments that the compiled schema of its parameters accepts, and
  the call is the one that an answer of the provider made, with the arguments that answer gave. The
  provider answers at most as often as the limits allow, and no more calls are run than it answered.
\<close>

theorem session_tool_calls_granted:
  assumes attempt: "NewOpenAIAttempt rx modelID systemPrompt prompt tools outputSchema sampling reasoning window maxOut
      (MaxModelRequests (sl_Limits l)) rl = Inr a"
    and run: "sl_tools l = map tool_Name tools" "sessionLoop env l (newSession w a) = (s', result)"
  shows "(\<forall>name arguments. ToolHandled name arguments \<in> set (ses_trace s') \<longrightarrow>
      (\<exists>tool \<in> set tools. tool_Name tool = name \<and>
        (\<exists>schema. compileSchema rx (tool_Parameters tool) = Some schema \<and> valid schema arguments)) \<and>
      (\<exists>body r call. ModelAnswered body \<in> set (ses_trace s') \<and> ParseOpenAISSE body modelID (att_validators a) rl = Inr r \<and>
        acc_Pending r = Some call \<and> call_Name call = name \<and> call_Arguments call = arguments)) \<and>
    int (answered (ses_trace s')) \<le> MaxModelRequests (sl_Limits l) \<and> handled (ses_trace s') \<le> answered (ses_trace s')"
proof (intro allI impI conjI)
  note post = session_post [OF attempt run(2), unfolded sessionPost_def]
  then show "int (answered (ses_trace s')) \<le> MaxModelRequests (sl_Limits l)" "handled (ses_trace s') \<le> answered (ses_trace s')" by simp_all
  fix name arguments assume "ToolHandled name arguments \<in> set (ses_trace s')"
  then obtain body call where c: "name \<in> set (sl_tools l)" "ModelAnswered body \<in> set (ses_trace s')" "callOf (config a) body call"
      "call_Name call = name" "call_Arguments call = arguments"
    using post unfolding handledOk_def answers_def mem_Collect_eq by blast
  obtain schema where schema: "att_validators a name = Some schema" "valid schema arguments" using callOf_parsed(2) [OF c(3)] c(4,5) by auto
  have "name \<noteq> submitResult" using c(1) run(1) compileTools_names [OF attempt] by metis
  then show "\<exists>tool \<in> set tools. tool_Name tool = name \<and>
      (\<exists>schema. compileSchema rx (tool_Parameters tool) = Some schema \<and> valid schema arguments)"
    using NewOpenAIAttempt_grants [OF attempt schema(1)] schema(2) by blast
  show "\<exists>body r call. ModelAnswered body \<in> set (ses_trace s') \<and> ParseOpenAISSE body modelID (att_validators a) rl = Inr r \<and>
      acc_Pending r = Some call \<and> call_Name call = name \<and> call_Arguments call = arguments"
    using callOf_parsed(1) [OF c(3)] c(2,4,5) NewOpenAIAttempt_settings [OF attempt] by auto
qed

lemma example_created:
  "NewOpenAIAttempt (\<lambda>_. None) ''m'' ''s'' ''p'' [demoTool] demoParameters (GObject []) (GObject []) 100000 1000
    (MaxModelRequests (sl_Limits exampleLimits)) demoResponseLimits = Inr demoAttempt"
  "sl_tools exampleLimits = map tool_Name [demoTool]"
  using demo_created by (simp_all add: exampleLimits_def DefaultLimits_def demoTool_def)

theorem session_tool_calls_granted_witness:
  "\<exists>s'. sessionLoop exampleEnv exampleLimits (newSession exampleWire demoAttempt) = (s', Inr (GObject [])) \<and>
    ToolHandled ''look'' (GObject []) \<in> set (ses_trace s') \<and>
    (\<exists>tool \<in> set [demoTool]. tool_Name tool = ''look'' \<and>
       (\<exists>schema. compileSchema (\<lambda>_. None) (tool_Parameters tool) = Some schema \<and> valid schema (GObject [])))"
proof -
  obtain s' where s': "sessionLoop exampleEnv exampleLimits (newSession exampleWire demoAttempt) = (s', Inr (GObject []))"
      "ToolHandled ''look'' (GObject []) \<in> set (ses_trace s')"
    using example_run by (auto simp: exampleSession_def)
  note granted = session_tool_calls_granted [OF example_created s'(1), THEN conjunct1, rule_format, OF s'(2), THEN conjunct1]
  show ?thesis by (intro exI [of _ s'] conjI s' granted)
qed

text \<open>
  C19. What a capsule can make the host return, however it behaves: the output of a session is what
  the provider submitted in one of its answers, which the output schema accepts, and the attempt
  has come to its end.
\<close>

theorem session_completion:
  assumes attempt: "NewOpenAIAttempt rx modelID systemPrompt prompt tools outputSchema sampling reasoning window maxOut
      (MaxModelRequests (sl_Limits l)) rl = Inr a"
    and run: "sessionLoop env l (newSession w a) = (s', Inr v)"
  shows "att_State (ses_attempt s') = Terminal \<and>
    (\<exists>schema. compileSchema rx outputSchema = Some schema \<and> valid schema v) \<and>
    (\<exists>body r call. ModelAnswered body \<in> set (ses_trace s') \<and> ParseOpenAISSE body modelID (att_validators a) rl = Inr r \<and>
       acc_Pending r = Some call \<and> call_Name call = submitResult \<and> call_Arguments call = v)"
proof -
  obtain body call where c: "att_State (ses_attempt s') = Terminal" "ModelAnswered body \<in> set (ses_trace s')"
      "callOf (config a) body call" "call_Name call = submitResult" "call_Arguments call = v"
    using session_post [OF attempt run] unfolding sessionPost_def answers_def by auto
  obtain schema where schema: "att_validators a submitResult = Some schema" "valid schema v" using callOf_parsed(2) [OF c(3)] c(4,5) by auto
  have "compileSchema rx outputSchema = Some schema"
    using NewOpenAIAttempt_grants [OF attempt schema(1)] compileTools_names [OF attempt] by (metis imageI set_map)
  then show ?thesis using schema(2) c callOf_parsed(1) [OF c(3)] NewOpenAIAttempt_settings [OF attempt] by auto
qed

theorem session_completion_witness:
  "\<exists>s'. sessionLoop exampleEnv exampleLimits (newSession exampleWire demoAttempt) = (s', Inr (GObject [])) \<and>
    att_State (ses_attempt s') = Terminal \<and> (\<exists>schema. compileSchema (\<lambda>_. None) demoParameters = Some schema \<and> valid schema (GObject []))"
proof -
  obtain s' where s': "sessionLoop exampleEnv exampleLimits (newSession exampleWire demoAttempt) = (s', Inr (GObject []))"
    using example_run by (auto simp: exampleSession_def)
  then show ?thesis using session_completion [OF example_created(1) s'] by blast
qed

text \<open>
  C20. Every session ends, whatever the capsule, the provider and the tools do: after some rounds
  that go on comes one that returns, and that is what the loop returns. Each round that goes on has
  used up at least ten bytes of the aggregate limit of the connection, which bounds their number
  without any assumption on the peer; and all the model requests together, retries included, are at
  most as many as the limits and the retries of the binding allow.
\<close>

theorem session_terminates:
  assumes attempt: "NewOpenAIAttempt rx modelID systemPrompt prompt tools outputSchema sampling reasoning window maxOut
      (MaxModelRequests (sl_Limits l)) rl = Inr a"
    and limits: "limitsValidate (sl_Limits l) = Inr ()" "0 \<le> sl_MaxRetries l"
    and wire: "wire_limits w = sl_Limits l" "0 \<le> wire_aggregate w" "wire_aggregate w \<le> MaxAggregateBytes (sl_Limits l)"
  shows "\<exists>n t s' result. (sessionStep env l ^^ n) (newSession w a) t \<and> sessionRound env l t = Return s' result \<and>
    sessionLoop env l (newSession w a) = (s', result) \<and> 10 * int n \<le> MaxAggregateBytes (sl_Limits l) \<and>
    int (ses_requests s') \<le> (sl_MaxRetries l + 1) * MaxModelRequests (sl_Limits l)"
proof -
  let ?s = "newSession w a"
  obtain t where t: "reach (sessionStep env l) ?s t"
      "sessionRound env l t = Return (fst (sessionLoop env l ?s)) (snd (sessionLoop env l ?s))"
    using sessionLoop_last [of env l ?s] by blast
  obtain n where n: "(sessionStep env l ^^ n) ?s t" using reach_relpowp [OF t(1)] by blast
  have "10 * int n \<le> MaxAggregateBytes (sl_Limits l)" using rounds_cost [OF n] wire by (simp add: newSession_def)
  moreover have "int (ses_requests (fst (sessionLoop env l ?s))) \<le> (sl_MaxRetries l + 1) * MaxModelRequests (sl_Limits l)"
    by (rule loop_requests [OF limits(2) sessionStart_inv [OF newSession_start [OF attempt]]]) (simp add: newSession_def)
  ultimately show ?thesis using n t(2) by (metis prod.collapse)
qed


theorem session_terminates_witness:
  "\<exists>n t s' result. (sessionStep exampleEnv exampleLimits ^^ n) (newSession exampleWire demoAttempt) t \<and>
    sessionRound exampleEnv exampleLimits t = Return s' result \<and> 10 * int n \<le> 16777216 \<and> int (ses_requests s') \<le> 48"
proof -
  have l: "sl_Limits exampleLimits = DefaultLimits" "0 \<le> sl_MaxRetries exampleLimits" "wire_limits exampleWire = DefaultLimits"
      "wire_aggregate exampleWire = 0" "sl_MaxRetries exampleLimits = 2"
    by (simp_all add: exampleLimits_def exampleWire_def newWire_def)
  have d: "MaxAggregateBytes DefaultLimits = 16777216" "MaxModelRequests DefaultLimits = 16" by (simp_all add: DefaultLimits_def)
  from session_terminates [OF example_created(1), of exampleWire exampleEnv] show ?thesis
    using l d DefaultLimits_valid by auto
qed

end
