(* ===== verification/EventProperties.thy ===== *)
theory EventProperties
  imports EventStream Evaluation
begin

text \<open>
  The stream an operator follows skips nothing it does not announce, whatever is written to and
  pruned from the log meanwhile; and the text of an event is one server-sent record that cannot
  be split by what the event carries.
\<close>

section \<open>Lists in order\<close>

lemma sort_key_sorted: "sorted (map f xs) \<Longrightarrow> sort_key f xs = xs"
  by (induction xs) (auto intro!: insort_is_Cons)

lemma filter_takeWhile:
  "sorted_wrt R xs \<Longrightarrow> (\<And>x y. R x y \<Longrightarrow> x \<in> set xs \<Longrightarrow> P y \<Longrightarrow> P x) \<Longrightarrow> filter P xs = takeWhile P xs"
proof (induction xs)
  case (Cons x xs)
  show ?case
  proof (cases "P x")
    case True
    then show ?thesis using Cons by auto
  next
    case False
    then have "\<forall>y \<in> set xs. \<not> P y" using Cons.prems by (meson list.set_intros(1) sorted_wrt.simps(2))
    then show ?thesis using False by (auto simp: filter_empty_conv)
  qed
qed simp

abbreviation inOrder :: "LogRow list \<Rightarrow> bool" where
  "inOrder rows \<equiv> sorted_wrt (\<lambda>a b. log_sequence a < log_sequence b) rows"

lemma inOrder_sort: "inOrder rows \<Longrightarrow> sort_key log_sequence rows = rows"
  by (intro sort_key_sorted) (auto simp: sorted_wrt_map elim: sorted_wrt_mono_rel [rotated])

lemma inOrder_filter: "inOrder rows \<Longrightarrow> inOrder (filter P rows)"
  by (rule sorted_wrt_filter)

section \<open>The log\<close>

text \<open>The log with everything that was ever committed to it: the rows are those past the
  watermark.\<close>

definition logInv :: "eventTables \<Rightarrow> LogRow list \<Rightarrow> bool" where
  "logInv s H \<longleftrightarrow> inOrder H \<and> (\<forall>h \<in> set H. log_sequence h < log_next s) \<and>
     log_rows s = filter (\<lambda>h. pruned_through s < log_sequence h) H \<and> pruned_through s < log_next s"

text \<open>What other transactions do to the log; one that is rolled back leaves a gap in the
  sequence.\<close>

inductive dstep :: "eventTables \<times> LogRow list \<Rightarrow> eventTables \<times> LogRow list \<Rightarrow> bool" where
  append: "Append event now s = Inr (s', u) \<Longrightarrow> dstep (s, H) (s', H @ [last (log_rows s')])"
| audit: "AppendAudit event now s = Inr (s', u) \<Longrightarrow> dstep (s, H) (s', H)"
| rolledBack: "log_next s \<le> n \<Longrightarrow> dstep (s, H) (s\<lparr>log_next := n\<rparr>, H)"
| prune: "deleteEventLog cutoff k s = (s', d) \<Longrightarrow> dstep (s, H) (s', H)"

text \<open>Steps only add later events, and the watermark never moves back.\<close>

definition extends :: "eventTables \<times> LogRow list \<Rightarrow> eventTables \<times> LogRow list \<Rightarrow> bool" where
  "extends a b \<longleftrightarrow> pruned_through (fst a) \<le> pruned_through (fst b) \<and>
     (\<exists>new. snd b = snd a @ new)"

lemma Append_row:
  assumes "Append event now s = Inr (s', u)"
  obtains r where "log_rows s' = log_rows s @ [r]" "log_sequence r = log_next s" "log_next s' = log_next s + 1"
    "pruned_through s' = pruned_through s"
  using assms by (auto simp: Append_def split: option.splits if_splits)

lemma logInv_append:
  assumes "logInv s H" "Append event now s = Inr (s', u)"
  shows "logInv s' (H @ [last (log_rows s')])"
proof -
  obtain r where r: "log_rows s' = log_rows s @ [r]" "log_sequence r = log_next s" "log_next s' = log_next s + 1"
    "pruned_through s' = pruned_through s" using Append_row [OF assms(2)] .
  then show ?thesis using assms(1) by (auto simp: logInv_def sorted_wrt_append less_Suc_eq)
qed

lemma prune_prefix:
  assumes "inOrder rows"
    and "first = (case filter (\<lambda>r. cutoff < log_created_at r) rows of [] \<Rightarrow> m | r # _ \<Rightarrow> log_sequence r)"
  shows "filter (\<lambda>r. log_created_at r \<le> cutoff \<and> log_sequence r < first) rows =
    takeWhile (\<lambda>r. log_created_at r \<le> cutoff \<and> log_sequence r < first) rows"
proof (rule filter_takeWhile [OF assms(1)])
  fix x y
  assume xy: "log_sequence x < log_sequence y" "x \<in> set rows" "log_created_at y \<le> cutoff \<and> log_sequence y < first"
  have "log_created_at x \<le> cutoff"
  proof (rule ccontr)
    assume "\<not> log_created_at x \<le> cutoff"
    then have mem: "x \<in> set (filter (\<lambda>r. cutoff < log_created_at r) rows)" using xy(2) by simp
    then obtain r rs where rs: "filter (\<lambda>r. cutoff < log_created_at r) rows = r # rs"
      by (cases "filter (\<lambda>r. cutoff < log_created_at r) rows") simp_all
    have "inOrder (r # rs)" using inOrder_filter [OF assms(1)] rs by metis
    then have "first \<le> log_sequence x" using mem rs assms(2) by (auto simp: rs)
    then show False using xy by simp
  qed
  then show "log_created_at x \<le> cutoff \<and> log_sequence x < first" using xy by simp
qed

lemma inOrder_after_take:
  assumes "inOrder rows" "take k rows \<noteq> []"
  shows "filter (\<lambda>r. log_sequence r \<notin> set (map log_sequence (take k rows))) rows =
    filter (\<lambda>r. last (map log_sequence (take k rows)) < log_sequence r) rows"
proof (rule filter_cong [OF refl])
  fix r
  assume r: "r \<in> set rows"
  have o: "inOrder (take k rows)" "\<forall>a \<in> set (take k rows). \<forall>b \<in> set (drop k rows). log_sequence a < log_sequence b"
    using assms(1) append_take_drop_id [of k rows] sorted_wrt_append [of _ "take k rows" "drop k rows"] by metis+
  obtain xs z where xs: "take k rows = xs @ [z]" using assms(2) by (metis append_butlast_last_id)
  have "r \<in> set (take k rows) \<or> r \<in> set (drop k rows)" using r append_take_drop_id [of k rows] by (metis Un_iff set_append)
  then show "log_sequence r \<notin> set (map log_sequence (take k rows)) \<longleftrightarrow>
      last (map log_sequence (take k rows)) < log_sequence r"
    using o xs by (auto simp: sorted_wrt_append) 
qed

lemma take_takeWhile: "\<exists>j. take k (takeWhile P xs) = take j xs"
  by (metis take_take takeWhile_eq_take)

lemma logInv_prune:
  assumes "logInv s H" "deleteEventLog cutoff k s = (s', d)"
  shows "logInv s' H \<and> pruned_through s \<le> pruned_through s'"
proof -
  define rows where "rows = log_rows s"
  define first where "first = (case filter (\<lambda>r. cutoff < log_created_at r) rows of [] \<Rightarrow> 9223372036854775807 | r # _ \<Rightarrow> log_sequence r)"
  have o: "inOrder rows" using assms(1) by (simp add: logInv_def rows_def inOrder_filter)
  obtain j where j: "take k (filter (\<lambda>r. log_created_at r \<le> cutoff \<and> log_sequence r < first) rows) = take j rows"
    using take_takeWhile prune_prefix [OF o first_def] by metis
  have s': "s' = (if take j rows = [] then s
      else s\<lparr>log_rows := filter (\<lambda>r. log_sequence r \<notin> set (map log_sequence (take j rows))) rows,
             pruned_through := max (pruned_through s) (last (map log_sequence (take j rows)))\<rparr>)"
    using assms(2) j by (auto simp: deleteEventLog_def Let_def inOrder_sort [OF o, unfolded rows_def] rows_def [symmetric]
        first_def [symmetric] inOrder_sort [OF o])
  show ?thesis
  proof (cases "take j rows = []")
    case False
    let ?m = "last (map log_sequence (take j rows))"
    obtain z where z: "z \<in> set rows" "?m = log_sequence z"
      using False by (metis in_set_takeD last_in_set last_map)
    then have zH: "z \<in> set H" "pruned_through s < log_sequence z" using assms(1) by (auto simp: logInv_def rows_def)
    then have "max (pruned_through s) ?m = ?m" using z by simp
    moreover have "log_rows s' = filter (\<lambda>h. ?m < log_sequence h) H"
    proof -
      have "log_rows s' = filter (\<lambda>r. ?m < log_sequence r) rows" using s' False inOrder_after_take [OF o False] by simp
      also have "\<dots> = filter (\<lambda>h. ?m < log_sequence h) H" using assms(1) zH z(2)
        by (auto simp: rows_def logInv_def intro!: filter_cong)
      finally show ?thesis .
    qed
    ultimately show ?thesis using assms(1) s' False zH z by (auto simp: logInv_def)
  qed (use assms(1) s' in simp)
qed

lemma dstep_kept:
  assumes "logInv s H" "dstep (s, H) (s', H')"
  shows "logInv s' H' \<and> extends (s, H) (s', H')"
  using assms(2)
proof (cases rule: dstep.cases)
  case (append event now u)
  then show ?thesis using logInv_append [OF assms(1)] Append_row by (metis extends_def fst_conv order_refl snd_conv)
next
  case (audit event now u)
  then show ?thesis using assms(1) by (auto simp: AppendAudit_def logInv_def extends_def split: option.splits if_splits)
next
  case (rolledBack n)
  then show ?thesis using assms(1) by (fastforce simp: logInv_def extends_def)
next
  case (prune cutoff k d)
  then show ?thesis using logInv_prune [OF assms(1)] by (auto simp: extends_def)
qed

interpretation eventLog: inductive_invariant "\<lambda>(s, H). logInv s H" dstep "\<lambda>(s, H). logInv s H"
  by unfold_locales (auto dest: dstep_kept)

lemma dsteps_extend:
  "reach dstep a b \<Longrightarrow> logInv (fst a) (snd a) \<Longrightarrow> extends a b"
proof (induction rule: reach.induct)
  case (reach_step a b c)
  have "logInv (fst b) (snd b)" using eventLog.kept [OF reach_step(1)] reach_step.prems by (simp add: split_beta)
  then have "extends b c" using dstep_kept [of "fst b" "snd b" "fst c" "snd c"] reach_step(2) by simp
  then show ?case using reach_step by (force simp: extends_def)
qed (simp add: extends_def)

section \<open>The stream\<close>

text \<open>The position of a client that took the records, and that every event it took is the next
  one committed after its position. A notice moves the position forward.\<close>

fun position :: "int \<Rightarrow> record_sent list \<Rightarrow> int" where
  "position c [] = c"
| "position c (Delivered e # rest) = position (Sequence e) rest"
| "position c (StreamReset d reason # rest) = position d rest"

definition nextEvent :: "LogRow list \<Rightarrow> int \<Rightarrow> Event \<Rightarrow> bool" where
  "nextEvent H c e \<longleftrightarrow> (\<exists>h \<in> set H. eventOf h = e \<and> c < log_sequence h \<and>
     (\<forall>g \<in> set H. c < log_sequence g \<longrightarrow> log_sequence h \<le> log_sequence g))"

fun gapless :: "LogRow list \<Rightarrow> int \<Rightarrow> record_sent list \<Rightarrow> bool" where
  "gapless H c [] = True"
| "gapless H c (Delivered e # rest) = (nextEvent H c e \<and> gapless H (Sequence e) rest)"
| "gapless H c (StreamReset d reason # rest) = (c \<le> d \<and> gapless H d rest)"

lemma position_append: "position c (xs @ ys) = position (position c xs) ys"
  by (induction c xs rule: position.induct) auto

lemma gapless_append: "gapless H c (xs @ ys) \<longleftrightarrow> gapless H c xs \<and> gapless H (position c xs) ys"
  by (induction H c xs rule: gapless.induct) auto

lemma nextEvent_extends:
  assumes "nextEvent H c e" "inOrder (H @ new)"
  shows "nextEvent (H @ new) c e"
proof -
  obtain h where h: "h \<in> set H" "eventOf h = e" "c < log_sequence h" "\<forall>g \<in> set H. c < log_sequence g \<longrightarrow> log_sequence h \<le> log_sequence g"
    using assms(1) by (auto simp: nextEvent_def)
  moreover have "\<forall>g \<in> set new. log_sequence h \<le> log_sequence g"
    using assms(2) h(1) by (auto simp: sorted_wrt_append intro: less_imp_le)
  ultimately show ?thesis unfolding nextEvent_def by (intro bexI [of _ h]) auto
qed

lemma gapless_extends: "gapless H c sent \<Longrightarrow> inOrder (H @ new) \<Longrightarrow> gapless (H @ new) c sent"
  by (induction H c sent rule: gapless.induct) (auto intro: nextEvent_extends)

lemma sendBatch_gapless:
  assumes "filter (\<lambda>h. position c (stream_sent st) < log_sequence h) H = rows @ rest" "inOrder H"
    and "gapless H c (stream_sent st)" "stream_cursor st = position c (stream_sent st)"
  shows "gapless H c (stream_sent (sendBatch set' (map eventOf rows) st)) \<and>
    stream_cursor (sendBatch set' (map eventOf rows) st) = position c (stream_sent (sendBatch set' (map eventOf rows) st))"
  using assms
proof (induction rows arbitrary: st)
  case (Cons r rows)
  let ?p = "position c (stream_sent st)"
  have elems: "{h \<in> set H. ?p < log_sequence h} = set (r # rows @ rest)"
    using arg_cong [OF Cons.prems(1), of set] by simp
  then have mem: "r \<in> set H" "?p < log_sequence r" by auto
  have o: "inOrder (r # rows @ rest)" using inOrder_filter [OF Cons.prems(2)] Cons.prems(1) by (metis append_Cons)
  have least: "log_sequence r \<le> log_sequence g" if "g \<in> set H" "?p < log_sequence g" for g
  proof -
    have "g \<in> set (r # rows @ rest)" using that elems by blast
    then show ?thesis using o by (auto simp: less_imp_le)
  qed
  then have nxt: "nextEvent H ?p (eventOf r)" using mem by (auto simp: nextEvent_def)
  have seq: "Sequence (eventOf r) = log_sequence r" by (simp add: eventOf_def)
  have later: "filter (\<lambda>h. log_sequence r < log_sequence h) H = rows @ rest"
  proof -
    have "filter (\<lambda>h. log_sequence r < log_sequence h) H =
        filter (\<lambda>h. log_sequence r < log_sequence h) (filter (\<lambda>h. ?p < log_sequence h) H)"
      using mem(2) by (auto intro!: filter_cong)
    also have "\<dots> = rows @ rest" using o by (simp add: Cons.prems(1) filter_id_conv)
    finally show ?thesis .
  qed
  let ?st = "st\<lparr>stream_sent := stream_sent st @ [Delivered (eventOf r)], stream_cursor := Sequence (eventOf r),
    stream_emitted := stream_emitted st + 1\<rparr>"
  have here: "gapless H c (stream_sent ?st)" "stream_cursor ?st = position c (stream_sent ?st)"
    using Cons.prems(3) nxt by (simp_all add: gapless_append position_append)
  have "gapless H c (stream_sent (sendBatch set' (map eventOf rows) ?st)) \<and>
      stream_cursor (sendBatch set' (map eventOf rows) ?st) = position c (stream_sent (sendBatch set' (map eventOf rows) ?st))"
    using later seq by (intro Cons.IH here Cons.prems(2)) (simp add: position_append)
  then show ?case using here Cons.prems(3,4) by (simp add: Let_def)
qed simp

lemma batchAfter_inOrder:
  assumes "logInv s H" "pruned_through s \<le> c"
  obtains rest where "filter (\<lambda>h. c < log_sequence h) H = batchAfter c k s @ rest"
proof -
  have "filter (\<lambda>r. c < log_sequence r) (log_rows s) = filter (\<lambda>h. c < log_sequence h) H"
    using assms by (auto simp: logInv_def intro!: filter_cong)
  moreover have "inOrder (filter (\<lambda>h. c < log_sequence h) H)" using assms(1) by (simp add: logInv_def inOrder_filter)
  ultimately show thesis using that [of "drop k (filter (\<lambda>h. c < log_sequence h) H)"]
    by (simp add: batchAfter_def inOrder_sort)
qed

text \<open>The stream and the log it reads: other transactions step in between, also between the read
  that finds the cursor pruned and the read of the window.\<close>

inductive estep :: "streamSettings \<Rightarrow> (eventTables \<times> LogRow list) \<times> stream \<Rightarrow> (eventTables \<times> LogRow list) \<times> stream \<Rightarrow> bool"
  for set' where
  database: "dstep a b \<Longrightarrow> estep set' (a, st) (b, st)"
| round: "stream_open st \<Longrightarrow> reach dstep a b \<Longrightarrow> estep set' (a, st) (b, streamRound set' (fst a) (fst b) st)"

definition streamInv :: "int \<Rightarrow> (eventTables \<times> LogRow list) \<times> stream \<Rightarrow> bool" where
  "streamInv c x \<longleftrightarrow> logInv (fst (fst x)) (snd (fst x)) \<and> gapless (snd (fst x)) c (stream_sent (snd x)) \<and>
     stream_cursor (snd x) = position c (stream_sent (snd x))"

lemma streamRound_gapless:
  assumes "logInv s H" "gapless H c (stream_sent st)" "stream_cursor st = position c (stream_sent st)"
    and "pruned_through s \<le> pruned_through s'"
  shows "gapless H c (stream_sent (streamRound set' s s' st)) \<and>
    stream_cursor (streamRound set' s s' st) = position c (stream_sent (streamRound set' s s' st))"
proof (cases "ReadAfter (stream_cursor st) 100 s")
  case (Inl e)
  have "pruned_through s' \<le> Tail (Window s')" by (simp add: Window_def)
  then show ?thesis using Inl assms
    by (cases e) (auto simp: streamRound_def Let_def gapless_append position_append ReadAfter_def split: if_splits)
next
  case (Inr events)
  then have p: "pruned_through s \<le> stream_cursor st" and e: "events = map eventOf (batchAfter (stream_cursor st) 100 s)"
    by (auto simp: ReadAfter_def split: if_splits)
  obtain rest where "filter (\<lambda>h. stream_cursor st < log_sequence h) H = batchAfter (stream_cursor st) 100 s @ rest"
    using batchAfter_inOrder [OF assms(1) p] .
  then show ?thesis using sendBatch_gapless [OF _ _ assms(2,3), of "batchAfter (stream_cursor st) 100 s" rest] assms(1,3) Inr e
    by (simp add: streamRound_def logInv_def)
qed

lemma streamInv_step:
  assumes "streamInv c x" "estep set' x y"
  shows "streamInv c y"
  using assms(2,1)
proof (cases rule: estep.cases)
  case (database a b st)
  then have inv: "logInv (fst a) (snd a)" using assms(1) by (simp add: streamInv_def)
  then have "logInv (fst b) (snd b)" "extends a b"
    using dstep_kept [of "fst a" "snd a" "fst b" "snd b"] database(3) by simp_all
  then show ?thesis using database assms(1) by (auto simp: streamInv_def extends_def logInv_def intro!: gapless_extends)
next
  case (round st a b)
  then have inv: "logInv (fst a) (snd a)" using assms(1) by (simp add: streamInv_def)
  then have ext: "extends a b" and b: "logInv (fst b) (snd b)"
    using dsteps_extend [OF round(4)] eventLog.kept [OF round(4)] by (simp_all add: split_beta)
  have "gapless (snd a) c (stream_sent (streamRound set' (fst a) (fst b) st)) \<and>
      stream_cursor (streamRound set' (fst a) (fst b) st) = position c (stream_sent (streamRound set' (fst a) (fst b) st))"
    using assms(1) round(1) ext by (intro streamRound_gapless [OF inv]) (auto simp: streamInv_def extends_def)
  then show ?thesis using round(2) b ext by (auto simp: streamInv_def extends_def logInv_def intro!: gapless_extends)
qed

interpretation eventStream: inductive_invariant "streamInv c" "estep set'" "streamInv c" for c set'
  by unfold_locales (auto dest: streamInv_step)

section \<open>The text of an event\<close>

lemma runes_wide:
  "x \<in> set (runes s) \<Longrightarrow> 0x80 \<le> fst x \<Longrightarrow> \<not> (fst x = runeError \<and> length (snd x) = 1) \<Longrightarrow> \<forall>c \<in> set (snd x). 0x80 \<le> code c"
proof (induction s rule: runes.induct)
  case (2 a t)
  let ?d = "decodeRune (a # t)"
  show ?case
  proof (cases "x = (fst ?d, take (snd ?d) (a # t))")
    case True
    show ?thesis
    proof (cases "badRune ?d")
      case bad: True
      then show ?thesis using True 2(4) by (auto simp: badRune_def)
    next
      case False
      from list.simps(3) this show ?thesis
      proof (cases rule: decodeRune_good)
        case (ascii a' t')
        then show ?thesis using True 2(3) by simp
      next
        case (wide bs u r)
        then show ?thesis using True by simp
      qed
    qed
  next
    case False
    then show ?thesis using 2 by (auto simp: runes.simps(2) Let_def)
  qed
qed simp

lemma hextable_printable: "n < 16 \<Longrightarrow> 32 \<le> code (hextable ! n) \<and> code (hextable ! n) < 0x80"
proof -
  have "\<forall>x \<in> set hextable. 32 \<le> code x \<and> code x < 0x80" "length hextable = 16" by (simp_all add: hextable_def)
  then show "n < 16 \<Longrightarrow> ?thesis" using nth_mem [of n hextable] by simp
qed

lemma escapeByte_printable: "x \<in> set (escapeByte c) \<Longrightarrow> 32 \<le> code x"
proof -
  have "code c div 16 < 16" if "code c < 32" using that by simp
  then show "x \<in> set (escapeByte c) \<Longrightarrow> 32 \<le> code x"
    using hextable_printable [of "code c div 16"] hextable_printable [of "code c mod 16"]
    by (auto simp: escapeByte_def quote_def backslash_def split: if_splits)
qed

lemma escapeRune_printable: "x \<in> set (runes s) \<Longrightarrow> c \<in> set (escapeRune x) \<Longrightarrow> 32 \<le> code c"
  using runes_wide [of x s] escapeByte_printable [of c]
  by (fastforce simp: escapeRune_def Let_def backslash_def split: prod.splits if_splits)

lemma encodeString_printable: "c \<in> set (encodeString s) \<Longrightarrow> 32 \<le> code c"
  using escapeRune_printable by (auto simp: encodeString_def quote_def)

lemma commas_set: "c \<in> set (commas es) \<Longrightarrow> c = CHR '','' \<or> (\<exists>e \<in> set es. c \<in> set e)"
  by (induction es rule: commas.induct) auto

lemma those_set: "those (map f xs) = Some ys \<Longrightarrow> y \<in> set ys \<Longrightarrow> \<exists>x \<in> set xs. f x = Some y"
  by (induction xs arbitrary: ys) (auto split: option.splits)

lemma encoded_printable: "encodeWith encodeString v = Some e \<Longrightarrow> c \<in> set e \<Longrightarrow> 32 \<le> code c"
proof (induction v arbitrary: e)
  case (GNumber n)
  then show ?case using validNumber(2) [of n] by (auto simp: numberChar_def isDigit_def split: if_splits)
next
  case (GString s)
  then show ?case using encodeString_printable by auto
next
  case (GArray xs)
  then obtain es where "those (map (encodeWith encodeString) xs) = Some es" "e = ''['' @ commas es @ '']''" by auto
  then show ?case using GArray.IH GArray.prems(2) those_set [of "encodeWith encodeString" xs es] commas_set [of c es] by fastforce
next
  case (GObject kvs)
  then obtain es where es: "those (map (\<lambda>kv. map_option (\<lambda>e. encodeString (fst kv) @ '':'' @ e) (encodeWith encodeString (snd kv)))
      (sort_key fst kvs)) = Some es" "e = ''{'' @ commas es @ ''}''" by auto
  show ?case
  proof (cases "\<exists>m \<in> set es. c \<in> set m")
    case True
    then obtain m where cm: "c \<in> set m" "m \<in> set es" by blast
    obtain kv where m: "kv \<in> set (sort_key fst kvs)"
      "map_option (\<lambda>e. encodeString (fst kv) @ '':'' @ e) (encodeWith encodeString (snd kv)) = Some m"
      using those_set [OF es(1) cm(2)] by blast
    then show ?thesis using GObject.IH [of kv "snd kv"] encodeString_printable [of c "fst kv"] cm(1)
      by (auto simp: snds.simps)
  qed (use GObject.prems(2) es(2) in \<open>auto dest!: commas_set\<close>)
qed (auto split: if_splits)

lemma runes_small: "x \<in> set (runes s) \<Longrightarrow> fst x < 0x80 \<Longrightarrow> char_of (fst x) \<in> set s"
proof (induction s rule: runes.induct)
  case (2 a t)
  let ?d = "decodeRune (a # t)"
  show ?case
  proof (cases "x = (fst ?d, take (snd ?d) (a # t))")
    case True
    have "\<not> badRune ?d" using 2(3) True by (auto simp: badRune_def runeError_def)
    from list.simps(3) this show ?thesis
    proof (cases rule: decodeRune_good)
      case (ascii a' t')
      then show ?thesis using True by simp
    next
      case (wide bs u r)
      then show ?thesis using True 2(3) by simp
    qed
  next
    case False
    then show ?thesis using 2 by (auto simp: runes.simps(2) Let_def dest: in_set_dropD)
  qed
qed simp

definition printable :: "string \<Rightarrow> bool" where
  "printable s \<longleftrightarrow> list_all (\<lambda>c. 32 \<le> code c \<and> code c < 0x80) s"

lemma printable_escape: "printable (appendUnicodeEscape v)"
  using hextable_printable by (simp add: printable_def appendUnicodeEscape_def backslash_def)

lemma printable_escaped:
  assumes "\<forall>c \<in> set s. 32 \<le> code c"
  shows "printable (escapeNonASCIIJSON s)"
proof -
  have "printable (escapeNonASCII x)" if x: "x \<in> set (runes s)" for x
  proof (cases "fst x < 0x80")
    case True
    then have "32 \<le> code (char_of (fst x))" using runes_small [OF x] assms by blast
    then show ?thesis using True by (simp add: escapeNonASCII_def printable_def)
  next
    case False
    then show ?thesis using printable_escape by (simp add: escapeNonASCII_def Let_def printable_def)
  qed
  then show ?thesis by (auto simp: escapeNonASCIIJSON_def printable_def list_all_iff)
qed

lemma splitOn_line: "sep \<notin> set a \<Longrightarrow> splitOn sep (a @ sep # rest) = a # splitOn sep rest"
  by (induction a) auto

lemma decimal_plain: "c \<in> set (decimal i) \<Longrightarrow> 32 \<le> code c"
  using natDigits_set [of c "nat i"] natDigits_set [of c "nat (- i)"] by (auto simp: decimal_def split: if_splits)

lemma Message_lines:
  assumes "Message e = Inr t"
  obtains d where "splitOn lf t = [''id: '' @ decimal (Sequence e), ''event: '' @ Event_Type e, ''data: '' @ d, [], []]"
    "printable d" "0 \<le> Sequence e"
proof -
  obtain object encoded where p: "encodeValue (GObject object) = Some encoded"
    and t: "t = ''id: '' @ decimal (Sequence e) @ [lf] @ ''event: '' @ Event_Type e @ [lf] @ ''data: '' @ escapeNonASCIIJSON encoded @ [lf, lf]"
    and ty: "\<forall>c \<in> set (Event_Type e). code c \<noteq> 10" "0 \<le> Sequence e"
    using assms by (auto simp: Message_def list_ex_iff split: if_splits gval.splits option.splits)
  let ?d = "escapeNonASCIIJSON encoded"
  have d: "printable ?d" using encoded_printable [OF p [unfolded encodeValue_def]] by (intro printable_escaped) blast
  have noLF: "\<forall>c \<in> set x. code c \<noteq> 10 \<Longrightarrow> lf \<notin> set x" for x by (auto simp: lf_def)
  have plain: "lf \<notin> set (''id: '' @ decimal (Sequence e))" "lf \<notin> set (''event: '' @ Event_Type e)" "lf \<notin> set (''data: '' @ ?d)"
    using decimal_plain [of _ "Sequence e"] ty d by (intro noLF; fastforce simp: printable_def list_all_iff)+
  have eq: "t = (''id: '' @ decimal (Sequence e)) @ lf # (''event: '' @ Event_Type e) @ lf # (''data: '' @ ?d) @ lf # [] @ lf # []"
    using t by simp
  have "splitOn lf t = [''id: '' @ decimal (Sequence e), ''event: '' @ Event_Type e, ''data: '' @ ?d, [], []]"
    unfolding eq splitOn_line [OF plain(1)] splitOn_line [OF plain(2)] splitOn_line [OF plain(3)] by simp
  then show thesis using that d ty(2) by blast
qed

section \<open>Properties\<close>

text \<open>
  C2. However other transactions append events, roll back and prune the log while an operator
  follows it, every event the operator is sent is the very next event committed after the
  operator's position, where the position is the identifier of the last record sent. Events are
  passed over only where a notice announces it, and a notice only moves forward. When a read
  returns nothing, the operator has every committed event up to now.
\<close>

theorem stream_skips_nothing:
  assumes "reach (estep set') ((s0, log_rows s0), newStream cursor reason set') ((s, H), st)"
    and "inOrder (log_rows s0)" "\<forall>r \<in> set (log_rows s0). pruned_through s0 < log_sequence r \<and> log_sequence r < log_next s0"
    and "pruned_through s0 < log_next s0"
  shows "gapless H cursor (stream_sent st) \<and> stream_cursor st = position cursor (stream_sent st) \<and>
    (ReadAfter (stream_cursor st) 100 s = Inr [] \<longrightarrow> (\<forall>h \<in> set H. log_sequence h \<le> stream_cursor st))"
proof -
  have "logInv s0 (log_rows s0)" using assms(2-4) by (auto simp: logInv_def filter_id_conv [THEN iffD2])
  then have "streamInv cursor ((s0, log_rows s0), newStream cursor reason set')"
    by (auto simp: streamInv_def newStream_def Let_def)
  from eventStream.kept [OF assms(1) this] have inv: "logInv s H" "gapless H cursor (stream_sent st)"
    "stream_cursor st = position cursor (stream_sent st)" by (simp_all add: streamInv_def)
  have "\<forall>h \<in> set H. log_sequence h \<le> stream_cursor st" if "ReadAfter (stream_cursor st) 100 s = Inr []"
  proof -
    have p: "pruned_through s \<le> stream_cursor st" and e: "batchAfter (stream_cursor st) 100 s = []"
      using that by (auto simp: ReadAfter_def split: if_splits)
    have "filter (\<lambda>r. stream_cursor st < log_sequence r) (log_rows s) = filter (\<lambda>h. stream_cursor st < log_sequence h) H"
      using inv(1) p by (auto simp: logInv_def intro!: filter_cong)
    moreover have "filter (\<lambda>r. stream_cursor st < log_sequence r) (log_rows s) = []"
      using arg_cong [OF e, of length] by (auto simp: batchAfter_def min_def split: if_splits)
    ultimately have "filter (\<lambda>h. stream_cursor st < log_sequence h) H = []" by metis
    then show ?thesis by (auto simp: filter_empty_conv not_less)
  qed
  then show ?thesis using inv by blast
qed

definition demoEvent :: ResourceEvent where
  "demoEvent = \<lparr>event_Type = ''job.created'', event_ResourceType = ''job'', event_ResourceID = [1],
     event_Snapshot = Some [(''id'', GString ''1'')]\<rparr>"

definition demoLog :: eventTables where
  "demoLog = \<lparr>log_rows = [], log_next = 1, pruned_through = 0, audit_rows = []\<rparr>"

definition demoRow :: LogRow where
  "demoRow = \<lparr>log_sequence = 1, log_event_type = ''job.created'', log_resource_type = ''job'', log_resource_id = [1],
     log_snapshot = GObject [(''id'', GString ''1'')], log_created_at = 5\<rparr>"

definition demoLogged :: eventTables where
  "demoLogged = demoLog\<lparr>log_rows := [demoRow], log_next := 2\<rparr>"

definition patient :: streamSettings where
  "patient = \<lparr>eventLimit = 0, client_takes = (\<lambda>_. True)\<rparr>"

lemma demoLabels: "validLabel ''job.created'' 128" "validLabel ''job'' 64" "normalizes [(''id'', GString ''1'')]"
  by code_simp+

lemma demoAppend: "Append demoEvent 5 demoLog = Inr (demoLogged, ())"
  by (simp add: Append_def demoEvent_def demoLabels demoLog_def demoLogged_def demoRow_def)

lemma demoEncoded: "encodeValue (GObject [(''id'', GString ''1'')]) \<noteq> None"
  by code_simp

lemma demoMessage: "isOk (Message (eventOf demoRow))"
proof -
  obtain enc where "encodeValue (GObject [(''id'', GString ''1'')]) = Some enc" using demoEncoded by blast
  then show ?thesis by (simp add: Message_def eventOf_def demoRow_def)
qed

lemma demoFollow:
  "reach (estep patient) ((demoLog, log_rows demoLog), newStream 0 [] patient)
     ((demoLogged, [demoRow]), \<lparr>stream_cursor = 1, stream_sent = [Delivered (eventOf demoRow)], stream_emitted = 1, stream_open = True\<rparr>)"
proof -
  let ?st = "newStream 0 [] patient"
  have rows: "log_rows demoLog = []" "last (log_rows demoLogged) = demoRow" by (simp_all add: demoLogged_def demoLog_def)
  have one: "estep patient ((demoLog, []), ?st) ((demoLogged, [demoRow]), ?st)"
    using estep.database [OF dstep.append [OF demoAppend, of "[]"], of patient ?st] rows(2) by simp
  have "stream_open ?st" by (simp add: newStream_def Let_def)
  from estep.round [OF this reach_refl, of patient "(demoLogged, [demoRow])"]
  have two: "estep patient ((demoLogged, [demoRow]), ?st) ((demoLogged, [demoRow]), streamRound patient demoLogged demoLogged ?st)"
    by simp
  have "streamRound patient demoLogged demoLogged ?st =
      \<lparr>stream_cursor = 1, stream_sent = [Delivered (eventOf demoRow)], stream_emitted = 1, stream_open = True\<rparr>"
    using demoMessage by (simp add: streamRound_def ReadAfter_def MaxReadLimit_def newStream_def Let_def demoLogged_def demoLog_def
        batchAfter_def patient_def demoRow_def eventOf_def)
  then show ?thesis using reach_step [OF reach_one [of "estep patient", OF one] two] rows(1) by simp
qed

theorem stream_skips_nothing_witness:
  "gapless [demoRow] 0 [Delivered (eventOf demoRow)] \<and> ReadAfter 1 100 demoLogged = Inr [] \<and> log_sequence demoRow \<le> 1"
proof -
  have "ReadAfter 1 100 demoLogged = Inr []"
    by (simp add: ReadAfter_def MaxReadLimit_def batchAfter_def demoLogged_def demoLog_def demoRow_def)
  then show ?thesis using stream_skips_nothing [OF demoFollow] by (simp add: demoLog_def)
qed

text \<open>
  The text of an event is one server-sent record: split at line feeds it has exactly the
  line of its identifier, the line of its type, one line of data that is printable ASCII whatever
  the snapshot holds, and the empty line that ends the record. The identifier the client sends
  back when it reconnects is read as the sequence number of the event, whatever older cursor the
  address carries.
\<close>

lemma message_one_record:
  assumes "Message e = Inr t" "Sequence e < 2 ^ 63"
  shows "(\<exists>d. splitOn lf t = [''id: '' @ decimal (Sequence e), ''event: '' @ Event_Type e, ''data: '' @ d, [], []] \<and> printable d) \<and>
    ParseCursor after (Some (decimal (Sequence e))) = Inr (Sequence e)"
proof -
  obtain d where d: "splitOn lf t = [''id: '' @ decimal (Sequence e), ''event: '' @ Event_Type e, ''data: '' @ d, [], []]"
    "printable d" "0 \<le> Sequence e" using Message_lines [OF assms(1)] .
  have "ParseInt64 (decimal (Sequence e)) = Some (Sequence e)" using assms(2) d(3) by (intro ParseInt64_decimal) auto
  then show ?thesis using d by (auto simp: ParseCursor_def)
qed

definition demoNotice :: Event where
  "demoNotice = resetEvent 7 ''cursor_pruned''"

lemma message_one_record_example:
  "\<exists>t d. Message demoNotice = Inr t \<and> splitOn lf t = [''id: 7'', ''event: stream.reset'', ''data: '' @ d, [], []] \<and>
     ParseCursor (Some ''3'') (Some ''7'') = Inr 7"
proof -
  have num: "decimal 7 = ''7''" by code_simp
  have "encodeValue (GObject [(''id'', GString ''event_stream''), (''reason'', GString ''cursor_pruned'')]) \<noteq> None" by code_simp
  then obtain t where t: "Message demoNotice = Inr t" by (auto simp: Message_def demoNotice_def resetEvent_def)
  from message_one_record [OF t, of "Some ''3''"] t show ?thesis by (auto simp: demoNotice_def resetEvent_def num)
qed

end
