(* ===== verification/CapsuleBinding.thy ===== *)
theory CapsuleBinding
  imports CapsuleAttempt CredentialVault NetPolicy "HOL-Library.AList"
begin

text \<open>
  How a session of the capsule host is bound to a model (\<^verbatim>\<open>internal/capsule/types.go\<close>): the
  provider records a documentation run has captured (\<^verbatim>\<open>internal/providers/types.go\<close>), the
  binding compiled from them, and its normalization, which every factory repeats. Parsing a URL and
  writing one are arguments; a Go map is the list of its entries in the order in which a loop meets
  them, and a nil map has no entries.
\<close>

section \<open>Provider records\<close>

text \<open>The named string types of the package are strings; these are their constants.\<close>

definition efforts :: "string list" where
  "efforts = [''NONE'', ''MINIMAL'', ''LOW'', ''MEDIUM'', ''HIGH'', ''MAX'']"

record CustomReasoningMapping =
  map_Field :: string
  map_Values :: "(string \<times> gval) list"

record Settings =
  set_Transport :: string
  set_ContextWindowTokens :: "int option"
  set_MaxOutputTokens :: "int option"
  set_SupportsStreaming :: "bool option"
  set_SupportsTools :: "bool option"
  set_SupportsStructuredOutput :: "bool option"
  set_SupportsTemperature :: "bool option"
  set_ReasoningTransport :: string
  set_ReasoningMapping :: "CustomReasoningMapping option"
  set_TimeoutSeconds :: int
  set_MaxRetries :: int
  set_MaxConcurrentTasks :: int
  set_ExtraBody :: "(string \<times> gval) list"
  set_MetadataOrigin :: "(string \<times> string) list"

text \<open>Of a stored version, profile, configuration and endpoint the binding reads these fields.\<close>

record ProfileVersion =
  pv_ID :: UUID
  pv_VersionNumber :: int
  pv_ConfigurationVersion :: int
  pv_Settings :: Settings

record Profile =
  prof_ID :: UUID
  prof_EndpointID :: UUID
  prof_ModelID :: string
  prof_Availability :: string
  prof_CurrentVersion :: ProfileVersion

record Configuration =
  conf_BaseURL :: string
  conf_CredentialID :: "UUID option"
  conf_Headers :: "(string \<times> string) list"
  conf_ChatCompletionsPath :: string
  conf_AllowHTTP :: bool
  conf_AllowPrivateNetwork :: bool

record Endpoint =
  end_ID :: UUID
  end_Configuration :: Configuration
  end_Lifecycle :: string
  end_ConfigurationVersion :: int

section \<open>Bindings\<close>

record CredentialReference =
  ref_ID :: UUID
  ref_SecretVersion :: int

record Binding =
  bind_ModelID :: string
  bind_BaseURL :: string
  bind_ChatCompletionsPath :: string
  bind_Headers :: "(string \<times> string) list"
  bind_BodyOptions :: "(string \<times> gval) list"
  bind_ContextWindow :: int
  bind_MaxOutputTokens :: int
  bind_ReasoningEffort :: string
  bind_ReasoningOptions :: "(string \<times> gval) list"
  bind_Timeout :: duration
  bind_MaxRetries :: int
  bind_Credential :: "CredentialReference option"
  bind_RuntimeRevision :: string
  bind_Limits :: Limits
  bind_NetworkPolicy :: Policy

record ProviderCapture =
  cap_Role :: string
  cap_ProfileID :: UUID
  cap_ProfileVersionID :: UUID
  cap_ProfileVersion :: int
  cap_EndpointID :: UUID
  cap_EndpointConfigurationVersion :: int
  cap_CredentialVersion :: "int option"
  cap_ReasoningEffort :: string

definition RuntimeRevision :: string where "RuntimeRevision = ''pi-0.84.4-r9''"

definition zeroLimits :: Limits where
  "zeroLimits = \<lparr>MaxFrameBytes = 0, MaxAggregateBytes = 0, MaxStringBytes = 0, MaxDepth = 0, MaxKeys = 0,
     MaxFetchBodyBytes = 0, MaxFetches = 0, MaxModelRequests = 0, AttemptTimeout = 0\<rparr>"

text \<open>The parser of URLs and the text of one.\<close>

record urls =
  url_parse :: "string \<Rightarrow> URL option"
  url_text :: "URL \<Rightarrow> string"

definition secretHeaders :: "string list" where
  "secretHeaders = [''authorization'', ''cookie'', ''proxy-authorization'', ''x-api-key'']"

text \<open>The pattern \<^verbatim>\<open>headerName\<close>: one or more token bytes; 96 is the grave accent.\<close>

definition headerByte :: "char \<Rightarrow> bool" where
  "headerByte c \<longleftrightarrow> 48 \<le> code c \<and> code c \<le> 57 \<or> 65 \<le> code c \<and> code c \<le> 90 \<or> 97 \<le> code c \<and> code c \<le> 122 \<or>
     c \<in> set ''!#$%&*+.^_|~-'' \<or> code c = 39 \<or> code c = 96"

definition headerName :: "string \<Rightarrow> bool" where
  "headerName s \<longleftrightarrow> s \<noteq> [] \<and> list_all headerByte s"

text \<open>No rune below the space and no delete.\<close>

definition noControls :: "string \<Rightarrow> bool" where
  "noControls s \<longleftrightarrow> list_all (\<lambda>r. \<not> (fst r < 32 \<or> fst r = 127)) (runes s)"

definition headerOk :: "string \<times> string \<Rightarrow> bool" where
  "headerOk h \<longleftrightarrow> (let name = map lowerByte (fst h) in
     fst h \<noteq> [] \<and> fst h = TrimSpace (fst h) \<and> headerName (fst h) \<and> name \<notin> set secretHeaders \<and> \<not> HasPrefix name ''proxy-'' \<and>
     length (snd h) \<le> 8192 \<and> noControls (snd h))"

definition normalizeBindingHeaders :: "(string \<times> string) list \<Rightarrow> (string \<times> string) list option" where
  "normalizeBindingHeaders headers =
     (if list_all headerOk headers
      then Some (fold (\<lambda>h. AList.update (map lowerByte (fst h)) (snd h)) headers [])
      else None)"

definition identityOk :: "Binding \<Rightarrow> bool" where
  "identityOk b \<longleftrightarrow> bind_ModelID b \<noteq> [] \<and> bind_ModelID b = TrimSpace (bind_ModelID b) \<and> length (bind_ModelID b) \<le> 512 \<and>
     utf8Valid (bind_ModelID b) \<and> bind_RuntimeRevision b \<noteq> [] \<and> bind_RuntimeRevision b = TrimSpace (bind_RuntimeRevision b) \<and>
     length (bind_RuntimeRevision b) \<le> 128 \<and> bind_RuntimeRevision b = RuntimeRevision"

definition executionOk :: "Binding \<Rightarrow> bool" where
  "executionOk b \<longleftrightarrow> 1024 \<le> bind_ContextWindow b \<and> bind_ContextWindow b \<le> 10000000 \<and>
     1 \<le> bind_MaxOutputTokens b \<and> bind_MaxOutputTokens b \<le> bind_ContextWindow b \<and> bind_MaxOutputTokens b \<le> 1000000 \<and>
     MinModelTimeout \<le> bind_Timeout b \<and> bind_Timeout b \<le> MaxModelTimeout \<and> 0 \<le> bind_MaxRetries b \<and> bind_MaxRetries b \<le> 10"

definition normalizeReasoning :: "string \<Rightarrow> (string \<times> gval) list \<Rightarrow> (string \<times> gval) list option" where
  "normalizeReasoning effort options =
     (case normalizeJSONObject (GObject options) 65536 optionLimits of
        Some (GObject reasoning) \<Rightarrow>
          if length reasoning > 1 \<or> (effort = ''NONE'') \<noteq> (length reasoning = 0) \<or>
             \<not> list_all (\<lambda>kv. reasoningNameOk (fst kv)) reasoning
          then None else Some reasoning
      | _ \<Rightarrow> None)"

datatype bindError = BindingInvalid string | BindingURL urlError

definition normalizeBinding :: "urls \<Rightarrow> Binding \<Rightarrow> bindError + Binding" where
  "normalizeBinding u b0 =
     (let b = (if bind_Limits b0 = zeroLimits then b0\<lparr>bind_Limits := DefaultLimits\<rparr> else b0) in
      if \<not> isOk (limitsValidate (bind_Limits b)) then Inl (BindingInvalid ''capsule protocol limits are invalid'')
      else if \<not> identityOk b then Inl (BindingInvalid ''capsule model binding is invalid'')
      else case NormalizeBaseURL (url_parse u) (bind_BaseURL b) (bind_NetworkPolicy b) of
        Inl e \<Rightarrow> Inl (BindingURL e)
      | Inr base \<Rightarrow>
          if NormalizeRelativePath (url_parse u) (bind_ChatCompletionsPath b) \<noteq> Inr ''chat/completions''
          then Inl (BindingInvalid ''first capsule slice requires chat/completions'')
          else if \<not> executionOk b then Inl (BindingInvalid ''custom model execution settings are invalid'')
          else (case normalizeBindingHeaders (bind_Headers b) of
              None \<Rightarrow> Inl (BindingInvalid ''custom model non-secret headers are invalid'')
            | Some headers \<Rightarrow>
                (case validateSamplingOptions (GObject (bind_BodyOptions b)) of
                   None \<Rightarrow> Inl (BindingInvalid ''custom model sampling options are invalid'')
                 | Some body \<Rightarrow>
                     (case normalizeReasoning (bind_ReasoningEffort b) (bind_ReasoningOptions b) of
                        None \<Rightarrow> Inl (BindingInvalid ''custom model reasoning options are invalid'')
                      | Some reasoning \<Rightarrow>
                          if bind_ReasoningEffort b \<notin> set efforts then Inl (BindingInvalid ''custom model reasoning effort is invalid'')
                          else if (case bind_Credential b of None \<Rightarrow> False | Some r \<Rightarrow> ref_SecretVersion r < 1)
                          then Inl (BindingInvalid ''API-key reference is invalid'')
                          else Inr (b\<lparr>bind_BaseURL := url_text u base, bind_ChatCompletionsPath := ''chat/completions'',
                                 bind_Headers := headers, bind_BodyOptions := body, bind_ReasoningOptions := reasoning\<rparr>)))))"

section \<open>Compiling a capture\<close>

definition knownTrue :: "bool option \<Rightarrow> bool" where
  "knownTrue v \<longleftrightarrow> v = Some True"

definition reasoningOptions :: "Settings \<Rightarrow> string \<Rightarrow> (string \<times> gval) list option" where
  "reasoningOptions settings effort =
     (if effort = ''NONE'' then Some []
      else let v = map lowerByte effort in
        if set_ReasoningTransport settings = ''REASONING_EFFORT'' then Some [(''reasoning_effort'', GString v)]
        else if set_ReasoningTransport settings = ''CUSTOM'' then
          (case set_ReasoningMapping settings of
             None \<Rightarrow> None
           | Some m \<Rightarrow> map_option (\<lambda>mapped. [(map_Field m, mapped)]) (map_of (map_Values m) v))
        else None)"

definition capsuleRole :: "string \<Rightarrow> string option" where
  "capsuleRole role = (if role = ''DOCUMENTATION_PLANNER'' then Some ''PLANNER''
     else if role = ''DOCUMENTATION_WRITER'' then Some ''PAGE_WRITER'' else None)"

text \<open>The records are the captured ones, and the model can do what a documentation run needs.\<close>

definition captureMatches :: "ProviderCapture \<Rightarrow> Profile \<Rightarrow> Endpoint \<Rightarrow> bool" where
  "captureMatches captured profile endpoint \<longleftrightarrow> (let version = prof_CurrentVersion profile in
     prof_ID profile = cap_ProfileID captured \<and> prof_EndpointID profile = cap_EndpointID captured \<and>
     pv_ID version = cap_ProfileVersionID captured \<and> pv_VersionNumber version = cap_ProfileVersion captured \<and>
     pv_ConfigurationVersion version = cap_EndpointConfigurationVersion captured \<and>
     end_ID endpoint = cap_EndpointID captured \<and> end_ConfigurationVersion endpoint = cap_EndpointConfigurationVersion captured \<and>
     end_Lifecycle endpoint = ''ACTIVE'' \<and> prof_Availability profile \<noteq> ''UNAVAILABLE'')"

definition modelSuits :: "Settings \<Rightarrow> bool" where
  "modelSuits settings \<longleftrightarrow> set_Transport settings = ''CHAT_COMPLETIONS'' \<and> knownTrue (set_SupportsStreaming settings) \<and>
     knownTrue (set_SupportsTools settings) \<and> knownTrue (set_SupportsStructuredOutput settings) \<and>
     set_ContextWindowTokens settings \<noteq> None \<and> set_MaxOutputTokens settings \<noteq> None \<and>
     MinModelTimeout div second \<le> set_TimeoutSeconds settings \<and> set_TimeoutSeconds settings \<le> MaxModelTimeout div second"

definition capturedCredential :: "UUID option \<Rightarrow> int option \<Rightarrow> CredentialReference option option" where
  "capturedCredential configured version =
     (case configured of
        None \<Rightarrow> (case version of None \<Rightarrow> Some None | Some _ \<Rightarrow> None)
      | Some i \<Rightarrow>
          (case version of
             None \<Rightarrow> None
           | Some v \<Rightarrow> if v < 1 then None else Some (Some \<lparr>ref_ID = i, ref_SecretVersion = v\<rparr>)))"

datatype compileError = ErrBinding

definition CompileBinding :: "urls \<Rightarrow> ProviderCapture \<Rightarrow> Profile \<Rightarrow> Endpoint \<Rightarrow> compileError + Binding \<times> string" where
  "CompileBinding u captured profile endpoint =
     (let settings = pv_Settings (prof_CurrentVersion profile); configuration = end_Configuration endpoint in
      case capsuleRole (cap_Role captured) of
        None \<Rightarrow> Inl ErrBinding
      | Some role \<Rightarrow>
          if \<not> captureMatches captured profile endpoint \<or> \<not> modelSuits settings \<or>
             conf_ChatCompletionsPath configuration \<noteq> ''chat/completions''
          then Inl ErrBinding
          else (case (reasoningOptions settings (cap_ReasoningEffort captured),
                      validateSamplingOptions (GObject (set_ExtraBody settings)),
                      capturedCredential (conf_CredentialID configuration) (cap_CredentialVersion captured)) of
              (Some reasoning, Some body, Some credential) \<Rightarrow>
                if entry ''temperature'' body \<noteq> GNull \<and> \<not> knownTrue (set_SupportsTemperature settings) then Inl ErrBinding
                else (case normalizeBinding u
                    \<lparr>bind_ModelID = prof_ModelID profile, bind_BaseURL = conf_BaseURL configuration,
                     bind_ChatCompletionsPath = conf_ChatCompletionsPath configuration, bind_Headers = conf_Headers configuration,
                     bind_BodyOptions = body, bind_ContextWindow = the (set_ContextWindowTokens settings),
                     bind_MaxOutputTokens = the (set_MaxOutputTokens settings), bind_ReasoningEffort = cap_ReasoningEffort captured,
                     bind_ReasoningOptions = reasoning, bind_Timeout = set_TimeoutSeconds settings * second,
                     bind_MaxRetries = set_MaxRetries settings, bind_Credential = credential, bind_RuntimeRevision = RuntimeRevision,
                     bind_Limits = DefaultLimits, bind_NetworkPolicy = \<lparr>AllowPrivateAddresses = conf_AllowPrivateNetwork configuration,
                       AllowPlainHTTP = conf_AllowHTTP configuration\<rparr>\<rparr> of
                    Inl _ \<Rightarrow> Inl ErrBinding
                  | Inr normalized \<Rightarrow> Inr (normalized, role))
            | _ \<Rightarrow> Inl ErrBinding))"

end
