(* ===== verification/CapsuleInvoke.thy ===== *)
theory CapsuleInvoke
  imports CapsuleBinding CapsuleSession SlotPool
begin

text \<open>
  Factories and sessions of the capsule host (\<^verbatim>\<open>internal/capsule/session.go\<close>): what a factory
  accepts, the session it makes, the first message of a session, and one invocation from the
  credential over the slot, the connection and the message loop to the deferred clean-up. What the
  code asks of the outside is a record: the secret reader, the client of the provider, the slot the
  pool hands out, the dialer, the random source and the state of the context where it is looked at.
  The deferred calls are written where Go runs them, and what is done to the outside is a trace.
\<close>

section \<open>Factories\<close>

record Factory =
  fac_binding :: Binding
  fac_role :: string

datatype factoryError = FactoryBinding bindError | FactoryCompile | FactoryIncomplete

text \<open>Whether a pool and a secret reader are given.\<close>

definition NewFactory :: "urls \<Rightarrow> Binding \<Rightarrow> string \<Rightarrow> bool \<Rightarrow> bool \<Rightarrow> factoryError + Factory" where
  "NewFactory u binding expectedRole hasPool hasSecrets =
     (case normalizeBinding u binding of
        Inl e \<Rightarrow> Inl (FactoryBinding e)
      | Inr normalized \<Rightarrow>
          if expectedRole \<noteq> ''PLANNER'' \<and> expectedRole \<noteq> ''PAGE_WRITER'' \<or> \<not> hasPool \<or>
             bind_Credential normalized \<noteq> None \<and> \<not> hasSecrets
          then Inl FactoryIncomplete
          else Inr \<lparr>fac_binding = normalized, fac_role = expectedRole\<rparr>)"

definition NewProviderFactory ::
  "urls \<Rightarrow> ProviderCapture \<Rightarrow> Profile \<Rightarrow> Endpoint \<Rightarrow> bool \<Rightarrow> bool \<Rightarrow> factoryError + Factory" where
  "NewProviderFactory u captured profile endpoint hasPool hasSecrets =
     (case CompileBinding u captured profile endpoint of
        Inl _ \<Rightarrow> Inl FactoryCompile
      | Inr (binding, role) \<Rightarrow> NewFactory u binding role hasPool hasSecrets)"

definition responseLimits :: "Factory \<Rightarrow> ResponseLimits" where
  "responseLimits factory =
     (let limits = bind_Limits (fac_binding factory) in
      \<lparr>rl_MaxBytes = MaxFetchBodyBytes limits, rl_MaxEvents = min (MaxKeys limits) 10000, rl_MaxLineBytes = MaxStringBytes limits,
       rl_MaxDepth = MaxDepth limits, rl_MaxStringBytes = MaxStringBytes limits, rl_MaxKeys = MaxKeys limits\<rparr>)"

section \<open>Sessions\<close>

record Session =
  sess_factory :: Factory
  sess_role :: string
  sess_systemPrompt :: string
  sess_tools :: "Tool list"
  sess_outputSchema :: gval
  sess_invoked :: bool

text \<open>An attempt with the binding of the factory.\<close>

definition bindAttempt :: "regexCompiler \<Rightarrow> Factory \<Rightarrow> string \<Rightarrow> string \<Rightarrow> Tool list \<Rightarrow> gval \<Rightarrow> string + OpenAIAttempt" where
  "bindAttempt rx factory systemPrompt prompt tools outputSchema =
     (let b = fac_binding factory in
      NewOpenAIAttempt rx (bind_ModelID b) systemPrompt prompt tools outputSchema (GObject (bind_BodyOptions b))
        (GObject (bind_ReasoningOptions b)) (bind_ContextWindow b) (bind_MaxOutputTokens b) (MaxModelRequests (bind_Limits b))
        (responseLimits factory))"

definition NewSession :: "regexCompiler \<Rightarrow> string \<Rightarrow> string \<Rightarrow> Tool list \<Rightarrow> gval \<Rightarrow> Factory \<Rightarrow> string + Session" where
  "NewSession rx role systemPrompt tools outputSchema factory =
     (if role \<noteq> fac_role factory then Inl ''capsule factory role mismatch''
      else bindE (bindAttempt rx factory systemPrompt [] tools outputSchema) (\<lambda>probe.
        Inr \<lparr>sess_factory = factory, sess_role = role, sess_systemPrompt = systemPrompt, sess_tools = att_tools probe,
             sess_outputSchema = att_outputSchema probe, sess_invoked = False\<rparr>))"

text \<open>Sixteen bytes of the random source, when it works, as hexadecimal digits.\<close>

definition hexEncode :: "byte list \<Rightarrow> string" where
  "hexEncode bs = concat (map (\<lambda>b. [hextable ! (unat b div 16), hextable ! (unat b mod 16)]) bs)"

definition randomAttemptID :: "byte list option \<Rightarrow> string option" where
  "randomAttemptID random = map_option hexEncode random"

definition startMessage :: "byte list option \<Rightarrow> Session \<Rightarrow> string \<Rightarrow> (string \<times> gval) list option" where
  "startMessage random session prompt =
     (let binding = fac_binding (sess_factory session); limits = bind_Limits binding in
      map_option (\<lambda>attemptID.
        [(''type'', GString ''start''), (''protocol_version'', goInt 1), (''attempt_id'', GString attemptID),
         (''role'', GString (sess_role session)), (''system_prompt'', GString (sess_systemPrompt session)),
         (''prompt'', GString prompt),
         (''tools'', GArray (map (\<lambda>tool. GObject [(''name'', GString (tool_Name tool)),
            (''description'', GString (tool_Description tool)), (''parameters'', tool_Parameters tool)]) (sess_tools session))),
         (''output_schema'', sess_outputSchema session),
         (''provider'', GObject [(''model_id'', GString (bind_ModelID binding)), (''body_options'', GObject (bind_BodyOptions binding)),
            (''context_window'', goInt (bind_ContextWindow binding)), (''max_output_tokens'', goInt (bind_MaxOutputTokens binding)),
            (''reasoning_effort'', GString (map lowerByte (bind_ReasoningEffort binding))),
            (''timeout_ms'', goInt (Milliseconds (bind_Timeout binding))),
            (''capsule_runtime_revision'', GString (bind_RuntimeRevision binding))]),
         (''limits'', GObject [(''max_frame_bytes'', goInt (MaxFrameBytes limits)), (''max_aggregate_bytes'', goInt (MaxAggregateBytes limits)),
            (''max_string_bytes'', goInt (MaxStringBytes limits)), (''max_depth'', goInt (MaxDepth limits)),
            (''max_keys'', goInt (MaxKeys limits)), (''max_fetch_body_bytes'', goInt (MaxFetchBodyBytes limits)),
            (''max_fetches'', goInt (MaxFetches limits)), (''max_model_requests'', goInt (MaxModelRequests limits))])])
        (randomAttemptID random))"

section \<open>One invocation\<close>

datatype acquired = SlotHeld Slot | NoSlot bool

text \<open>
  \<open>out_client\<close> is the client with the headers of every request, \<open>NoSlot\<close> says whether the
  context was done when no slot came, \<open>out_received\<close> whether it was when receiving failed,
  \<open>out_ended\<close> whether it was when the clean-up ran, and \<open>out_deadline\<close> whether the deadline
  had passed when \<^verbatim>\<open>Invoke\<close> looked at it.
\<close>

record outside =
  out_Read :: "UUID \<Rightarrow> string \<Rightarrow> int \<Rightarrow> SecretValue option"
  out_client :: "Binding \<Rightarrow> ((string \<times> string) list \<Rightarrow> provider) option"
  out_acquire :: acquired
  out_dial :: "string \<Rightarrow> conn option"
  out_random :: "byte list option"
  out_handle :: "nat \<Rightarrow> string \<Rightarrow> gval \<Rightarrow> string + gval"
  out_peerCloses :: bool
  out_received :: bool
  out_ended :: bool
  out_deadline :: bool

datatype invokeEvent =
    SecretRead UUID int
  | SlotAcquired Slot
  | Dialed string
  | Started "(string \<times> gval) list"
  | Looped sessionEvent
  | HungUp conn
  | SlotReleased Slot

record Invocation =
  inv_Output :: "gval option"
  inv_Usage :: Usage

datatype callError = CallFailed string Usage | CallCancelled

definition noInvocation :: Invocation where
  "noInvocation = \<lparr>inv_Output = None, inv_Usage = noUsage\<rparr>"

definition credentialFailed :: callError where
  "credentialFailed = CallFailed ''capsule credential resolution failed safely'' noUsage"

definition apiKeyOk :: "string \<Rightarrow> bool" where
  "apiKeyOk v \<longleftrightarrow> v \<noteq> [] \<and> utf8Valid v \<and> length v \<le> 16384 \<and> noControls v"

definition resolveAPIKey :: "outside \<Rightarrow> Factory \<Rightarrow> invokeEvent list \<times> (callError + string)" where
  "resolveAPIKey out factory =
     (case bind_Credential (fac_binding factory) of
        None \<Rightarrow> ([], Inr [])
      | Some reference \<Rightarrow>
          ([SecretRead (ref_ID reference) (ref_SecretVersion reference)],
           case out_Read out (ref_ID reference) ''PROVIDER_API_KEY'' (ref_SecretVersion reference) of
             None \<Rightarrow> Inl credentialFailed
           | Some secret \<Rightarrow> if apiKeyOk (Reveal secret) then Inr (Reveal secret) else Inl credentialFailed))"

text \<open>The headers \<^verbatim>\<open>exchange\<close> gives to every request.\<close>

definition exchangeHeaders :: "string \<Rightarrow> (string \<times> string) list" where
  "exchangeHeaders apiKey =
     [(''accept'', ''text/event-stream''), (''content-type'', ''application/json'')] @
     (if apiKey = [] then [] else [(''authorization'', ''Bearer '' @ apiKey)])"

definition loopEnvironment :: "outside \<Rightarrow> provider \<Rightarrow> environment" where
  "loopEnvironment out p =
     \<lparr>env_provider = p, env_handle = out_handle out, env_peerCloses = out_peerCloses out, env_ctxDone = out_received out\<rparr>"

definition loopLimits :: "Session \<Rightarrow> sessionLimits" where
  "loopLimits session =
     \<lparr>sl_tools = map tool_Name (sess_tools session), sl_MaxRetries = bind_MaxRetries (fac_binding (sess_factory session)),
      sl_Limits = bind_Limits (fac_binding (sess_factory session))\<rparr>"

text \<open>The start message and the loop, on a connection that has been made.\<close>

definition converse ::
  "outside \<Rightarrow> Session \<Rightarrow> string \<Rightarrow> OpenAIAttempt \<Rightarrow> provider \<Rightarrow> conn \<Rightarrow>
   invokeEvent list \<times> wire \<times> OpenAIAttempt \<times> (invokeError + gval)" where
  "converse out session prompt attempt p c =
     (let w = newWire c (bind_Limits (fac_binding (sess_factory session)));
          failed = Inl (InvocationError (att_Usage attempt)) in
      case startMessage (out_random out) session prompt of
        None \<Rightarrow> ([], w, Fail False attempt, failed)
      | Some message \<Rightarrow>
          (case CapsuleWire.send message w of
             (w', Inl _) \<Rightarrow> ([], w', Fail False attempt, failed)
           | (w', Inr _) \<Rightarrow>
               (case sessionLoop (loopEnvironment out p) (loopLimits session) (newSession w' attempt) of
                  (s, result) \<Rightarrow> (Started message # map Looped (ses_trace s), ses_wire s, ses_attempt s, result))))"

text \<open>The clean-up of the connection: a cancelled capsule is told so, as far as that can be sent.\<close>

definition hangUp :: "outside \<Rightarrow> bool \<Rightarrow> wire \<Rightarrow> OpenAIAttempt \<Rightarrow> wire \<times> OpenAIAttempt" where
  "hangUp out completed w attempt =
     (if out_ended out \<and> \<not> completed
      then (fst (CapsuleWire.send [(''type'', GString ''cancel''), (''reason'', GString ''host cancellation'')] w), Fail True attempt)
      else (w, attempt))"

definition callError :: "invokeError \<Rightarrow> callError" where
  "callError e = (case e of InvocationError usage \<Rightarrow> CallFailed [] usage | ContextError \<Rightarrow> CallCancelled)"

definition withSlot ::
  "outside \<Rightarrow> Session \<Rightarrow> string \<Rightarrow> OpenAIAttempt \<Rightarrow> provider \<Rightarrow> Slot \<Rightarrow> invokeEvent list \<times> Invocation \<times> callError option" where
  "withSlot out session prompt attempt p slot =
     (case out_dial out (slot_SocketPath slot) of
        None \<Rightarrow> ([], noInvocation, Some (CallFailed [] (att_Usage attempt)))
      | Some c \<Rightarrow>
          let (events, w, attempt', result) = converse out session prompt attempt p c;
              (w', attempt'') = hangUp out (isOk result) w attempt' in
          (Dialed (slot_SocketPath slot) # events @ [HungUp (wire_connection w')],
           \<lparr>inv_Output = (case result of Inr output \<Rightarrow> Some output | Inl _ \<Rightarrow> None), inv_Usage = att_Usage attempt''\<rparr>,
           case result of Inr _ \<Rightarrow> None | Inl e \<Rightarrow> Some (callError e)))"

definition invoke ::
  "regexCompiler \<Rightarrow> outside \<Rightarrow> Session \<Rightarrow> string \<Rightarrow> invokeEvent list \<times> Invocation \<times> callError option" where
  "invoke rx out session prompt =
     (let factory = sess_factory session in
      case bindAttempt rx factory (sess_systemPrompt session) prompt (sess_tools session) (sess_outputSchema session) of
        Inl _ \<Rightarrow> ([], noInvocation, Some (CallFailed [] noUsage))
      | Inr attempt \<Rightarrow>
          (case resolveAPIKey out factory of
             (read, Inl e) \<Rightarrow> (read, noInvocation, Some e)
           | (read, Inr apiKey) \<Rightarrow>
               (case out_client out (fac_binding factory) of
                  None \<Rightarrow> (read, noInvocation, Some (CallFailed [] (att_Usage attempt)))
                | Some client \<Rightarrow>
                    (case out_acquire out of
                       NoSlot ctxDone \<Rightarrow>
                         (read, noInvocation, Some (if ctxDone then CallCancelled else CallFailed [] (att_Usage attempt)))
                     | SlotHeld slot \<Rightarrow>
                         (case withSlot out session prompt attempt (client (exchangeHeaders apiKey)) slot of
                            (events, result) \<Rightarrow> (read @ SlotAcquired slot # events @ [SlotReleased slot], result))))))"

text \<open>A session is used once; the flag is set whatever the invocation does.\<close>

definition Invoke ::
  "regexCompiler \<Rightarrow> outside \<Rightarrow> string \<Rightarrow> Session \<Rightarrow> Session \<times> invokeEvent list \<times> Invocation \<times> callError option" where
  "Invoke rx out prompt session =
     (if sess_invoked session
      then (session, [], noInvocation, Some (CallFailed ''capsule session is single-use'' noUsage))
      else case invoke rx out (session\<lparr>sess_invoked := True\<rparr>) prompt of
        (events, result, failure) \<Rightarrow>
          (session\<lparr>sess_invoked := True\<rparr>, events,
           if failure \<noteq> None \<and> out_deadline out
           then (noInvocation, Some (CallFailed ''capsule attempt timed out safely'' (inv_Usage result)))
           else (result, failure)))"

end
