(* ===== verification/BindingProperties.thy ===== *)
theory BindingProperties
  imports CapsuleInvoke SessionTheorems
begin

text \<open>
  What a binding that was compiled from a capture promises (\<^verbatim>\<open>internal/capsule/types.go\<close>):
  which settings reach a session, that no option of the model can take the place of what the host
  decides, and that the first message of a session is one the protocol accepts.
\<close>

section \<open>Sampling options\<close>

lemma putMember_replace:
  assumes "sorted_wrt (<) (map fst ms)" "map_of ms k = Some old"
  shows "members (GObject (putMember k v ms)) + members old = members (GObject ms) + members v"
    "map_of (putMember k v ms) = (map_of ms)(k \<mapsto> v)"
proof -
  have "members (GObject (putMember k v ms)) + members old = members (GObject ms) + members v \<and>
      map_of (putMember k v ms) = (map_of ms)(k \<mapsto> v)"
    using assms by (induction ms) (auto split: if_splits dest!: map_of_SomeD)
  then show "members (GObject (putMember k v ms)) + members old = members (GObject ms) + members v"
    "map_of (putMember k v ms) = (map_of ms)(k \<mapsto> v)" by simp_all
qed

lemma normalizeJSONObject_accepted:
  assumes "normalizeJSONObject v maximum limits = Some x"
  shows "accepted limits 1 x" "int (members x) \<le> maxKeys limits \<or> members x = 0" "\<exists>kvs. x = GObject kvs"
proof -
  obtain raw k kvs where p: "x = GObject kvs" "parseStrictJSON raw limits = Inr (GObject kvs, k)"
    using assms by (auto simp: normalizeJSONObject_def split: option.splits if_splits sum.splits gval.splits)
  then show "accepted limits 1 x" "int (members x) \<le> maxKeys limits \<or> members x = 0" "\<exists>kvs. x = GObject kvs"
    using parse_sound [OF p(2)] by (auto simp del: members.simps)
qed

lemma normalizeJSONObject_fixed:
  assumes "accepted limits 1 (GObject kvs)" "int (members (GObject kvs)) \<le> maxKeys limits"
    "normalizeJSONObject (GObject kvs) maximum limits = Some x"
  shows "x = GObject kvs"
proof -
  obtain e where "canonicalJSON (GObject kvs) = Some e" "parseStrictJSON e limits = Inr (GObject kvs, members (GObject kvs))"
    by (rule parse_canonical [OF assms(1,2)])
  then show ?thesis using assms(3) by (auto simp: normalizeJSONObject_def split: if_splits)
qed

lemma accepted_member: "accepted limits d (GObject kvs) \<Longrightarrow> map_of kvs k = Some v \<Longrightarrow> accepted limits (Suc d) v"
  by (auto simp: accepted_object memberOk_def list_all_iff dest!: map_of_SomeD)

text \<open>What the validation returns: a value within the limits, with its stop texts in an array.\<close>

lemma validateSamplingOptions_ok:
  assumes "validateSamplingOptions v = Some b"
  shows "accepted optionLimits 1 (GObject b)" "int (members (GObject b)) \<le> maxKeys optionLimits"
    "list_all (\<lambda>kv. fst kv \<in> set samplingNames) b" "map_of b ''stop'' = Some item \<Longrightarrow> \<exists>stops. item = GArray stops"
proof -
  obtain options where o: "normalizeJSONObject v 65536 optionLimits = Some (GObject options)"
      "list_all (\<lambda>kv. fst kv \<in> set samplingNames) options"
      "b = options \<and> (\<forall>x. map_of options ''stop'' = Some x \<longrightarrow> (\<exists>stops. x = GArray stops)) \<or>
       (\<exists>x. map_of options ''stop'' = Some (GString x) \<and> b = putMember ''stop'' (GArray [GString x]) options)"
    using assms by (auto simp: validateSamplingOptions_def Let_def split: option.splits gval.splits if_splits)
  note n = normalizeJSONObject_accepted [OF o(1)]
  have keys: "int (members (GObject options)) \<le> maxKeys optionLimits" using n(2) by (auto simp: optionLimits_def simp del: members.simps)
  have sorted: "sorted_wrt (<) (map fst options)" using n(1) by (simp add: accepted_object)
  have "accepted optionLimits 1 (GObject b) \<and> int (members (GObject b)) \<le> maxKeys optionLimits \<and>
      list_all (\<lambda>kv. fst kv \<in> set samplingNames) b \<and> (\<forall>x. map_of b ''stop'' = Some x \<longrightarrow> (\<exists>stops. x = GArray stops))"
    using o(3)
  proof (elim disjE exE conjE)
    fix x assume x: "map_of options ''stop'' = Some (GString x)" and b: "b = putMember ''stop'' (GArray [GString x]) options"
    have "accepted optionLimits (Suc 1) (GString x)" by (rule accepted_member [OF n(1) x])
    then have "memberOk optionLimits (Suc 1) (''stop'', GArray [GString x])"
      by (simp add: memberOk_def optionLimits_def)
    then have "accepted optionLimits 1 (GObject b)"
      using n(1) sorted unfolding b by (simp add: accepted_object putMember_sorted putMember_all)
    moreover have "list_all (\<lambda>kv. fst kv \<in> set samplingNames) b"
      unfolding b using o(2) by (intro putMember_all) (simp_all add: samplingNames_def)
    ultimately show ?thesis using putMember_replace [OF sorted x, of "GArray [GString x]"] keys b by simp
  qed (use n(1) o(2) keys in auto)
  then show "accepted optionLimits 1 (GObject b)" "int (members (GObject b)) \<le> maxKeys optionLimits"
    "list_all (\<lambda>kv. fst kv \<in> set samplingNames) b" "map_of b ''stop'' = Some item \<Longrightarrow> \<exists>stops. item = GArray stops" by blast+
qed

text \<open>Validated options that are validated again stay as they are.\<close>

lemma validateSamplingOptions_stable:
  assumes "validateSamplingOptions v = Some b" "validateSamplingOptions (GObject b) = Some b'"
  shows "b' = b"
proof -
  note ok = validateSamplingOptions_ok [OF assms(1)]
  obtain options where o: "normalizeJSONObject (GObject b) 65536 optionLimits = Some (GObject options)"
      "b' = options \<or> (\<exists>x. map_of options ''stop'' = Some (GString x))"
    using assms(2) by (auto simp: validateSamplingOptions_def Let_def split: option.splits gval.splits if_splits)
  have "GObject options = GObject b" by (rule normalizeJSONObject_fixed [OF ok(1,2) o(1)])
  then show ?thesis using o(2) ok(4) by force
qed

section \<open>Normalized bindings\<close>

text \<open>What a normalized binding satisfies, apart from what it keeps of the binding it came from.\<close>

definition bindingInv :: "Binding \<Rightarrow> bool" where
  "bindingInv b \<longleftrightarrow> limitsValidate (bind_Limits b) = Inr () \<and> identityOk b \<and> executionOk b \<and>
     bind_ChatCompletionsPath b = ''chat/completions'' \<and> bind_ReasoningEffort b \<in> set efforts \<and>
     list_all (\<lambda>kv. fst kv \<in> set samplingNames) (bind_BodyOptions b) \<and>
     length (bind_ReasoningOptions b) \<le> 1 \<and> list_all (\<lambda>kv. reasoningNameOk (fst kv)) (bind_ReasoningOptions b) \<and>
     (bind_ReasoningEffort b = ''NONE'' \<longleftrightarrow> bind_ReasoningOptions b = []) \<and>
     (\<forall>h \<in> set (bind_Headers b). fst h \<notin> set secretHeaders \<and> \<not> HasPrefix (fst h) ''proxy-'') \<and>
     (\<forall>r. bind_Credential b = Some r \<longrightarrow> 1 \<le> ref_SecretVersion r)"

lemma updated_headers:
  "\<forall>h \<in> set hs. P (f (fst h)) \<Longrightarrow> \<forall>h \<in> set acc. P (fst h) \<Longrightarrow>
    \<forall>h \<in> set (fold (\<lambda>h. AList.update (f (fst h)) (snd h)) hs acc). P (fst h)"
proof (induction hs arbitrary: acc)
  case (Cons h hs)
  have "fst ` set (AList.update (f (fst h)) (snd h) acc) = insert (f (fst h)) (fst ` set acc)" by (simp add: AList.dom_update)
  then have "\<forall>x \<in> set (AList.update (f (fst h)) (snd h) acc). P (fst x)" using Cons.prems by (metis image_iff insertE list.set_intros(1))
  then show ?case using Cons by simp
qed simp

lemma normalizeBindingHeaders_ok:
  assumes "normalizeBindingHeaders hs = Some hs'" "h \<in> set hs'"
  shows "fst h \<notin> set secretHeaders \<and> \<not> HasPrefix (fst h) ''proxy-''"
proof -
  have "hs' = fold (\<lambda>h. AList.update (map lowerByte (fst h)) (snd h)) hs []" "list_all headerOk hs"
    using assms(1) by (simp_all add: normalizeBindingHeaders_def split: if_splits)
  then show ?thesis
    using updated_headers [of hs "\<lambda>n. n \<notin> set secretHeaders \<and> \<not> HasPrefix n ''proxy-''" "map lowerByte" "[]"] assms(2)
    by (auto simp: headerOk_def Let_def list_all_iff)
qed

lemma normalizeBinding_ok:
  assumes "normalizeBinding u b0 = Inr b"
  shows "bindingInv b" "validateSamplingOptions (GObject (bind_BodyOptions b0)) = Some (bind_BodyOptions b)"
    "bind_ModelID b = bind_ModelID b0" "bind_Credential b = bind_Credential b0" "bind_NetworkPolicy b = bind_NetworkPolicy b0"
    "bind_ContextWindow b = bind_ContextWindow b0" "bind_MaxOutputTokens b = bind_MaxOutputTokens b0"
    "bind_Timeout b = bind_Timeout b0" "bind_MaxRetries b = bind_MaxRetries b0"
    "bind_Limits b0 \<noteq> zeroLimits \<Longrightarrow> bind_Limits b = bind_Limits b0"
    "\<exists>base. NormalizeBaseURL (url_parse u) (bind_BaseURL b0) (bind_NetworkPolicy b0) = Inr base \<and> bind_BaseURL b = url_text u base"
proof -
  define b1 where "b1 = (if bind_Limits b0 = zeroLimits then b0\<lparr>bind_Limits := DefaultLimits\<rparr> else b0)"
  obtain base headers body reasoning where n: "isOk (limitsValidate (bind_Limits b1))" "identityOk b1" "executionOk b1"
      "NormalizeBaseURL (url_parse u) (bind_BaseURL b1) (bind_NetworkPolicy b1) = Inr base"
      "normalizeBindingHeaders (bind_Headers b1) = Some headers" "validateSamplingOptions (GObject (bind_BodyOptions b1)) = Some body"
      "normalizeReasoning (bind_ReasoningEffort b1) (bind_ReasoningOptions b1) = Some reasoning" "bind_ReasoningEffort b1 \<in> set efforts"
      "\<forall>r. bind_Credential b1 = Some r \<longrightarrow> 1 \<le> ref_SecretVersion r"
      "b = b1\<lparr>bind_BaseURL := url_text u base, bind_ChatCompletionsPath := ''chat/completions'', bind_Headers := headers,
         bind_BodyOptions := body, bind_ReasoningOptions := reasoning\<rparr>"
    using assms by (auto simp: normalizeBinding_def b1_def [symmetric] Let_def split: if_splits sum.splits option.splits)
  have r: "length reasoning \<le> 1" "list_all (\<lambda>kv. reasoningNameOk (fst kv)) reasoning" "bind_ReasoningEffort b1 = ''NONE'' \<longleftrightarrow> reasoning = []"
    using n(7) by (auto simp: normalizeReasoning_def split: option.splits gval.splits if_splits)
  have "limitsValidate (bind_Limits b1) = Inr ()" using n(1) by (cases "limitsValidate (bind_Limits b1)") simp_all
  moreover have "identityOk b = identityOk b1" "executionOk b = executionOk b1" by (simp_all add: n(10) identityOk_def executionOk_def)
  ultimately show "bindingInv b"
    using n(2,3,8,9) r validateSamplingOptions_ok(3) [OF n(6)] normalizeBindingHeaders_ok [OF n(5)] by (simp add: bindingInv_def n(10))
  show "validateSamplingOptions (GObject (bind_BodyOptions b0)) = Some (bind_BodyOptions b)"
    "bind_ModelID b = bind_ModelID b0" "bind_Credential b = bind_Credential b0" "bind_NetworkPolicy b = bind_NetworkPolicy b0"
    "bind_ContextWindow b = bind_ContextWindow b0" "bind_MaxOutputTokens b = bind_MaxOutputTokens b0"
    "bind_Timeout b = bind_Timeout b0" "bind_MaxRetries b = bind_MaxRetries b0"
    "bind_Limits b0 \<noteq> zeroLimits \<Longrightarrow> bind_Limits b = bind_Limits b0"
    "\<exists>base. NormalizeBaseURL (url_parse u) (bind_BaseURL b0) (bind_NetworkPolicy b0) = Inr base \<and> bind_BaseURL b = url_text u base"
    using n(4,6) by (auto simp: n(10) b1_def split: if_splits)
qed

text \<open>The binding of a factory for a captured provider: normalized twice, and the options validated
  before that, so that they are fixed under validation.\<close>

lemma CompileBinding_ok:
  assumes "CompileBinding u captured profile endpoint = Inr (b, role)"
  obtains body b0 where "capsuleRole (cap_Role captured) = Some role" "captureMatches captured profile endpoint"
    "modelSuits (pv_Settings (prof_CurrentVersion profile))"
    "validateSamplingOptions (GObject (set_ExtraBody (pv_Settings (prof_CurrentVersion profile)))) = Some body"
    "normalizeBinding u b0 = Inr b" "bind_BodyOptions b0 = body" "bind_Limits b0 = DefaultLimits" "bind_ModelID b0 = prof_ModelID profile"
    "capturedCredential (conf_CredentialID (end_Configuration endpoint)) (cap_CredentialVersion captured) = Some (bind_Credential b0)"
    "bind_NetworkPolicy b0 = \<lparr>AllowPrivateAddresses = conf_AllowPrivateNetwork (end_Configuration endpoint),
       AllowPlainHTTP = conf_AllowHTTP (end_Configuration endpoint)\<rparr>"
  using assms by (auto simp: CompileBinding_def Let_def split: option.splits if_splits sum.splits)

lemma DefaultLimits_nonzero: "DefaultLimits \<noteq> zeroLimits"
  by (simp add: DefaultLimits_def zeroLimits_def)

lemma capturedCredential_ok:
  assumes "capturedCredential configured version = Some r"
  shows "map_option ref_ID r = configured" "map_option ref_SecretVersion r = version"
  using assms by (auto simp: capturedCredential_def split: option.splits if_splits)

lemma NewProviderFactory_ok:
  assumes "NewProviderFactory u captured profile endpoint hasPool hasSecrets = Inr factory"
  defines "b \<equiv> fac_binding factory"
  shows "bindingInv b" "validateSamplingOptions (GObject (bind_BodyOptions b)) = Some (bind_BodyOptions b)"
    "bind_Limits b = DefaultLimits" "bind_ModelID b = prof_ModelID profile" "captureMatches captured profile endpoint"
    "capturedCredential (conf_CredentialID (end_Configuration endpoint)) (cap_CredentialVersion captured) = Some (bind_Credential b)"
    "bind_NetworkPolicy b = \<lparr>AllowPrivateAddresses = conf_AllowPrivateNetwork (end_Configuration endpoint),
       AllowPlainHTTP = conf_AllowHTTP (end_Configuration endpoint)\<rparr>"
    "capsuleRole (cap_Role captured) = Some (fac_role factory)"
proof -
  obtain b1 role where c: "CompileBinding u captured profile endpoint = Inr (b1, role)" "normalizeBinding u b1 = Inr b" "fac_role factory = role"
    using assms(1) by (auto simp: NewProviderFactory_def NewFactory_def b_def split: sum.splits if_splits)
  obtain body b0 where d: "capsuleRole (cap_Role captured) = Some role" "captureMatches captured profile endpoint"
      "modelSuits (pv_Settings (prof_CurrentVersion profile))"
      "validateSamplingOptions (GObject (set_ExtraBody (pv_Settings (prof_CurrentVersion profile)))) = Some body"
      "normalizeBinding u b0 = Inr b1" "bind_BodyOptions b0 = body" "bind_Limits b0 = DefaultLimits" "bind_ModelID b0 = prof_ModelID profile"
      "capturedCredential (conf_CredentialID (end_Configuration endpoint)) (cap_CredentialVersion captured) = Some (bind_Credential b0)"
      "bind_NetworkPolicy b0 = \<lparr>AllowPrivateAddresses = conf_AllowPrivateNetwork (end_Configuration endpoint),
         AllowPlainHTTP = conf_AllowHTTP (end_Configuration endpoint)\<rparr>"
    by (rule CompileBinding_ok [OF c(1)])
  note n = normalizeBinding_ok [OF d(5)] and m = normalizeBinding_ok [OF c(2)]
  have limits: "bind_Limits b1 = DefaultLimits" using n(10) d(7) DefaultLimits_nonzero by simp
  have same: "bind_BodyOptions b1 = body" using validateSamplingOptions_stable [OF d(4)] n(2) d(6) by simp
  have "bind_BodyOptions b = body" using validateSamplingOptions_stable [OF d(4)] m(2) same by simp
  then show "validateSamplingOptions (GObject (bind_BodyOptions b)) = Some (bind_BodyOptions b)" using m(2) same by simp
  show "bindingInv b" "bind_Limits b = DefaultLimits" "bind_ModelID b = prof_ModelID profile" "captureMatches captured profile endpoint"
    "capturedCredential (conf_CredentialID (end_Configuration endpoint)) (cap_CredentialVersion captured) = Some (bind_Credential b)"
    "bind_NetworkPolicy b = \<lparr>AllowPrivateAddresses = conf_AllowPrivateNetwork (end_Configuration endpoint),
       AllowPlainHTTP = conf_AllowHTTP (end_Configuration endpoint)\<rparr>"
    "capsuleRole (cap_Role captured) = Some (fac_role factory)"
    using m n d c(3) limits DefaultLimits_nonzero by simp_all
qed

section \<open>The start message\<close>

lemma integerRange_goInt: "integerRange low high (goInt i) \<longleftrightarrow> low \<le> i \<and> i \<le> high" if "- (2 ^ 63) \<le> i" "i < 2 ^ 63"
  using ParseInt64_decimal [OF that] by (simp add: integerRange_def jsonInteger_def goInt_def)

lemma hexEncode_operation:
  assumes "length bs = 16"
  shows "validOperationID (hexEncode bs)"
proof -
  have "\<forall>x \<in> set hextable. operationChar x" "length hextable = 16" by (simp_all add: hextable_def operationChar_def)
  then have digit: "operationChar (hextable ! i)" if "i < 16" for i using that nth_mem [of i hextable] by metis
  have "unat b div 16 < 16 \<and> unat b mod 16 < 16" for b :: byte
    using unsigned_less [of b, where 'a = nat] by (simp add: less_mult_imp_div_less)
  then have "list_all operationChar (hexEncode bs)" using digit by (auto simp: hexEncode_def list_all_iff)
  moreover have "length (hexEncode bs) = 2 * length bs" by (induction bs) (simp_all add: hexEncode_def)
  ultimately show ?thesis using assms by (simp add: validOperationID_def)
qed

text \<open>The tools and the output schema of a session are those it was asked for, as JSON objects.\<close>

lemma compileTools_cloned:
  "compileTools rx l seen tools = Inr compiled \<Longrightarrow> list_all2 (\<lambda>t c. tool_Name (fst c) = tool_Name t \<and>
     tool_Description (fst c) = tool_Description t \<and> validToolName (tool_Name t) \<and> objectField (tool_Parameters (fst c))) tools compiled"
proof (induction rx l seen tools arbitrary: compiled rule: compileTools.induct)
  case (2 rx l seen tool rest)
  then obtain validator cloned compiled' where c: "compileSchema rx (tool_Parameters tool) = Some validator"
      "normalizeJSONObject (tool_Parameters tool) (rl_MaxBytes l) (responseComplexity l) = Some cloned"
      "compileTools rx l (tool_Name tool # seen) rest = Inr compiled'" "validToolName (tool_Name tool)"
      "compiled = (tool\<lparr>tool_Parameters := cloned\<rparr>, validator) # compiled'" "tool_Name tool \<noteq> submitResult" "tool_hasHandler tool"
      "tool_Name tool \<notin> set seen"
    by (auto simp: result_simps split: if_splits option.splits)
  then show ?case using 2(1) [OF _ _ c(1,2,3)] normalizeJSONObject_accepted(3) [OF c(2)] by (auto simp: objectField_def)
qed simp

lemma NewSession_ok:
  assumes "NewSession rx role systemPrompt tools outputSchema factory = Inr session"
  shows "sess_factory session = factory" "sess_role session = fac_role factory" "objectField (sess_outputSchema session)"
    "list_all2 (\<lambda>t t'. tool_Name t' = tool_Name t \<and> tool_Description t' = tool_Description t \<and> validToolName (tool_Name t) \<and>
       objectField (tool_Parameters t')) tools (sess_tools session)"
    "\<not> sess_invoked session"
proof -
  obtain probe where p: "bindAttempt rx factory systemPrompt [] tools outputSchema = Inr probe" "role = fac_role factory"
      "session = \<lparr>sess_factory = factory, sess_role = role, sess_systemPrompt = systemPrompt, sess_tools = att_tools probe,
         sess_outputSchema = att_outputSchema probe, sess_invoked = False\<rparr>"
    using assms by (auto simp: NewSession_def result_simps split: if_splits)
  obtain compiled where c: "compileTools rx (responseLimits factory) [] tools = Inr compiled" "att_tools probe = map fst compiled"
      "normalizeJSONObject outputSchema (rl_MaxBytes (responseLimits factory)) (responseComplexity (responseLimits factory)) = Some (att_outputSchema probe)"
    using p(1) by (auto simp: bindAttempt_def Let_def NewOpenAIAttempt_def result_simps split: if_splits option.splits gval.splits)
  show "objectField (sess_outputSchema session)" using normalizeJSONObject_accepted(3) [OF c(3)] by (auto simp: p(3) objectField_def)
  show "list_all2 (\<lambda>t t'. tool_Name t' = tool_Name t \<and> tool_Description t' = tool_Description t \<and> validToolName (tool_Name t) \<and>
       objectField (tool_Parameters t')) tools (sess_tools session)"
    using compileTools_cloned [OF c(1)] by (simp add: p(3) c(2) list_all2_map2)
  show "sess_factory session = factory" "sess_role session = fac_role factory" "\<not> sess_invoked session" using p(2) by (simp_all add: p(3))
qed

text \<open>A message with the members of its type in order is valid when each of them is.\<close>

lemma ordered_message:
  assumes "map_of messageFields typeName = Some required" "map_of message ''type'' = Some (GString typeName)"
    "map fst message = map fst required" "distinct (map fst required)"
  shows "validateWireMessage message = Inr () \<longleftrightarrow> list_all2 (\<lambda>f m. snd f (snd m)) required message"
proof -
  have len: "length message = length required" using assms(3) by (metis length_map)
  have name: "fst (message ! i) = fst (required ! i)" if "i < length required" for i using that len assms(3) by (metis nth_map)
  have at_i: "map_of message (fst (required ! i)) = Some (snd (message ! i))" "map_of required (fst (message ! i)) = Some (snd (required ! i))"
    if "i < length required" for i
    using that assms(3,4) len name [OF that] by (metis map_of_is_SomeI nth_mem prod.collapse)+
  then have "list_all (fieldPresent message) required \<longleftrightarrow> list_all2 (\<lambda>f m. snd f (snd m)) required message"
      "list_all (memberKnown required) message \<longleftrightarrow> list_all2 (\<lambda>f m. snd f (snd m)) required message"
    using len by (auto simp: list_all_length list_all2_conv_all_nth fieldPresent_def memberKnown_def)
  then show ?thesis using assms(1,2) by (simp add: validateWireMessage_def)
qed

lemma limitsField_ok:
  assumes "limitsValidate l = Inr ()"
  shows "limitsField (GObject [(''max_frame_bytes'', goInt (MaxFrameBytes l)), (''max_aggregate_bytes'', goInt (MaxAggregateBytes l)),
    (''max_string_bytes'', goInt (MaxStringBytes l)), (''max_depth'', goInt (MaxDepth l)), (''max_keys'', goInt (MaxKeys l)),
    (''max_fetch_body_bytes'', goInt (MaxFetchBodyBytes l)), (''max_fetches'', goInt (MaxFetches l)),
    (''max_model_requests'', goInt (MaxModelRequests l))])"
proof -
  have "1024 \<le> MaxFrameBytes l \<and> MaxFrameBytes l \<le> 4194304" "4096 \<le> MaxAggregateBytes l \<and> MaxAggregateBytes l \<le> 33554432"
    "256 \<le> MaxStringBytes l \<and> MaxStringBytes l \<le> 2097152" "4 \<le> MaxDepth l \<and> MaxDepth l \<le> 64"
    "32 \<le> MaxKeys l \<and> MaxKeys l \<le> 100000" "1024 \<le> MaxFetchBodyBytes l \<and> MaxFetchBodyBytes l \<le> 1048576"
    "1 \<le> MaxFetches l \<and> MaxFetches l \<le> 1000" "1 \<le> MaxModelRequests l \<and> MaxModelRequests l \<le> 1000"
    using assms by (auto simp: limitsValidate_def split: if_splits)
  then show ?thesis by (simp add: limitsField_def closedFields_def entry_def integerRange_goInt)
qed

lemma efforts_lower: "e \<in> set efforts \<Longrightarrow> map lowerByte e \<in> set [''none'', ''minimal'', ''low'', ''medium'', ''high'', ''max'']"
proof -
  have "list_all (\<lambda>e. map lowerByte e \<in> set [''none'', ''minimal'', ''low'', ''medium'', ''high'', ''max'']) efforts" by code_simp
  then show "e \<in> set efforts \<Longrightarrow> ?thesis" by (simp add: list_all_iff)
qed

lemma stringField_bytes: "s \<noteq> [] \<Longrightarrow> int (length s) \<le> high \<Longrightarrow> stringField 1 high (GString s)"
  using RuneCount_le_length [of s] by (auto simp: stringField_def Let_def RuneCountInString_def Suc_le_eq)

lemma providerField_ok:
  assumes "bindingInv b" "validateSamplingOptions (GObject (bind_BodyOptions b)) = Some (bind_BodyOptions b)"
  shows "providerField (GObject [(''model_id'', GString (bind_ModelID b)), (''body_options'', GObject (bind_BodyOptions b)),
    (''context_window'', goInt (bind_ContextWindow b)), (''max_output_tokens'', goInt (bind_MaxOutputTokens b)),
    (''reasoning_effort'', GString (map lowerByte (bind_ReasoningEffort b))), (''timeout_ms'', goInt (Milliseconds (bind_Timeout b))),
    (''capsule_runtime_revision'', GString (bind_RuntimeRevision b))])"
proof -
  have i: "identityOk b" and e: "executionOk b" and r: "bind_ReasoningEffort b \<in> set efforts" using assms(1) by (simp_all add: bindingInv_def)
  have "1000 \<le> Milliseconds (bind_Timeout b)" "Milliseconds (bind_Timeout b) \<le> 60000"
    using e by (auto simp: executionOk_def Milliseconds_def MinModelTimeout_def MaxModelTimeout_def second_def sgn_if)
  then have "integerRange (Milliseconds MinModelTimeout) (Milliseconds MaxModelTimeout) (goInt (Milliseconds (bind_Timeout b)))"
    by (subst integerRange_goInt) (simp_all add: Milliseconds_def MinModelTimeout_def MaxModelTimeout_def second_def)
  moreover have "stringField 1 512 (GString (bind_ModelID b))" "stringField 1 128 (GString (bind_RuntimeRevision b))"
    using i by (auto simp: identityOk_def intro!: stringField_bytes)
  moreover have "enumString [''none'', ''minimal'', ''low'', ''medium'', ''high'', ''max''] (GString (map lowerByte (bind_ReasoningEffort b)))"
    using efforts_lower [OF r] by (simp add: enumString_def)
  moreover have "samplingField (GObject (bind_BodyOptions b))" using assms(2) by (simp add: samplingField_def)
  moreover have "integerRange 1024 10000000 (goInt (bind_ContextWindow b))" "integerRange 1 1000000 (goInt (bind_MaxOutputTokens b))"
    using e by (simp_all add: integerRange_goInt executionOk_def)
  ultimately show ?thesis by (simp add: providerField_def closedFields_def entry_def)
qed

lemma toolArrayField_ok:
  assumes "list_all2 (\<lambda>t t'. tool_Name t' = tool_Name t \<and> tool_Description t' = tool_Description t \<and> validToolName (tool_Name t) \<and>
      objectField (tool_Parameters t')) tools tools'"
  shows "toolArrayField (GArray (map (\<lambda>tool. GObject [(''name'', GString (tool_Name tool)),
      (''description'', GString (tool_Description tool)), (''parameters'', tool_Parameters tool)]) tools')) \<longleftrightarrow>
    length tools \<le> 64 \<and> (\<forall>t \<in> set tools. RuneCountInString (tool_Description t) \<le> 4096)"
proof -
  have one: "toolField (GObject [(''name'', GString (tool_Name t')), (''description'', GString (tool_Description t')),
      (''parameters'', tool_Parameters t')]) \<longleftrightarrow> RuneCountInString (tool_Description t) \<le> 4096"
    if "tool_Name t' = tool_Name t \<and> tool_Description t' = tool_Description t \<and> validToolName (tool_Name t) \<and> objectField (tool_Parameters t')" for t t'
  proof -
    have "stringField 1 128 (GString (tool_Name t))" using that by (intro stringField_bytes) (auto simp: validToolName_def)
    then show ?thesis using that by (simp add: toolField_def entry_def stringField_def [of 0] Let_def)
  qed
  have "list_all toolField (map (\<lambda>tool. GObject [(''name'', GString (tool_Name tool)),
      (''description'', GString (tool_Description tool)), (''parameters'', tool_Parameters tool)]) tools') \<longleftrightarrow>
      (\<forall>t \<in> set tools. RuneCountInString (tool_Description t) \<le> 4096)"
    using assms
  proof (induction rule: list_all2_induct)
    case (Cons t ts t' ts')
    then show ?case using one [OF Cons(1)] by simp
  qed simp
  then show ?thesis using list_all2_lengthD [OF assms] by (simp add: toolArrayField_def)
qed

section \<open>Requests\<close>

lemma setEntry_map_of: "map_of (setEntry kv ms) = (map_of ms)(fst kv \<mapsto> snd kv)"
  by (induction kv ms rule: setEntry.induct) auto

lemma setEntry_keys: "fst ` set (setEntry kv ms) = insert (fst kv) (fst ` set ms)"
  by (induction kv ms rule: setEntry.induct) auto

lemma setEntry_distinct: "distinct (map fst ms) \<Longrightarrow> distinct (map fst (setEntry kv ms))"
proof (induction kv ms rule: setEntry.induct)
  case (2 kv m ms)
  then show ?case by (cases "fst m = fst kv") (simp_all add: setEntry_keys)
qed simp

lemma fold_setEntry_other: "name \<notin> fst ` set options \<Longrightarrow> map_of (fold setEntry options ms) name = map_of ms name"
  by (induction options arbitrary: ms) (auto simp: setEntry_map_of)

lemma fold_setEntry_keys: "fst ` set (fold setEntry options ms) = fst ` set options \<union> fst ` set ms"
  by (induction options arbitrary: ms) (auto simp: setEntry_keys)

lemma fold_setEntry_distinct: "distinct (map fst ms) \<Longrightarrow> distinct (map fst (fold setEntry options ms))"
  by (induction options arbitrary: ms) (auto simp: setEntry_distinct)

lemma host_not_sampling: "name \<in> set hostRequestNames \<Longrightarrow> name \<notin> set samplingNames"
  by (auto simp: hostRequestNames_def samplingNames_def)

lemma NewOpenAIAttempt_options:
  assumes "NewOpenAIAttempt rx modelID systemPrompt prompt tools outputSchema sampling reasoning window maxOut maxReq l = Inr a"
  shows "list_all (\<lambda>kv. fst kv \<in> set samplingNames) (att_samplingOptions a)" "length (att_reasoningOptions a) \<le> 1"
    "list_all (\<lambda>kv. reasoningNameOk (fst kv)) (att_reasoningOptions a)" "att_modelID a = modelID" "att_maxOutputTokens a = maxOut"
  using assms
  by (auto simp: NewOpenAIAttempt_def result_simps dest!: validateSamplingOptions_ok(3) split: if_splits option.splits gval.splits)

section \<open>An example\<close>

text \<open>A parser that knows one host, and a provider that was captured there.\<close>

definition demoUrls :: urls where
  "demoUrls = \<lparr>url_parse = (\<lambda>t. if t = ''https://m/v1''
     then Some \<lparr>url_Scheme = ''https'', url_HasUser = False, url_Host = ''m'', url_Hostname = ''m'', url_Port = [], url_Path = ''/v1'',
       url_RawPath = [], url_EscapedPath = ''/v1''\<rparr>
     else if t = ''chat/completions''
     then Some \<lparr>url_Scheme = [], url_HasUser = False, url_Host = [], url_Hostname = [], url_Port = [], url_Path = t,
       url_RawPath = [], url_EscapedPath = t\<rparr>
     else None), url_text = (\<lambda>u. url_Scheme u @ ''://'' @ url_Host u @ url_Path u)\<rparr>"

definition demoSettings :: Settings where
  "demoSettings = \<lparr>set_Transport = ''CHAT_COMPLETIONS'', set_ContextWindowTokens = Some 100000, set_MaxOutputTokens = Some 1000,
     set_SupportsStreaming = Some True, set_SupportsTools = Some True, set_SupportsStructuredOutput = Some True,
     set_SupportsTemperature = None, set_ReasoningTransport = ''REASONING_EFFORT'', set_ReasoningMapping = None,
     set_TimeoutSeconds = 60, set_MaxRetries = 2, set_MaxConcurrentTasks = 1, set_ExtraBody = [(''stop'', GString ''x'')],
     set_MetadataOrigin = []\<rparr>"

definition demoProfile :: Profile where
  "demoProfile = \<lparr>prof_ID = [1], prof_EndpointID = [2], prof_ModelID = ''m'', prof_Availability = ''AVAILABLE'',
     prof_CurrentVersion = \<lparr>pv_ID = [3], pv_VersionNumber = 1, pv_ConfigurationVersion = 1, pv_Settings = demoSettings\<rparr>\<rparr>"

definition demoEndpoint :: "UUID option \<Rightarrow> Endpoint" where
  "demoEndpoint credential = \<lparr>end_ID = [2], end_Configuration = \<lparr>conf_BaseURL = ''https://m/v1'', conf_CredentialID = credential,
     conf_Headers = [(''X-Team'', ''docs'')], conf_ChatCompletionsPath = ''chat/completions'', conf_AllowHTTP = False,
     conf_AllowPrivateNetwork = False\<rparr>, end_Lifecycle = ''ACTIVE'', end_ConfigurationVersion = 1\<rparr>"

definition demoCapture :: "int option \<Rightarrow> ProviderCapture" where
  "demoCapture version = \<lparr>cap_Role = ''DOCUMENTATION_PLANNER'', cap_ProfileID = [1], cap_ProfileVersionID = [3], cap_ProfileVersion = 1,
     cap_EndpointID = [2], cap_EndpointConfigurationVersion = 1, cap_CredentialVersion = version, cap_ReasoningEffort = ''HIGH''\<rparr>"

definition demoBinding :: "CredentialReference option \<Rightarrow> Binding" where
  "demoBinding credential = \<lparr>bind_ModelID = ''m'', bind_BaseURL = ''https://m/v1'', bind_ChatCompletionsPath = ''chat/completions'',
     bind_Headers = [(''x-team'', ''docs'')], bind_BodyOptions = [(''stop'', GArray [GString ''x''])], bind_ContextWindow = 100000,
     bind_MaxOutputTokens = 1000, bind_ReasoningEffort = ''HIGH'', bind_ReasoningOptions = [(''reasoning_effort'', GString ''high'')],
     bind_Timeout = 60000000000, bind_MaxRetries = 2, bind_Credential = credential, bind_RuntimeRevision = RuntimeRevision,
     bind_Limits = DefaultLimits, bind_NetworkPolicy = \<lparr>AllowPrivateAddresses = False, AllowPlainHTTP = False\<rparr>\<rparr>"

definition demoFactory :: "CredentialReference option \<Rightarrow> Factory" where
  "demoFactory credential = \<lparr>fac_binding = demoBinding credential, fac_role = ''PLANNER''\<rparr>"

lemma demoFactory_new:
  "NewProviderFactory demoUrls (demoCapture None) demoProfile (demoEndpoint None) True True = Inr (demoFactory None)"
  by code_simp

lemma demoFactory_credential:
  "NewProviderFactory demoUrls (demoCapture (Some 1)) demoProfile (demoEndpoint (Some i)) True True =
    Inr (demoFactory (Some \<lparr>ref_ID = i, ref_SecretVersion = 1\<rparr>))"
  by code_simp

text \<open>The attempt of a session of that factory with one tool, and the session.\<close>

definition boundAttempt :: "CredentialReference option \<Rightarrow> string \<Rightarrow> OpenAIAttempt" where
  "boundAttempt credential prompt = demoAttempt\<lparr>att_samplingOptions := [(''stop'', GArray [GString ''x''])],
     att_reasoningOptions := [(''reasoning_effort'', GString ''high'')], att_responseLimits := responseLimits (demoFactory credential),
     att_messages := [GObject [(''role'', GString ''system''), (''content'', GString ''s'')],
       GObject [(''role'', GString ''user''), (''content'', GString prompt)]]\<rparr>"

lemma demoBound: "bindAttempt (\<lambda>_. None) (demoFactory credential) ''s'' prompt [demoTool] demoParameters = Inr (boundAttempt credential prompt)"
proof -
  let ?rl = "responseLimits (demoFactory credential)"
  have limits: "rl_MaxBytes ?rl = 1048576" "responseComplexity ?rl = \<lparr>maxDepth = 32, maxStringBytes = 1048576, maxKeys = 50000\<rparr>"
    by (simp_all add: responseLimits_def demoFactory_def demoBinding_def DefaultLimits_def responseComplexity_def)
  have "validateSamplingOptions (GObject [(''stop'', GArray [GString ''x''])]) = Some [(''stop'', GArray [GString ''x''])]"
    "normalizeJSONObject (GObject [(''reasoning_effort'', GString ''high'')]) 1048576 \<lparr>maxDepth = 32, maxStringBytes = 1048576, maxKeys = 50000\<rparr> =
       Some (GObject [(''reasoning_effort'', GString ''high'')])"
    "normalizeJSONObject demoParameters 1048576 \<lparr>maxDepth = 32, maxStringBytes = 1048576, maxKeys = 50000\<rparr> = Some demoParameters"
    "validToolName ''look''" "reasoningNameOk ''reasoning_effort''" by code_simp+
  then show ?thesis using demo_compiled limits
    by (simp add: bindAttempt_def NewOpenAIAttempt_def demoAttempt_def demoTool_def submitResult_def boundAttempt_def demoFactory_def demoBinding_def
        DefaultLimits_def)
qed

definition demoSession :: "CredentialReference option \<Rightarrow> Session" where
  "demoSession credential = \<lparr>sess_factory = demoFactory credential, sess_role = ''PLANNER'', sess_systemPrompt = ''s'', sess_tools = [demoTool],
     sess_outputSchema = demoParameters, sess_invoked = False\<rparr>"

lemma demoSession_new: "NewSession (\<lambda>_. None) ''PLANNER'' ''s'' [demoTool] demoParameters (demoFactory credential) = Inr (demoSession credential)"
  by (simp add: NewSession_def demoBound) (simp add: demoSession_def boundAttempt_def demoAttempt_def demoFactory_def)

section \<open>Properties\<close>

text \<open>
  C24. The first message of a session that was made for a captured provider is one the protocol
  accepts, whatever the profile, the prompts and the schemas hold, exactly when there are at most 64
  tools and no description has more than 4096 characters. The settings of the binding, the role, the
  limits and the identifier of the attempt never stand in the way.
\<close>

theorem start_message_valid:
  assumes factory: "NewProviderFactory u captured profile endpoint hasPool hasSecrets = Inr factory"
    and session: "NewSession rx role systemPrompt tools outputSchema factory = Inr session"
    and start: "startMessage (Some bs) session prompt = Some m" "length bs = 16"
  shows "validateWireMessage m = Inr () \<longleftrightarrow> length tools \<le> 64 \<and> (\<forall>t \<in> set tools. RuneCountInString (tool_Description t) \<le> 4096)"
proof -
  note f = NewProviderFactory_ok [OF factory] and s = NewSession_ok [OF session]
  let ?required = "the (map_of messageFields ''start'')"
  have required: "map_of messageFields ''start'' = Some ?required" by (simp add: messageFields_def)
  have m: "map fst m = map fst ?required" "map_of m ''type'' = Some (GString ''start'')" "distinct (map fst ?required)"
    using start(1) by (auto simp: startMessage_def Let_def randomAttemptID_def messageFields_def)
  have role: "fac_role factory \<in> set [''PLANNER'', ''PAGE_WRITER'']" using f(8) by (auto simp: capsuleRole_def split: if_splits)
  have limits: "limitsValidate (bind_Limits (fac_binding factory)) = Inr ()" using f(1) by (simp add: bindingInv_def)
  have "ParseInt64 (decimal 1) = Some 1" by (rule ParseInt64_decimal) simp_all
  then have "list_all2 (\<lambda>f m. snd f (snd m)) ?required m \<longleftrightarrow>
      length tools \<le> 64 \<and> (\<forall>t \<in> set tools. RuneCountInString (tool_Description t) \<le> 4096)"
    using start(1) s(3) role hexEncode_operation [OF start(2)] toolArrayField_ok [OF s(4)]
      limitsField_ok [OF limits] providerField_ok [OF f(1,2)]
    by (auto simp: startMessage_def Let_def randomAttemptID_def messageFields_def s(1,2) exactString_def exactInteger_def
        jsonInteger_def goInt_def [of 1] operationIDField_def enumString_def stringField_def)
  then show ?thesis using ordered_message [OF required m(2,1,3)] by simp
qed

theorem start_message_valid_witness:
  "\<exists>m. startMessage (Some (replicate 16 0)) (demoSession None) ''p'' = Some m \<and> validateWireMessage m = Inr ()"
proof -
  obtain m where m: "startMessage (Some (replicate 16 0)) (demoSession None) ''p'' = Some m" by (simp add: startMessage_def randomAttemptID_def Let_def)
  have "RuneCountInString (tool_Description demoTool) \<le> 4096" by code_simp
  then show ?thesis using start_message_valid [OF demoFactory_new demoSession_new m] m by simp
qed

text \<open>
  No option of a model can take the place of what the host decides: in every request of an
  attempt the model, the messages, the tools, the choice of a tool, the number of answers, the
  stream and the token limit are those of the host, and a member that is not one of the host's is a
  sampling option or the one reasoning option.
\<close>

lemma host_fields_fixed:
  assumes "NewOpenAIAttempt rx modelID systemPrompt prompt tools outputSchema sampling reasoning window maxOut maxReq l = Inr a"
  shows "\<exists>body. modelRequest a turn transcript = canonicalJSON (GObject body) \<and> distinct (map fst body) \<and>
    (\<forall>name \<in> set hostRequestNames. map_of body name = map_of (requestBody a turn transcript) name) \<and>
    map_of body ''model'' = Some (GString modelID) \<and> map_of body ''max_tokens'' = Some (goInt maxOut) \<and>
    (\<forall>name \<in> fst ` set body - set hostRequestNames - set samplingNames. \<exists>v. att_reasoningOptions a = [(name, v)])"
proof -
  let ?base = "requestBody a turn transcript"
  let ?body = "fold setEntry (att_reasoningOptions a) (fold setEntry (att_samplingOptions a) ?base)"
  note o = NewOpenAIAttempt_options [OF assms]
  have host: "map_of ?body name = map_of ?base name" if "name \<in> set hostRequestNames" for name
    using that o(1,3) by (intro fold_setEntry_other trans [OF fold_setEntry_other fold_setEntry_other]) (auto simp: list_all_iff reasoningNameOk_def host_not_sampling)
  moreover have "map_of ?base ''model'' = Some (GString modelID)" "map_of ?base ''max_tokens'' = Some (goInt maxOut)"
    using o(4,5) by (simp_all add: requestBody_def)
  moreover have "distinct (map fst ?body)" by (intro fold_setEntry_distinct) (simp add: requestBody_def)
  moreover have "fst ` set ?base \<subseteq> set hostRequestNames" by (simp add: requestBody_def hostRequestNames_def)
  then have "\<exists>v. att_reasoningOptions a = [(name, v)]" if "name \<in> fst ` set ?body - set hostRequestNames - set samplingNames" for name
    using that o(1,2) unfolding fold_setEntry_keys by (cases "att_reasoningOptions a") (auto simp: list_all_iff)
  moreover have "''model'' \<in> set hostRequestNames" "''max_tokens'' \<in> set hostRequestNames" by (simp_all add: hostRequestNames_def)
  ultimately show ?thesis by (intro exI [of _ ?body] conjI ballI) (simp_all add: modelRequest_def host)
qed

lemma host_fields_fixed_example:
  "\<exists>body. modelRequest (boundAttempt None ''p'') 1 [] = canonicalJSON (GObject body) \<and> distinct (map fst body) \<and>
    map_of body ''model'' = Some (GString ''m'') \<and> map_of body ''max_tokens'' = Some (goInt 1000)"
  using host_fields_fixed [OF demoBound [of None "''p''", unfolded bindAttempt_def Let_def], of 1 "[]"]
  by (auto simp: demoFactory_def demoBinding_def)

end
