(* ===== verification/Credentials.thy ===== *)
theory Credentials
  imports CredentialVault Idempotency EventStream
begin

text \<open>
  Stored credentials (\<^verbatim>\<open>internal/credentials\<close>): creation and rotation as idempotent
  requests that write the encrypted row, an audit record and an event in one transaction, and
  the reader that opens exactly the version it is asked for. The service's cipher, keyed hash,
  vault and rendering of instants are arguments, as are the random bytes and clock readings of
  one request. Foreign keys to the operators are not modelled.
\<close>

section \<open>Tables and types\<close>

record CredentialRow =
  cred_id :: UUID
  cred_kind :: string
  cred_label :: string
  cred_masked_value :: string
  cred_key_id :: string
  cred_nonce :: string
  cred_ciphertext :: string
  cred_secret_version :: int
  cred_created_at :: pgtime
  cred_rotated_at :: "pgtime option"
  cred_deleted_at :: "pgtime option"

record RotationAttempt =
  rot_id :: UUID
  rot_credential_id :: UUID
  rot_old_secret_version :: int
  rot_new_secret_version :: int
  rot_new_key_id :: string
  rot_status :: string
  rot_actor_operator_id :: UUID
  rot_started_at :: pgtime
  rot_finished_at :: "pgtime option"

record credentialTables =
  credentials :: "CredentialRow list"
  credential_rotation_attempts :: "RotationAttempt list"
  events :: eventTables

datatype credError =
    ErrNotFound
  | ErrSecretUnavailable
  | ErrInvalidLabel
  | ErrSecurity vaultError
  | ErrEvents eventError
  | ErrStored string
  | ErrDatabase string
  | ErrArgument string
  | ErrIdempotency

record Metadata =
  meta_ID :: UUID
  meta_Kind :: string
  meta_Label :: string
  meta_MaskedValue :: string
  meta_SecretVersion :: int
  meta_KeyID :: string
  meta_CreatedAt :: pgtime
  meta_RotatedAt :: "pgtime option"

record CreateCommand =
  create_Kind :: string
  create_Label :: string
  create_Secret :: "SecretValue option"

record RotateCommand =
  rotate_CredentialID :: UUID
  rotate_Secret :: "SecretValue option"

text \<open>Four bullets.\<close>

definition MaskedValue :: string where
  "MaskedValue = concat (replicate 4 [CHR 0xE2, CHR 0x80, CHR 0xA2])"

definition pythonWhitespace :: "nat \<Rightarrow> bool" where
  "pythonWhitespace r \<longleftrightarrow> isSpaceRune r \<or> 0x1C \<le> r \<and> r \<le> 0x1F"

definition liftError :: "('e \<Rightarrow> 'f) \<Rightarrow> 'e + 'a \<Rightarrow> 'f + 'a" where
  "liftError f r = (case r of Inl e \<Rightarrow> Inl (f e) | Inr x \<Rightarrow> Inr x)"

definition ValidateCreate :: "CreateCommand \<Rightarrow> credError + unit" where
  "ValidateCreate command =
     (let label = create_Label command in
      if \<not> utf8Valid label \<or> label \<noteq> TrimFunc pythonWhitespace label \<or> RuneCountInString label < 1 \<or> RuneCountInString label > 255
      then Inl ErrInvalidLabel
      else liftError ErrSecurity (ValidateCredentialSecret (create_Kind command) (create_Secret command)))"

definition validateMetadata :: "Metadata \<Rightarrow> credError + unit" where
  "validateMetadata m =
     (if \<not> kindValid (meta_Kind m) then Inl (ErrSecurity ErrInvalidCredentialKind)
      else if meta_MaskedValue m \<noteq> MaskedValue then Inl (ErrStored ''credential mask must be fixed'')
      else if meta_SecretVersion m \<le> 0 then Inl (ErrStored ''secret_version must be positive'')
      else Inr ())"

section \<open>Reading rows\<close>

definition scanMetadata :: "CredentialRow \<Rightarrow> credError + Metadata" where
  "scanMetadata row =
     (let m = \<lparr>meta_ID = cred_id row, meta_Kind = cred_kind row, meta_Label = cred_label row, meta_MaskedValue = cred_masked_value row,
               meta_SecretVersion = cred_secret_version row, meta_KeyID = cred_key_id row, meta_CreatedAt = cred_created_at row,
               meta_RotatedAt = cred_rotated_at row\<rparr> in
      bindE (validateMetadata m) (\<lambda>_. Inr m))"

definition selectCredential :: "UUID \<Rightarrow> bool \<Rightarrow> credentialTables \<Rightarrow> CredentialRow option" where
  "selectCredential i includeDeleted s =
     find (\<lambda>row. cred_id row = i \<and> (includeDeleted \<or> cred_deleted_at row = None)) (credentials s)"

definition readMetadata :: "UUID \<Rightarrow> bool \<Rightarrow> credentialTables \<Rightarrow> credError + Metadata" where
  "readMetadata i includeDeleted s =
     (case selectCredential i includeDeleted s of None \<Rightarrow> Inl ErrNotFound | Some row \<Rightarrow> scanMetadata row)"

definition getCredential :: "UUID \<Rightarrow> credentialTables \<Rightarrow> credError + Metadata" where
  "getCredential i s = readMetadata i False s"

fun scanAll :: "CredentialRow list \<Rightarrow> credError + Metadata list" where
  "scanAll [] = Inr []"
| "scanAll (row # rows) = bindE (scanMetadata row) (\<lambda>m. bindE (scanAll rows) (\<lambda>ms. Inr (m # ms)))"

definition listCredentials :: "credentialTables \<Rightarrow> credError + Metadata list" where
  "listCredentials s = scanAll (sort_key (\<lambda>row. (cred_created_at row, cred_id row))
     (filter (\<lambda>row. cred_deleted_at row = None) (credentials s)))"

section \<open>Recording a change\<close>

record credService =
  svc_cipher :: cipher
  svc_hmac :: "string \<Rightarrow> string \<Rightarrow> byte list"
  svc_vault :: CredentialVault
  svc_pythonISO :: "pgtime \<Rightarrow> string"

text \<open>What one request draws from the random source and from the database clock.\<close>

record drawn =
  drawn_id :: "byte list"
  drawn_nonce :: "string option"
  drawn_attempt :: "byte list"
  drawn_request :: "byte list"
  clock_execute :: pgtime
  clock_operation :: pgtime
  clock_audit :: pgtime
  clock_event :: pgtime

definition newID :: "byte list \<Rightarrow> UUID" where
  "newID raw = raw[6 := or (and (raw ! 6) 0x0F) 0x40, 8 := or (and (raw ! 8) 0x3F) 0x80]"

definition metadataSnapshot :: "(pgtime \<Rightarrow> string) \<Rightarrow> Metadata \<Rightarrow> (string \<times> gval) list" where
  "metadataSnapshot render m =
     [(''id'', GString (uuidString (meta_ID m))), (''kind'', GString (map lowerByte (meta_Kind m))),
      (''label'', GString (meta_Label m)), (''masked_value'', GString (meta_MaskedValue m)),
      (''secret_version'', GNumber (decimal (meta_SecretVersion m))), (''key_id'', GString (meta_KeyID m)),
      (''created_at'', GString (render (meta_CreatedAt m))),
      (''rotated_at'', case meta_RotatedAt m of None \<Rightarrow> GNull | Some t \<Rightarrow> GString (render t))]"

definition recordChange ::
  "credService \<Rightarrow> drawn \<Rightarrow> Metadata \<Rightarrow> UUID option \<Rightarrow> string \<Rightarrow> string \<Rightarrow> (eventTables, eventError, unit) txn" where
  "recordChange svc r m actor action eventType s =
     (let snapshot = metadataSnapshot (svc_pythonISO svc) m in
      bindE (AppendAudit \<lparr>ActorType = (if actor = None then ''system'' else ''operator''), audit_ActorID = actor, Action = action,
            audit_TargetType = ''credential'', audit_TargetID = Some (meta_ID m), RequestID = newID (drawn_request r),
            Details = Some snapshot\<rparr> (clock_audit r) s) (\<lambda>(s1, _).
        Append \<lparr>event_Type = eventType, event_ResourceType = ''credential'', event_ResourceID = meta_ID m,
            event_Snapshot = Some snapshot\<rparr> (clock_event r) s1))"

section \<open>Requests\<close>

definition idempotencyTTL :: duration where
  "idempotencyTTL = 24 * 3600 * 1000000000"

definition digestRequest :: "UUID \<Rightarrow> string \<Rightarrow> string \<Rightarrow> byte list list \<Rightarrow> credError + Request" where
  "digestRequest actor key operation digests =
     (case digests of
        [] \<Rightarrow> Inl (ErrArgument ''credential digester returned no values'')
      | d # ds \<Rightarrow>
          if list_ex (\<lambda>v. length v \<noteq> 32) ds \<or> length d \<noteq> 32 then Inl (ErrArgument ''credential digest is invalid'')
          else Inr \<lparr>req_Scope = ''operator:'' @ uuidString actor, req_Key = key, req_Operation = operation, req_Digest = d,
                    req_AcceptedDigests = ds, req_TTL = idempotencyTTL\<rparr>)"

definition ParseInt32 :: "string \<Rightarrow> int option" where
  "ParseInt32 s = (case ParseInt64 s of None \<Rightarrow> None | Some n \<Rightarrow> if - (2 ^ 31) \<le> n \<and> n < 2 ^ 31 then Some n else None)"

definition metadataForResult :: "Result \<Rightarrow> credentialTables \<Rightarrow> credError + Metadata" where
  "metadataForResult result s =
     (let resourceType = takeWhile (\<lambda>c. c \<noteq> CHR '':'') (res_Type result);
          versionText = drop (Suc (length resourceType)) (res_Type result) in
      if CHR '':'' \<notin> set (res_Type result) \<or> resourceType \<noteq> ''credential'' then Inl ErrIdempotency
      else case ParseInt32 versionText of
        None \<Rightarrow> Inl ErrIdempotency
      | Some expected \<Rightarrow>
          if expected \<le> 0 \<or> decimal expected \<noteq> versionText then Inl ErrIdempotency
          else (case readMetadata (res_ID result) False s of
              Inl ErrNotFound \<Rightarrow> Inl ErrIdempotency
            | Inl e \<Rightarrow> Inl e
            | Inr m \<Rightarrow> if meta_SecretVersion m \<noteq> expected then Inl ErrIdempotency else Inr m))"

fun idemFailure :: "credError idemError \<Rightarrow> credError" where
  "idemFailure (ErrOperation e) = e"
| "idemFailure ErrConflict = ErrIdempotency"
| "idemFailure (ErrRequest m) = ErrArgument m"

text \<open>\<^verbatim>\<open>execute\<close>: one transaction around the request and the read of its result.\<close>

definition execute ::
  "Request \<Rightarrow> pgtime \<Rightarrow> (credentialTables, credError, Result) txn \<Rightarrow> (credentialTables idemTables, credError, Metadata) action" where
  "execute request now operation s =
     (case Execute request now operation s of
        Inl e \<Rightarrow> (s, Inl (idemFailure e))
      | Inr (s1, result) \<Rightarrow>
          (case metadataForResult result (other_tables s1) of
             Inl e \<Rightarrow> (s, Inl e)
           | Inr m \<Rightarrow> (s1, Inr m)))"

section \<open>Creation\<close>

definition createOperation :: "credService \<Rightarrow> drawn \<Rightarrow> CreateCommand \<Rightarrow> UUID \<Rightarrow> (credentialTables, credError, Result) txn" where
  "createOperation svc r command actor s =
     (let i = newID (drawn_id r) in
      bindE (liftError ErrSecurity (Encrypt (svc_cipher svc) (svc_vault svc) i (create_Kind command) 1 (create_Secret command) (drawn_nonce r))) (\<lambda>envelope.
        if list_ex (\<lambda>row. cred_id row = i) (credentials s) then Inl (ErrDatabase ''duplicate key value violates unique constraint'')
        else let s1 = s\<lparr>credentials := credentials s @ [\<lparr>cred_id = i, cred_kind = create_Kind command, cred_label = create_Label command,
               cred_masked_value = MaskedValue, cred_key_id = envelope_keyID envelope, cred_nonce = envelope_nonce envelope,
               cred_ciphertext = envelope_ciphertext envelope, cred_secret_version = 1, cred_created_at = clock_operation r,
               cred_rotated_at = None, cred_deleted_at = None\<rparr>]\<rparr> in
          bindE (readMetadata i False s1) (\<lambda>m.
            bindE (liftError ErrEvents (recordChange svc r m (Some actor) ''credential.create'' ''credential.created'' (events s1))) (\<lambda>(e, _).
              Inr (s1\<lparr>events := e\<rparr>, \<lparr>res_Type = ''credential:1'', res_ID = i\<rparr>)))))"

definition Create ::
  "credService \<Rightarrow> drawn \<Rightarrow> CreateCommand \<Rightarrow> UUID \<Rightarrow> string \<Rightarrow> (credentialTables idemTables, credError, Metadata) action" where
  "Create svc r command actor requestKey s =
     (case bindE (ValidateCreate command) (\<lambda>_.
         bindE (liftError ErrSecurity (KeyedDigests (svc_hmac svc) (svc_vault svc)
             [''credential.create'', create_Kind command, create_Label command,
              case create_Secret command of None \<Rightarrow> [] | Some v \<Rightarrow> Reveal v])) (\<lambda>digests.
           digestRequest actor requestKey ''credential.create'' digests)) of
        Inl e \<Rightarrow> (s, Inl e)
      | Inr request \<Rightarrow> execute request (clock_execute r) (createOperation svc r command actor) s)"

section \<open>Rotation\<close>

text \<open>The new version is computed in 32 bits and wraps around.\<close>

definition int32 :: "int \<Rightarrow> int" where
  "int32 n = (n + 2 ^ 31) mod 2 ^ 32 - 2 ^ 31"

definition rotateOperation :: "credService \<Rightarrow> drawn \<Rightarrow> RotateCommand \<Rightarrow> UUID \<Rightarrow> (credentialTables, credError, Result) txn" where
  "rotateOperation svc r command actor s =
     (let i = rotate_CredentialID command in
      case selectCredential i False s of
        None \<Rightarrow> Inl ErrNotFound
      | Some row \<Rightarrow>
          bindE (liftError ErrSecurity (ValidateCredentialSecret (cred_kind row) (rotate_Secret command))) (\<lambda>_.
            let newVersion = int32 (cred_secret_version row + 1) in
            bindE (liftError ErrSecurity (Encrypt (svc_cipher svc) (svc_vault svc) i (cred_kind row) newVersion (rotate_Secret command) (drawn_nonce r))) (\<lambda>envelope.
              let attemptID = newID (drawn_attempt r);
                  s1 = s\<lparr>credentials := map (\<lambda>c. if cred_id c = i then c\<lparr>cred_key_id := envelope_keyID envelope,
                         cred_nonce := envelope_nonce envelope, cred_ciphertext := envelope_ciphertext envelope,
                         cred_secret_version := newVersion, cred_rotated_at := Some (clock_operation r)\<rparr> else c) (credentials s)\<rparr> in
              if list_ex (\<lambda>a. rot_id a = attemptID) (credential_rotation_attempts s) then Inl (ErrDatabase ''duplicate key value violates unique constraint'')
              else let s2 = s1\<lparr>credential_rotation_attempts := credential_rotation_attempts s @ [\<lparr>rot_id = attemptID, rot_credential_id = i,
                     rot_old_secret_version = cred_secret_version row, rot_new_secret_version = newVersion,
                     rot_new_key_id = envelope_keyID envelope, rot_status = ''SUCCEEDED'', rot_actor_operator_id = actor,
                     rot_started_at = clock_operation r, rot_finished_at = Some (clock_operation r)\<rparr>]\<rparr> in
                bindE (readMetadata i False s2) (\<lambda>m.
                  bindE (liftError ErrEvents (recordChange svc r m (Some actor) ''credential.rotate'' ''credential.rotated'' (events s2))) (\<lambda>(e, _).
                    Inr (s2\<lparr>events := e\<rparr>, \<lparr>res_Type = ''credential:'' @ decimal newVersion, res_ID = i\<rparr>))))))"

definition Rotate ::
  "credService \<Rightarrow> drawn \<Rightarrow> RotateCommand \<Rightarrow> UUID \<Rightarrow> string \<Rightarrow> (credentialTables idemTables, credError, Metadata) action" where
  "Rotate svc r command actor requestKey s =
     (case rotate_Secret command of
        None \<Rightarrow> (s, Inl (ErrSecurity ErrInvalidSecret))
      | Some secret \<Rightarrow>
          (case bindE (liftError ErrSecurity (KeyedDigests (svc_hmac svc) (svc_vault svc)
                 [''credential.rotate'', bytesOf (rotate_CredentialID command), Reveal secret])) (\<lambda>digests.
               digestRequest actor requestKey ''credential.rotate'' digests) of
             Inl e \<Rightarrow> (s, Inl e)
           | Inr request \<Rightarrow> execute request (clock_execute r) (rotateOperation svc r command actor) s))"

section \<open>The reader\<close>

definition ReadSecret :: "cipher \<Rightarrow> CredentialVault \<Rightarrow> UUID \<Rightarrow> string \<Rightarrow> int \<Rightarrow> credentialTables \<Rightarrow> credError + SecretValue" where
  "ReadSecret c vault i expectedKind expectedSecretVersion s =
     (if expectedSecretVersion \<le> 0 then Inl (ErrArgument ''expected_secret_version must be positive'')
      else case find (\<lambda>row. cred_id row = i \<and> cred_kind row = expectedKind \<and> cred_secret_version row = expectedSecretVersion \<and>
                 cred_deleted_at row = None) (credentials s) of
        None \<Rightarrow> Inl ErrSecretUnavailable
      | Some row \<Rightarrow>
          if cred_kind row \<noteq> expectedKind \<or> cred_secret_version row \<noteq> expectedSecretVersion then Inl ErrSecretUnavailable
          else (case bindE (NewCredentialEnvelope i expectedKind expectedSecretVersion (cred_key_id row) (cred_nonce row)
                   (cred_ciphertext row)) (Decrypt c vault) of
              Inl _ \<Rightarrow> Inl ErrSecretUnavailable
            | Inr secret \<Rightarrow> Inr secret))"

end
