(* ===== verification/CredentialProperties.thy ===== *)
theory CredentialProperties
  imports Credentials VaultProperties
begin

text \<open>
  Stored credentials as a versioned store of secrets: what each request does to the store, and
  that a captured version names one secret for good.
\<close>

section \<open>The contract of a versioned secret store\<close>

text \<open>A lookup gives the kind, the version and the secret of a name. A step leaves a name alone,
  introduces it, or replaces its secret under the next version; a read asks for one version.\<close>

locale secret_store =
  fixes inv :: "'s \<Rightarrow> bool"
    and step :: "'s \<Rightarrow> 's \<Rightarrow> bool"
    and lookup :: "'s \<Rightarrow> 'i \<Rightarrow> ('k \<times> int \<times> 'v) option"
    and read :: "'s \<Rightarrow> 'i \<Rightarrow> 'k \<Rightarrow> int \<Rightarrow> 'v option"
  assumes inv_step: "inv s \<Longrightarrow> step s t \<Longrightarrow> inv t"
    and step_lookup: "inv s \<Longrightarrow> step s t \<Longrightarrow> lookup s i = Some (k, v, x) \<Longrightarrow>
      lookup t i = Some (k, v, x) \<or> (\<exists>y. lookup t i = Some (k, v + 1, y))"
    and read_lookup: "inv s \<Longrightarrow> read s i k v = Some x \<longleftrightarrow> lookup s i = Some (k, v, x)"
begin

lemma inv_run: "reach step s t \<Longrightarrow> inv s \<Longrightarrow> inv t"
  by (induction rule: reach.induct) (auto intro: inv_step)

lemma versions_grow:
  "reach step s t \<Longrightarrow> inv s \<Longrightarrow> lookup s i = Some (k, v, x) \<Longrightarrow>
    \<exists>w y. lookup t i = Some (k, w, y) \<and> v \<le> w \<and> (w = v \<longrightarrow> y = x)"
proof (induction rule: reach.induct)
  case (reach_step s t u)
  then obtain w y where t: "lookup t i = Some (k, w, y)" "v \<le> w" "w = v \<longrightarrow> y = x" by blast
  have "inv t" using inv_run reach_step by blast
  from step_lookup [OF this reach_step(2) t(1)] t show ?case by fastforce
qed simp

lemma captured_stable:
  assumes "reach step s t" "inv s" "read s i k v = Some x"
  shows "read t i k v = Some x \<or> read t i k v = None"
proof (cases "read t i k v")
  case (Some y)
  have "lookup s i = Some (k, v, x)" using read_lookup assms(2,3) by simp
  then obtain w z where "lookup t i = Some (k, w, z)" "w = v \<longrightarrow> z = x" using versions_grow [OF assms(1,2)] by blast
  moreover have "lookup t i = Some (k, v, y)" using read_lookup inv_run [OF assms(1,2)] Some by simp
  ultimately show ?thesis using Some by simp
qed simp

end

section \<open>Rows that open\<close>

definition trusts :: "CredentialVault \<Rightarrow> CredentialVault \<Rightarrow> bool" where
  "trusts reader writer \<longleftrightarrow> vault_byID reader (vault_activeID writer) = Some (keyOf writer (vault_activeID writer))"

definition secretOk :: "SecretValue option \<Rightarrow> bool" where
  "secretOk secret \<longleftrightarrow> (case secret of None \<Rightarrow> True | Some v \<Rightarrow> NewSecretValue (Reveal v) = Inr v)"

definition openRow :: "cipher \<Rightarrow> CredentialVault \<Rightarrow> CredentialRow \<Rightarrow> SecretValue option" where
  "openRow c vault row =
     (case bindE (NewCredentialEnvelope (cred_id row) (cred_kind row) (cred_secret_version row) (cred_key_id row) (cred_nonce row)
         (cred_ciphertext row)) (Decrypt c vault) of Inl _ \<Rightarrow> None | Inr secret \<Rightarrow> Some secret)"

lemma Encrypt_opens:
  assumes "Encrypt c v i kind ver secret random = Inr envelope" "lawfulCipher c" "trusts vr v" "secretOk secret"
  obtains s where "secret = Some s" "kindValid kind" "0 < ver"
    "bindE (NewCredentialEnvelope i kind ver (envelope_keyID envelope) (envelope_nonce envelope) (envelope_ciphertext envelope))
       (Decrypt c vr) = Inr s"
proof -
  obtain nonce where e: "encryptWithNonce c v i kind ver secret nonce = Inr envelope"
    using assms(1) by (auto simp: Encrypt_def split: option.splits)
  obtain s where s: "secret = Some s" "kindValid kind" "0 < ver" "length (envelope_nonce envelope) = 12" "envelope_credentialID envelope = i"
      "envelope_kind envelope = kind" "envelope_secretVersion envelope = ver"
    using encryptWithNonce_ok [OF e] by (metis CredentialEnvelope.select_convs(1,2,3,5))
  have "Decrypt c vr envelope = Inr s"
    using Decrypt_encrypted [OF assms(2) assms(3) [unfolded trusts_def] _ e [unfolded s(1)]] assms(4) s(1) by (simp add: secretOk_def)
  moreover have "NewCredentialEnvelope i kind ver (envelope_keyID envelope) (envelope_nonce envelope) (envelope_ciphertext envelope) = Inr envelope"
    using s by (simp add: NewCredentialEnvelope_def)
  ultimately show thesis using that s by simp
qed

lemma liftError_eqs [result_simps]: "liftError f r = Inr x \<longleftrightarrow> r = Inr x"
  by (auto simp: liftError_def split: sum.splits)

lemma createOperation_effect:
  assumes "createOperation svc r command actor s = Inr (s', result)" "lawfulCipher (svc_cipher svc)" "trusts vr (svc_vault svc)"
    "secretOk (create_Secret command)"
  obtains row secret where "credentials s' = credentials s @ [row]" "cred_id row \<notin> cred_id ` set (credentials s)"
    "cred_kind row = create_Kind command" "create_Secret command = Some secret" "cred_secret_version row = 1"
    "cred_deleted_at row = None" "openRow (svc_cipher svc) vr row = Some secret" "cred_id row = newID (drawn_id r)"
    "res_ID result = newID (drawn_id r)"
proof -
  obtain envelope where e: "Encrypt (svc_cipher svc) (svc_vault svc) (newID (drawn_id r)) (create_Kind command) 1 (create_Secret command) (drawn_nonce r) = Inr envelope"
    and new: "\<forall>row \<in> set (credentials s). cred_id row \<noteq> newID (drawn_id r)" and result: "res_ID result = newID (drawn_id r)"
    and s': "credentials s' = credentials s @ [\<lparr>cred_id = newID (drawn_id r), cred_kind = create_Kind command, cred_label = create_Label command,
               cred_masked_value = MaskedValue, cred_key_id = envelope_keyID envelope, cred_nonce = envelope_nonce envelope,
               cred_ciphertext = envelope_ciphertext envelope, cred_secret_version = 1, cred_created_at = clock_operation r,
               cred_rotated_at = None, cred_deleted_at = None\<rparr>]"
    using assms(1) by (auto simp: createOperation_def Let_def result_simps list_ex_iff split: if_splits)
  obtain secret where "create_Secret command = Some secret"
    "bindE (NewCredentialEnvelope (newID (drawn_id r)) (create_Kind command) 1 (envelope_keyID envelope) (envelope_nonce envelope) (envelope_ciphertext envelope))
       (Decrypt (svc_cipher svc) vr) = Inr secret"
    using Encrypt_opens [OF e assms(2-4)] by metis
  then show thesis using s' new result by (intro that) (auto simp: openRow_def)
qed

definition rotatedRow :: "CredentialEnvelope \<Rightarrow> int \<Rightarrow> pgtime \<Rightarrow> CredentialRow \<Rightarrow> CredentialRow" where
  "rotatedRow envelope version now c = c\<lparr>cred_key_id := envelope_keyID envelope, cred_nonce := envelope_nonce envelope,
     cred_ciphertext := envelope_ciphertext envelope, cred_secret_version := version, cred_rotated_at := Some now\<rparr>"

lemma rotateOperation_effect:
  assumes "rotateOperation svc r command actor s = Inr (s', result)" "lawfulCipher (svc_cipher svc)" "trusts vr (svc_vault svc)"
    "secretOk (rotate_Secret command)"
  obtains row envelope secret where "selectCredential (rotate_CredentialID command) False s = Some row"
    "rotate_Secret command = Some secret" "0 < int32 (cred_secret_version row + 1)"
    "credentials s' = map (\<lambda>c. if cred_id c = rotate_CredentialID command
       then rotatedRow envelope (int32 (cred_secret_version row + 1)) (clock_operation r) c else c) (credentials s)"
    "openRow (svc_cipher svc) vr (rotatedRow envelope (int32 (cred_secret_version row + 1)) (clock_operation r) row) = Some secret"
    "res_ID result = rotate_CredentialID command" "res_Type result = ''credential:'' @ decimal (int32 (cred_secret_version row + 1))"
proof -
  let ?i = "rotate_CredentialID command"
  obtain row envelope where row: "selectCredential ?i False s = Some row"
    and e: "Encrypt (svc_cipher svc) (svc_vault svc) ?i (cred_kind row) (int32 (cred_secret_version row + 1)) (rotate_Secret command) (drawn_nonce r) = Inr envelope"
    and s': "credentials s' = map (\<lambda>c. if cred_id c = ?i
       then rotatedRow envelope (int32 (cred_secret_version row + 1)) (clock_operation r) c else c) (credentials s)"
    and result: "res_ID result = ?i" "res_Type result = ''credential:'' @ decimal (int32 (cred_secret_version row + 1))"
    using assms(1) by (auto simp: rotateOperation_def rotatedRow_def Let_def result_simps cong: if_cong split: if_splits option.splits)
  obtain secret where "rotate_Secret command = Some secret" "0 < int32 (cred_secret_version row + 1)"
    "bindE (NewCredentialEnvelope ?i (cred_kind row) (int32 (cred_secret_version row + 1)) (envelope_keyID envelope) (envelope_nonce envelope) (envelope_ciphertext envelope))
       (Decrypt (svc_cipher svc) vr) = Inr secret"
    using Encrypt_opens [OF e assms(2-4)] by metis
  moreover have "cred_id row = ?i" using row by (auto simp: selectCredential_def dest: find_SomeD)
  ultimately show thesis using row s' result by (intro that) (auto simp: openRow_def rotatedRow_def)
qed

section \<open>The store\<close>

definition absStore :: "cipher \<Rightarrow> CredentialVault \<Rightarrow> CredentialRow list \<Rightarrow> UUID \<Rightarrow> (string \<times> int \<times> SecretValue) option" where
  "absStore c vault rows i = Option.bind (find (\<lambda>row. cred_id row = i \<and> cred_deleted_at row = None) rows)
     (\<lambda>row. map_option (\<lambda>secret. (cred_kind row, cred_secret_version row, secret)) (openRow c vault row))"

definition rowsOk :: "CredentialRow list \<Rightarrow> bool" where
  "rowsOk rows \<longleftrightarrow> distinct (map cred_id rows) \<and> (\<forall>row \<in> set rows. 0 < cred_secret_version row \<and> cred_secret_version row < 2 ^ 31)"

definition storeInv :: "credentialTables idemTables \<Rightarrow> bool" where
  "storeInv s \<longleftrightarrow> keysUnique s \<and> rowsOk (credentials (other_tables s))"

lemma find_distinct:
  "distinct (map f xs) \<Longrightarrow> x \<in> set xs \<Longrightarrow> P x \<Longrightarrow> find (\<lambda>y. f y = f x \<and> P y) xs = Some x"
  by (induction xs) (auto simp: image_iff)

lemma find_live:
  assumes "rowsOk rows"
  shows "find (\<lambda>row. cred_id row = i \<and> cred_deleted_at row = None) rows = Some row \<longleftrightarrow>
    row \<in> set rows \<and> cred_id row = i \<and> cred_deleted_at row = None"
  using assms find_distinct [of cred_id rows row "\<lambda>row. cred_deleted_at row = None"]
  by (auto simp: rowsOk_def dest: find_SomeD)

lemma absStore_Some:
  assumes "rowsOk rows"
  shows "absStore c vault rows i = Some (k, v, x) \<longleftrightarrow> (\<exists>row \<in> set rows. cred_id row = i \<and> cred_deleted_at row = None \<and>
    cred_kind row = k \<and> cred_secret_version row = v \<and> openRow c vault row = Some x)"
  using find_live [OF assms] by (fastforce simp: absStore_def bind_eq_Some_conv)

definition readVersion :: "cipher \<Rightarrow> CredentialVault \<Rightarrow> credentialTables idemTables \<Rightarrow> UUID \<Rightarrow> string \<Rightarrow> int \<Rightarrow> SecretValue option" where
  "readVersion c vault s i kind version =
     (case ReadSecret c vault i kind version (other_tables s) of Inl _ \<Rightarrow> None | Inr secret \<Rightarrow> Some secret)"

lemma readVersion_absStore:
  assumes "storeInv s"
  shows "readVersion c vault s i kind version = Some x \<longleftrightarrow> absStore c vault (credentials (other_tables s)) i = Some (kind, version, x)"
proof -
  let ?rows = "credentials (other_tables s)"
  let ?P = "\<lambda>row. cred_id row = i \<and> cred_kind row = kind \<and> cred_secret_version row = version \<and> cred_deleted_at row = None"
  have ok: "rowsOk ?rows" using assms by (simp add: storeInv_def)
  have f: "find ?P ?rows = Some row \<longleftrightarrow> row \<in> set ?rows \<and> ?P row" for row
    using ok find_distinct [of cred_id ?rows row "\<lambda>r. cred_kind r = kind \<and> cred_secret_version r = version \<and> cred_deleted_at r = None"]
    by (auto simp: rowsOk_def dest: find_SomeD)
  show ?thesis
  proof (cases "find ?P ?rows")
    case None
    then show ?thesis using f by (auto simp: readVersion_def ReadSecret_def absStore_Some [OF ok])
  next
    case (Some row)
    then have row: "row \<in> set ?rows" "?P row" using f by auto
    have unique: "r = row" if "r \<in> set ?rows" "?P r" for r using f that Some by (metis option.inject)
    have "0 < version" using ok row by (auto simp: rowsOk_def)
    then have "readVersion c vault s i kind version = openRow c vault row"
      using Some row(2) by (simp add: readVersion_def ReadSecret_def openRow_def split: sum.split)
    moreover have "openRow c vault row = Some x \<longleftrightarrow> absStore c vault ?rows i = Some (kind, version, x)"
      using absStore_Some [OF ok, of c vault i kind version x] row unique by blast
    ultimately show ?thesis by simp
  qed
qed

lemma Execute_effect:
  assumes "execute request now operation s = (s', res)" "keysUnique s"
  shows "keysUnique s' \<and> (other_tables s' = other_tables s \<or> (\<exists>result. operation (other_tables s) = Inr (other_tables s', result)))"
proof (cases "Execute request now operation s")
  case (Inl e)
  then show ?thesis using assms by (simp add: execute_def)
next
  case (Inr x)
  then obtain s1 result where x: "Execute request now operation s = Inr (s1, result)" by (cases x) auto
  show ?thesis
  proof (cases "s' = s")
    case False
    then have "s' = s1" using assms(1) x by (auto simp: execute_def split: sum.splits)
    then show ?thesis using x assms(2) by (auto elim: Execute_ok)
  qed (use assms(2) in simp)
qed

inductive credStep :: "cipher \<Rightarrow> CredentialVault \<Rightarrow> credentialTables idemTables \<Rightarrow> credentialTables idemTables \<Rightarrow> bool" for c vr where
  create: "svc_cipher svc = c \<Longrightarrow> trusts vr (svc_vault svc) \<Longrightarrow> secretOk (create_Secret command) \<Longrightarrow>
     Create svc r command actor requestKey s = (s', res) \<Longrightarrow> credStep c vr s s'"
| rotate: "svc_cipher svc = c \<Longrightarrow> trusts vr (svc_vault svc) \<Longrightarrow> secretOk (rotate_Secret command) \<Longrightarrow>
     Rotate svc r command actor requestKey s = (s', res) \<Longrightarrow> credStep c vr s s'"

lemma Create_cases:
  assumes "Create svc r command actor requestKey s = (s', res)" "keysUnique s"
  shows "keysUnique s' \<and> (other_tables s' = other_tables s \<or>
    (\<exists>result. createOperation svc r command actor (other_tables s) = Inr (other_tables s', result)))"
  using assms Execute_effect by (auto simp: Create_def split: sum.splits)

lemma Rotate_cases:
  assumes "Rotate svc r command actor requestKey s = (s', res)" "keysUnique s"
  shows "keysUnique s' \<and> (other_tables s' = other_tables s \<or>
    (\<exists>result. rotateOperation svc r command actor (other_tables s) = Inr (other_tables s', result)))"
  using assms Execute_effect by (auto simp: Rotate_def split: sum.splits option.splits)

lemma int32_pos: "0 < v \<Longrightarrow> v < 2 ^ 31 \<Longrightarrow> 0 < int32 (v + 1) \<Longrightarrow> int32 (v + 1) = v + 1 \<and> v + 1 < 2 ^ 31"
proof (cases "v + 1 < 2 ^ 31")
  case True
  then show "0 < v \<Longrightarrow> ?thesis" by (simp add: int32_def mod_pos_pos_trivial)
next
  case False
  assume "v < 2 ^ 31" "0 < int32 (v + 1)"
  then have "v + 1 = 2 ^ 31" using False by simp
  then show ?thesis using \<open>0 < int32 (v + 1)\<close> by (simp add: int32_def)
qed

text \<open>What a step does to the rows: nothing, one new name at version one, or the next version of
  one name.\<close>

lemma credStep_rows:
  assumes "credStep c vr s s'" "lawfulCipher c" "storeInv s"
  shows "keysUnique s' \<and> (credentials (other_tables s') = credentials (other_tables s) \<or>
    (\<exists>row. credentials (other_tables s') = credentials (other_tables s) @ [row] \<and>
       cred_id row \<notin> cred_id ` set (credentials (other_tables s)) \<and> cred_secret_version row = 1) \<or>
    (\<exists>i envelope now old x. old \<in> set (credentials (other_tables s)) \<and> cred_id old = i \<and> cred_secret_version old + 1 < 2 ^ 31 \<and>
       credentials (other_tables s') = map (\<lambda>r. if cred_id r = i then rotatedRow envelope (cred_secret_version old + 1) now r else r)
         (credentials (other_tables s)) \<and>
       openRow c vr (rotatedRow envelope (cred_secret_version old + 1) now old) = Some x))"
  using assms(1)
proof cases
  case (create svc command r actor requestKey res)
  have k: "keysUnique s" using assms(3) by (simp add: storeInv_def)
  show ?thesis
  proof (cases "other_tables s' = other_tables s")
    case False
    then obtain result where op: "createOperation svc r command actor (other_tables s) = Inr (other_tables s', result)"
      using Create_cases [OF create(4) k] by blast
    from assms(2) create(1) have "lawfulCipher (svc_cipher svc)" by simp
    from createOperation_effect [OF op this create(2,3)] show ?thesis
      using Create_cases [OF create(4) k] by metis
  qed (use Create_cases [OF create(4) k] in simp)
next
  case (rotate svc command r actor requestKey res)
  have k: "keysUnique s" using assms(3) by (simp add: storeInv_def)
  show ?thesis
  proof (cases "other_tables s' = other_tables s")
    case False
    then obtain result where op: "rotateOperation svc r command actor (other_tables s) = Inr (other_tables s', result)"
      using Rotate_cases [OF rotate(4) k] by blast
    from assms(2) rotate(1) have "lawfulCipher (svc_cipher svc)" by simp
    from this rotate(2,3) obtain row envelope secret where e: "selectCredential (rotate_CredentialID command) False (other_tables s) = Some row"
      "rotate_Secret command = Some secret" "0 < int32 (cred_secret_version row + 1)"
      "credentials (other_tables s') = map (\<lambda>c. if cred_id c = rotate_CredentialID command
         then rotatedRow envelope (int32 (cred_secret_version row + 1)) (clock_operation r) c else c) (credentials (other_tables s))"
      "openRow (svc_cipher svc) vr (rotatedRow envelope (int32 (cred_secret_version row + 1)) (clock_operation r) row) = Some secret"
      by (rule rotateOperation_effect [OF op])
    have row: "row \<in> set (credentials (other_tables s))" "cred_id row = rotate_CredentialID command"
      using e(1) by (auto simp: selectCredential_def dest: find_SomeD)
    have "0 < cred_secret_version row \<and> cred_secret_version row < 2 ^ 31" using assms(3) row by (auto simp: storeInv_def rowsOk_def)
    then have v: "int32 (cred_secret_version row + 1) = cred_secret_version row + 1" "cred_secret_version row + 1 < 2 ^ 31"
      using int32_pos e(3) by blast+
    have new: "keysUnique s'" using Rotate_cases [OF rotate(4) k] by simp
    show ?thesis
      by (intro conjI disjI2 exI [of _ "cred_id row"] exI [of _ envelope] exI [of _ "clock_operation r"] exI [of _ row] exI [of _ secret])
        (use new row e v rotate(1) in simp_all)
  qed (use Rotate_cases [OF rotate(4) k] in simp)
qed

lemma rotatedRow_frame [simp]:
  "cred_id (rotatedRow e v now r) = cred_id r" "cred_kind (rotatedRow e v now r) = cred_kind r"
  "cred_deleted_at (rotatedRow e v now r) = cred_deleted_at r" "cred_secret_version (rotatedRow e v now r) = v"
  by (simp_all add: rotatedRow_def)

lemma credStep_inv:
  assumes "credStep c vr s s'" "lawfulCipher c" "storeInv s"
  shows "storeInv s'"
proof -
  have same: "map cred_id (map (\<lambda>r. if cred_id r = i then rotatedRow envelope v now r else r) rows) = map cred_id rows"
    for rows i envelope v now by simp
  from credStep_rows [OF assms] assms(3) show ?thesis
    unfolding storeInv_def rowsOk_def
    by (elim conjE disjE exE) (force simp: same simp del: map_map)+
qed

lemma credStep_lookup:
  assumes "credStep c vr s s'" "lawfulCipher c" "storeInv s"
    and "absStore c vr (credentials (other_tables s)) i = Some (k, v, x)"
  shows "absStore c vr (credentials (other_tables s')) i = Some (k, v, x) \<or>
    (\<exists>y. absStore c vr (credentials (other_tables s')) i = Some (k, v + 1, y))"
proof -
  let ?rows = "credentials (other_tables s)"
  have ok: "rowsOk ?rows" "rowsOk (credentials (other_tables s'))"
    using assms(3) credStep_inv [OF assms(1-3)] by (simp_all add: storeInv_def)
  obtain row where row: "row \<in> set ?rows" "cred_id row = i" "cred_deleted_at row = None" "cred_kind row = k"
    "cred_secret_version row = v" "openRow c vr row = Some x"
    using assms(4) by (auto simp: absStore_Some [OF ok(1)])
  have unique: "r = row" if "r \<in> set ?rows" "cred_id r = i" for r
    using ok(1) row(1,2) that by (auto simp: rowsOk_def distinct_map inj_on_def)
  from credStep_rows [OF assms(1-3)]
  consider "credentials (other_tables s') = ?rows"
    | r where "credentials (other_tables s') = ?rows @ [r]"
    | j envelope now old y where "old \<in> set ?rows" "cred_id old = j"
      "credentials (other_tables s') = map (\<lambda>r. if cred_id r = j then rotatedRow envelope (cred_secret_version old + 1) now r else r) ?rows"
      "openRow c vr (rotatedRow envelope (cred_secret_version old + 1) now old) = Some y" by blast
  then show ?thesis
  proof cases
    case 3
    let ?f = "\<lambda>r. if cred_id r = j then rotatedRow envelope (cred_secret_version old + 1) now r else r"
    have mem: "?f row \<in> set (credentials (other_tables s'))" using 3(3) row(1) by simp
    show ?thesis
    proof (cases "j = i")
      case True
      then have "old = row" using unique 3(1,2) by blast
      then show ?thesis using True mem 3(4) row
        by (intro disjI2 exI [of _ y]) (auto simp: absStore_Some [OF ok(2)] intro!: bexI [of _ "?f row"])
    next
      case False
      then show ?thesis using mem row by (auto simp: absStore_Some [OF ok(2)])
    qed
  next
    case 1
    then show ?thesis using assms(4) by simp
  next
    case (2 r)
    then have "row \<in> set (credentials (other_tables s'))" using row(1) by simp
    then show ?thesis using absStore_Some [OF ok(2), of c vr i k v x] row by blast
  qed
qed

text \<open>The model's store is such a store, for a lawful cipher.\<close>

definition lawfulInv :: "cipher \<Rightarrow> credentialTables idemTables \<Rightarrow> bool" where
  "lawfulInv c s \<longleftrightarrow> lawfulCipher c \<and> storeInv s"

interpretation credentialStore: secret_store "lawfulInv c" "credStep c vr"
  "\<lambda>s. absStore c vr (credentials (other_tables s))" "readVersion c vr" for c vr
proof
  fix s t i k v x
  assume "lawfulInv c s" "credStep c vr s t"
  then show "lawfulInv c t" using credStep_inv by (auto simp: lawfulInv_def)
  assume "absStore c vr (credentials (other_tables s)) i = Some (k, v, x)"
  then show "absStore c vr (credentials (other_tables t)) i = Some (k, v, x) \<or>
      (\<exists>y. absStore c vr (credentials (other_tables t)) i = Some (k, v + 1, y))"
    using credStep_lookup \<open>lawfulInv c s\<close> \<open>credStep c vr s t\<close> by (simp add: lawfulInv_def)
qed (simp add: lawfulInv_def readVersion_absStore)

lemma readVersion_eq:
  "readVersion c vr s i kind v = Some x \<longleftrightarrow> ReadSecret c vr i kind v (other_tables s) = Inr x"
  "0 < v \<Longrightarrow> readVersion c vr s i kind v = None \<longleftrightarrow> ReadSecret c vr i kind v (other_tables s) = Inl ErrSecretUnavailable"
  by (auto simp: readVersion_def ReadSecret_def split: sum.splits option.splits if_splits)

lemma ReadSecret_positive: "ReadSecret c vr i kind v s = Inr x \<Longrightarrow> 0 < v"
  by (auto simp: ReadSecret_def split: if_splits)

lemma metadata_row:
  assumes "metadataForResult result s = Inr m" "rowsOk (credentials s)" "row \<in> set (credentials s)" "cred_id row = res_ID result"
    "cred_deleted_at row = None"
  shows "meta_ID m = cred_id row \<and> meta_SecretVersion m = cred_secret_version row \<and> meta_Kind m = cred_kind row"
proof -
  have "selectCredential (res_ID result) False s = Some row"
    using find_live [OF assms(2), of "res_ID result" row] assms(3-5) by (simp add: selectCredential_def)
  then show ?thesis using assms(1)
    by (auto simp: metadataForResult_def readMetadata_def scanMetadata_def Let_def result_simps split: if_splits option.splits sum.splits credError.splits)
qed

lemma execute_committed:
  assumes "execute request now operation s = (s', Inr m)" "keysUnique s"
  shows "other_tables s' = other_tables s \<or> (\<exists>result. operation (other_tables s) = Inr (other_tables s', result) \<and>
    metadataForResult result (other_tables s') = Inr m)"
proof -
  obtain result where x: "Execute request now operation s = Inr (s', result)" "metadataForResult result (other_tables s') = Inr m"
    using assms(1) by (auto simp: execute_def split: sum.splits)
  then show ?thesis using assms(2) by (auto elim: Execute_ok)
qed

lemma find_other:
  "(\<And>x. P x \<Longrightarrow> \<not> Q x) \<Longrightarrow> (\<And>x. P (f x) \<Longrightarrow> \<not> Q x) \<Longrightarrow> find P (map (\<lambda>x. if Q x then f x else x) xs) = find P xs"
  by (induction xs) auto

text \<open>What a reader sees of a rotation: the next version is the new secret, the one before is gone,
  and every other credential reads as it did.\<close>

definition rotationSeen ::
  "cipher \<Rightarrow> CredentialVault \<Rightarrow> UUID \<Rightarrow> Metadata \<Rightarrow> SecretValue \<Rightarrow> credentialTables idemTables \<Rightarrow> credentialTables idemTables \<Rightarrow> bool" where
  "rotationSeen c vr i m secret s s' \<longleftrightarrow>
     ReadSecret c vr i (meta_Kind m) (meta_SecretVersion m) (other_tables s') = Inr secret \<and>
     1 < meta_SecretVersion m \<and>
     ReadSecret c vr i (meta_Kind m) (meta_SecretVersion m - 1) (other_tables s') = Inl ErrSecretUnavailable \<and>
     (\<forall>j kind v. j \<noteq> i \<longrightarrow> ReadSecret c vr j kind v (other_tables s') = ReadSecret c vr j kind v (other_tables s))"

lemma rotationSeen_committed:
  assumes "rotateOperation svc r \<lparr>rotate_CredentialID = i, rotate_Secret = Some secret\<rparr> actor (other_tables s) = Inr (other_tables s', result)"
    and "metadataForResult result (other_tables s') = Inr m"
    and "lawfulCipher (svc_cipher svc)" "trusts vr (svc_vault svc)" "storeInv s" "secretOk (Some secret)" "storeInv s'"
  shows "rotationSeen (svc_cipher svc) vr i m secret s s'"
proof -
  let ?c = "svc_cipher svc" and ?rows = "credentials (other_tables s)" and ?rows' = "credentials (other_tables s')"
  let ?cmd = "\<lparr>rotate_CredentialID = i, rotate_Secret = Some secret\<rparr>"
  have "secretOk (rotate_Secret ?cmd)" using assms(6) by simp
  with assms(3,4) obtain old envelope x where o: "selectCredential (rotate_CredentialID ?cmd) False (other_tables s) = Some old"
    "rotate_Secret ?cmd = Some x" "0 < int32 (cred_secret_version old + 1)"
    "?rows' = map (\<lambda>c. if cred_id c = rotate_CredentialID ?cmd
       then rotatedRow envelope (int32 (cred_secret_version old + 1)) (clock_operation r) c else c) ?rows"
    "openRow ?c vr (rotatedRow envelope (int32 (cred_secret_version old + 1)) (clock_operation r) old) = Some x"
    "res_ID result = rotate_CredentialID ?cmd"
    by (rule rotateOperation_effect [OF assms(1)])
  then have old: "selectCredential i False (other_tables s) = Some old" "0 < int32 (cred_secret_version old + 1)"
    "?rows' = map (\<lambda>c. if cred_id c = i then rotatedRow envelope (int32 (cred_secret_version old + 1)) (clock_operation r) c else c) ?rows"
    "openRow ?c vr (rotatedRow envelope (int32 (cred_secret_version old + 1)) (clock_operation r) old) = Some secret" "res_ID result = i"
    by simp_all
  have mem: "old \<in> set ?rows" "cred_id old = i" "cred_deleted_at old = None"
    using old(1) by (auto simp: selectCredential_def dest: find_SomeD)
  have ok: "rowsOk ?rows" "rowsOk ?rows'" using assms(5,7) by (simp_all add: storeInv_def)
  have v: "int32 (cred_secret_version old + 1) = cred_secret_version old + 1" "0 < cred_secret_version old"
    using int32_pos old(2) ok(1) mem(1) by (auto simp: rowsOk_def)
  let ?new = "rotatedRow envelope (cred_secret_version old + 1) (clock_operation r) old"
  have new: "?new \<in> set ?rows'" using old(3) mem v(1) by force
  have m: "meta_SecretVersion m = cred_secret_version old + 1" "meta_Kind m = cred_kind old"
    using metadata_row [OF assms(2) ok(2) new] old(5) mem by simp_all
  have abs: "absStore ?c vr ?rows' i = Some (cred_kind old, cred_secret_version old + 1, secret)"
    using absStore_Some [OF ok(2), of ?c vr i "cred_kind old" "cred_secret_version old + 1" secret] new mem old(4) v(1)
    by (auto intro!: bexI [of _ ?new])
  have "readVersion ?c vr s' i (meta_Kind m) (meta_SecretVersion m - 1) \<noteq> Some x" for x
    using readVersion_absStore [OF assms(7)] abs m by (metis Pair_inject add_diff_cancel_right' less_add_one less_irrefl option.inject)
  then have gone: "ReadSecret ?c vr i (meta_Kind m) (meta_SecretVersion m - 1) (other_tables s') = Inl ErrSecretUnavailable"
    using readVersion_eq(2) [of "meta_SecretVersion m - 1"] m v(2) by (metis add_diff_cancel_right' not_None_eq)
  have "ReadSecret ?c vr j kind w (other_tables s') = ReadSecret ?c vr j kind w (other_tables s)" if "j \<noteq> i" for j kind w
  proof -
    have "find (\<lambda>row. cred_id row = j \<and> P row) ?rows' = find (\<lambda>row. cred_id row = j \<and> P row) ?rows" for P
      unfolding old(3) by (rule find_other) (use that in auto)
    then show ?thesis by (simp add: ReadSecret_def)
  qed
  then show ?thesis using gone readVersion_absStore [OF assms(7)] readVersion_eq(1) abs m v(2) by (simp add: rotationSeen_def)
qed

lemma captured_read:
  assumes "lawfulCipher c" "storeInv s" "reach (credStep c vr) s t" "ReadSecret c vr i kind v (other_tables s) = Inr x"
  shows "ReadSecret c vr i kind v (other_tables t) = Inr x \<or> ReadSecret c vr i kind v (other_tables t) = Inl ErrSecretUnavailable"
  using credentialStore.captured_stable [OF assms(3), of i kind v x] assms(1,2,4) ReadSecret_positive [OF assms(4)]
  by (simp add: lawfulInv_def readVersion_eq)

section \<open>Properties\<close>

text \<open>
  C3. A captured version of a credential names one secret for good: whatever is created and
  rotated later, by services whose active keys the reader knows, reading that version gives the
  same secret or nothing, never another one.
\<close>

theorem captured_version_stable:
  assumes "lawfulCipher c" "storeInv s" "reach (credStep c vr) s t"
    and "ReadSecret c vr i kind v (other_tables s) = Inr x"
  shows "ReadSecret c vr i kind v (other_tables t) = Inr x \<or>
    ReadSecret c vr i kind v (other_tables t) = Inl ErrSecretUnavailable"
  by (rule captured_read [OF assms])

text \<open>
  C11. What a request for a credential commits is what the reader then gives: unless it was
  answered from an earlier request, a successful creation makes version one readable as the
  secret it was given, and a successful rotation makes the next version readable as the new
  secret, the version before it unavailable, and leaves every other credential as it was.
\<close>

theorem credential_requests_readable:
  assumes "lawfulCipher (svc_cipher svc)" "trusts vr (svc_vault svc)" "storeInv s" "secretOk (Some secret)"
  shows "(\<forall>command s' m. create_Secret command = Some secret \<longrightarrow> Create svc r command actor key s = (s', Inr m) \<longrightarrow>
      other_tables s' = other_tables s \<or>
      ReadSecret (svc_cipher svc) vr (meta_ID m) (create_Kind command) 1 (other_tables s') = Inr secret) \<and>
    (\<forall>i s' m. Rotate svc r \<lparr>rotate_CredentialID = i, rotate_Secret = Some secret\<rparr> actor key s = (s', Inr m) \<longrightarrow>
      other_tables s' = other_tables s \<or>
      rotationSeen (svc_cipher svc) vr i m secret s s')"
proof (intro conjI allI impI)
  let ?c = "svc_cipher svc"
  fix command s' m
  assume a: "create_Secret command = Some secret" "Create svc r command actor key s = (s', Inr m)"
  then obtain request where ex: "execute request (clock_execute r) (createOperation svc r command actor) s = (s', Inr m)"
    by (auto simp: Create_def split: sum.splits)
  have step: "credStep ?c vr s s'" by (rule credStep.create [OF refl assms(2) _ a(2)]) (simp add: a(1) assms(4))
  note inv = credStep_inv [OF step assms(1,3)]
  show "other_tables s' = other_tables s \<or> ReadSecret ?c vr (meta_ID m) (create_Kind command) 1 (other_tables s') = Inr secret"
  proof (cases "other_tables s' = other_tables s")
    case False
    then obtain result where op: "createOperation svc r command actor (other_tables s) = Inr (other_tables s', result)"
        "metadataForResult result (other_tables s') = Inr m"
      using execute_committed [OF ex] assms(3) by (auto simp: storeInv_def)
    obtain row where row: "row \<in> set (credentials (other_tables s'))" "cred_kind row = create_Kind command"
        "cred_secret_version row = 1" "cred_deleted_at row = None" "openRow ?c vr row = Some secret" "cred_id row = res_ID result"
      using createOperation_effect [OF op(1) assms(1,2)] a(1) assms(4)
      by (metis in_set_conv_decomp option.inject)
    have ok: "rowsOk (credentials (other_tables s'))" using inv by (simp add: storeInv_def)
    have "meta_ID m = cred_id row" using metadata_row [OF op(2) ok row(1,6,4)] by simp
    then have "absStore ?c vr (credentials (other_tables s')) (meta_ID m) = Some (create_Kind command, 1, secret)"
      using absStore_Some [OF ok, of ?c vr "meta_ID m" "create_Kind command" 1 secret] row by auto
    then show ?thesis using readVersion_absStore [OF inv] readVersion_eq(1) by blast
  qed simp
next
  let ?c = "svc_cipher svc"
  fix i s' m
  let ?cmd = "\<lparr>rotate_CredentialID = i, rotate_Secret = Some secret\<rparr>"
  assume a: "Rotate svc r ?cmd actor key s = (s', Inr m)"
  then obtain request where ex: "execute request (clock_execute r) (rotateOperation svc r ?cmd actor) s = (s', Inr m)"
    by (auto simp: Rotate_def split: sum.splits)
  have step: "credStep ?c vr s s'" by (rule credStep.rotate [OF refl assms(2) _ a]) (simp add: assms(4))
  note inv = credStep_inv [OF step assms(1,3)]
  show "other_tables s' = other_tables s \<or> rotationSeen ?c vr i m secret s s'"
  proof (cases "other_tables s' = other_tables s")
    case False
    then obtain result where op: "rotateOperation svc r ?cmd actor (other_tables s) = Inr (other_tables s', result)"
        "metadataForResult result (other_tables s') = Inr m"
      using execute_committed [OF ex] assms(3) by (auto simp: storeInv_def)
    show ?thesis by (rule disjI2, rule rotationSeen_committed [OF op assms inv])
  qed simp
qed

text \<open>A service over the example vault, and its first two requests.\<close>

definition demoService :: "CredentialVault \<Rightarrow> credService" where
  "demoService v = \<lparr>svc_cipher = markCipher, svc_hmac = (\<lambda>key m. replicate 32 0), svc_vault = v, svc_pythonISO = (\<lambda>_. ''now'')\<rparr>"

definition demoDrawn :: drawn where
  "demoDrawn = \<lparr>drawn_id = replicate 16 0, drawn_nonce = Some (replicate 12 CHR ''n''), drawn_attempt = replicate 16 0,
     drawn_request = replicate 16 0, clock_execute = 1, clock_operation = 2, clock_audit = 3, clock_event = 4\<rparr>"

definition demoTables :: "credentialTables idemTables" where
  "demoTables = \<lparr>idempotency_records = [], other_tables = \<lparr>credentials = [], credential_rotation_attempts = [],
     events = \<lparr>log_rows = [], log_next = 1, pruned_through = 0, audit_rows = []\<rparr>\<rparr>\<rparr>"

definition demoCreate :: CreateCommand where
  "demoCreate = \<lparr>create_Kind = ''PROVIDER_API_KEY'', create_Label = ''key'', create_Secret = Some (SecretValue ''sk-12345678'')\<rparr>"

definition demoVault :: CredentialVault where
  "demoVault = \<lparr>vault_activeID = ''k1'', vault_keys = [\<lparr>key_id = ''k1'', key_bytes = replicate 32 (CHR 0x00)\<rparr>],
     vault_byID = [''k1'' \<mapsto> replicate 32 (CHR 0x00)]\<rparr>"

lemma demoVault_new: "NewCredentialVault demoKey1 [] = Inr demoVault"
proof -
  have "decodeCredentialKey (TrimSpace demoKey1) = Inr (''k1'', replicate 32 (CHR 0x00))" by code_simp
  then show ?thesis by (simp add: NewCredentialVault_def demoVault_def)
qed

lemma demoTrusts: "trusts demoVault demoVault" "secretOk (Some (SecretValue ''sk-12345678''))" "secretOk (Some (SecretValue ''sk-87654321''))"
  by code_simp+

definition demoCreated :: "credentialTables idemTables \<times> (credError + Metadata)" where
  "demoCreated = Create (demoService demoVault) demoDrawn demoCreate [9] ''r1'' demoTables"

definition demoRotate :: RotateCommand where
  "demoRotate = \<lparr>rotate_CredentialID = newID (replicate 16 0), rotate_Secret = Some (SecretValue ''sk-87654321'')\<rparr>"

definition demoRotated :: "credentialTables idemTables \<times> (credError + Metadata)" where
  "demoRotated = Rotate (demoService demoVault) demoDrawn demoRotate [9] ''r2'' (fst demoCreated)"

lemma demoCreated_run:
  "case demoCreated of (s, r) \<Rightarrow> isOk r \<and> map cred_secret_version (credentials (other_tables s)) = [1] \<and>
     ReadSecret markCipher demoVault (newID (replicate 16 0)) ''PROVIDER_API_KEY'' 1 (other_tables s) = Inr (SecretValue ''sk-12345678'')"
  by code_simp

lemma demoRotated_run:
  "case demoRotated of (s, r) \<Rightarrow> isOk r \<and> map cred_secret_version (credentials (other_tables s)) = [2]"
  by code_simp

lemma demoRequests: "isOk (snd demoCreated)" "isOk (snd demoRotated)"
  using demoCreated_run demoRotated_run by (simp_all add: case_prod_beta)

lemma demoRead:
  "ReadSecret markCipher demoVault (newID (replicate 16 0)) ''PROVIDER_API_KEY'' 1 (other_tables (fst demoCreated)) = Inr (SecretValue ''sk-12345678'')"
  using demoCreated_run by (simp add: case_prod_beta del: replicate.simps)

lemma demoVersions:
  "map cred_secret_version (credentials (other_tables (fst demoCreated))) = [1]"
  "map cred_secret_version (credentials (other_tables (fst demoRotated))) = [2]"
  using demoCreated_run demoRotated_run by (simp_all add: case_prod_beta)

lemma demoTables_inv: "storeInv demoTables"
  by (simp add: storeInv_def keysUnique_def rowsOk_def demoTables_def)

lemma demoCreated_step: "credStep markCipher demoVault demoTables (fst demoCreated)"
proof (rule credStep.create)
  show "Create (demoService demoVault) demoDrawn demoCreate [9] ''r1'' demoTables = (fst demoCreated, snd demoCreated)"
    unfolding demoCreated_def by (rule surjective_pairing)
qed (simp_all add: demoService_def demoCreate_def demoTrusts)

lemma demoRotated_step: "credStep markCipher demoVault (fst demoCreated) (fst demoRotated)"
proof (rule credStep.rotate)
  show "Rotate (demoService demoVault) demoDrawn demoRotate [9] ''r2'' (fst demoCreated) = (fst demoRotated, snd demoRotated)"
    unfolding demoRotated_def by (rule surjective_pairing)
qed (simp_all add: demoService_def demoRotate_def demoTrusts)

lemmas demoCreated_inv = credStep_inv [OF demoCreated_step markCipher_lawful demoTables_inv]

theorem captured_version_stable_witness:
  "ReadSecret markCipher demoVault (newID (replicate 16 0)) ''PROVIDER_API_KEY'' 1 (other_tables (fst demoRotated)) = Inr (SecretValue ''sk-12345678'') \<or>
   ReadSecret markCipher demoVault (newID (replicate 16 0)) ''PROVIDER_API_KEY'' 1 (other_tables (fst demoRotated)) = Inl ErrSecretUnavailable"
  by (rule captured_version_stable [OF markCipher_lawful demoCreated_inv reach_one [of "credStep markCipher demoVault", OF demoRotated_step] demoRead])

theorem credential_requests_readable_witness:
  "\<exists>m. rotationSeen markCipher demoVault (newID (replicate 16 0)) m (SecretValue ''sk-87654321'') (fst demoCreated) (fst demoRotated)"
proof -
  have different: "other_tables (fst demoRotated) \<noteq> other_tables (fst demoCreated)" using demoVersions by fastforce
  obtain m where m: "Rotate (demoService demoVault) demoDrawn demoRotate [9] ''r2'' (fst demoCreated) = (fst demoRotated, Inr m)"
    using demoRequests(2) by (cases "snd demoRotated") (auto simp: demoRotated_def prod_eq_iff)
  have svc: "svc_cipher (demoService demoVault) = markCipher" "svc_vault (demoService demoVault) = demoVault" by (simp_all add: demoService_def)
  from credential_requests_readable [of "demoService demoVault" demoVault "fst demoCreated" "SecretValue ''sk-87654321''" demoDrawn "[9]" "''r2''"]
  have "\<forall>i s' m. Rotate (demoService demoVault) demoDrawn \<lparr>rotate_CredentialID = i, rotate_Secret = Some (SecretValue ''sk-87654321'')\<rparr> [9] ''r2'' (fst demoCreated) = (s', Inr m) \<longrightarrow>
      other_tables s' = other_tables (fst demoCreated) \<or> rotationSeen markCipher demoVault i m (SecretValue ''sk-87654321'') (fst demoCreated) s'"
    using svc markCipher_lawful demoTrusts demoCreated_inv by simp
  then show ?thesis using m different unfolding demoRotate_def by metis
qed

end
