(* ===== verification/InvokeProperties.thy ===== *)
theory InvokeProperties
  imports BindingProperties CredentialProperties
begin

text \<open>
  What holds of every invocation of a session (\<^verbatim>\<open>internal/capsule/session.go\<close>), whatever
  the outside does: the stages it goes through with the credential, the slot and the connection, the
  usage it reports, and the key it uses.
\<close>

section \<open>Stages\<close>

text \<open>The protocol of an invocation as an automaton over its events.\<close>

datatype stage = Fresh | KeyRead | Held Slot | Connected Slot | Talking Slot | Closed Slot | Finished

fun advance :: "CredentialReference option \<Rightarrow> stage \<Rightarrow> invokeEvent \<Rightarrow> stage option" where
  "advance (Some r) Fresh (SecretRead i v) = (if i = ref_ID r \<and> v = ref_SecretVersion r then Some KeyRead else None)"
| "advance None Fresh (SlotAcquired slot) = Some (Held slot)"
| "advance _ KeyRead (SlotAcquired slot) = Some (Held slot)"
| "advance _ (Held slot) (Dialed path) = (if path = slot_SocketPath slot then Some (Connected slot) else None)"
| "advance _ (Held slot) (SlotReleased s) = (if s = slot then Some Finished else None)"
| "advance _ (Connected slot) (Started m) = (if validateWireMessage m = Inr () then Some (Talking slot) else None)"
| "advance _ (Connected slot) (HungUp c) = Some (Closed slot)"
| "advance _ (Talking slot) (Looped e) = Some (Talking slot)"
| "advance _ (Talking slot) (HungUp c) = Some (Closed slot)"
| "advance _ (Closed slot) (SlotReleased s) = (if s = slot then Some Finished else None)"
| "advance _ _ _ = None"

fun stages :: "CredentialReference option \<Rightarrow> stage \<Rightarrow> invokeEvent list \<Rightarrow> stage option" where
  "stages credential st [] = Some st"
| "stages credential st (e # es) = Option.bind (advance credential st e) (\<lambda>st'. stages credential st' es)"

lemma stages_append: "stages r st (xs @ ys) = Option.bind (stages r st xs) (\<lambda>st'. stages r st' ys)"
  by (induction xs arbitrary: st) (simp_all add: Option.bind_assoc)

lemma stages_looped: "stages r (Talking slot) (map Looped tr) = Some (Talking slot)"
  by (induction tr) simp_all

lemma send_ok_valid: "CapsuleWire.send m w = (w', Inr ()) \<Longrightarrow> validateWireMessage m = Inr ()"
  by (auto simp: CapsuleWire.send_def split: sum.splits)

lemma converse_stages:
  assumes "converse out session prompt attempt p c = (es, w, a, result)"
  shows "stages r (Connected slot) es = Some (if es = [] then Connected slot else Talking slot)"
    "isOk result \<Longrightarrow> es \<noteq> []"
  using assms
  by (auto simp: converse_def Let_def stages_looped dest: send_ok_valid split: option.splits prod.splits sum.splits)

lemma withSlot_stages:
  assumes "withSlot out session prompt attempt p slot = (es, result, failure)"
  shows "stages r (Held slot) (es @ [SlotReleased slot]) = Some Finished"
proof (cases "out_dial out (slot_SocketPath slot)")
  case None
  then show ?thesis using assms by (simp add: withSlot_def)
next
  case (Some c)
  obtain inner w a res where c: "converse out session prompt attempt p c = (inner, w, a, res)" by (metis prod_cases4)
  have "es = Dialed (slot_SocketPath slot) # inner @ [HungUp (wire_connection (fst (hangUp out (isOk res) w a)))]"
    using assms by (auto simp: withSlot_def Some c split: prod.splits)
  then show ?thesis using converse_stages(1) [OF c, of r slot] by (cases "inner = []") (simp_all add: stages_append)
qed

lemma resolveAPIKey_stages:
  assumes "resolveAPIKey out factory = (es, resolved)"
  defines "r \<equiv> bind_Credential (fac_binding factory)"
  shows "stages r Fresh es \<in> {Some Fresh, Some KeyRead}" "\<exists>s. stages r Fresh (es @ [SlotAcquired slot]) = Some s \<and> s = Held slot"
    "resolved = Inl e \<Longrightarrow> e = credentialFailed"
  using assms(1) unfolding r_def
  by (auto simp: resolveAPIKey_def split: option.splits if_splits)

text \<open>What an invocation does after the credential: nothing without a slot, all of it with one.\<close>

lemma invoke_cases:
  assumes "invoke rx out session prompt = (es, result, failure)"
  obtains (unbuilt) "es = []" "result = noInvocation" "failure = Some (CallFailed [] noUsage)"
      "\<not> isOk (bindAttempt rx (sess_factory session) (sess_systemPrompt session) prompt (sess_tools session) (sess_outputSchema session))"
    | (stopped) attempt resolved e where "result = noInvocation" "failure = Some e" "e = CallCancelled \<or> (\<exists>m. e = CallFailed m noUsage)"
      "bindAttempt rx (sess_factory session) (sess_systemPrompt session) prompt (sess_tools session) (sess_outputSchema session) = Inr attempt"
      "resolveAPIKey out (sess_factory session) = (es, resolved)"
    | (run) attempt read apiKey client slot inner where "es = read @ SlotAcquired slot # inner @ [SlotReleased slot]"
      "bindAttempt rx (sess_factory session) (sess_systemPrompt session) prompt (sess_tools session) (sess_outputSchema session) = Inr attempt"
      "resolveAPIKey out (sess_factory session) = (read, Inr apiKey)"
      "withSlot out session prompt attempt (client (exchangeHeaders apiKey)) slot = (inner, result, failure)"
      "out_client out (fac_binding (sess_factory session)) = Some client"
proof -
  let ?attempt = "bindAttempt rx (sess_factory session) (sess_systemPrompt session) prompt (sess_tools session) (sess_outputSchema session)"
  show thesis
  proof (cases ?attempt)
    case (Inl e)
    then show thesis using assms by (intro unbuilt) (simp_all add: invoke_def Let_def)
  next
    case (Inr attempt)
    obtain read resolved where r: "resolveAPIKey out (sess_factory session) = (read, resolved)" by fastforce
    have usage: "att_Usage attempt = noUsage"
      using NewOpenAIAttempt_inv(4) [OF Inr [unfolded bindAttempt_def Let_def]] .
    have key: "resolved = Inl e \<Longrightarrow> e = credentialFailed" for e using resolveAPIKey_stages(3) [OF r] .
    show thesis
    proof (cases "\<exists>apiKey client slot. resolved = Inr apiKey \<and> out_client out (fac_binding (sess_factory session)) = Some client \<and> out_acquire out = SlotHeld slot")
      case True
      then obtain apiKey client slot where s: "resolved = Inr apiKey" "out_client out (fac_binding (sess_factory session)) = Some client"
          "out_acquire out = SlotHeld slot" by blast
      obtain inner res fl where w: "withSlot out session prompt attempt (client (exchangeHeaders apiKey)) slot = (inner, res, fl)" by (metis prod_cases3)
      have "es = read @ SlotAcquired slot # inner @ [SlotReleased slot]" "res = result" "fl = failure"
        using assms s w r by (simp_all add: invoke_def Let_def Inr)
      then show thesis using run [OF _ Inr] r s(1,2) w by blast
    next
      case False
      then have "es = read" "result = noInvocation"
          "\<exists>e. failure = Some e \<and> (e = CallCancelled \<or> (\<exists>m. e = CallFailed m noUsage))"
        using assms r key usage by (auto simp: invoke_def Let_def Inr credentialFailed_def split: sum.splits option.splits acquired.splits if_splits)
      then show thesis using stopped [OF _ _ _ Inr] r by blast
    qed
  qed
qed

lemma invoke_stages:
  assumes "invoke rx out session prompt = (es, result, failure)"
  shows "stages (bind_Credential (fac_binding (sess_factory session))) Fresh es \<in> {Some Fresh, Some KeyRead, Some Finished}"
  using assms
proof (cases rule: invoke_cases)
  case (stopped attempt resolved e)
  then show ?thesis using resolveAPIKey_stages(1) [OF stopped(5)] by auto
next
  case (run attempt read apiKey client slot inner)
  let ?r = "bind_Credential (fac_binding (sess_factory session))"
  have "stages ?r Fresh ((read @ [SlotAcquired slot]) @ inner @ [SlotReleased slot]) = Some Finished"
    using resolveAPIKey_stages(2) [OF run(3), of slot] withSlot_stages [OF run(4), of ?r]
    by (subst stages_append) simp
  then show ?thesis unfolding run(1) by simp
qed simp

section \<open>Usage\<close>

text \<open>What the accepted answers of a trace cost, and the part of a usage that answers pay for.\<close>

definition answerUsage :: "attemptConfig \<Rightarrow> string \<Rightarrow> Usage" where
  "answerUsage cf body = (case ParseOpenAISSE body (cf_modelID cf) (cf_validators cf) (cf_limits cf) of
     Inr r \<Rightarrow> acc_Usage r | Inl _ \<Rightarrow> noUsage)"

fun spend :: "attemptConfig \<Rightarrow> sessionEvent \<Rightarrow> Usage \<Rightarrow> Usage" where
  "spend cf (ModelAnswered body) u = usageAdd u (answerUsage cf body)"
| "spend cf (ToolHandled name arguments) u = u"

definition spent :: "attemptConfig \<Rightarrow> sessionEvent list \<Rightarrow> Usage" where
  "spent cf tr = fold (spend cf) tr noUsage"

definition tokens :: "Usage \<Rightarrow> int \<times> int \<times> int \<times> int" where
  "tokens u = (ModelCalls u, InputTokens u, OutputTokens u, TotalTokens u)"

lemma spent_append [simp]:
  "spent cf (tr @ [ModelAnswered body]) = usageAdd (spent cf tr) (answerUsage cf body)" "spent cf (tr @ [ToolHandled n v]) = spent cf tr"
  by (simp_all add: spent_def)

lemma tokens_simps: "tokens (usageAdd u v) = tokens (usageAdd u' v) \<longleftrightarrow> tokens u = tokens u'" "tokens (usageAdd u noUsage) = tokens u"
  by (auto simp: tokens_def usageAdd_def noUsage_def)

definition usageInv :: "attemptConfig \<Rightarrow> session \<Rightarrow> bool" where
  "usageInv cf s \<longleftrightarrow> config (ses_attempt s) = cf \<and> tokens (att_Usage (ses_attempt s)) = tokens (spent cf (ses_trace s))"

fun usageKept :: "attemptConfig \<Rightarrow> round \<Rightarrow> bool" where
  "usageKept cf (Continue s) \<longleftrightarrow> usageInv cf s"
| "usageKept cf (Return s (Inl (InvocationError u))) \<longleftrightarrow> usageInv cf s \<and> u = att_Usage (ses_attempt s)"
| "usageKept cf (Return s _) \<longleftrightarrow> usageInv cf s"

text \<open>The operations of an attempt: only an answer is paid for.\<close>

lemma config_Fail [simp]: "config (Fail cancelled a) = config a" "att_Usage (Fail cancelled a) = att_Usage a"
  by (simp_all add: config_def Fail_def)

lemma BeginModel_usage:
  assumes "BeginModel turn a = (a', r)"
  shows "config a' = config a" "att_Usage a' = att_Usage a" "r = Inr body \<Longrightarrow> att_State a' = ModelInFlight"
  using assms by (auto simp: BeginModel_def Let_def config_def split: if_splits)

lemma AcceptModel_usage:
  assumes "AcceptModel body a = (a', r)" "att_State a = ModelInFlight"
  shows "config a' = config a" "tokens (att_Usage a') = tokens (usageAdd (att_Usage a) (answerUsage (config a) body))"
  using assms
  by (auto simp: AcceptModel_def Let_def answerUsage_def config_def tokens_simps split: sum.splits option.splits if_splits)

lemma AcceptToolResult_usage:
  assumes "AcceptToolResult v a = (a', r)"
  shows "config a' = config a" "tokens (att_Usage a') = tokens (att_Usage a)"
  using assms
  by (auto simp: AcceptToolResult_def Let_def resumeModel_def config_def tokens_def split: sum.splits option.splits if_splits)

lemma AcceptComplete_usage:
  assumes "AcceptComplete v a = (a', r)"
  shows "config a' = config a" "att_Usage a' = att_Usage a"
  using assms by (auto simp: AcceptComplete_def config_def split: option.splits gval.splits if_splits)

lemma failSession_usage: "usageInv cf s \<Longrightarrow> usageKept cf (failSession s)"
  by (simp add: failSession_def usageInv_def)

lemma sendOrFail_usage: "usageInv cf s \<Longrightarrow> usageKept cf (sendOrFail m s)"
  by (auto simp: sendOrFail_def usageInv_def failSession_def split: prod.split sum.split)

lemma usageInv_bookkeeping [simp]:
  "usageInv cf (s\<lparr>ses_seenIDs := seen\<rparr>) = usageInv cf s" "usageInv cf (s\<lparr>ses_wire := w\<rparr>) = usageInv cf s"
  "usageInv cf (s\<lparr>ses_fetches := n, ses_modelRequests := k\<rparr>) = usageInv cf s"
  "usageInv cf (s\<lparr>ses_trace := ses_trace s @ [ToolHandled name v]\<rparr>) = usageInv cf s"
  by (simp_all add: usageInv_def)

text \<open>The part of a round after the request has been sent.\<close>

lemma answered_usage:
  assumes "usageInv cf s" "config a = config (ses_attempt s)" "att_Usage a = att_Usage (ses_attempt s)" "att_State a = ModelInFlight"
    "AcceptModel body a = (a', r)"
  shows "usageInv cf (s\<lparr>ses_requests := n, ses_trace := ses_trace s @ [ModelAnswered body], ses_attempt := a'\<rparr>)"
  using assms(1-3) AcceptModel_usage [OF assms(5,4)] by (simp add: usageInv_def tokens_simps)

lemma onModelRequest_usage:
  assumes inv: "usageInv cf s"
  shows "usageKept cf (onModelRequest env l m s)"
proof -
  obtain seen operation where u: "uniqueID m (ses_seenIDs s) = (seen, operation)" by fastforce
  define s1 where "s1 = s\<lparr>ses_seenIDs := seen\<rparr>"
  define s2 where "s2 = s1\<lparr>ses_fetches := ses_fetches s1 + 1, ses_modelRequests := ses_modelRequests s1 + 1\<rparr>"
  have inv2: "usageInv cf s2" and inv1: "usageInv cf s1" using inv by (simp_all add: s1_def s2_def)
  have begun: "usageInv cf (s2\<lparr>ses_attempt := a\<rparr>)" "usageInv cf (s2\<lparr>ses_attempt := a, ses_requests := n\<rparr>)"
    if "BeginModel turn (ses_attempt s2) = (a, r)" for turn a r n
    using inv2 BeginModel_usage(1,2) [OF that] by (simp_all add: usageInv_def)
  have after: "usageInv cf (s2\<lparr>ses_requests := n, ses_trace := ses_trace s2 @ [ModelAnswered body], ses_attempt := a'\<rparr>)"
    if "BeginModel turn (ses_attempt s2) = (a, Inr q)" "AcceptModel body a = (a', r)" for turn a q body a' r n
    using answered_usage [OF inv2 BeginModel_usage(1,2,3) [OF that(1)] that(2)] by simp
  show ?thesis
    using inv1 inv2
    by (auto simp: onModelRequest_def u Let_def s1_def [symmetric] s2_def [symmetric] intro!: failSession_usage sendOrFail_usage
        intro: begun after split: option.split sum.split prod.split)
qed

lemma onToolCall_usage:
  assumes inv: "usageInv cf s"
  shows "usageKept cf (onToolCall env l m s)"
proof -
  obtain seen operation where u: "uniqueID m (ses_seenIDs s) = (seen, operation)" by fastforce
  define s1 where "s1 = s\<lparr>ses_seenIDs := seen\<rparr>"
  have inv1: "usageInv cf s1" using inv by (simp add: s1_def)
  have attempt: "usageInv cf (t\<lparr>ses_attempt := a\<rparr>)" if "usageInv cf t" "AcceptToolResult v (ses_attempt t) = (a, r)" for t a v r
    using that(1) AcceptToolResult_usage [OF that(2)] by (simp add: usageInv_def)
  show ?thesis
    using inv1
    by (auto simp: onToolCall_def u Let_def s1_def [symmetric] intro!: failSession_usage sendOrFail_usage
        intro: attempt split: option.split sum.split prod.split)
qed

lemma onComplete_usage:
  assumes "usageInv cf s"
  shows "usageKept cf (onComplete env m s)"
proof -
  have "usageInv cf (s\<lparr>ses_attempt := a\<rparr>)" if "AcceptComplete v (ses_attempt s) = (a, r)" for a v r
    using assms AcceptComplete_usage [OF that] by (simp add: usageInv_def)
  then show ?thesis by (auto simp: onComplete_def intro!: failSession_usage split: prod.split sum.split)
qed

lemma sessionRound_usage:
  assumes "usageInv cf s"
  shows "usageKept cf (sessionRound env l s)"
  using assms
  by (auto simp: sessionRound_def Let_def intro!: failSession_usage onModelRequest_usage onToolCall_usage onComplete_usage
      split: prod.split sum.split)

lemma sessionLoop_usage:
  "usageInv cf s \<Longrightarrow> sessionLoop env l s = (s', result) \<Longrightarrow> usageInv cf s' \<and> (\<forall>u. result = Inl (InvocationError u) \<longrightarrow> u = att_Usage (ses_attempt s'))"
proof (induction env l s rule: sessionLoop.induct)
  case (1 env l s)
  note kept = sessionRound_usage [OF 1(2), of env l]
  show ?case
  proof (cases "sessionRound env l s")
    case (Continue t)
    then show ?thesis using 1(1) [OF Continue] 1(3) kept by (simp add: sessionLoop.simps [of env l s])
  next
    case (Return t r)
    then have "t = s'" "r = result" using 1(3) by (simp_all add: sessionLoop.simps [of env l s])
    then show ?thesis using kept Return by (cases "(cf, Return t r)" rule: usageKept.cases) auto
  qed
qed

section \<open>What is reported\<close>

definition loopEvents :: "invokeEvent list \<Rightarrow> sessionEvent list" where
  "loopEvents es = concat (map (\<lambda>e. case e of Looped x \<Rightarrow> [x] | _ \<Rightarrow> []) es)"

definition reported :: "Invocation \<Rightarrow> callError option \<Rightarrow> Usage" where
  "reported result failure = (case failure of Some (CallFailed m u) \<Rightarrow> u | _ \<Rightarrow> inv_Usage result)"

lemma loopEvents_simps [simp]:
  "loopEvents [] = []" "loopEvents (xs @ ys) = loopEvents xs @ loopEvents ys" "loopEvents (map Looped tr) = tr"
  "loopEvents (SecretRead i v # es) = loopEvents es" "loopEvents (SlotAcquired slot # es) = loopEvents es"
  "loopEvents (Dialed path # es) = loopEvents es" "loopEvents (Started m # es) = loopEvents es"
  "loopEvents (HungUp c # es) = loopEvents es" "loopEvents (SlotReleased slot # es) = loopEvents es"
  by (induction tr) (simp_all add: loopEvents_def)

lemma resolveAPIKey_quiet: "resolveAPIKey out factory = (es, r) \<Longrightarrow> loopEvents es = []"
  by (auto simp: resolveAPIKey_def split: option.splits)

lemma converse_usage:
  assumes "converse out session prompt attempt p c = (es, w, a, result)" "att_Usage attempt = noUsage"
  shows "tokens (att_Usage a) = tokens (spent (config attempt) (loopEvents es))"
    "result = Inl (InvocationError u) \<Longrightarrow> u = att_Usage a"
proof -
  have start: "usageInv (config attempt) (newSession w' attempt)" for w'
    using assms(2) by (simp add: usageInv_def newSession_def spent_def)
  have quiet: "tokens (att_Usage attempt) = tokens (spent (config attempt) [])" using assms(2) by (simp add: spent_def)
  have "tokens (att_Usage a) = tokens (spent (config attempt) (loopEvents es)) \<and> (\<forall>u. result = Inl (InvocationError u) \<longrightarrow> u = att_Usage a)"
    using assms(1) quiet
    by (auto simp: converse_def Let_def split: option.splits prod.splits sum.splits dest!: sessionLoop_usage [OF start])
      (auto simp: usageInv_def)
  then show "tokens (att_Usage a) = tokens (spent (config attempt) (loopEvents es))"
    "result = Inl (InvocationError u) \<Longrightarrow> u = att_Usage a" by blast+
qed

lemma hangUp_usage: "att_Usage (snd (hangUp out completed w a)) = att_Usage a"
  by (simp add: hangUp_def)

lemma withSlot_usage:
  assumes "withSlot out session prompt attempt p slot = (es, result, failure)" "att_Usage attempt = noUsage"
  shows "tokens (reported result failure) = tokens (spent (config attempt) (loopEvents es))"
    "tokens (inv_Usage result) = tokens (spent (config attempt) (loopEvents es))"
proof -
  have "tokens (reported result failure) = tokens (spent (config attempt) (loopEvents es)) \<and>
      tokens (inv_Usage result) = tokens (spent (config attempt) (loopEvents es))"
  proof (cases "out_dial out (slot_SocketPath slot)")
    case None
    then show ?thesis using assms by (auto simp: withSlot_def reported_def spent_def noInvocation_def)
  next
    case (Some c)
    obtain inner w a res where c: "converse out session prompt attempt p c = (inner, w, a, res)" by (metis prod_cases4)
    have "es = Dialed (slot_SocketPath slot) # inner @ [HungUp (wire_connection (fst (hangUp out (isOk res) w a)))]"
      "inv_Usage result = att_Usage a" "failure = (case res of Inr _ \<Rightarrow> None | Inl e \<Rightarrow> Some (callError e))"
      using assms hangUp_usage [of out "isOk res" w a] by (auto simp: withSlot_def Some c split: prod.splits)
    then show ?thesis using converse_usage [OF c assms(2)]
      by (auto simp: reported_def callError_def split: sum.split invokeError.split)
  qed
  then show "tokens (reported result failure) = tokens (spent (config attempt) (loopEvents es))"
    "tokens (inv_Usage result) = tokens (spent (config attempt) (loopEvents es))" by blast+
qed

lemma invoke_usage:
  assumes "invoke rx out session prompt = (es, result, failure)"
    "bindAttempt rx (sess_factory session) (sess_systemPrompt session) prompt (sess_tools session) (sess_outputSchema session) = Inr attempt"
  shows "tokens (reported result failure) = tokens (spent (config attempt) (loopEvents es))"
    "tokens (inv_Usage result) = tokens (spent (config attempt) (loopEvents es))"
proof -
  have usage: "att_Usage attempt = noUsage" using NewOpenAIAttempt_inv(4) [OF assms(2) [unfolded bindAttempt_def Let_def]] .
  have "tokens (reported result failure) = tokens (spent (config attempt) (loopEvents es)) \<and>
      tokens (inv_Usage result) = tokens (spent (config attempt) (loopEvents es))"
    using assms(1)
  proof (cases rule: invoke_cases)
    case (stopped attempt' resolved e)
    then show ?thesis using resolveAPIKey_quiet [OF stopped(5)] by (auto simp: reported_def noInvocation_def spent_def)
  next
    case (run attempt' read apiKey client slot inner)
    then show ?thesis
      using withSlot_usage [OF run(4)] resolveAPIKey_quiet [OF run(3)] assms(2) usage by simp
  qed (simp add: assms(2))
  then show "tokens (reported result failure) = tokens (spent (config attempt) (loopEvents es))"
    "tokens (inv_Usage result) = tokens (spent (config attempt) (loopEvents es))" by blast+
qed

lemma Invoke_first:
  assumes "Invoke rx out prompt session = (session', es, result, failure)" "\<not> sess_invoked session"
  obtains r f where "session' = session\<lparr>sess_invoked := True\<rparr>" "invoke rx out session' prompt = (es, r, f)"
    "result = r \<and> failure = f \<or> f \<noteq> None \<and> out_deadline out \<and> result = noInvocation \<and>
       failure = Some (CallFailed ''capsule attempt timed out safely'' (inv_Usage r))"
  using assms by (auto simp: Invoke_def split: prod.splits if_splits)

lemma withSlot_output: "withSlot out session prompt attempt p slot = (es, result, failure) \<Longrightarrow> failure = None \<longleftrightarrow> inv_Output result \<noteq> None"
  by (auto simp: withSlot_def noInvocation_def split: option.splits prod.splits sum.splits)

lemma invoke_output: "invoke rx out session prompt = (es, result, failure) \<Longrightarrow> failure = None \<longleftrightarrow> inv_Output result \<noteq> None"
  by (erule invoke_cases) (auto simp: noInvocation_def dest: withSlot_output)

text \<open>An outside with one slot and one connection, whose random source does not work.\<close>

definition demoConn :: conn where
  "demoConn = \<lparr>inbound = [], outbound = [], writes = []\<rparr>"

definition demoSlot :: Slot where
  "demoSlot = \<lparr>slot_Name = ''a'', slot_SocketPath = ''/run/a''\<rparr>"

definition demoOutside :: "(UUID \<Rightarrow> string \<Rightarrow> int \<Rightarrow> SecretValue option) \<Rightarrow> outside" where
  "demoOutside secrets = \<lparr>out_Read = secrets, out_client = (\<lambda>_. Some (\<lambda>_. env_provider exampleEnv)), out_acquire = SlotHeld demoSlot,
     out_dial = (\<lambda>_. Some demoConn), out_random = None, out_handle = (\<lambda>_ _ _. Inl ''no tool''), out_peerCloses = True,
     out_received = False, out_ended = False, out_deadline = False\<rparr>"

lemma demoInvoke:
  "Invoke (\<lambda>_. None) (demoOutside secrets) ''p'' (demoSession None) =
    ((demoSession None)\<lparr>sess_invoked := True\<rparr>, [SlotAcquired demoSlot, Dialed ''/run/a'', HungUp demoConn, SlotReleased demoSlot],
     noInvocation, Some (CallFailed [] noUsage))"
  using demoBound [of None "''p''"]
  by (simp add: Invoke_def invoke_def demoSession_def resolveAPIKey_def demoOutside_def withSlot_def converse_def startMessage_def randomAttemptID_def
      Let_def hangUp_def newWire_def callError_def Fail_def noInvocation_def demoSlot_def boundAttempt_def demoAttempt_def)
    (simp add: demoFactory_def demoBinding_def)

text \<open>The same outside over the credentials of the example.\<close>

definition demoReference :: CredentialReference where
  "demoReference = \<lparr>ref_ID = newID (replicate 16 0), ref_SecretVersion = 1\<rparr>"

definition demoKeyed :: outside where
  "demoKeyed = demoOutside (\<lambda>i kind v. case ReadSecret markCipher demoVault i kind v (other_tables (fst demoCreated)) of
     Inr y \<Rightarrow> Some y | Inl _ \<Rightarrow> None)"

lemma demoKeyed_run:
  "Invoke (\<lambda>_. None) demoKeyed ''p'' (demoSession (Some demoReference)) =
    ((demoSession (Some demoReference))\<lparr>sess_invoked := True\<rparr>,
     [SecretRead (newID (replicate 16 0)) 1, SlotAcquired demoSlot, Dialed ''/run/a'', HungUp demoConn, SlotReleased demoSlot],
     noInvocation, Some (CallFailed [] noUsage))"
proof -
  have "out_Read demoKeyed (newID (replicate 16 0)) ''PROVIDER_API_KEY'' 1 = Some (SecretValue ''sk-12345678'')"
    using demoRead by (simp add: demoKeyed_def demoOutside_def del: replicate.simps)
  moreover have "apiKeyOk ''sk-12345678''" by code_simp
  ultimately have key: "resolveAPIKey demoKeyed (demoFactory (Some demoReference)) = ([SecretRead (newID (replicate 16 0)) 1], Inr ''sk-12345678'')"
    by (simp add: resolveAPIKey_def demoFactory_def demoBinding_def demoReference_def del: replicate.simps)
  have out: "out_client demoKeyed b = Some (\<lambda>_. env_provider exampleEnv)" "out_acquire demoKeyed = SlotHeld demoSlot"
      "out_dial demoKeyed path = Some demoConn" "out_random demoKeyed = None" "out_ended demoKeyed = False" "out_deadline demoKeyed = False"
    for b path by (simp_all add: demoKeyed_def demoOutside_def)
  have "slot_SocketPath demoSlot = ''/run/a''" "att_Usage (boundAttempt credential prompt) = noUsage" for credential prompt
    by (simp_all add: demoSlot_def boundAttempt_def demoAttempt_def)
  then show ?thesis
    using demoBound [of "Some demoReference" "''p''"]
    by (simp add: Invoke_def invoke_def demoSession_def key out withSlot_def converse_def startMessage_def randomAttemptID_def
        Let_def hangUp_def newWire_def callError_def Fail_def noInvocation_def del: replicate.simps)
qed

section \<open>Properties\<close>

text \<open>
  C21. The protocol of an invocation, whatever the secret store, the pool, the peer and the context
  do: the key of the binding is read before a slot is taken; the connection is to the socket of the
  slot; no answer and no tool call precedes an accepted start message (the frame that cancels a
  session is not an event of the trace); the connection is closed and the very slot that was taken
  is given back once, on every path, before the call returns. A call succeeds exactly with an
  output. A session runs once: any later call does nothing and fails.
\<close>

theorem invocation_disciplined:
  assumes "Invoke rx out prompt session = (session', es, result, failure)" "\<not> sess_invoked session"
  shows "stages (bind_Credential (fac_binding (sess_factory session))) Fresh es \<in> {Some Fresh, Some KeyRead, Some Finished} \<and>
    (failure = None \<longleftrightarrow> inv_Output result \<noteq> None) \<and>
    Invoke rx out' prompt' session' = (session', [], noInvocation, Some (CallFailed ''capsule session is single-use'' noUsage))"
proof -
  obtain r f where i: "session' = session\<lparr>sess_invoked := True\<rparr>" "invoke rx out session' prompt = (es, r, f)"
      "result = r \<and> failure = f \<or> f \<noteq> None \<and> out_deadline out \<and> result = noInvocation \<and>
         failure = Some (CallFailed ''capsule attempt timed out safely'' (inv_Usage r))"
    by (rule Invoke_first [OF assms])
  have "failure = None \<longleftrightarrow> inv_Output result \<noteq> None" using i(3) invoke_output [OF i(2)] by (auto simp: noInvocation_def)
  moreover have "Invoke rx out' prompt' session' = (session', [], noInvocation, Some (CallFailed ''capsule session is single-use'' noUsage))"
    by (simp add: i(1) Invoke_def)
  ultimately show ?thesis using invoke_stages [OF i(2)] by (simp add: i(1))
qed

theorem invocation_disciplined_witness:
  "stages None Fresh [SlotAcquired demoSlot, Dialed ''/run/a'', HungUp demoConn, SlotReleased demoSlot] \<in> {Some Fresh, Some KeyRead, Some Finished} \<and>
   Invoke (\<lambda>_. None) (demoOutside (\<lambda>_ _ _. None)) ''again'' ((demoSession None)\<lparr>sess_invoked := True\<rparr>) =
     ((demoSession None)\<lparr>sess_invoked := True\<rparr>, [], noInvocation, Some (CallFailed ''capsule session is single-use'' noUsage))"
proof -
  have "\<not> sess_invoked (demoSession None)" "bind_Credential (fac_binding (sess_factory (demoSession None))) = None"
    by (simp_all add: demoSession_def demoFactory_def demoBinding_def)
  then show ?thesis
    using invocation_disciplined [OF demoInvoke [of "\<lambda>_ _ _. None"], of "demoOutside (\<lambda>_ _ _. None)" "''again''"] by simp
qed

text \<open>
  C23. No answer the provider was paid for goes unreported: however an invocation ends, with an
  output, a failure at any point, a cancelled context or a passed deadline, the calls and tokens it
  reports are those of the answers that were accepted in it, and no others.
\<close>

theorem usage_reported:
  assumes "Invoke rx out prompt session = (session', es, result, failure)" "\<not> sess_invoked session"
    "bindAttempt rx (sess_factory session) (sess_systemPrompt session) prompt (sess_tools session) (sess_outputSchema session) = Inr attempt"
  shows "tokens (reported result failure) = tokens (spent (config attempt) (loopEvents es))"
proof -
  obtain r f where i: "session' = session\<lparr>sess_invoked := True\<rparr>" "invoke rx out session' prompt = (es, r, f)"
      "result = r \<and> failure = f \<or> f \<noteq> None \<and> out_deadline out \<and> result = noInvocation \<and>
         failure = Some (CallFailed ''capsule attempt timed out safely'' (inv_Usage r))"
    by (rule Invoke_first [OF assms(1,2)])
  have "bindAttempt rx (sess_factory session') (sess_systemPrompt session') prompt (sess_tools session') (sess_outputSchema session') = Inr attempt"
    using assms(3) by (simp add: i(1))
  from invoke_usage [OF i(2) this] i(3) show ?thesis by (auto simp: reported_def)
qed

theorem usage_reported_witness:
  "tokens (reported noInvocation (Some (CallFailed [] noUsage))) = tokens (spent (config (boundAttempt None ''p''))
     (loopEvents [SlotAcquired demoSlot, Dialed ''/run/a'', HungUp demoConn, SlotReleased demoSlot]))"
proof (rule usage_reported [OF demoInvoke [of "\<lambda>_ _ _. None"]])
  show "bindAttempt (\<lambda>_. None) (sess_factory (demoSession None)) (sess_systemPrompt (demoSession None)) ''p'' (sess_tools (demoSession None))
      (sess_outputSchema (demoSession None)) = Inr (boundAttempt None ''p'')" using demoBound by (simp add: demoSession_def)
qed (simp add: demoSession_def)

text \<open>
  C22. A session for a captured provider uses the key that was captured. However the credentials
  have been created and rotated since, the session reads at most the captured version of the
  endpoint's credential; and where it takes a slot, every request it makes of the provider carries
  the secret that version held when it was captured.
\<close>

theorem session_key_captured:
  assumes "lawfulCipher c" "storeInv s" "reach (credStep c vr) s t"
    and "ReadSecret c vr i ''PROVIDER_API_KEY'' v (other_tables s) = Inr x"
    and "NewProviderFactory u captured profile endpoint hasPool hasSecrets = Inr factory"
    and "conf_CredentialID (end_Configuration endpoint) = Some i" "cap_CredentialVersion captured = Some v"
    and "out_Read out i ''PROVIDER_API_KEY'' v = (case ReadSecret c vr i ''PROVIDER_API_KEY'' v (other_tables t) of Inr y \<Rightarrow> Some y | Inl _ \<Rightarrow> None)"
    and "sess_factory session = factory" "\<not> sess_invoked session" "Invoke rx out prompt session = (session', es, result, failure)"
  shows "es = [] \<or> es = [SecretRead i v] \<or>
    (\<exists>client attempt slot inner r f. out_client out (fac_binding factory) = Some client \<and>
       es = SecretRead i v # SlotAcquired slot # inner @ [SlotReleased slot] \<and>
       withSlot out session' prompt attempt (client (exchangeHeaders (Reveal x))) slot = (inner, r, f))"
proof -
  obtain r f where n: "session' = session\<lparr>sess_invoked := True\<rparr>" "invoke rx out session' prompt = (es, r, f)"
    by (rule Invoke_first [OF assms(11,10)])
  have factory: "sess_factory session' = factory" using assms(9) by (simp add: n(1))
  note captured = capturedCredential_ok [OF NewProviderFactory_ok(6) [OF assms(5)]]
  then obtain ref where ref: "bind_Credential (fac_binding factory) = Some ref" "ref_ID ref = i" "ref_SecretVersion ref = v"
    using assms(6,7) by auto
  have read: "es' = [SecretRead i v]" "resolved = Inr apiKey \<Longrightarrow> apiKey = Reveal x"
    if "resolveAPIKey out factory = (es', resolved)" for es' resolved apiKey
    using that captured_read [OF assms(1-4)] assms(8) by (auto simp: resolveAPIKey_def ref split: sum.splits if_splits)
  from n(2) show ?thesis
  proof (cases rule: invoke_cases)
    case (stopped attempt resolved e)
    then show ?thesis using read(1) factory by simp
  next
    case (run attempt read_es apiKey client slot inner)
    have "read_es = [SecretRead i v]" "apiKey = Reveal x" using read run(3) factory by auto
    then show ?thesis using run(1,4,5) factory by auto
  qed simp
qed

theorem session_key_captured_witness:
  "\<exists>client attempt slot inner r f.
     [SecretRead (newID (replicate 16 0)) 1, SlotAcquired demoSlot, Dialed ''/run/a'', HungUp demoConn, SlotReleased demoSlot] =
       SecretRead (newID (replicate 16 0)) 1 # SlotAcquired slot # inner @ [SlotReleased slot] \<and>
     withSlot demoKeyed ((demoSession (Some demoReference))\<lparr>sess_invoked := True\<rparr>) ''p'' attempt
       (client (exchangeHeaders ''sk-12345678'')) slot = (inner, r, f)"
proof -
  note captured = session_key_captured [OF markCipher_lawful demoCreated_inv reach_refl demoRead demoFactory_credential _ _ _ _ _ demoKeyed_run]
  have "conf_CredentialID (end_Configuration (demoEndpoint (Some (newID (replicate 16 0))))) = Some (newID (replicate 16 0))"
    "cap_CredentialVersion (demoCapture (Some 1)) = Some 1"
    "sess_factory (demoSession (Some demoReference)) = demoFactory (Some \<lparr>ref_ID = newID (replicate 16 0), ref_SecretVersion = 1\<rparr>)"
    "\<not> sess_invoked (demoSession (Some demoReference))"
    "out_Read demoKeyed (newID (replicate 16 0)) ''PROVIDER_API_KEY'' 1 =
       (case ReadSecret markCipher demoVault (newID (replicate 16 0)) ''PROVIDER_API_KEY'' 1 (other_tables (fst demoCreated)) of
          Inr y \<Rightarrow> Some y | Inl _ \<Rightarrow> None)"
    by (simp_all add: demoEndpoint_def demoCapture_def demoSession_def demoReference_def demoKeyed_def demoOutside_def del: replicate.simps)
  from captured [OF this(1,2,5,3,4)] show ?thesis by auto
qed

end
