(* ===== verification/Passwords.thy ===== *)
theory Passwords
  imports CredentialVault
begin

text \<open>
  Stored passwords (\<^verbatim>\<open>internal/security/password.go\<close>): the text that a password is kept as and
  its verification. The key derivation is an argument; the encoding of the salt and the key is
  \<^verbatim>\<open>base64.RawURLEncoding\<close>, modelled from Go's documentation.
\<close>

section \<open>Unpadded base64\<close>

definition base64urlChar :: "nat \<Rightarrow> char" where
  "base64urlChar n =
     (if n < 26 then char_of (n + 65) else if n < 52 then char_of (n + 71) else if n < 62 then char_of (n - 4)
      else if n = 62 then CHR ''-'' else CHR ''_'')"

fun rawEncode :: "string \<Rightarrow> string" where
  "rawEncode [] = []"
| "rawEncode [a] = map base64urlChar [code a div 4, code a mod 4 * 16]"
| "rawEncode [a, b] = map base64urlChar [code a div 4, code a mod 4 * 16 + code b div 16, code b mod 16 * 4]"
| "rawEncode (a # b # c # rest) =
     map base64urlChar [code a div 4, code a mod 4 * 16 + code b div 16, code b mod 16 * 4 + code c div 64, code c mod 64] @
     rawEncode rest"

text \<open>The decoder skips line breaks anywhere, refuses every other byte outside the alphabet, and
  does not look at the unused bits of the last digit.\<close>

fun decodeDigits :: "nat list \<Rightarrow> string option" where
  "decodeDigits [] = Some []"
| "decodeDigits [w] = None"
| "decodeDigits [w, x] = Some [char_of (w * 4 + x div 16)]"
| "decodeDigits [w, x, y] = Some [char_of (w * 4 + x div 16), char_of (x mod 16 * 16 + y div 4)]"
| "decodeDigits (w # x # y # z # rest) =
     map_option (\<lambda>bs. char_of (w * 4 + x div 16) # char_of (x mod 16 * 16 + y div 4) # char_of (y mod 4 * 64 + z) # bs)
       (decodeDigits rest)"

definition rawDecode :: "string \<Rightarrow> string option" where
  "rawDecode s =
     (let ds = map base64urlDigit (filter (\<lambda>c. code c \<noteq> 10 \<and> code c \<noteq> 13) s) in
      if None \<in> set ds then None else decodeDigits (map the ds))"

lemma base64urlDigit_Char: "n < 64 \<Longrightarrow> base64urlDigit (base64urlChar n) = Some n"
  by (auto simp: base64urlChar_def base64urlDigit_def Let_def)

lemma base64urlChar_code:
  "n < 64 \<Longrightarrow> code (base64urlChar n) \<noteq> 10 \<and> code (base64urlChar n) \<noteq> 13 \<and> code (base64urlChar n) \<noteq> 36 \<and>
    code (base64urlChar n) \<noteq> 0 \<and> code (base64urlChar n) < 128"
  by (auto simp: base64urlChar_def)

fun sextets :: "string \<Rightarrow> nat list" where
  "sextets [] = []"
| "sextets [a] = [code a div 4, code a mod 4 * 16]"
| "sextets [a, b] = [code a div 4, code a mod 4 * 16 + code b div 16, code b mod 16 * 4]"
| "sextets (a # b # c # rest) =
     [code a div 4, code a mod 4 * 16 + code b div 16, code b mod 16 * 4 + code c div 64, code c mod 64] @ sextets rest"

lemma rawEncode_sextets: "rawEncode s = map base64urlChar (sextets s)"
  by (induction s rule: sextets.induct) simp_all

lemma code_256: "code c < 256"
  by simp

lemma sextet_bounds:
  fixes a b c :: nat
  assumes "a < 256" "b < 256" "c < 256"
  shows "a div 4 < 64" "a mod 4 * 16 < 64" "a mod 4 * 16 + b div 16 < 64" "b mod 16 * 4 < 64"
    "b mod 16 * 4 + c div 64 < 64"
  using assms by linarith+

lemma sextets_bound: "n \<in> set (sextets s) \<Longrightarrow> n < 64"
  by (induction s rule: sextets.induct) (use sextet_bounds [OF code_256 code_256 code_256] in auto)

lemma decode_parts:
  fixes a b c :: nat
  assumes "a < 256" "b < 256" "c < 256"
  shows "a div 4 * 4 + (a mod 4 * 16 + b div 16) div 16 = a"
    and "(a mod 4 * 16 + b div 16) mod 16 * 16 + (b mod 16 * 4 + c div 64) div 4 = b"
    and "(b mod 16 * 4 + c div 64) mod 4 * 64 + c mod 64 = c"
proof -
  have "b div 16 < 16" "c div 64 < 4" using assms by auto
  then show "a div 4 * 4 + (a mod 4 * 16 + b div 16) div 16 = a"
    and "(a mod 4 * 16 + b div 16) mod 16 * 16 + (b mod 16 * 4 + c div 64) div 4 = b"
    and "(b mod 16 * 4 + c div 64) mod 4 * 64 + c mod 64 = c"
    by (simp_all add: mod_simps)
qed

lemma decodeDigits_sextets: "decodeDigits (sextets s) = Some s"
proof (induction s rule: sextets.induct)
  case (4 a b c rest)
  then show ?case using decode_parts [of "code a" "code b" "code c"] by simp
next
  case (2 a)
  then show ?case using decode_parts(1) [of "code a" 0 0] by simp
next
  case (3 a b)
  then show ?case using decode_parts(1,2) [of "code a" "code b" 0] by simp
qed simp

lemma map_the_digits: "\<forall>n \<in> set ns. n < 64 \<Longrightarrow> map (base64urlDigit \<circ> base64urlChar) ns = map Some ns"
  by (induction ns) (simp_all add: base64urlDigit_Char)

lemma rawDecode_rawEncode [simp]: "rawDecode (rawEncode s) = Some s"
proof -
  have bound: "\<forall>n \<in> set (sextets s). n < 64" using sextets_bound by blast
  then have "filter (\<lambda>c. code c \<noteq> 10 \<and> code c \<noteq> 13) (rawEncode s) = rawEncode s"
    unfolding rawEncode_sextets using base64urlChar_code by (intro filter_True) auto
  then have digits: "map base64urlDigit (filter (\<lambda>c. code c \<noteq> 10 \<and> code c \<noteq> 13) (rawEncode s)) = map Some (sextets s)"
    using map_the_digits [OF bound] by (simp add: rawEncode_sextets)
  show ?thesis unfolding rawDecode_def Let_def digits by (simp add: decodeDigits_sextets comp_def image_iff)
qed

lemma rawEncode_set: "c \<in> set (rawEncode s) \<Longrightarrow> code c \<noteq> 36 \<and> code c \<noteq> 0 \<and> code c < 128"
  using base64urlChar_code [OF sextets_bound] by (auto simp: rawEncode_sextets)

lemma rawEncode_inject: "rawEncode s = rawEncode t \<Longrightarrow> s = t"
  by (metis rawDecode_rawEncode option.inject)

lemma rawEncode_Nil [simp]: "rawEncode s = [] \<longleftrightarrow> s = []"
  by (cases s rule: sextets.cases) (simp_all add: rawEncode_sextets)

section \<open>Password texts\<close>

text \<open>\<^verbatim>\<open>scrypt.Key(password, salt, N, r, p, keyLen)\<close>.\<close>

type_synonym scrypt = "string \<Rightarrow> string \<Rightarrow> nat \<Rightarrow> nat \<Rightarrow> nat \<Rightarrow> nat \<Rightarrow> string option"

definition passwordVersion :: nat where "passwordVersion = 1"
definition passwordN :: nat where "passwordN = 16384"
definition passwordR :: nat where "passwordR = 8"
definition passwordP :: nat where "passwordP = 1"
definition passwordSaltBytes :: nat where "passwordSaltBytes = 16"
definition passwordKeyBytes :: nat where "passwordKeyBytes = 32"

datatype passwordError = ErrPasswordSalt | ErrPasswordText | ErrPasswordKey

definition hashPasswordWithSalt :: "scrypt \<Rightarrow> string \<Rightarrow> string \<Rightarrow> passwordError + string" where
  "hashPasswordWithSalt scrypt password salt =
     (if \<not> utf8Valid password then Inl ErrPasswordText
      else case scrypt password salt passwordN passwordR passwordP passwordKeyBytes of
        None \<Rightarrow> Inl ErrPasswordKey
      | Some digest \<Rightarrow> Inr (''scrypt$v='' @ natDigits passwordVersion @ ''$n='' @ natDigits passwordN @
          ''$r='' @ natDigits passwordR @ ''$p='' @ natDigits passwordP @ ''$'' @ rawEncode salt @ ''$'' @ rawEncode digest))"

text \<open>The salt is what the random source gave, if it gave anything.\<close>

definition HashPassword :: "scrypt \<Rightarrow> string option \<Rightarrow> string \<Rightarrow> passwordError + string" where
  "HashPassword scrypt drawn password =
     (case drawn of None \<Rightarrow> Inl ErrPasswordSalt | Some salt \<Rightarrow> hashPasswordWithSalt scrypt password salt)"

definition VerifyPassword :: "scrypt \<Rightarrow> string \<Rightarrow> string \<Rightarrow> bool" where
  "VerifyPassword scrypt password encoded =
     (let parts = splitOn CHR ''$'' encoded in
      if length parts \<noteq> 7 \<or> parts ! 0 \<noteq> ''scrypt'' \<or> parts ! 1 \<noteq> ''v=1'' \<or> parts ! 2 \<noteq> ''n=16384'' \<or>
         parts ! 3 \<noteq> ''r=8'' \<or> parts ! 4 \<noteq> ''p=1'' \<or> \<not> utf8Valid password then False
      else case rawDecode (parts ! 5) of
        None \<Rightarrow> False
      | Some salt \<Rightarrow>
          if length salt \<noteq> passwordSaltBytes then False
          else (case rawDecode (parts ! 6) of
              None \<Rightarrow> False
            | Some expected \<Rightarrow>
                if length expected \<noteq> passwordKeyBytes then False
                else (case scrypt password salt passwordN passwordR passwordP passwordKeyBytes of
                    None \<Rightarrow> False
                  | Some actual \<Rightarrow> actual = expected)))"

lemmas password_constants = passwordVersion_def passwordN_def passwordR_def passwordP_def

lemma password_digits:
  "natDigits passwordVersion = ''1''" "natDigits passwordN = ''16384''" "natDigits passwordR = ''8''" "natDigits passwordP = ''1''"
  by (simp_all add: natDigits.simps password_constants char_of_eq_iff)

lemma hash_text:
  "hashPasswordWithSalt scrypt q salt = Inr h \<longleftrightarrow> utf8Valid q \<and>
     (\<exists>digest. scrypt q salt passwordN passwordR passwordP passwordKeyBytes = Some digest \<and>
        h = joinWith CHR ''$'' [''scrypt'', ''v=1'', ''n=16384'', ''r=8'', ''p=1'', rawEncode salt, rawEncode digest])"
  by (auto simp: hashPasswordWithSalt_def password_digits split: option.splits)

lemma split_hash:
  "splitOn CHR ''$'' (joinWith CHR ''$'' [''scrypt'', ''v=1'', ''n=16384'', ''r=8'', ''p=1'', rawEncode salt, rawEncode digest]) =
    [''scrypt'', ''v=1'', ''n=16384'', ''r=8'', ''p=1'', rawEncode salt, rawEncode digest]"
proof (rule split_joinWith)
  have "CHR ''$'' \<notin> set (rawEncode s)" for s using rawEncode_set [of "CHR ''$''" s] by auto
  then show "\<forall>p \<in> set [''scrypt'', ''v=1'', ''n=16384'', ''r=8'', ''p=1'', rawEncode salt, rawEncode digest]. CHR ''$'' \<notin> set p"
    by auto
qed simp

text \<open>A stored password is text that the database accepts: ASCII without a zero byte.\<close>

lemma hash_ascii: "hashPasswordWithSalt scrypt q salt = Inr h \<Longrightarrow> c \<in> set h \<Longrightarrow> code c \<noteq> 0 \<and> code c < 128"
  using rawEncode_set by (auto simp: hash_text)

text \<open>
  A stored password verifies exactly the passwords that are valid UTF-8 and derive the
  stored key from the stored salt: the password itself always, and another only where the key
  derivation collides. The derivation gives as many bytes as it is asked for.
\<close>

lemma stored_password_verifies:
  assumes stored: "hashPasswordWithSalt scrypt q salt = Inr h" "length salt = 16"
    and scrypt: "\<And>p s n r k len key. scrypt p s n r k len = Some key \<Longrightarrow> length key = len"
  shows "VerifyPassword scrypt p h \<longleftrightarrow> utf8Valid p \<and> scrypt p salt 16384 8 1 32 = scrypt q salt 16384 8 1 32"
proof -
  from stored(1) obtain digest where d: "scrypt q salt 16384 8 1 32 = Some digest"
    "h = joinWith CHR ''$'' [''scrypt'', ''v=1'', ''n=16384'', ''r=8'', ''p=1'', rawEncode salt, rawEncode digest]"
    by (auto simp: hash_text password_constants passwordKeyBytes_def)
  have "length digest = 32" using scrypt d(1) by blast
  then show ?thesis using stored(2) unfolding VerifyPassword_def d(2) split_hash
    by (auto simp: d(1) password_constants passwordKeyBytes_def passwordSaltBytes_def simp del: One_nat_def split: option.splits)
qed

definition demoScrypt :: scrypt where
  "demoScrypt p s n r k len = Some (take len (s @ p @ replicate len (CHR ''k'')))"

lemma demoScrypt_length: "demoScrypt p s n r k len = Some key \<Longrightarrow> length key = len"
  by (auto simp: demoScrypt_def)

lemma password_example:
  "\<exists>h. hashPasswordWithSalt demoScrypt ''secret'' ''0123456789abcdef'' = Inr h \<and> VerifyPassword demoScrypt ''secret'' h \<and>
     \<not> VerifyPassword demoScrypt ''sesame'' h"
proof -
  have valid: "utf8Valid ''secret''" "utf8Valid ''sesame''" by (simp_all add: utf8Valid_def runes_ascii runeError_def)
  then obtain h where h: "hashPasswordWithSalt demoScrypt ''secret'' ''0123456789abcdef'' = Inr h"
    by (auto simp: hash_text demoScrypt_def)
  have verifies: "VerifyPassword demoScrypt p h \<longleftrightarrow> utf8Valid p \<and> demoScrypt p ''0123456789abcdef'' 16384 8 1 32 = demoScrypt ''secret'' ''0123456789abcdef'' 16384 8 1 32" for p
    by (rule stored_password_verifies [OF h _ demoScrypt_length]) simp_all
  have "VerifyPassword demoScrypt ''secret'' h" using verifies [of "''secret''"] valid by simp
  moreover have "\<not> VerifyPassword demoScrypt ''sesame'' h" using verifies [of "''sesame''"] by (simp add: demoScrypt_def)
  ultimately show ?thesis using h by blast
qed

end
