(* ===== verification/Authentication.thy ===== *)
theory Authentication
  imports Passwords JobTypes Postgres
begin

text \<open>
  Operators and their sessions (\<^verbatim>\<open>internal/auth\<close>, the session guards of \<^verbatim>\<open>internal/api/auth.go\<close>):
  the three tables, the bootstrap of the only operator, logins, the recognition of session tokens
  and logouts, each as one transaction. The hash functions, the key derivation and the Unicode
  normalization are arguments of the service; the clock, the random source, the identifiers that the
  database generates and the failures of the database are what a call draws from outside.
\<close>

section \<open>Identity\<close>

datatype authError =
    ErrAuthentication
  | ErrBootstrapDenied
  | ErrCSRF
  | ErrServiceUnavailable
  | ErrInvalidUsername
  | ErrInvalidToken

record Username =
  user_Display :: string
  user_Key :: string

definition pythonSpace :: "nat \<Rightarrow> bool" where
  "pythonSpace r \<longleftrightarrow> isSpaceRune r \<or> 0x1C \<le> r \<and> r \<le> 0x1F"

text \<open>The normal form and the case folding are those of \<^verbatim>\<open>golang.org/x/text\<close>.\<close>

definition ParseUsername :: "(string \<Rightarrow> string) \<Rightarrow> (string \<Rightarrow> string) \<Rightarrow> string \<Rightarrow> authError + Username" where
  "ParseUsername nfkc foldCase v =
     (if \<not> utf8Valid v then Inl ErrInvalidUsername
      else let display = TrimFunc pythonSpace (nfkc v) in
        if RuneCountInString display < 1 \<or> RuneCountInString display > 255 then Inl ErrInvalidUsername
        else let key = foldCase display in
          if RuneCountInString key > 255 then Inl ErrInvalidUsername
          else Inr \<lparr>user_Display = display, user_Key = key\<rparr>)"

datatype SessionToken = SessionToken (token_value: string)

definition NewSessionToken :: "string \<Rightarrow> authError + SessionToken" where
  "NewSessionToken v = (if v = [] \<or> \<not> utf8Valid v then Inl ErrInvalidToken else Inr (SessionToken v))"

record BootstrapCommand =
  boot_Username :: Username
  boot_Password :: "SecretValue option"
  boot_BootstrapToken :: "SecretValue option"

record LoginCommand =
  login_Username :: Username
  login_Password :: "SecretValue option"

record Operator =
  operator_ID :: UUID
  operator_Username :: string

record OperatorSession =
  session_ID :: UUID
  session_Operator :: Operator
  session_CreatedAt :: gotime
  session_LastSeenAt :: gotime
  session_ExpiresAt :: gotime

record AuthenticatedSession =
  auth_Session :: OperatorSession
  auth_Token :: SessionToken
  auth_CSRFToken :: string

text \<open>The functions of the standard library that the service calls on secrets.\<close>

record authCrypto =
  crypto_sha256 :: "string \<Rightarrow> string"
  crypto_hmac :: "string \<Rightarrow> string \<Rightarrow> string"
  crypto_scrypt :: scrypt

definition DigestToken :: "authCrypto \<Rightarrow> string \<Rightarrow> string" where
  "DigestToken c token = crypto_sha256 c token"

definition csrfDomain :: string where
  "csrfDomain = ''ref0.csrf.v1'' @ [char_of (0 :: nat)]"

definition CSRFTokenFor :: "authCrypto \<Rightarrow> SessionToken \<Rightarrow> UUID \<Rightarrow> string" where
  "CSRFTokenFor c token sessionID = rawEncode (crypto_hmac c (token_value token) (csrfDomain @ bytesOf sessionID))"

definition CSRFTokenMatches :: "authCrypto \<Rightarrow> SessionToken \<Rightarrow> UUID \<Rightarrow> string \<Rightarrow> bool" where
  "CSRFTokenMatches c token sessionID submitted \<longleftrightarrow> CSRFTokenFor c token sessionID = submitted"

section \<open>Tables\<close>

record OperatorRow =
  op_id :: UUID
  op_username :: string
  op_username_key :: string
  op_password_hash :: string
  op_disabled_at :: "pgtime option"
  op_created_at :: pgtime
  op_updated_at :: pgtime
  op_version :: int

record BootstrapTokenRow =
  bt_token_digest :: string
  bt_created_at :: pgtime
  bt_expires_at :: pgtime
  bt_consumed_at :: "pgtime option"

record OperatorSessionRow =
  os_id :: UUID
  os_operator_id :: UUID
  os_token_digest :: string
  os_created_at :: pgtime
  os_last_seen_at :: pgtime
  os_expires_at :: pgtime
  os_revoked_at :: "pgtime option"

text \<open>The bootstrap token table holds the row with the identifier one or nothing.\<close>

record authTables =
  operators :: "OperatorRow list"
  bootstrap_token :: "BootstrapTokenRow option"
  operator_sessions :: "OperatorSessionRow list"

definition noOperators :: authTables where
  "noOperators = \<lparr>operators = [], bootstrap_token = None, operator_sessions = []\<rparr>"

definition insertOperator :: "OperatorRow \<Rightarrow> authTables \<Rightarrow> authError + authTables" where
  "insertOperator row s =
     (case (varchar 255 (op_username row), varchar 255 (op_username_key row)) of
        (Some username, Some key) \<Rightarrow>
          if \<not> pgText (op_password_hash row) \<or> list_ex (\<lambda>o'. op_id o' = op_id row \<or> op_username_key o' = key) (operators s)
          then Inl ErrServiceUnavailable
          else Inr (s\<lparr>operators := operators s @ [row\<lparr>op_username := username, op_username_key := key\<rparr>]\<rparr>)
      | _ \<Rightarrow> Inl ErrServiceUnavailable)"

definition bootstrapRowOk :: "BootstrapTokenRow \<Rightarrow> bool" where
  "bootstrapRowOk row \<longleftrightarrow> (case bt_consumed_at row of None \<Rightarrow> True | Some t \<Rightarrow> bt_created_at row \<le> t) \<and>
     bt_created_at row < bt_expires_at row \<and> length (bt_token_digest row) = 32"

definition storeBootstrap :: "BootstrapTokenRow \<Rightarrow> authTables \<Rightarrow> authError + authTables" where
  "storeBootstrap row s = (if bootstrapRowOk row then Inr (s\<lparr>bootstrap_token := Some row\<rparr>) else Inl ErrServiceUnavailable)"

definition insertSession :: "OperatorSessionRow \<Rightarrow> authTables \<Rightarrow> authError + authTables" where
  "insertSession row s =
     (if os_expires_at row \<le> os_created_at row \<or> length (os_token_digest row) \<noteq> 32 \<or>
         list_ex (\<lambda>r. os_id r = os_id row \<or> os_token_digest r = os_token_digest row) (operator_sessions s) \<or>
         \<not> list_ex (\<lambda>o'. op_id o' = os_operator_id row) (operators s)
      then Inl ErrServiceUnavailable
      else Inr (s\<lparr>operator_sessions := operator_sessions s @ [row]\<rparr>))"

section \<open>Service\<close>

text \<open>\<open>svc_passwordSlots\<close> is the capacity of the channel that bounds concurrent derivations.\<close>

record authService =
  svc_sessionTTL :: duration
  svc_passwordSlots :: int
  svc_crypto :: authCrypto
  svc_hashPassword :: "string option \<Rightarrow> string \<Rightarrow> passwordError + string"
  svc_verifyPassword :: "string \<Rightarrow> string \<Rightarrow> bool"

definition DefaultPasswordConcurrency :: int where
  "DefaultPasswordConcurrency = 2"

definition dummyPasswordHash :: string where
  "dummyPasswordHash = ''scrypt$v=1$n=16384$r=8$p=1$cmVmMC1kdW1teS1zYWx0IQ$2yl6gybxhistUUXdIeovo5ykmeamzwJQdTwsGJ3nS90''"

definition NewService :: "authCrypto \<Rightarrow> duration \<Rightarrow> int \<Rightarrow> authService option" where
  "NewService c sessionTTL passwordConcurrency =
     (if sessionTTL \<le> 0 \<or> passwordConcurrency \<le> 0 then None
      else Some \<lparr>svc_sessionTTL = sessionTTL, svc_passwordSlots = passwordConcurrency, svc_crypto = c,
        svc_hashPassword = HashPassword (crypto_scrypt c), svc_verifyPassword = VerifyPassword (crypto_scrypt c)\<rparr>)"

text \<open>
  What one call draws: the reading of the clock, the failures of its database calls, numbered in the
  order of the source, whether it gets a password slot before its context ends, the salt and the
  token of the random source, the identifiers the database generates, and what becomes of the
  commit, whose acknowledgement may be lost.
\<close>

datatype commitOutcome = Committed | RolledBack | AckLost

record draws =
  call_clock :: gotime
  call_fails :: "nat \<Rightarrow> bool"
  call_slot :: bool
  call_salt :: "string option"
  call_random :: "string option"
  call_operatorID :: UUID
  call_sessionID :: UUID
  call_commit :: commitOutcome

text \<open>The clock is truncated to microseconds; stored instants are microseconds.\<close>

definition nowOf :: "draws \<Rightarrow> gotime" where
  "nowOf r = call_clock r - call_clock r mod 1000"

definition stored :: "gotime \<Rightarrow> pgtime" where
  "stored t = t div 1000"

definition scanned :: "pgtime \<Rightarrow> gotime" where
  "scanned t = 1000 * t"

definition dbCall :: "draws \<Rightarrow> nat \<Rightarrow> authError + unit" where
  "dbCall r n = ensureE (\<not> call_fails r n) ErrServiceUnavailable"

definition commit :: "draws \<Rightarrow> (authTables, authError, 'a) txn \<Rightarrow> (authTables, authError, 'a) action" where
  "commit r body s =
     (case body s of
        Inl e \<Rightarrow> (s, Inl e)
      | Inr (s', v) \<Rightarrow>
          (case call_commit r of
             Committed \<Rightarrow> (s', Inr v)
           | RolledBack \<Rightarrow> (s, Inl ErrServiceUnavailable)
           | AckLost \<Rightarrow> (s', Inl ErrServiceUnavailable)))"

section \<open>Bootstrap\<close>

definition bootstrapRow :: "authService \<Rightarrow> draws \<Rightarrow> SecretValue \<Rightarrow> duration \<Rightarrow> BootstrapTokenRow" where
  "bootstrapRow svc r token expiresIn =
     \<lparr>bt_token_digest = DigestToken (svc_crypto svc) (Reveal token), bt_created_at = stored (nowOf r),
      bt_expires_at = stored (nowOf r + expiresIn), bt_consumed_at = None\<rparr>"

definition initializeBody :: "authService \<Rightarrow> draws \<Rightarrow> SecretValue option \<Rightarrow> duration \<Rightarrow> (authTables, authError, unit) txn" where
  "initializeBody svc r token expiresIn s =
     bindE (dbCall r 0) (\<lambda>_. bindE (dbCall r 1) (\<lambda>_. bindE (dbCall r 2) (\<lambda>_.
       case token of
         None \<Rightarrow> Inr (s, ())
       | Some v \<Rightarrow>
           if operators s \<noteq> [] then Inr (s, ())
           else bindE (dbCall r 3) (\<lambda>_.
             let row = bootstrapRow svc r v expiresIn;
                 store = bindE (dbCall r 4) (\<lambda>_. bindE (storeBootstrap row s) (\<lambda>s1. Inr (s1, ()))) in
             case bootstrap_token s of
               None \<Rightarrow> store
             | Some old \<Rightarrow>
                 if bt_consumed_at old = None \<and> bt_token_digest old \<noteq> bt_token_digest row then store else Inr (s, ())))))"

definition InitializeBootstrap :: "authService \<Rightarrow> draws \<Rightarrow> SecretValue option \<Rightarrow> duration \<Rightarrow> (authTables, authError, unit) action" where
  "InitializeBootstrap svc r token expiresIn s =
     (if expiresIn \<le> 0 then (s, Inl ErrServiceUnavailable) else commit r (initializeBody svc r token expiresIn) s)"

section \<open>Sessions\<close>

text \<open>The token of a session is the text of its 32 random bytes; the insertion is database call \<open>n\<close>.\<close>

definition createSession :: "authService \<Rightarrow> draws \<Rightarrow> nat \<Rightarrow> Operator \<Rightarrow> (authTables, authError, AuthenticatedSession) txn" where
  "createSession svc r n operator s =
     (case call_random r of
        None \<Rightarrow> Inl ErrServiceUnavailable
      | Some random \<Rightarrow>
          (case NewSessionToken (rawEncode random) of
             Inl _ \<Rightarrow> Inl ErrServiceUnavailable
           | Inr token \<Rightarrow>
               let now = nowOf r; expiresAt = now + svc_sessionTTL svc in
               bindE (dbCall r n) (\<lambda>_.
               bindE (insertSession \<lparr>os_id = call_sessionID r, os_operator_id = operator_ID operator,
                   os_token_digest = DigestToken (svc_crypto svc) (token_value token), os_created_at = stored now,
                   os_last_seen_at = stored now, os_expires_at = stored expiresAt, os_revoked_at = None\<rparr> s) (\<lambda>s1.
                 Inr (s1, \<lparr>auth_Session = \<lparr>session_ID = call_sessionID r, session_Operator = operator, session_CreatedAt = now,
                     session_LastSeenAt = now, session_ExpiresAt = expiresAt\<rparr>,
                   auth_Token = token, auth_CSRFToken = CSRFTokenFor (svc_crypto svc) token (call_sessionID r)\<rparr>)))))"

definition bootstrapBody :: "authService \<Rightarrow> draws \<Rightarrow> BootstrapCommand \<Rightarrow> SecretValue \<Rightarrow> SecretValue \<Rightarrow>
    (authTables, authError, AuthenticatedSession) txn" where
  "bootstrapBody svc r command password token s =
     bindE (dbCall r 0) (\<lambda>_. bindE (dbCall r 1) (\<lambda>_.
       case bootstrap_token s of
         None \<Rightarrow> Inl ErrBootstrapDenied
       | Some row \<Rightarrow>
           bindE (ensureE (bt_consumed_at row = None \<and> nowOf r < scanned (bt_expires_at row) \<and>
               bt_token_digest row = DigestToken (svc_crypto svc) (Reveal token)) ErrBootstrapDenied) (\<lambda>_.
           bindE (dbCall r 2) (\<lambda>_.
           bindE (ensureE (operators s = []) ErrBootstrapDenied) (\<lambda>_.
           bindE (ensureE (call_slot r) ErrServiceUnavailable) (\<lambda>_.
           case svc_hashPassword svc (call_salt r) (Reveal password) of
             Inl _ \<Rightarrow> Inl ErrServiceUnavailable
           | Inr passwordHash \<Rightarrow>
               bindE (dbCall r 3) (\<lambda>_.
               bindE (insertOperator \<lparr>op_id = call_operatorID r, op_username = user_Display (boot_Username command),
                   op_username_key = user_Key (boot_Username command), op_password_hash = passwordHash,
                   op_disabled_at = None, op_created_at = stored (nowOf r), op_updated_at = stored (nowOf r), op_version = 1\<rparr> s) (\<lambda>s1.
               bindE (dbCall r 4) (\<lambda>_.
               bindE (storeBootstrap (row\<lparr>bt_consumed_at := Some (stored (nowOf r))\<rparr>) s1) (\<lambda>s2.
               createSession svc r 5 \<lparr>operator_ID = call_operatorID r,
                 operator_Username = user_Display (boot_Username command)\<rparr> s2))))))))))"

definition Bootstrap :: "authService \<Rightarrow> draws \<Rightarrow> BootstrapCommand \<Rightarrow> (authTables, authError, AuthenticatedSession) action" where
  "Bootstrap svc r command s =
     (case (boot_Password command, boot_BootstrapToken command) of
        (Some password, Some token) \<Rightarrow>
          if user_Display (boot_Username command) = [] \<or> user_Key (boot_Username command) = [] then (s, Inl ErrBootstrapDenied)
          else commit r (bootstrapBody svc r command password token) s
      | _ \<Rightarrow> (s, Inl ErrBootstrapDenied))"

text \<open>A login verifies the password against a fixed hash where there is no such operator.\<close>

definition loginBody :: "authService \<Rightarrow> draws \<Rightarrow> LoginCommand \<Rightarrow> (authTables, authError, AuthenticatedSession) txn" where
  "loginBody svc r command s =
     bindE (ensureE (call_slot r) ErrServiceUnavailable) (\<lambda>_.
     bindE (dbCall r 0) (\<lambda>_.
     bindE (dbCall r 1) (\<lambda>_.
     bindE (ensureE (pgText (user_Key (login_Username command))) ErrServiceUnavailable) (\<lambda>_.
       let operator = find (\<lambda>o'. op_username_key o' = user_Key (login_Username command) \<and> op_disabled_at o' = None) (operators s);
           passwordHash = (case operator of None \<Rightarrow> dummyPasswordHash | Some row \<Rightarrow> op_password_hash row);
           password = (case login_Password command of None \<Rightarrow> [] | Some v \<Rightarrow> Reveal v);
           passwordValid = svc_verifyPassword svc password passwordHash in
       case operator of
         None \<Rightarrow> Inl ErrAuthentication
       | Some row \<Rightarrow>
           if passwordValid then createSession svc r 2 \<lparr>operator_ID = op_id row, operator_Username = op_username row\<rparr> s
           else Inl ErrAuthentication))))"

definition Login :: "authService \<Rightarrow> draws \<Rightarrow> LoginCommand \<Rightarrow> (authTables, authError, AuthenticatedSession) action" where
  "Login svc r command s = commit r (loginBody svc r command) s"

definition touchSession :: "UUID \<Rightarrow> pgtime \<Rightarrow> authTables \<Rightarrow> authTables" where
  "touchSession i t s = s\<lparr>operator_sessions :=
     map (\<lambda>row. if os_id row = i then row\<lparr>os_last_seen_at := t\<rparr> else row) (operator_sessions s)\<rparr>"

definition selectSession :: "string \<Rightarrow> pgtime \<Rightarrow> authTables \<Rightarrow> (OperatorSessionRow \<times> OperatorRow) option" where
  "selectSession digest now s =
     find (\<lambda>(row, o'). os_token_digest row = digest \<and> os_revoked_at row = None \<and> now < os_expires_at row \<and>
         op_id o' = os_operator_id row \<and> op_disabled_at o' = None)
       (List.product (operator_sessions s) (operators s))"

definition authenticateBody :: "authService \<Rightarrow> draws \<Rightarrow> SessionToken \<Rightarrow> (authTables, authError, OperatorSession) txn" where
  "authenticateBody svc r token s =
     bindE (dbCall r 0) (\<lambda>_. bindE (dbCall r 1) (\<lambda>_.
       case selectSession (DigestToken (svc_crypto svc) (token_value token)) (stored (nowOf r)) s of
         None \<Rightarrow> Inl ErrAuthentication
       | Some (row, o') \<Rightarrow>
           bindE (dbCall r 2) (\<lambda>_.
             Inr (touchSession (os_id row) (stored (nowOf r)) s,
               \<lparr>session_ID = os_id row, session_Operator = \<lparr>operator_ID = op_id o', operator_Username = op_username o'\<rparr>,
                session_CreatedAt = scanned (os_created_at row), session_LastSeenAt = nowOf r,
                session_ExpiresAt = scanned (os_expires_at row)\<rparr>))))"

definition Authenticate :: "authService \<Rightarrow> draws \<Rightarrow> SessionToken \<Rightarrow> (authTables, authError, OperatorSession) action" where
  "Authenticate svc r token s =
     (if token_value token = [] then (s, Inl ErrAuthentication) else commit r (authenticateBody svc r token) s)"

text \<open>A logout is one statement, which commits by itself.\<close>

definition revokeSession :: "UUID \<Rightarrow> pgtime \<Rightarrow> authTables \<Rightarrow> authTables" where
  "revokeSession i t s = s\<lparr>operator_sessions :=
     map (\<lambda>row. if os_id row = i \<and> os_revoked_at row = None then row\<lparr>os_revoked_at := Some t\<rparr> else row) (operator_sessions s)\<rparr>"

definition Logout :: "draws \<Rightarrow> UUID \<Rightarrow> (authTables, authError, unit) action" where
  "Logout r sessionID s =
     commit r (\<lambda>s. bindE (dbCall r 0) (\<lambda>_. Inr (revokeSession sessionID (stored (nowOf r)) s, ()))) s"

section \<open>Guards of the HTTP interface\<close>

text \<open>The decoded body of a request, where its content type is JSON and its members are the known
  ones.\<close>

record bootstrapRequest =
  breq_Username :: string
  breq_Password :: string
  breq_BootstrapToken :: string

record loginRequest =
  lreq_Username :: string
  lreq_Password :: string

definition runeLength :: "string \<Rightarrow> nat \<Rightarrow> nat \<Rightarrow> bool" where
  "runeLength v minimum maximum \<longleftrightarrow> minimum \<le> RuneCountInString v \<and> RuneCountInString v \<le> maximum"

definition bootstrapCommand :: "(string \<Rightarrow> string) \<Rightarrow> (string \<Rightarrow> string) \<Rightarrow> bootstrapRequest option \<Rightarrow> BootstrapCommand option" where
  "bootstrapCommand nfkc foldCase decoded =
     (case decoded of
        None \<Rightarrow> None
      | Some body \<Rightarrow>
          if \<not> runeLength (breq_Username body) 1 255 \<or> \<not> runeLength (breq_Password body) 8 1024 \<or>
             \<not> runeLength (breq_BootstrapToken body) 1 2048 then None
          else (case (ParseUsername nfkc foldCase (breq_Username body), NewSecretValue (breq_Password body),
                   NewSecretValue (breq_BootstrapToken body)) of
              (Inr username, Inr password, Inr token) \<Rightarrow>
                Some \<lparr>boot_Username = username, boot_Password = Some password, boot_BootstrapToken = Some token\<rparr>
            | _ \<Rightarrow> None))"

definition loginCommand :: "(string \<Rightarrow> string) \<Rightarrow> (string \<Rightarrow> string) \<Rightarrow> loginRequest option \<Rightarrow> LoginCommand option" where
  "loginCommand nfkc foldCase decoded =
     (case decoded of
        None \<Rightarrow> None
      | Some body \<Rightarrow>
          if \<not> runeLength (lreq_Username body) 1 255 \<or> \<not> runeLength (lreq_Password body) 1 1024 then None
          else (case (ParseUsername nfkc foldCase (lreq_Username body), NewSecretValue (lreq_Password body)) of
              (Inr username, Inr password) \<Rightarrow> Some \<lparr>login_Username = username, login_Password = Some password\<rparr>
            | _ \<Rightarrow> None))"

text \<open>What the interface lets through has names that the columns hold whole.\<close>

lemma bootstrapCommand_names:
  "bootstrapCommand nfkc foldCase decoded = Some command \<Longrightarrow>
    RuneCountInString (user_Display (boot_Username command)) \<le> 255 \<and> RuneCountInString (user_Key (boot_Username command)) \<le> 255"
  by (auto simp: bootstrapCommand_def ParseUsername_def Let_def split: option.splits if_splits sum.splits)

record problem =
  problem_Title :: string
  problem_Status :: nat
  problem_Detail :: string
  problem_Instance :: string

definition authProblem :: "string \<Rightarrow> authError \<Rightarrow> problem" where
  "authProblem path e =
     (case e of
        ErrAuthentication \<Rightarrow> \<lparr>problem_Title = ''Unauthorized'', problem_Status = 401, problem_Detail = ''Authentication failed.'', problem_Instance = path\<rparr>
      | ErrBootstrapDenied \<Rightarrow> \<lparr>problem_Title = ''Forbidden'', problem_Status = 403, problem_Detail = ''Bootstrap is unavailable.'', problem_Instance = path\<rparr>
      | ErrCSRF \<Rightarrow> \<lparr>problem_Title = ''Forbidden'', problem_Status = 403, problem_Detail = ''Request verification failed.'', problem_Instance = path\<rparr>
      | _ \<Rightarrow> \<lparr>problem_Title = ''Internal Server Error'', problem_Status = 500, problem_Detail = ''The request could not be completed.'',
            problem_Instance = path\<rparr>)"

definition AuthenticateSession ::
  "authService \<Rightarrow> draws \<Rightarrow> string \<Rightarrow> string \<Rightarrow> (authTables, problem, SessionToken \<times> OperatorSession) action" where
  "AuthenticateSession svc r rawCookie path s =
     (case NewSessionToken rawCookie of
        Inl _ \<Rightarrow> (s, Inl (authProblem path ErrAuthentication))
      | Inr token \<Rightarrow>
          (case Authenticate svc r token s of
             (s1, Inl e) \<Rightarrow> (s1, Inl (authProblem path e))
           | (s1, Inr session) \<Rightarrow> (s1, Inr (token, session))))"

definition RequireAuthenticatedWrite ::
  "authService \<Rightarrow> draws \<Rightarrow> string \<Rightarrow> string \<Rightarrow> string \<Rightarrow> (authTables, problem, SessionToken \<times> OperatorSession) action" where
  "RequireAuthenticatedWrite svc r rawCookie csrfToken path s =
     (case AuthenticateSession svc r rawCookie path s of
        (s1, Inl p) \<Rightarrow> (s1, Inl p)
      | (s1, Inr (token, session)) \<Rightarrow>
          if csrfToken = [] \<or> \<not> CSRFTokenMatches (svc_crypto svc) token (session_ID session) csrfToken
          then (s1, Inl (authProblem path ErrCSRF)) else (s1, Inr (token, session)))"

section \<open>Runs\<close>

text \<open>Everything the process does to the tables is a sequence of these calls.\<close>

datatype authCall =
    InitializeCall "SecretValue option" duration
  | BootstrapCall BootstrapCommand
  | LoginCall LoginCommand
  | AuthenticateCall SessionToken
  | LogoutCall UUID

datatype authAnswer = Finished | Opened AuthenticatedSession | Recognized OperatorSession | Refused authError

definition answerOf :: "('a \<Rightarrow> authAnswer) \<Rightarrow> authTables \<times> (authError + 'a) \<Rightarrow> authTables \<times> authAnswer" where
  "answerOf f x = (fst x, case snd x of Inl e \<Rightarrow> Refused e | Inr v \<Rightarrow> f v)"

fun serve :: "authService \<Rightarrow> draws \<times> authCall \<Rightarrow> authTables \<Rightarrow> authTables \<times> authAnswer" where
  "serve svc (r, InitializeCall token expiresIn) s = answerOf (\<lambda>_. Finished) (InitializeBootstrap svc r token expiresIn s)"
| "serve svc (r, BootstrapCall command) s = answerOf Opened (Bootstrap svc r command s)"
| "serve svc (r, LoginCall command) s = answerOf Opened (Login svc r command s)"
| "serve svc (r, AuthenticateCall token) s = answerOf Recognized (Authenticate svc r token s)"
| "serve svc (r, LogoutCall i) s = answerOf (\<lambda>_. Finished) (Logout r i s)"

definition serveAll :: "authService \<Rightarrow> (draws \<times> authCall) list \<Rightarrow> authTables \<Rightarrow> authTables" where
  "serveAll svc h s = fold (\<lambda>x s. fst (serve svc x s)) h s"

end
