(* ===== verification/AuthProperties.thy ===== *)
theory AuthProperties
  imports Authentication Transitions
begin

text \<open>
  What the authentication service guarantees in every run: there is one operator, who knew the
  bootstrap token; a session that was opened is recognized until it is closed or expires, by its
  token alone, and lets through exactly the writes that carry its CSRF token; and nobody else is
  recognized. The runs interleave startups, bootstraps, logins, requests and logouts in any order, with clocks
  that may run backwards, failures of any database call and commits whose acknowledgement is lost.
\<close>

section \<open>Transactions\<close>

lemma dbCall_eqs [result_simps]:
  "dbCall r n = Inr u \<longleftrightarrow> \<not> call_fails r n"
  "dbCall r n = Inl e \<longleftrightarrow> call_fails r n \<and> e = ErrServiceUnavailable"
  by (auto simp: dbCall_def ensureE_def)

lemma commit_cases:
  assumes "commit r body s = (t, x)"
  obtains (unchanged) "t = s" | (changed) v where "body s = Inr (t, v)" "call_commit r \<noteq> RolledBack"
  using assms by (auto simp: commit_def split: sum.splits commitOutcome.splits)

lemma commit_Inr: "commit r body s = (t, Inr v) \<longleftrightarrow> body s = Inr (t, v) \<and> call_commit r = Committed"
  by (auto simp: commit_def split: sum.splits commitOutcome.splits)

lemma commit_Inl_same: "body s = Inl e \<Longrightarrow> commit r body s = (s, Inl e)"
  by (simp add: commit_def)

section \<open>Statements\<close>

definition sessionRow :: "authService \<Rightarrow> draws \<Rightarrow> string \<Rightarrow> UUID \<Rightarrow> OperatorSessionRow" where
  "sessionRow svc r random i =
     \<lparr>os_id = call_sessionID r, os_operator_id = i, os_token_digest = crypto_sha256 (svc_crypto svc) (rawEncode random),
      os_created_at = stored (nowOf r), os_last_seen_at = stored (nowOf r),
      os_expires_at = stored (nowOf r + svc_sessionTTL svc), os_revoked_at = None\<rparr>"

definition openedSession :: "authService \<Rightarrow> draws \<Rightarrow> string \<Rightarrow> Operator \<Rightarrow> AuthenticatedSession" where
  "openedSession svc r random operator =
     \<lparr>auth_Session = \<lparr>session_ID = call_sessionID r, session_Operator = operator, session_CreatedAt = nowOf r,
        session_LastSeenAt = nowOf r, session_ExpiresAt = nowOf r + svc_sessionTTL svc\<rparr>,
      auth_Token = SessionToken (rawEncode random),
      auth_CSRFToken = CSRFTokenFor (svc_crypto svc) (SessionToken (rawEncode random)) (call_sessionID r)\<rparr>"

lemma rawEncode_valid: "utf8Valid (rawEncode s)"
proof -
  have "\<forall>c \<in> set (rawEncode s). code c < 0x80" using rawEncode_set by auto
  then show ?thesis by (auto simp: utf8Valid_def runes_all_ascii runeError_def)
qed

lemma createSession_ok:
  "createSession svc r n operator s = Inr (t, a) \<longleftrightarrow>
    (\<exists>random. call_random r = Some random \<and> random \<noteq> [] \<and> \<not> call_fails r n \<and>
      insertSession (sessionRow svc r random (operator_ID operator)) s = Inr t \<and> a = openedSession svc r random operator)"
  by (auto simp: createSession_def NewSessionToken_def rawEncode_valid Let_def result_simps sessionRow_def openedSession_def
      DigestToken_def split: option.splits)

lemma insertSession_ok:
  "insertSession row s = Inr t \<longleftrightarrow> os_created_at row < os_expires_at row \<and> length (os_token_digest row) = 32 \<and>
    os_id row \<notin> os_id ` set (operator_sessions s) \<and> os_token_digest row \<notin> os_token_digest ` set (operator_sessions s) \<and>
    os_operator_id row \<in> op_id ` set (operators s) \<and> t = s\<lparr>operator_sessions := operator_sessions s @ [row]\<rparr>"
  unfolding insertSession_def list_ex_iff image_iff by (auto simp: eq_commute [of "os_operator_id row"]; metis)

definition operatorRow :: "draws \<Rightarrow> string \<Rightarrow> string \<Rightarrow> string \<Rightarrow> OperatorRow" where
  "operatorRow r username key passwordHash =
     \<lparr>op_id = call_operatorID r, op_username = username, op_username_key = key, op_password_hash = passwordHash,
      op_disabled_at = None, op_created_at = stored (nowOf r), op_updated_at = stored (nowOf r), op_version = 1\<rparr>"

lemma bootstrapBody_ok:
  assumes "bootstrapBody svc r command password token s = Inr (t, a)"
  obtains row passwordHash username key random where
    "bootstrap_token s = Some row" "bt_consumed_at row = None" "nowOf r < scanned (bt_expires_at row)"
    "bt_token_digest row = crypto_sha256 (svc_crypto svc) (Reveal token)" "operators s = []"
    "svc_hashPassword svc (call_salt r) (Reveal password) = Inr passwordHash"
    "varchar 255 (user_Display (boot_Username command)) = Some username" "varchar 255 (user_Key (boot_Username command)) = Some key"
    "call_random r = Some random" "random \<noteq> []"
    "insertSession (sessionRow svc r random (call_operatorID r))
       (s\<lparr>operators := [operatorRow r username key passwordHash], bootstrap_token := Some (row\<lparr>bt_consumed_at := Some (stored (nowOf r))\<rparr>)\<rparr>) = Inr t"
    "a = openedSession svc r random \<lparr>operator_ID = call_operatorID r, operator_Username = user_Display (boot_Username command)\<rparr>"
proof -
  from assms obtain row where row: "bootstrap_token s = Some row"
    by (auto simp: bootstrapBody_def result_simps split: option.splits)
  with assms obtain passwordHash s1 s2 where p: "bt_consumed_at row = None" "nowOf r < scanned (bt_expires_at row)"
    "bt_token_digest row = crypto_sha256 (svc_crypto svc) (Reveal token)" "operators s = []"
    "svc_hashPassword svc (call_salt r) (Reveal password) = Inr passwordHash"
    "insertOperator (operatorRow r (user_Display (boot_Username command)) (user_Key (boot_Username command)) passwordHash) s = Inr s1"
    "storeBootstrap (row\<lparr>bt_consumed_at := Some (stored (nowOf r))\<rparr>) s1 = Inr s2"
    "createSession svc r 5 \<lparr>operator_ID = call_operatorID r, operator_Username = user_Display (boot_Username command)\<rparr> s2 = Inr (t, a)"
    by (auto simp: bootstrapBody_def result_simps DigestToken_def operatorRow_def split: sum.splits)
  from p(4,6) obtain username key where u: "varchar 255 (user_Display (boot_Username command)) = Some username"
    "varchar 255 (user_Key (boot_Username command)) = Some key" "s1 = s\<lparr>operators := [operatorRow r username key passwordHash]\<rparr>"
    by (auto simp: insertOperator_def operatorRow_def split: option.splits if_splits)
  have "s2 = s1\<lparr>bootstrap_token := Some (row\<lparr>bt_consumed_at := Some (stored (nowOf r))\<rparr>)\<rparr>"
    using p(7) by (auto simp: storeBootstrap_def split: if_splits)
  then show thesis using that row p u by (auto simp: createSession_ok)
qed

lemma find_member: "find P xs = Some x \<Longrightarrow> x \<in> set xs \<and> P x"
  by (induction xs) (auto split: if_splits)

lemma loginBody_ok:
  assumes "loginBody svc r command s = Inr (t, a)"
  obtains row random where "row \<in> set (operators s)" "op_username_key row = user_Key (login_Username command)"
    "op_disabled_at row = None"
    "svc_verifyPassword svc (case login_Password command of None \<Rightarrow> [] | Some v \<Rightarrow> Reveal v) (op_password_hash row)"
    "call_random r = Some random" "random \<noteq> []" "insertSession (sessionRow svc r random (op_id row)) s = Inr t"
    "a = openedSession svc r random \<lparr>operator_ID = op_id row, operator_Username = op_username row\<rparr>"
proof -
  let ?P = "\<lambda>o'. op_username_key o' = user_Key (login_Username command) \<and> op_disabled_at o' = None"
  from assms obtain row where row: "find ?P (operators s) = Some row"
    "svc_verifyPassword svc (case login_Password command of None \<Rightarrow> [] | Some v \<Rightarrow> Reveal v) (op_password_hash row)"
    "createSession svc r 2 \<lparr>operator_ID = op_id row, operator_Username = op_username row\<rparr> s = Inr (t, a)"
    by (auto simp: loginBody_def Let_def result_simps split: option.splits if_splits)
  from row(1) have "row \<in> set (operators s)" "?P row" using find_member by fast+
  then show thesis using that row by (auto simp: createSession_ok)
qed

lemma selectSession_ok:
  assumes "selectSession digest now s = Some (row, o')"
  shows "row \<in> set (operator_sessions s)" "o' \<in> set (operators s)" "os_token_digest row = digest" "os_revoked_at row = None"
    "now < os_expires_at row" "op_id o' = os_operator_id row" "op_disabled_at o' = None"
  using find_member [OF assms [unfolded selectSession_def]] by auto

lemma authenticateBody_ok:
  assumes "authenticateBody svc r token s = Inr (t, v)"
  obtains row o' where "selectSession (crypto_sha256 (svc_crypto svc) (token_value token)) (stored (nowOf r)) s = Some (row, o')"
    "t = touchSession (os_id row) (stored (nowOf r)) s"
    "v = \<lparr>session_ID = os_id row, session_Operator = \<lparr>operator_ID = op_id o', operator_Username = op_username o'\<rparr>,
       session_CreatedAt = scanned (os_created_at row), session_LastSeenAt = nowOf r, session_ExpiresAt = scanned (os_expires_at row)\<rparr>"
proof -
  from assms obtain x where x: "selectSession (crypto_sha256 (svc_crypto svc) (token_value token)) (stored (nowOf r)) s = Some x"
    by (auto simp: authenticateBody_def result_simps DigestToken_def split: option.splits)
  then show thesis using assms that [of "fst x" "snd x"]
    by (cases x) (simp add: authenticateBody_def result_simps DigestToken_def)
qed

lemma initializeBody_ok:
  assumes "initializeBody svc r token expiresIn s = Inr (t, v)"
  obtains "t = s"
  | value' where "token = Some value'" "operators s = []" "\<forall>old. bootstrap_token s = Some old \<longrightarrow> bt_consumed_at old = None"
    "t = s\<lparr>bootstrap_token := Some (bootstrapRow svc r value' expiresIn)\<rparr>"
proof (cases "t = s")
  case False
  then obtain value' where v: "token = Some value'" "operators s = []"
    using assms by (auto simp: initializeBody_def result_simps split: option.splits if_splits)
  have store: "storeBootstrap (bootstrapRow svc r value' expiresIn) s = Inr t"
    and old: "\<forall>old. bootstrap_token s = Some old \<longrightarrow> bt_consumed_at old = None"
    using assms False unfolding initializeBody_def v Let_def
    by (cases "bootstrap_token s"; auto simp: result_simps split: if_splits)+
  then show thesis using that(2) v by (auto simp: storeBootstrap_def split: if_splits)
qed (rule that(1))

section \<open>Effects of calls\<close>

text \<open>What a call can do to the tables, whatever it answers.\<close>

definition closes :: "UUID \<Rightarrow> draws \<times> authCall \<Rightarrow> bool" where
  "closes i x \<longleftrightarrow> snd x = LogoutCall i \<and> \<not> call_fails (fst x) 0 \<and> call_commit (fst x) \<noteq> RolledBack"

inductive authEffect :: "authService \<Rightarrow> draws \<times> authCall \<Rightarrow> authTables \<Rightarrow> authTables \<Rightarrow> bool" for svc where
  unchanged: "\<forall>i. \<not> closes i x \<Longrightarrow> authEffect svc x s s"
| configured: "operators s = [] \<Longrightarrow> \<forall>old. bootstrap_token s = Some old \<longrightarrow> bt_consumed_at old = None \<Longrightarrow>
    authEffect svc (r, InitializeCall (Some v) e) s (s\<lparr>bootstrap_token := Some (bootstrapRow svc r v e)\<rparr>)"
| bootstrapped: "boot_Password command = Some password \<Longrightarrow> boot_BootstrapToken command = Some token \<Longrightarrow>
    bootstrap_token s = Some row \<Longrightarrow> bt_consumed_at row = None \<Longrightarrow> nowOf r < scanned (bt_expires_at row) \<Longrightarrow>
    bt_token_digest row = crypto_sha256 (svc_crypto svc) (Reveal token) \<Longrightarrow> operators s = [] \<Longrightarrow>
    svc_hashPassword svc (call_salt r) (Reveal password) = Inr passwordHash \<Longrightarrow>
    varchar 255 (user_Key (boot_Username command)) = Some key \<Longrightarrow> call_random r = Some random \<Longrightarrow>
    insertSession (sessionRow svc r random (call_operatorID r))
       (s\<lparr>operators := [operatorRow r username key passwordHash], bootstrap_token := Some (row\<lparr>bt_consumed_at := Some (stored (nowOf r))\<rparr>)\<rparr>) = Inr t \<Longrightarrow>
    authEffect svc (r, BootstrapCall command) s t"
| logged_in: "row \<in> set (operators s) \<Longrightarrow> op_username_key row = user_Key (login_Username command) \<Longrightarrow>
    svc_verifyPassword svc (case login_Password command of None \<Rightarrow> [] | Some v \<Rightarrow> Reveal v) (op_password_hash row) \<Longrightarrow>
    call_random r = Some random \<Longrightarrow> insertSession (sessionRow svc r random (op_id row)) s = Inr t \<Longrightarrow>
    authEffect svc (r, LoginCall command) s t"
| recognized: "authEffect svc (r, AuthenticateCall token) s (touchSession i (stored (nowOf r)) s)"
| logged_out: "closes i (r, LogoutCall i) \<Longrightarrow> authEffect svc (r, LogoutCall i) s (revokeSession i (stored (nowOf r)) s)"

inductive_cases authEffectE: "authEffect svc x s t"

lemma serve_effect: "authEffect svc x s (fst (serve svc x s))"
proof (cases x)
  case (Pair r call)
  show ?thesis
  proof (cases call)
    case (InitializeCall token e)
    obtain t y where run: "InitializeBootstrap svc r token e s = (t, y)" by fastforce
    have idle: "authEffect svc x s s" using Pair InitializeCall by (intro authEffect.unchanged) (auto simp: closes_def)
    show ?thesis
    proof (cases "t = s")
      case False
      then have "commit r (initializeBody svc r token e) s = (t, y)" using run by (auto simp: InitializeBootstrap_def split: if_splits)
      then obtain v where "initializeBody svc r token e s = Inr (t, v)" using False by (auto elim: commit_cases)
      then show ?thesis using False run Pair InitializeCall
        by (auto elim!: initializeBody_ok intro: authEffect.configured simp: answerOf_def)
    qed (use idle run Pair InitializeCall in \<open>simp add: answerOf_def\<close>)
  next
    case (BootstrapCall command)
    obtain t y where run: "Bootstrap svc r command s = (t, y)" by fastforce
    have idle: "authEffect svc x s s" using Pair BootstrapCall by (intro authEffect.unchanged) (auto simp: closes_def)
    show ?thesis
    proof (cases "t = s")
      case False
      then obtain password token where p: "boot_Password command = Some password" "boot_BootstrapToken command = Some token"
        "commit r (bootstrapBody svc r command password token) s = (t, y)"
        using run by (auto simp: Bootstrap_def split: option.splits if_splits)
      from this(3) obtain a where "bootstrapBody svc r command password token s = Inr (t, a)" using False by (auto elim: commit_cases)
      then have "authEffect svc (r, BootstrapCall command) s t"
        by (rule bootstrapBody_ok) (rule authEffect.bootstrapped [OF p(1,2)])
      then show ?thesis using run Pair BootstrapCall by (simp add: answerOf_def)
    qed (use idle run Pair BootstrapCall in \<open>simp add: answerOf_def\<close>)
  next
    case (LoginCall command)
    obtain t y where run: "Login svc r command s = (t, y)" by fastforce
    have idle: "authEffect svc x s s" using Pair LoginCall by (intro authEffect.unchanged) (auto simp: closes_def)
    show ?thesis
    proof (cases "t = s")
      case False
      then obtain a where "loginBody svc r command s = Inr (t, a)" using run by (auto simp: Login_def elim: commit_cases)
      then have "authEffect svc (r, LoginCall command) s t" by (rule loginBody_ok) (rule authEffect.logged_in)
      then show ?thesis using run Pair LoginCall by (simp add: answerOf_def)
    qed (use idle run Pair LoginCall in \<open>simp add: answerOf_def\<close>)
  next
    case (AuthenticateCall token)
    obtain t y where run: "Authenticate svc r token s = (t, y)" by fastforce
    have idle: "authEffect svc x s s" using Pair AuthenticateCall by (intro authEffect.unchanged) (auto simp: closes_def)
    show ?thesis
    proof (cases "t = s")
      case False
      then have "commit r (authenticateBody svc r token) s = (t, y)" using run by (auto simp: Authenticate_def split: if_splits)
      then obtain v where "authenticateBody svc r token s = Inr (t, v)" using False by (auto elim: commit_cases)
      then show ?thesis using run Pair AuthenticateCall
        by (auto elim!: authenticateBody_ok intro: authEffect.recognized simp: answerOf_def)
    qed (use idle run Pair AuthenticateCall in \<open>simp add: answerOf_def\<close>)
  next
    case (LogoutCall i)
    show ?thesis
    proof (cases "closes i x")
      case True
      then show ?thesis using Pair LogoutCall authEffect.logged_out [of i r svc s]
        by (auto simp: answerOf_def Logout_def commit_def dbCall_def closes_def ensureE_def split: commitOutcome.splits)
    next
      case False
      then have "fst (serve svc x s) = s" using Pair LogoutCall
        by (auto simp: answerOf_def Logout_def commit_def dbCall_def closes_def ensureE_def split: commitOutcome.splits)
      moreover have "\<forall>j. \<not> closes j x" using False Pair LogoutCall by (auto simp: closes_def)
      ultimately show ?thesis by (auto intro: authEffect.unchanged)
    qed
  qed
qed

section \<open>Invariant\<close>

definition authInv :: "authTables \<Rightarrow> bool" where
  "authInv s \<longleftrightarrow> distinct (map os_id (operator_sessions s)) \<and> distinct (map os_token_digest (operator_sessions s)) \<and>
     (\<forall>row \<in> set (operator_sessions s). os_operator_id row \<in> op_id ` set (operators s)) \<and>
     (\<forall>o' \<in> set (operators s). op_disabled_at o' = None) \<and> length (operators s) \<le> 1 \<and>
     (operators s \<noteq> [] \<longleftrightarrow> (\<exists>row. bootstrap_token s = Some row \<and> bt_consumed_at row \<noteq> None))"

lemma authInv_empty: "authInv noOperators"
  by (simp add: authInv_def noOperators_def)

lemma map_os_cong [simp]:
  "os_id \<circ> (\<lambda>row. if P row then row\<lparr>os_last_seen_at := t\<rparr> else row) = os_id"
  "os_token_digest \<circ> (\<lambda>row. if P row then row\<lparr>os_last_seen_at := t\<rparr> else row) = os_token_digest"
  "os_id \<circ> (\<lambda>row. if P row then row\<lparr>os_revoked_at := v\<rparr> else row) = os_id"
  "os_token_digest \<circ> (\<lambda>row. if P row then row\<lparr>os_revoked_at := v\<rparr> else row) = os_token_digest"
  by (auto simp: fun_eq_iff)

lemma authInv_effect:
  assumes "authEffect svc x s t" "authInv s"
  shows "authInv t"
  using assms
proof (cases rule: authEffect.cases)
  case unchanged
  then show ?thesis using assms(2) by simp
next
  case configured
  then show ?thesis using assms(2) by (simp add: authInv_def bootstrapRow_def)
next
  case bootstrapped
  then have "operator_sessions s = []" using assms(2) by (cases "operator_sessions s") (auto simp: authInv_def)
  then show ?thesis using bootstrapped by (simp add: authInv_def insertSession_ok operatorRow_def)
next
  case logged_in
  then show ?thesis using assms(2) by (auto simp: authInv_def insertSession_ok)
next
  case recognized
  then show ?thesis using assms(2) by (auto simp: authInv_def touchSession_def)
next
  case logged_out
  then show ?thesis using assms(2) by (auto simp: authInv_def revokeSession_def)
qed

definition authStep :: "authService \<Rightarrow> authTables \<Rightarrow> authTables \<Rightarrow> bool" where
  "authStep svc s t \<longleftrightarrow> (\<exists>x. t = fst (serve svc x s))"

interpretation auth: inductive_invariant "\<lambda>s. s = noOperators" "authStep svc" authInv
  by unfold_locales (auto simp: authInv_empty authStep_def intro: authInv_effect serve_effect)

lemma serveAll_simps [simp]:
  "serveAll svc [] s = s" "serveAll svc (x # h) s = serveAll svc h (fst (serve svc x s))"
  "serveAll svc (h @ h') s = serveAll svc h' (serveAll svc h s)"
  by (simp_all add: serveAll_def)

lemma serveAll_reach: "reach (authStep svc) s (serveAll svc h s)"
proof (induction h rule: rev_induct)
  case (snoc x h)
  have "authStep svc (serveAll svc h s) (serveAll svc (h @ [x]) s)" unfolding authStep_def by (intro exI [of _ x]) simp
  with snoc show ?case by (rule reach_step)
qed (simp add: reach_refl)

lemma authInv_run: "authInv (serveAll svc h noOperators)"
  by (rule auth.always [OF serveAll_reach]) simp

section \<open>Sessions over a run\<close>

definition sameSession :: "OperatorSessionRow \<Rightarrow> OperatorSessionRow \<Rightarrow> bool" where
  "sameSession a b \<longleftrightarrow> os_id a = os_id b \<and> os_operator_id a = os_operator_id b \<and> os_token_digest a = os_token_digest b \<and>
     os_created_at a = os_created_at b \<and> os_expires_at a = os_expires_at b"

definition closedIn :: "UUID \<Rightarrow> (draws \<times> authCall) list \<Rightarrow> bool" where
  "closedIn i h \<longleftrightarrow> list_ex (closes i) h"

lemma closedIn_simps [simp]:
  "\<not> closedIn i []" "closedIn i (x # h) \<longleftrightarrow> closes i x \<or> closedIn i h" "closedIn i (h @ h') \<longleftrightarrow> closedIn i h \<or> closedIn i h'"
  by (auto simp: closedIn_def)

lemma sameSession_refl [simp]: "sameSession row row"
  by (simp add: sameSession_def)

lemma sameSession_trans: "sameSession a b \<Longrightarrow> sameSession b c \<Longrightarrow> sameSession a c"
  by (simp add: sameSession_def)

lemma closes_call [simp]:
  "\<not> closes i (r, InitializeCall token e)" "\<not> closes i (r, BootstrapCall b)" "\<not> closes i (r, LoginCall l)" "\<not> closes i (r, AuthenticateCall t)"
  by (simp_all add: closes_def)

lemma effect_session:
  assumes "authEffect svc x s t" "row \<in> set (operator_sessions s)"
  shows "\<exists>row' \<in> set (operator_sessions t). sameSession row row' \<and>
    (os_revoked_at row' = None \<longleftrightarrow> os_revoked_at row = None \<and> \<not> closes (os_id row) x)"
  using assms
proof (cases rule: authEffect.cases)
  case (recognized r token i)
  then show ?thesis using assms(2)
    by (intro bexI [of _ "if os_id row = i then row\<lparr>os_last_seen_at := stored (nowOf r)\<rparr> else row"])
      (auto simp: touchSession_def sameSession_def)
next
  case (logged_out i r)
  then have "closes (os_id row) x \<longleftrightarrow> os_id row = i" by (auto simp: closes_def)
  then show ?thesis using assms(2) logged_out
    by (intro bexI [of _ "if os_id row = i \<and> os_revoked_at row = None then row\<lparr>os_revoked_at := Some (stored (nowOf r))\<rparr> else row"])
      (auto simp: revokeSession_def sameSession_def)
qed (use assms(2) in \<open>auto simp: insertSession_ok intro!: bexI [of _ row]\<close>)

lemma run_session:
  assumes "row \<in> set (operator_sessions s)"
  shows "\<exists>row' \<in> set (operator_sessions (serveAll svc h s)). sameSession row row' \<and>
    (os_revoked_at row' = None \<longleftrightarrow> os_revoked_at row = None \<and> \<not> closedIn (os_id row) h)"
proof (induction h rule: rev_induct)
  case (snoc x h)
  from snoc.IH obtain row' where row': "row' \<in> set (operator_sessions (serveAll svc h s))" "sameSession row row'"
    "os_revoked_at row' = None \<longleftrightarrow> os_revoked_at row = None \<and> \<not> closedIn (os_id row) h"
    by (elim bexE conjE) (rule that)
  from effect_session [OF serve_effect row'(1), of svc x]
  obtain row2 where "row2 \<in> set (operator_sessions (serveAll svc (h @ [x]) s))" "sameSession row' row2"
    "os_revoked_at row2 = None \<longleftrightarrow> os_revoked_at row' = None \<and> \<not> closes (os_id row') x"
    by (elim bexE conjE) (rule that, simp, assumption+)
  moreover have "os_id row' = os_id row" using row'(2) by (simp add: sameSession_def)
  ultimately show ?case using row'(3) sameSession_trans [OF row'(2)] by (intro bexI [of _ row2]) auto
qed (use assms in \<open>auto intro!: bexI [of _ row]\<close>)

lemma effect_operators:
  "authEffect svc x s t \<Longrightarrow> operators s \<noteq> [] \<Longrightarrow> operators t = operators s \<and> bootstrap_token t = bootstrap_token s"
  by (cases rule: authEffect.cases) (auto simp: insertSession_ok touchSession_def revokeSession_def)

lemma run_operators:
  "operators s \<noteq> [] \<Longrightarrow> operators (serveAll svc h s) = operators s \<and> bootstrap_token (serveAll svc h s) = bootstrap_token s"
proof (induction h rule: rev_induct)
  case (snoc x h)
  then show ?case using effect_operators [OF serve_effect, of "serveAll svc h s" svc x] by simp
qed simp

section \<open>Recognition\<close>

lemma find_only:
  "y \<in> set xs \<Longrightarrow> P y \<Longrightarrow> (\<And>z. z \<in> set xs \<Longrightarrow> P z \<Longrightarrow> z = y) \<Longrightarrow> find P xs = Some y"
proof (induction xs)
  case (Cons x xs)
  show ?case
  proof (cases "P x")
    case True
    then have "x = y" using Cons.prems(3) [of x] by simp
    then show ?thesis using True by simp
  next
    case False
    then have "x \<noteq> y" using Cons.prems(2) by blast
    then have "find P xs = Some y" using Cons.prems by (intro Cons.IH) simp_all
    then show ?thesis using False by simp
  qed
qed simp

lemma authInv_operator:
  assumes "authInv s" "row \<in> set (operator_sessions s)"
  obtains o' where "operators s = [o']" "op_id o' = os_operator_id row" "op_disabled_at o' = None"
proof -
  from assms obtain o' where "o' \<in> set (operators s)" "op_id o' = os_operator_id row" "op_disabled_at o' = None" "length (operators s) \<le> 1"
    by (auto simp: authInv_def image_iff)
  then show thesis using that by (cases "operators s") auto
qed

lemma selectSession_row:
  assumes "authInv s" "row \<in> set (operator_sessions s)" "operators s = [o']" "op_id o' = os_operator_id row" "op_disabled_at o' = None"
  shows "selectSession (os_token_digest row) now s =
    (if os_revoked_at row = None \<and> now < os_expires_at row then Some (row, o') else None)"
proof -
  have only: "row2 = row" if "row2 \<in> set (operator_sessions s)" "os_token_digest row2 = os_token_digest row" for row2
    using assms(1,2) that by (auto simp: authInv_def distinct_map inj_on_def)
  show ?thesis
  proof (cases "os_revoked_at row = None \<and> now < os_expires_at row")
    case True
    then show ?thesis unfolding selectSession_def using assms(2-5) only by (auto intro!: find_only)
  next
    case False
    then have "selectSession (os_token_digest row) now s = None"
      unfolding selectSession_def using only by (auto simp: find_None_iff)
    then show ?thesis using False by simp
  qed
qed

definition healthy :: "draws \<Rightarrow> bool" where
  "healthy r \<longleftrightarrow> \<not> list_ex (call_fails r) [0 ..< 6] \<and> call_commit r = Committed"

lemma healthyD: "healthy r \<Longrightarrow> n < 6 \<Longrightarrow> \<not> call_fails r n" "healthy r \<Longrightarrow> call_commit r = Committed"
  by (auto simp: healthy_def list_ex_iff)

lemma scanned_stored_now [simp]: "scanned (stored (nowOf r)) = nowOf r"
  unfolding scanned_def stored_def nowOf_def by (simp add: minus_mod_eq_mult_div)

lemma Authenticate_row:
  assumes "authInv s" "row \<in> set (operator_sessions s)" "operators s = [o']" "healthy r" "token_value token \<noteq> []"
    "crypto_sha256 (svc_crypto svc) (token_value token) = os_token_digest row"
  shows "Authenticate svc r token s =
    (if os_revoked_at row = None \<and> stored (nowOf r) < os_expires_at row
     then (touchSession (os_id row) (stored (nowOf r)) s,
       Inr \<lparr>session_ID = os_id row, session_Operator = \<lparr>operator_ID = os_operator_id row, operator_Username = op_username o'\<rparr>,
         session_CreatedAt = scanned (os_created_at row), session_LastSeenAt = nowOf r, session_ExpiresAt = scanned (os_expires_at row)\<rparr>)
     else (s, Inl ErrAuthentication))"
proof -
  have o': "op_id o' = os_operator_id row" "op_disabled_at o' = None" using assms(1-3) by (auto simp: authInv_def)
  have calls: "dbCall r 0 = Inr ()" "dbCall r (Suc 0) = Inr ()" "dbCall r 2 = Inr ()"
    using healthyD(1) [OF assms(4)] by (simp_all add: dbCall_def ensureE_def)
  show ?thesis using assms(5) healthyD(2) [OF assms(4)]
    by (simp add: Authenticate_def commit_def authenticateBody_def calls DigestToken_def assms(6) selectSession_row [OF assms(1-3) o'] o')
qed

lemma answer_Opened: "answerOf Opened x = (t, Opened a) \<longleftrightarrow> x = (t, Inr a)"
  by (cases x) (auto simp: answerOf_def split: sum.splits)

lemma serve_Opened:
  assumes "serve svc (r, call) s = (t, Opened a)" "authInv s"
  obtains random o' command where "call_random r = Some random" "random \<noteq> []"
      "sessionRow svc r random (op_id o') \<in> set (operator_sessions t)" "operators t = [o']"
      "a = openedSession svc r random \<lparr>operator_ID = op_id o', operator_Username = op_username o'\<rparr>" "call = LoginCall command"
    | random o' command where "call_random r = Some random" "random \<noteq> []"
      "sessionRow svc r random (op_id o') \<in> set (operator_sessions t)" "operators t = [o']"
      "a = openedSession svc r random \<lparr>operator_ID = op_id o', operator_Username = user_Display (boot_Username command)\<rparr>"
      "call = BootstrapCall command" "varchar 255 (user_Display (boot_Username command)) = Some (op_username o')"
      "varchar 255 (user_Key (boot_Username command)) = Some (op_username_key o')"
      "map_option (svc_hashPassword svc (call_salt r) \<circ> Reveal) (boot_Password command) = Some (Inr (op_password_hash o'))"
proof (cases call)
  case (LoginCall command)
  then have "loginBody svc r command s = Inr (t, a)" using assms(1)
    by (simp add: answer_Opened Login_def commit_Inr)
  then show thesis
  proof (rule loginBody_ok, goal_cases)
    case (1 row random)
    then have "operators t = [row]" using assms(2) by (cases "operators s") (auto simp: authInv_def insertSession_ok)
    then show thesis using that(1) [OF 1(5,6) _ _ 1(8) LoginCall] 1(7) by (auto simp: insertSession_ok)
  qed
next
  case (BootstrapCall command)
  then obtain password token where p: "boot_Password command = Some password" "bootstrapBody svc r command password token s = Inr (t, a)"
    using assms(1) by (auto simp: answer_Opened Bootstrap_def commit_Inr split: option.splits if_splits)
  from p(2) show thesis
  proof (rule bootstrapBody_ok, goal_cases)
    case (1 row passwordHash username key random)
    then show thesis using that(2) [of random "operatorRow r username key passwordHash" command] p(1) BootstrapCall
      by (auto simp: insertSession_ok operatorRow_def)
  qed
qed (use assms(1) in \<open>auto simp: answerOf_def split: sum.splits\<close>)

section \<open>Where sessions come from\<close>

definition credentialsShown :: "authService \<Rightarrow> draws \<times> authCall \<Rightarrow> authTables \<Rightarrow> UUID \<Rightarrow> bool" where
  "credentialsShown svc x s i =
     (case x of
        (r, BootstrapCall command) \<Rightarrow>
          operators s = [] \<and> i = call_operatorID r \<and>
          (case (bootstrap_token s, boot_BootstrapToken command) of
             (Some row, Some token) \<Rightarrow> bt_consumed_at row = None \<and> nowOf r < scanned (bt_expires_at row) \<and>
               bt_token_digest row = DigestToken (svc_crypto svc) (Reveal token)
           | _ \<Rightarrow> False)
      | (r, LoginCall command) \<Rightarrow>
          list_ex (\<lambda>row. op_id row = i \<and> op_username_key row = user_Key (login_Username command) \<and>
            svc_verifyPassword svc (case login_Password command of None \<Rightarrow> [] | Some v \<Rightarrow> Reveal v) (op_password_hash row)) (operators s)
      | _ \<Rightarrow> False)"

lemma effect_new_session:
  assumes "authEffect svc x s t" "row' \<in> set (operator_sessions t)" "\<forall>row \<in> set (operator_sessions s). os_id row \<noteq> os_id row'"
  obtains random where "call_random (fst x) = Some random" "row' = sessionRow svc (fst x) random (os_operator_id row')"
    "credentialsShown svc x s (os_operator_id row')"
  using assms
proof (cases rule: authEffect.cases)
  case (bootstrapped command password token row r passwordHash key random username)
  then have "row' = sessionRow svc r random (call_operatorID r)" using assms(2,3) by (auto simp: insertSession_ok)
  then show ?thesis using that bootstrapped by (auto simp: sessionRow_def credentialsShown_def DigestToken_def)
next
  case (logged_in row command r random)
  then have "row' = sessionRow svc r random (op_id row)" using assms(2,3) by (auto simp: insertSession_ok)
  then show ?thesis using that logged_in by (auto simp: sessionRow_def credentialsShown_def list_ex_iff)
qed (use assms(2,3) in \<open>auto simp: touchSession_def revokeSession_def\<close>)

text \<open>Every row was inserted by one call of the run, and no later call closed it unless it is revoked.\<close>

lemma session_origin:
  assumes "row' \<in> set (operator_sessions (serveAll svc h noOperators))"
  shows "\<exists>pre x post random. h = pre @ x # post \<and> call_random (fst x) = Some random \<and>
    sameSession (sessionRow svc (fst x) random (os_operator_id row')) row' \<and>
    credentialsShown svc x (serveAll svc pre noOperators) (os_operator_id row') \<and>
    (os_revoked_at row' = None \<longrightarrow> \<not> closedIn (os_id row') post)"
  using assms
proof (induction h arbitrary: row' rule: rev_induct)
  case (snoc x h)
  let ?s = "serveAll svc h noOperators" and ?t = "serveAll svc (h @ [x]) noOperators"
  have effect: "authEffect svc x ?s ?t" using serve_effect by simp
  show ?case
  proof (cases "\<exists>row \<in> set (operator_sessions ?s). os_id row = os_id row'")
    case True
    then obtain row where row: "row \<in> set (operator_sessions ?s)" "os_id row = os_id row'" by blast
    obtain row2 where row2: "row2 \<in> set (operator_sessions ?t)" "sameSession row row2"
      "os_revoked_at row2 = None \<longleftrightarrow> os_revoked_at row = None \<and> \<not> closes (os_id row) x"
      using effect_session [OF effect row(1)] by (elim bexE conjE) (rule that)
    have "row2 = row'" using authInv_run [of svc "h @ [x]"] row2(1,2) snoc.prems row(2)
      unfolding authInv_def distinct_map inj_on_def sameSession_def by metis
    then have same: "sameSession row row'" "os_revoked_at row' = None \<longrightarrow> os_revoked_at row = None \<and> \<not> closes (os_id row') x"
      using row2(2,3) row(2) by auto
    then have i: "os_operator_id row = os_operator_id row'" by (simp add: sameSession_def)
    from snoc.IH [OF row(1)] obtain pre x' post random where "h = pre @ x' # post" "call_random (fst x') = Some random"
      "sameSession (sessionRow svc (fst x') random (os_operator_id row')) row"
      "credentialsShown svc x' (serveAll svc pre noOperators) (os_operator_id row')"
      "os_revoked_at row = None \<longrightarrow> \<not> closedIn (os_id row') post"
      unfolding i row(2) by (elim exE conjE) (rule that)
    moreover from this(3) have "sameSession (sessionRow svc (fst x') random (os_operator_id row')) row'"
      using same(1) by (rule sameSession_trans)
    ultimately show ?thesis using same(2)
      by (intro exI [of _ pre] exI [of _ x'] exI [of _ "post @ [x]"] exI [of _ random]) simp
  next
    case False
    then obtain random where "call_random (fst x) = Some random" "row' = sessionRow svc (fst x) random (os_operator_id row')"
      "credentialsShown svc x ?s (os_operator_id row')" using effect_new_session [OF effect snoc.prems] by blast
    then show ?thesis
      by (intro exI [of _ h] exI [of _ x] exI [of _ "[]"] exI [of _ random]) (auto simp: sameSession_def)
  qed
qed (simp add: noOperators_def)

text \<open>The bootstrap token was configured at a startup, and the operator's row is the bootstrap's.\<close>

lemma bootstrap_origin:
  assumes "bootstrap_token (serveAll svc h noOperators) = Some row"
  shows "\<exists>r v e. (r, InitializeCall (Some v) e) \<in> set h \<and> bt_token_digest row = DigestToken (svc_crypto svc) (Reveal v)"
  using assms
proof (induction h arbitrary: row rule: rev_induct)
  case (snoc x h)
  have "authEffect svc x (serveAll svc h noOperators) (serveAll svc (h @ [x]) noOperators)" using serve_effect by simp
  then show ?case
  proof (cases rule: authEffect.cases)
    case (configured r v e)
    then show ?thesis using snoc.prems
      by (intro exI [of _ r] exI [of _ v] exI [of _ e]) (auto simp: bootstrapRow_def)
  next
    case (bootstrapped command password token row' r passwordHash key random username)
    then have "bt_token_digest row = bt_token_digest row'" using snoc.prems by (auto simp: insertSession_ok)
    then show ?thesis using snoc.IH [OF bootstrapped(4)] by auto
  qed (use snoc in \<open>auto simp: insertSession_ok touchSession_def revokeSession_def\<close>)
qed (simp add: noOperators_def)

lemma operator_origin:
  assumes "operators (serveAll svc h noOperators) = [o']"
  shows "\<exists>pre r command post. h = pre @ (r, BootstrapCall command) # post \<and>
    credentialsShown svc (r, BootstrapCall command) (serveAll svc pre noOperators) (op_id o') \<and>
    map_option (svc_hashPassword svc (call_salt r) \<circ> Reveal) (boot_Password command) = Some (Inr (op_password_hash o')) \<and>
    varchar 255 (user_Key (boot_Username command)) = Some (op_username_key o')"
  using assms
proof (induction h rule: rev_induct)
  case (snoc x h)
  let ?s = "serveAll svc h noOperators"
  have effect: "authEffect svc x ?s (serveAll svc (h @ [x]) noOperators)" using serve_effect by simp
  show ?case
  proof (cases "operators ?s = []")
    case False
    then have "operators ?s = [o']" using effect_operators [OF effect] snoc.prems by simp
    from snoc.IH [OF this] obtain pre r command post where "h = pre @ (r, BootstrapCall command) # post"
      "credentialsShown svc (r, BootstrapCall command) (serveAll svc pre noOperators) (op_id o')"
      "map_option (svc_hashPassword svc (call_salt r) \<circ> Reveal) (boot_Password command) = Some (Inr (op_password_hash o'))"
      "varchar 255 (user_Key (boot_Username command)) = Some (op_username_key o')" by blast
    then show ?thesis by (intro exI [of _ pre] exI [of _ r] exI [of _ command] exI [of _ "post @ [x]"]) simp
  next
    case True
    from effect show ?thesis
    proof (cases rule: authEffect.cases)
      case (bootstrapped command password token row r passwordHash key random username)
      then have o': "o' = operatorRow r username key passwordHash" using snoc.prems by (auto simp: insertSession_ok)
      show ?thesis using bootstrapped
        by (intro exI [of _ h] exI [of _ r] exI [of _ command] exI [of _ "[]"])
          (auto simp: credentialsShown_def DigestToken_def o' operatorRow_def)
    qed (use snoc.prems True in \<open>auto simp: insertSession_ok touchSession_def revokeSession_def\<close>)
  qed
qed (simp add: noOperators_def)

end
