(* ===== verification/AuthTheorems.thy ===== *)
theory AuthTheorems
  imports AuthProperties Evaluation
begin

text \<open>
  The properties of the authentication service, over all runs, with one run evaluated on concrete
  values.
\<close>

section \<open>One run\<close>

definition demoCrypto :: authCrypto where
  "demoCrypto = \<lparr>crypto_sha256 = (\<lambda>s. take 32 (s @ replicate 32 (CHR ''s''))), crypto_hmac = (\<lambda>k m. take 32 (k @ m @ replicate 32 (CHR ''h''))),
     crypto_scrypt = demoScrypt\<rparr>"

definition demoService :: authService where
  "demoService = \<lparr>svc_sessionTTL = 3600000000000, svc_passwordSlots = 2, svc_crypto = demoCrypto,
     svc_hashPassword = HashPassword demoScrypt, svc_verifyPassword = VerifyPassword demoScrypt\<rparr>"

definition demoDraws :: "gotime \<Rightarrow> char \<Rightarrow> draws" where
  "demoDraws t c = \<lparr>call_clock = t, call_fails = (\<lambda>_. False), call_slot = True, call_salt = Some ''0123456789abcdef'',
     call_random = Some (replicate 32 c), call_operatorID = [7], call_sessionID = [of_char c], call_commit = Committed\<rparr>"

definition demoStart :: "(draws \<times> authCall) list" where
  "demoStart = [(demoDraws 1000000000 CHR ''a'', InitializeCall (Some (SecretValue ''bootstrap'')) 600000000000)]"

definition demoBoot :: BootstrapCommand where
  "demoBoot = \<lparr>boot_Username = \<lparr>user_Display = ''Op'', user_Key = ''op''\<rparr>, boot_Password = Some (SecretValue ''secret''),
     boot_BootstrapToken = Some (SecretValue ''bootstrap'')\<rparr>"

definition demoOpened :: AuthenticatedSession where
  "demoOpened = openedSession demoService (demoDraws 2000000000 CHR ''b'') (replicate 32 (CHR ''b''))
     \<lparr>operator_ID = [7], operator_Username = ''Op''\<rparr>"

definition demoServed :: authTables where
  "demoServed = fst (serve demoService (demoDraws 2000000000 CHR ''b'', BootstrapCall demoBoot) (serveAll demoService demoStart noOperators))"

lemma demo_bootstrap:
  "serve demoService (demoDraws 2000000000 CHR ''b'', BootstrapCall demoBoot) (serveAll demoService demoStart noOperators) =
    (demoServed, Opened demoOpened)"
proof -
  have "snd (serve demoService (demoDraws 2000000000 CHR ''b'', BootstrapCall demoBoot) (serveAll demoService demoStart noOperators)) =
    Opened demoOpened"
    by code_simp
  then show ?thesis by (simp add: demoServed_def prod_eq_iff)
qed

section \<open>One operator\<close>

text \<open>
  C7. Once there is an operator, there is one for good: no later call adds, removes or changes an
  operator, and every bootstrap is refused. The operator was made by a bootstrap that submitted a
  token with the digest of the one configured at an earlier startup.
\<close>

theorem operator_settled:
  assumes "operators (serveAll svc h noOperators) \<noteq> []"
  shows "\<exists>o'. (\<forall>h' r command. operators (serveAll svc (h @ h') noOperators) = [o'] \<and>
      snd (Bootstrap svc r command (serveAll svc (h @ h') noOperators)) \<in> {Inl ErrBootstrapDenied, Inl ErrServiceUnavailable}) \<and>
    (\<exists>pre r command post token r0 v e. h = pre @ (r, BootstrapCall command) # post \<and> op_id o' = call_operatorID r \<and>
      boot_BootstrapToken command = Some token \<and> (r0, InitializeCall (Some v) e) \<in> set pre \<and>
      DigestToken (svc_crypto svc) (Reveal token) = DigestToken (svc_crypto svc) (Reveal v))"
proof -
  let ?s = "serveAll svc h noOperators"
  have "length (operators ?s) \<le> 1" using authInv_run by (auto simp: authInv_def)
  with assms obtain o' where o': "operators ?s = [o']" by (cases "operators ?s") auto
  have later: "operators (serveAll svc (h @ h') noOperators) = [o']" for h' using run_operators [OF assms, of svc h'] o' by simp
  have denied: "snd (Bootstrap svc r command s) \<in> {Inl ErrBootstrapDenied, Inl ErrServiceUnavailable}"
    if "operators s = [o']" "authInv s" for r command s
  proof (cases "serve svc (r, BootstrapCall command) s")
    case (Pair t answer)
    have "answer \<noteq> Opened a" for a
    proof
      assume "answer = Opened a"
      with Pair have "Bootstrap svc r command s = (t, Inr a)" by (simp add: answer_Opened)
      then show False using that(1) by (auto simp: Bootstrap_def commit_Inr elim: bootstrapBody_ok split: option.splits if_splits)
    qed
    then have "\<nexists>a. snd (Bootstrap svc r command s) = Inr a" using Pair by (auto simp: answerOf_def split: sum.splits)
    then obtain e where e: "snd (Bootstrap svc r command s) = Inl e" by (cases "snd (Bootstrap svc r command s)") auto
    then have "e = ErrBootstrapDenied \<or> e = ErrServiceUnavailable" using that
      by (auto simp: Bootstrap_def commit_def bootstrapBody_def result_simps split: option.splits if_splits sum.splits commitOutcome.splits)
    then show ?thesis using e by simp
  qed
  from operator_origin [OF o'] obtain pre r command post where origin: "h = pre @ (r, BootstrapCall command) # post"
    "credentialsShown svc (r, BootstrapCall command) (serveAll svc pre noOperators) (op_id o')" by blast
  then obtain token row where row: "bootstrap_token (serveAll svc pre noOperators) = Some row" "boot_BootstrapToken command = Some token"
    "bt_token_digest row = DigestToken (svc_crypto svc) (Reveal token)" "op_id o' = call_operatorID r"
    by (auto simp: credentialsShown_def split: option.splits)
  with bootstrap_origin [OF row(1)] origin(1) have "\<exists>pre r command post token r0 v e. h = pre @ (r, BootstrapCall command) # post \<and>
      op_id o' = call_operatorID r \<and> boot_BootstrapToken command = Some token \<and> (r0, InitializeCall (Some v) e) \<in> set pre \<and>
      DigestToken (svc_crypto svc) (Reveal token) = DigestToken (svc_crypto svc) (Reveal v)" by metis
  then show ?thesis using later denied [OF later authInv_run] by (intro exI [of _ o'] conjI allI) assumption+
qed

theorem operator_settled_witness:
  "\<exists>o'. \<forall>h'. operators (serveAll demoService (demoStart @ (demoDraws 2000000000 CHR ''b'', BootstrapCall demoBoot) # h') noOperators) = [o']"
proof -
  have "operators (serveAll demoService (demoStart @ [(demoDraws 2000000000 CHR ''b'', BootstrapCall demoBoot)]) noOperators) \<noteq> []"
    by code_simp
  from operator_settled [OF this] show ?thesis by (auto simp del: serveAll_simps)
qed

section \<open>The life of a session\<close>

text \<open>
  C4. A session that a bootstrap or a login opened is good until it is closed or expires, whatever else
  happens: a write with its cookie is let through, as its operator, exactly when it carries its CSRF token, and
  from the first logout that took effect, or from its expiry, the cookie is refused. (The name of a new
  operator has at most 255 characters, as \<^verbatim>\<open>ParseUsername\<close> ensures.)
\<close>

theorem session_lifetime:
  assumes opened: "serve svc (r0, call) (serveAll svc h0 noOperators) = (s1, Opened a)"
    and name: "\<And>command. call = BootstrapCall command \<Longrightarrow> RuneCountInString (user_Display (boot_Username command)) \<le> 255"
    and up: "healthy r"
  shows "let s = serveAll svc h s1; i = session_ID (auth_Session a); now = stored (nowOf r) in
    RequireAuthenticatedWrite svc r (token_value (auth_Token a)) csrf path s =
      (if closedIn i h \<or> stored (session_ExpiresAt (auth_Session a)) \<le> now then (s, Inl (authProblem path ErrAuthentication))
       else (touchSession i now s,
         if csrf = auth_CSRFToken a \<and> csrf \<noteq> []
         then Inr (auth_Token a, (auth_Session a)\<lparr>session_LastSeenAt := nowOf r,
            session_ExpiresAt := scanned (stored (session_ExpiresAt (auth_Session a)))\<rparr>)
         else Inl (authProblem path ErrCSRF)))"
proof -
  have full: "varchar 255 v = Some u \<Longrightarrow> RuneCountInString v \<le> 255 \<Longrightarrow> u = v" for u v
    by (auto simp: varchar_def RuneCountInString_def runes_concat split: if_splits)
  have "\<exists>random o'. random \<noteq> [] \<and> sessionRow svc r0 random (op_id o') \<in> set (operator_sessions s1) \<and> operators s1 = [o'] \<and>
      a = openedSession svc r0 random \<lparr>operator_ID = op_id o', operator_Username = op_username o'\<rparr>"
    using opened authInv_run
  proof (cases rule: serve_Opened)
    case (1 random o' command)
    then show ?thesis by (intro exI [of _ random] exI [of _ o']) simp
  next
    case (2 random o' command)
    then have "op_username o' = user_Display (boot_Username command)" using full name by blast
    then show ?thesis using 2 by (intro exI [of _ random] exI [of _ o']) simp
  qed
  then obtain random o' where a: "random \<noteq> []" "sessionRow svc r0 random (op_id o') \<in> set (operator_sessions s1)" "operators s1 = [o']"
    "a = openedSession svc r0 random \<lparr>operator_ID = op_id o', operator_Username = op_username o'\<rparr>" by (elim exE conjE) (rule that)
  let ?row = "sessionRow svc r0 random (op_id o')" and ?s = "serveAll svc h s1"
  have "?s = serveAll svc (h0 @ (r0, call) # h) noOperators" using opened by simp
  then have inv: "authInv ?s" using authInv_run by metis
  obtain row where row: "row \<in> set (operator_sessions ?s)" "sameSession ?row row"
    "os_revoked_at row = None \<longleftrightarrow> os_revoked_at ?row = None \<and> \<not> closedIn (os_id ?row) h"
    using run_session [OF a(2), of svc h] by (elim bexE conjE) (rule that)
  have ops: "operators ?s = [o']" using run_operators [of s1 svc h] a(3) by simp
  have live: "os_revoked_at row = None \<longleftrightarrow> \<not> closedIn (call_sessionID r0) h" using row(3) by (simp add: sessionRow_def)
  have fields: "os_id row = call_sessionID r0" "os_operator_id row = op_id o'" "os_created_at row = stored (nowOf r0)"
    "os_expires_at row = stored (nowOf r0 + svc_sessionTTL svc)"
    "os_token_digest row = crypto_sha256 (svc_crypto svc) (rawEncode random)"
    using row(2) by (simp_all add: sameSession_def sessionRow_def)
  have token: "token_value (SessionToken (rawEncode random)) \<noteq> []" "NewSessionToken (rawEncode random) = Inr (SessionToken (rawEncode random))"
    using a(1) by (simp_all add: NewSessionToken_def rawEncode_valid)
  note recognized = Authenticate_row [OF inv row(1) ops up token(1), of svc, unfolded fields live, simplified]
  show ?thesis using a(1) unfolding a(4) Let_def
    by (auto simp: RequireAuthenticatedWrite_def AuthenticateSession_def token(2) recognized openedSession_def CSRFTokenMatches_def not_le)
qed

theorem session_lifetime_witness:
  "snd (RequireAuthenticatedWrite demoService (demoDraws 3000000000 CHR ''c'') (token_value (auth_Token demoOpened))
      (auth_CSRFToken demoOpened) ''/'' demoServed) =
    Inr (auth_Token demoOpened, (auth_Session demoOpened)\<lparr>session_LastSeenAt := 3000000000\<rparr>)"
proof -
  have up: "healthy (demoDraws 3000000000 CHR ''c'')" by (simp add: healthy_def demoDraws_def list_ex_iff)
  have short: "RuneCountInString (user_Display (boot_Username demoBoot)) \<le> 255" by code_simp
  have csrf: "auth_CSRFToken demoOpened \<noteq> []" by code_simp
  have times: "session_ExpiresAt (auth_Session demoOpened) = 3602000000000" "nowOf (demoDraws 3000000000 CHR ''c'') = 3000000000"
    by code_simp+
  show ?thesis
    using session_lifetime [OF demo_bootstrap _ up, of "[]" "auth_CSRFToken demoOpened" "''/''"] short csrf
    by (simp add: Let_def times stored_def scanned_def)
qed

section \<open>Who is recognized\<close>

text \<open>
  C5. Whoever is recognized was let in: if a token is recognized, one call of the run opened that
  very session after it had seen the operator's password or the bootstrap token, the token has
  the digest of the one drawn there, no logout of the session took effect since, and it has not
  expired. Neither failures of the database nor commits whose acknowledgement was lost open another way.
\<close>

theorem recognized_was_opened:
  assumes "Authenticate svc r token (serveAll svc h noOperators) = (s', Inr v)"
  shows "\<exists>pre x post random. h = pre @ x # post \<and> call_random (fst x) = Some random \<and>
    DigestToken (svc_crypto svc) (token_value token) = DigestToken (svc_crypto svc) (rawEncode random) \<and>
    session_ID v = call_sessionID (fst x) \<and>
    credentialsShown svc x (serveAll svc pre noOperators) (operator_ID (session_Operator v)) \<and>
    \<not> closedIn (session_ID v) post \<and> nowOf r < nowOf (fst x) + svc_sessionTTL svc"
proof -
  let ?s = "serveAll svc h noOperators"
  have "authenticateBody svc r token ?s = Inr (s', v)"
    using assms by (auto simp: Authenticate_def commit_Inr split: if_splits)
  then obtain row o' where select: "selectSession (crypto_sha256 (svc_crypto svc) (token_value token)) (stored (nowOf r)) ?s = Some (row, o')"
    and v: "session_ID v = os_id row" "operator_ID (session_Operator v) = op_id o'"
    by (rule authenticateBody_ok) simp
  note row = selectSession_ok [OF select]
  from session_origin [OF row(1)] obtain pre x post random where origin: "h = pre @ x # post" "call_random (fst x) = Some random"
    "sameSession (sessionRow svc (fst x) random (os_operator_id row)) row"
    "credentialsShown svc x (serveAll svc pre noOperators) (os_operator_id row)"
    "os_revoked_at row = None \<longrightarrow> \<not> closedIn (os_id row) post" by (elim exE conjE) (rule that)
  have "stored (nowOf r) < stored (nowOf (fst x) + svc_sessionTTL svc)"
    using row(5) origin(3) by (simp add: sameSession_def sessionRow_def)
  then have "nowOf r < nowOf (fst x) + svc_sessionTTL svc" unfolding stored_def by (meson not_less zdiv_mono1 zero_less_numeral)
  then show ?thesis using origin row(3,4,6) v
    by (intro exI [of _ pre] exI [of _ x] exI [of _ post] exI [of _ random])
      (auto simp: sameSession_def sessionRow_def DigestToken_def)
qed

theorem recognized_was_opened_witness:
  "\<exists>v. snd (Authenticate demoService (demoDraws 3000000000 CHR ''c'') (auth_Token demoOpened)
      (serveAll demoService (demoStart @ [(demoDraws 2000000000 CHR ''b'', BootstrapCall demoBoot)]) noOperators)) = Inr v \<and>
    nowOf (demoDraws 3000000000 CHR ''c'') < 3602000000000 \<and> session_ID v = [98]"
proof -
  let ?h = "demoStart @ [(demoDraws 2000000000 CHR ''b'', BootstrapCall demoBoot)]"
  let ?a = "Authenticate demoService (demoDraws 3000000000 CHR ''c'') (auth_Token demoOpened) (serveAll demoService ?h noOperators)"
  have ids: "map_sum id session_ID (snd ?a) = Inr [98]" by code_simp
  then obtain v where v: "snd ?a = Inr v" "session_ID v = [98]" by (cases "snd ?a") auto
  then have "?a = (fst ?a, Inr v)" by (simp add: prod_eq_iff)
  from recognized_was_opened [OF this] obtain pre x post where x: "?h = pre @ x # post" "session_ID v = call_sessionID (fst x)"
    "nowOf (demoDraws 3000000000 CHR ''c'') < nowOf (fst x) + svc_sessionTTL demoService" by blast
  have "x \<in> set ?h" using x(1) by (metis in_set_conv_decomp)
  then have "fst x = demoDraws 1000000000 CHR ''a'' \<or> fst x = demoDraws 2000000000 CHR ''b''" by (auto simp: demoStart_def)
  moreover have "call_sessionID (demoDraws 1000000000 CHR ''a'') \<noteq> [98]" by (simp add: demoDraws_def)
  ultimately have "fst x = demoDraws 2000000000 CHR ''b''" using x(2) v(2) by auto
  then have "nowOf (demoDraws 3000000000 CHR ''c'') < 3602000000000" using x(3) by (simp add: demoService_def nowOf_def demoDraws_def)
  then show ?thesis using v by blast
qed

section \<open>Passwords at login\<close>

text \<open>
  C6. At any time after the bootstrap a login opens a session for the operator, where one can be stored,
  exactly for the operator's name with a password that verifies against the one the bootstrap set, which is
  that password or one that collides with it under the key derivation; every other login is refused
  with the same error and changes nothing.
\<close>

theorem login_password:
  assumes svc: "NewService c ttl n = Some svc" "\<And>p s n r k len key. crypto_scrypt c p s n r k len = Some key \<Longrightarrow> length key = len"
    and opened: "serve svc (r0, BootstrapCall command) (serveAll svc h0 noOperators) = (s1, Opened a)"
      "boot_Password command = Some (SecretValue q)" "call_salt r0 = Some salt" "length salt = 16"
    and names: "RuneCountInString (user_Display (boot_Username command)) \<le> 255" "RuneCountInString (user_Key (boot_Username command)) \<le> 255"
    and up: "healthy r" "call_slot r" "pgText (user_Key (login_Username login))"
  shows "let s = serveAll svc h s1; p = (case login_Password login of None \<Rightarrow> [] | Some v \<Rightarrow> Reveal v) in
    Login svc r login s =
      (if user_Key (login_Username login) = user_Key (boot_Username command) \<and> utf8Valid p \<and>
          crypto_scrypt c p salt 16384 8 1 32 = crypto_scrypt c q salt 16384 8 1 32
       then (case createSession svc r 2 (session_Operator (auth_Session a)) s of Inl e \<Rightarrow> (s, Inl e) | Inr (s', b) \<Rightarrow> (s', Inr b))
       else (s, Inl ErrAuthentication))"
proof -
  have full: "varchar 255 v = Some u \<Longrightarrow> RuneCountInString v \<le> 255 \<Longrightarrow> u = v" for u v
    by (auto simp: varchar_def RuneCountInString_def runes_concat split: if_splits)
  from opened(1) authInv_run obtain o' where o': "operators s1 = [o']" "op_username o' = user_Display (boot_Username command)"
    "op_username_key o' = user_Key (boot_Username command)" "svc_hashPassword svc (Some salt) q = Inr (op_password_hash o')"
    "session_Operator (auth_Session a) = \<lparr>operator_ID = op_id o', operator_Username = user_Display (boot_Username command)\<rparr>"
  proof (cases rule: serve_Opened)
    case (2 random o' command')
    then show ?thesis using that [of o'] full names opened(2,3) by (auto simp: openedSession_def)
  qed simp
  have "op_disabled_at o' = None" using authInv_run [of svc "h0 @ [(r0, BootstrapCall command)]"] opened(1) o'(1) by (simp add: authInv_def)
  moreover have "operators (serveAll svc h s1) = [o']" using run_operators [of s1 svc h] o'(1) by simp
  ultimately have only: "find (\<lambda>row. op_username_key row = key \<and> op_disabled_at row = None) (operators (serveAll svc h s1)) =
      (if user_Key (boot_Username command) = key then Some o' else None)" for key using o'(3) by simp
  have svc': "svc_verifyPassword svc = VerifyPassword (crypto_scrypt c)" "svc_hashPassword svc = HashPassword (crypto_scrypt c)"
    using svc(1) by (auto simp: NewService_def split: if_splits)
  have verify: "svc_verifyPassword svc p (op_password_hash o') \<longleftrightarrow>
      utf8Valid p \<and> crypto_scrypt c p salt 16384 8 1 32 = crypto_scrypt c q salt 16384 8 1 32" for p
    unfolding svc' using o'(4) opened(4) svc(2) by (intro stored_password_verifies) (auto simp: svc' HashPassword_def)
  have calls: "dbCall r 0 = Inr ()" "dbCall r (Suc 0) = Inr ()"
    using healthyD(1) [OF up(1)] by (simp_all add: dbCall_def ensureE_def)
  show ?thesis using up(2,3) healthyD(2) [OF up(1)]
    by (auto simp: Let_def Login_def loginBody_def commit_def calls only verify o'(2,5) ensureE_def split: sum.splits option.splits)
qed

definition demoLogin :: "string \<Rightarrow> LoginCommand" where
  "demoLogin p = \<lparr>login_Username = \<lparr>user_Display = ''op'', user_Key = ''op''\<rparr>, login_Password = Some (SecretValue p)\<rparr>"

theorem login_password_witness:
  "snd (Login demoService (demoDraws 3000000000 CHR ''c'') (demoLogin ''sesame'') demoServed) = Inl ErrAuthentication \<and>
   (\<exists>b. snd (Login demoService (demoDraws 3000000000 CHR ''c'') (demoLogin ''secret'') demoServed) = Inr b)"
proof -
  have svc: "NewService demoCrypto 3600000000000 2 = Some demoService"
    by (simp add: NewService_def demoService_def demoCrypto_def)
  have len: "crypto_scrypt demoCrypto p s n r k len = Some key \<Longrightarrow> length key = len" for p s n r k len key
    using demoScrypt_length by (simp add: demoCrypto_def)
  have up: "healthy (demoDraws 3000000000 CHR ''c'')" "call_slot (demoDraws 3000000000 CHR ''c'')"
    by (simp_all add: healthy_def demoDraws_def list_ex_iff)
  have short: "RuneCountInString (user_Display (boot_Username demoBoot)) \<le> 255" "RuneCountInString (user_Key (boot_Username demoBoot)) \<le> 255"
    "pgText (user_Key (login_Username (demoLogin p)))" for p
    unfolding demoLogin_def by code_simp+
  have login: "Login demoService (demoDraws 3000000000 CHR ''c'') (demoLogin p) demoServed =
      (if utf8Valid p \<and> demoScrypt p ''0123456789abcdef'' 16384 8 1 32 = demoScrypt ''secret'' ''0123456789abcdef'' 16384 8 1 32
       then (case createSession demoService (demoDraws 3000000000 CHR ''c'') 2 (session_Operator (auth_Session demoOpened)) demoServed of
          Inl e \<Rightarrow> (demoServed, Inl e) | Inr (s', b) \<Rightarrow> (s', Inr b))
       else (demoServed, Inl ErrAuthentication))" for p
    using login_password [OF svc len demo_bootstrap _ _ _ short(1,2) up short(3) [of p], where q = "''secret''" and salt = "''0123456789abcdef''" and h = "[]"]
    by (simp add: demoBoot_def demoDraws_def demoLogin_def demoCrypto_def Let_def)
  have other: "demoScrypt ''sesame'' ''0123456789abcdef'' 16384 8 1 32 \<noteq> demoScrypt ''secret'' ''0123456789abcdef'' 16384 8 1 32" by code_simp
  have "isOk (createSession demoService (demoDraws 3000000000 CHR ''c'') 2 (session_Operator (auth_Session demoOpened)) demoServed)"
    "utf8Valid ''secret''" by code_simp+
  then show ?thesis using other by (auto simp: login isOk_def split: sum.splits)
qed

end
