(* ===== verification/ChatTokens.thy ===== *)
theory ChatTokens
  imports Passwords Idempotency EventStream
begin

text \<open>
  Chat access tokens (\<^verbatim>\<open>internal/chattokens\<close>): bearer secrets that are shown once, their fixed
  scopes of agents, revocation, recognition and the paged ledger. Creation and revocation are
  idempotent requests that write an audit record and an event in the same transaction. The hash
  functions and the rendering of instants are arguments of the service, the clocks and
  the random bytes are what a call draws.
\<close>

section \<open>Types\<close>

definition secretPrefix :: string where "secretPrefix = ''ref0_chat_''"
definition maxPageSize :: int where "maxPageSize = 100"
definition tokenIdempotencyTTL :: duration where "tokenIdempotencyTTL = 24 * 3600 * 1000000000"
definition idempotencyDomain :: string where "idempotencyDomain = ''chat_token.control_plane''"
definition MaxAgentScopesPerToken :: nat where "MaxAgentScopesPerToken = 2048"

datatype chatError =
    ErrInvalid
  | ErrTokenNotFound
  | ErrTokenConflict
  | ErrUnauthorized
  | ErrSecretAlreadyIssued
  | ErrTokenIdempotency
  | ErrTokenRequest string
  | ErrTokenEvents eventError
  | ErrTokenStored string
  | ErrTokenDatabase

definition zeroUUID :: UUID where "zeroUUID = replicate 16 0"

text \<open>The zero instant, the first of January of the year one.\<close>

definition zeroTime :: gotime where "zeroTime = - 62135596800 * 1000000000"

record Token =
  token_ID :: UUID
  token_Prefix :: string
  token_Label :: string
  token_CreatedByOperator :: UUID
  token_AgentIDs :: "UUID list"
  token_CreatedAt :: gotime
  token_ExpiresAt :: gotime
  token_RevokedAt :: "gotime option"
  token_LastUsedAt :: "gotime option"

record Summary =
  sum_ID :: UUID
  sum_Prefix :: string
  sum_Label :: string
  sum_CreatedByOperator :: UUID
  sum_AgentCount :: nat
  sum_CreatedAt :: gotime
  sum_ExpiresAt :: gotime
  sum_RevokedAt :: "gotime option"
  sum_LastUsedAt :: "gotime option"

record TokenCommand =
  tcmd_Label :: string
  tcmd_AgentIDs :: "UUID list"
  tcmd_ExpiresAt :: gotime

record Issued =
  issued_Token :: "Token option"
  issued_Secret :: "SecretValue option"

record Grant =
  grant_TokenID :: UUID
  grant_Subject :: string
  grant_agentIDs :: "UUID list"

definition NewGrant :: "UUID \<Rightarrow> UUID list \<Rightarrow> chatError + Grant" where
  "NewGrant tokenID agentIDs =
     (if tokenID = zeroUUID \<or> agentIDs = [] \<or> zeroUUID \<in> set agentIDs \<or> \<not> distinct agentIDs then Inl ErrUnauthorized
      else Inr \<lparr>grant_TokenID = tokenID, grant_Subject = ''chat-token:'' @ uuidString tokenID, grant_agentIDs = agentIDs\<rparr>)"

definition Allows :: "Grant \<Rightarrow> UUID \<Rightarrow> bool" where
  "Allows grant agentID \<longleftrightarrow> list_ex (\<lambda>allowed. allowed = agentID) (grant_agentIDs grant)"

section \<open>Tables\<close>

record ChatTokenRow =
  ct_id :: UUID
  ct_token_digest :: string
  ct_token_prefix :: string
  ct_label :: string
  ct_created_by_operator_id :: UUID
  ct_created_at :: pgtime
  ct_expires_at :: pgtime
  ct_revoked_at :: "pgtime option"
  ct_last_used_at :: "pgtime option"

text \<open>Of the agents and the operators only the identifiers matter here, which foreign keys refer to.\<close>

record chatTables =
  chat_access_tokens :: "ChatTokenRow list"
  chat_access_token_agents :: "(UUID \<times> UUID) list"
  agent_rows :: "UUID list"
  operator_rows :: "UUID list"
  chat_events :: eventTables

definition textOk :: "string \<Rightarrow> nat \<Rightarrow> nat \<Rightarrow> bool" where
  "textOk s minimum maximum \<longleftrightarrow> utf8Valid s \<and> list_all (\<lambda>c. code c \<noteq> 0) s \<and> minimum \<le> RuneCountInString s \<and>
     RuneCountInString s \<le> maximum \<and> s = TrimFunc (\<lambda>r. r = 32) s"

definition tokenRowOk :: "ChatTokenRow \<Rightarrow> bool" where
  "tokenRowOk row \<longleftrightarrow> ct_created_at row < ct_expires_at row \<and> textOk (ct_label row) 1 255 \<and> textOk (ct_token_prefix row) 8 32 \<and>
     length (ct_token_digest row) = 32 \<and>
     (case ct_revoked_at row of None \<Rightarrow> True | Some t \<Rightarrow> ct_created_at row \<le> t) \<and>
     (case ct_last_used_at row of None \<Rightarrow> True | Some t \<Rightarrow> ct_created_at row \<le> t)"

definition insertToken :: "ChatTokenRow \<Rightarrow> chatTables \<Rightarrow> chatError + chatTables" where
  "insertToken row s =
     (if \<not> tokenRowOk row \<or> ct_created_by_operator_id row \<notin> set (operator_rows s) \<or>
         list_ex (\<lambda>r. ct_id r = ct_id row \<or> ct_token_digest r = ct_token_digest row) (chat_access_tokens s)
      then Inl ErrTokenDatabase else Inr (s\<lparr>chat_access_tokens := chat_access_tokens s @ [row]\<rparr>))"

fun insertScopes :: "UUID \<Rightarrow> UUID list \<Rightarrow> chatTables \<Rightarrow> chatError + chatTables" where
  "insertScopes i [] s = Inr s"
| "insertScopes i (a # as) s =
     (if (i, a) \<in> set (chat_access_token_agents s) \<or> a \<notin> set (agent_rows s) then Inl ErrTokenDatabase
      else insertScopes i as (s\<lparr>chat_access_token_agents := chat_access_token_agents s @ [(i, a)]\<rparr>))"

definition updateToken :: "UUID \<Rightarrow> (ChatTokenRow \<Rightarrow> ChatTokenRow) \<Rightarrow> chatTables \<Rightarrow> chatError + chatTables" where
  "updateToken i f s =
     (let rows = map (\<lambda>row. if ct_id row = i then f row else row) (chat_access_tokens s) in
      if list_all tokenRowOk rows then Inr (s\<lparr>chat_access_tokens := rows\<rparr>) else Inl ErrTokenDatabase)"

definition tokenTime :: "pgtime \<Rightarrow> gotime" where
  "tokenTime t = 1000 * t"

definition optionalTime :: "pgtime option \<Rightarrow> gotime option" where
  "optionalTime t = map_option tokenTime t"

definition loadScopes :: "UUID \<Rightarrow> chatTables \<Rightarrow> UUID list" where
  "loadScopes i s = sort (map snd (filter (\<lambda>x. fst x = i) (chat_access_token_agents s)))"

definition load :: "UUID \<Rightarrow> chatTables \<Rightarrow> chatError + Token" where
  "load i s =
     (case find (\<lambda>row. ct_id row = i) (chat_access_tokens s) of
        None \<Rightarrow> Inl ErrTokenNotFound
      | Some row \<Rightarrow>
          let v = \<lparr>token_ID = ct_id row, token_Prefix = ct_token_prefix row, token_Label = ct_label row,
                token_CreatedByOperator = ct_created_by_operator_id row, token_AgentIDs = loadScopes (ct_id row) s,
                token_CreatedAt = tokenTime (ct_created_at row), token_ExpiresAt = tokenTime (ct_expires_at row),
                token_RevokedAt = optionalTime (ct_revoked_at row), token_LastUsedAt = optionalTime (ct_last_used_at row)\<rparr> in
          if token_ID v = zeroUUID \<or> token_Prefix v = [] \<or> token_Label v = [] \<or> token_AgentIDs v = [] \<or>
             token_ExpiresAt v \<le> token_CreatedAt v
          then Inl (ErrTokenStored ''stored chat token is invalid'') else Inr v)"

section \<open>Service\<close>

record chatService =
  chat_vault :: CredentialVault
  chat_hmac :: "string \<Rightarrow> string \<Rightarrow> byte list"
  chat_sha256 :: "string \<Rightarrow> string"
  chat_rfc3339 :: "gotime \<Rightarrow> string"

record chatDraws =
  draw_execute :: pgtime
  draw_now :: pgtime
  draw_audit :: pgtime
  draw_event :: pgtime
  draw_id :: "byte list"
  draw_entropy :: string
  draw_request :: "byte list"

definition chatSpace :: "nat \<Rightarrow> bool" where
  "chatSpace r \<longleftrightarrow> isSpaceRune r \<or> 0x1C \<le> r \<and> r \<le> 0x1F"

definition newTokenID :: "byte list \<Rightarrow> UUID" where
  "newTokenID raw = raw[6 := or (and (raw ! 6) 0x0F) 0x40, 8 := or (and (raw ! 8) 0x3F) 0x80]"

definition tokenGenerate :: "chatService \<Rightarrow> string \<Rightarrow> vaultError + SecretValue \<times> string \<times> string" where
  "tokenGenerate svc entropy =
     (let encoded = rawEncode entropy; plaintext = secretPrefix @ encoded in
      bindE (NewSecretValue plaintext) (\<lambda>secret.
        Inr (secret, secretPrefix @ take 8 encoded, chat_sha256 svc plaintext)))"

definition validSecret :: "string \<Rightarrow> bool" where
  "validSecret v \<longleftrightarrow> HasPrefix v secretPrefix \<and>
     (case rawDecode (TrimPrefix v secretPrefix) of None \<Rightarrow> False | Some decoded \<Rightarrow> length decoded = 32)"

definition validateTokenCreate :: "TokenCommand \<Rightarrow> chatError + unit" where
  "validateTokenCreate command =
     (if \<not> utf8Valid (tcmd_Label command) \<or> RuneCountInString (tcmd_Label command) < 1 \<or>
         RuneCountInString (tcmd_Label command) > 255 \<or> tcmd_ExpiresAt command = zeroTime \<or>
         length (tcmd_AgentIDs command) < 1 \<or> length (tcmd_AgentIDs command) > MaxAgentScopesPerToken \<or>
         zeroUUID \<in> set (tcmd_AgentIDs command) \<or> \<not> distinct (tcmd_AgentIDs command)
      then Inl ErrInvalid else Inr ())"

definition validateAgentScopes :: "UUID list \<Rightarrow> chatTables \<Rightarrow> chatError + unit" where
  "validateAgentScopes ids s =
     (if length (filter (\<lambda>a. a \<in> set ids) (agent_rows s)) \<noteq> length ids then Inl ErrTokenNotFound else Inr ())"

definition tokenRequest :: "chatService \<Rightarrow> UUID \<Rightarrow> string \<Rightarrow> string \<Rightarrow> (string \<times> gval) list \<Rightarrow> chatError + Request" where
  "tokenRequest svc actor key operation payload =
     (if actor = zeroUUID \<or> key = [] \<or> key \<noteq> TrimFunc chatSpace key \<or> \<not> utf8Valid key \<or> RuneCountInString key > 255 \<or>
         list_ex (\<lambda>c. code c = 0 \<or> code c = 13 \<or> code c = 10) key
      then Inl ErrInvalid
      else case encodeValue (GObject payload) of
        None \<Rightarrow> Inl ErrInvalid
      | Some canonical \<Rightarrow>
          (case KeyedDigests (chat_hmac svc) (chat_vault svc) [idempotencyDomain, operation, canonical] of
             Inr (d # ds) \<Rightarrow> Inr \<lparr>req_Scope = ''operator:'' @ uuidString actor, req_Key = key, req_Operation = operation,
                 req_Digest = d, req_AcceptedDigests = ds, req_TTL = tokenIdempotencyTTL\<rparr>
           | _ \<Rightarrow> Inl (ErrTokenRequest ''chat token idempotency digest is unavailable'')))"

definition tokenSnapshot :: "(gotime \<Rightarrow> string) \<Rightarrow> Token \<Rightarrow> (string \<times> gval) list" where
  "tokenSnapshot render v =
     [(''id'', GString (uuidString (token_ID v))), (''prefix'', GString (token_Prefix v)), (''label'', GString (token_Label v)),
      (''agent_ids'', GArray (map (\<lambda>a. GString (uuidString a)) (token_AgentIDs v))),
      (''created_at'', GString (render (token_CreatedAt v))), (''expires_at'', GString (render (token_ExpiresAt v))),
      (''revoked_at'', case token_RevokedAt v of None \<Rightarrow> GNull | Some t \<Rightarrow> GString (render t)),
      (''last_used_at'', case token_LastUsedAt v of None \<Rightarrow> GNull | Some t \<Rightarrow> GString (render t))]"

definition recordTokenChange :: "chatService \<Rightarrow> chatDraws \<Rightarrow> Token \<Rightarrow> UUID \<Rightarrow> string \<Rightarrow> string \<Rightarrow> eventTables \<Rightarrow> chatError + eventTables" where
  "recordTokenChange svc r v actor action eventType s =
     (let snapshot = tokenSnapshot (chat_rfc3339 svc) v in
      case bindE (AppendAudit \<lparr>ActorType = ''operator'', audit_ActorID = Some actor, Action = action, audit_TargetType = ''chat_token'',
               audit_TargetID = Some (token_ID v), RequestID = newTokenID (draw_request r), Details = Some snapshot\<rparr> (draw_audit r) s) (\<lambda>(s1, _).
             Append \<lparr>event_Type = eventType, event_ResourceType = ''chat_token'', event_ResourceID = token_ID v,
               event_Snapshot = Some snapshot\<rparr> (draw_event r) s1) of
        Inl e \<Rightarrow> Inl (ErrTokenEvents e)
      | Inr (s2, _) \<Rightarrow> Inr s2)"

fun tokenFailure :: "chatError idemError \<Rightarrow> chatError" where
  "tokenFailure (ErrOperation e) = e"
| "tokenFailure ErrConflict = ErrTokenIdempotency"
| "tokenFailure (ErrRequest m) = ErrTokenRequest m"

section \<open>Creation\<close>

text \<open>The variable that the operation leaves the secret in belongs to its state.\<close>

definition createToken :: "chatService \<Rightarrow> chatDraws \<Rightarrow> TokenCommand \<Rightarrow> UUID \<Rightarrow> (chatTables \<times> SecretValue option, chatError, Result) txn" where
  "createToken svc r command actor x =
     (let s = fst x in
      if tcmd_ExpiresAt command \<le> tokenTime (draw_now r) then Inl ErrInvalid
      else bindE (validateAgentScopes (tcmd_AgentIDs command) s) (\<lambda>_.
        let i = newTokenID (draw_id r) in
        case tokenGenerate svc (draw_entropy r) of
          Inl _ \<Rightarrow> Inl (ErrTokenRequest ''secret'')
        | Inr (secret, prefix, digest) \<Rightarrow>
            bindE (insertToken \<lparr>ct_id = i, ct_token_digest = digest, ct_token_prefix = prefix, ct_label = tcmd_Label command,
                ct_created_by_operator_id = actor, ct_created_at = draw_now r, ct_expires_at = tcmd_ExpiresAt command div 1000,
                ct_revoked_at = None, ct_last_used_at = None\<rparr> s) (\<lambda>s1.
            bindE (insertScopes i (tcmd_AgentIDs command) s1) (\<lambda>s2.
            bindE (load i s2) (\<lambda>v.
            bindE (recordTokenChange svc r v actor ''chat_token.create'' ''chat_token.created'' (chat_events s2)) (\<lambda>e.
              Inr ((s2\<lparr>chat_events := e\<rparr>, Some secret), \<lparr>res_Type = ''chat_token:issued'', res_ID = i\<rparr>)))))))"

text \<open>The value and the error that the call returns; an error rolls back.\<close>

definition issueToken ::
  "chatService \<Rightarrow> chatDraws \<Rightarrow> TokenCommand \<Rightarrow> UUID \<Rightarrow> Request \<Rightarrow> chatTables idemTables \<Rightarrow> chatTables idemTables \<times> Issued \<times> chatError option" where
  "issueToken svc r command actor request s =
     (case Execute request (draw_execute r) (createToken svc r command actor)
         \<lparr>idempotency_records = idempotency_records s, other_tables = (other_tables s, None)\<rparr> of
        Inl e \<Rightarrow> (s, \<lparr>issued_Token = None, issued_Secret = None\<rparr>, Some (tokenFailure e))
      | Inr (x, result) \<Rightarrow>
          (let s1 = \<lparr>idempotency_records = idempotency_records x, other_tables = fst (other_tables x)\<rparr>;
               secret = snd (other_tables x) in
           if res_Type result \<noteq> ''chat_token:issued'' then (s, \<lparr>issued_Token = None, issued_Secret = secret\<rparr>, Some ErrTokenIdempotency)
           else case load (res_ID result) (other_tables s1) of
             Inl e \<Rightarrow> (s, \<lparr>issued_Token = None, issued_Secret = secret\<rparr>, Some e)
           | Inr v \<Rightarrow>
               if secret = None then (s, \<lparr>issued_Token = Some v, issued_Secret = None\<rparr>, Some ErrSecretAlreadyIssued)
               else (s1, \<lparr>issued_Token = Some v, issued_Secret = secret\<rparr>, None)))"

definition normalizedCommand :: "TokenCommand \<Rightarrow> TokenCommand" where
  "normalizedCommand command = command\<lparr>tcmd_Label := TrimFunc chatSpace (tcmd_Label command)\<rparr>"

definition sortedCommand :: "TokenCommand \<Rightarrow> TokenCommand" where
  "sortedCommand command = command\<lparr>tcmd_AgentIDs := sort_key uuidString (tcmd_AgentIDs command)\<rparr>"

definition createPayload :: "(gotime \<Rightarrow> string) \<Rightarrow> TokenCommand \<Rightarrow> (string \<times> gval) list" where
  "createPayload render command =
     [(''label'', GString (tcmd_Label command)), (''expires_at'', GString (render (tcmd_ExpiresAt command))),
      (''agent_ids'', GArray (map (\<lambda>a. GString (uuidString a)) (tcmd_AgentIDs command)))]"

definition CreateToken ::
  "chatService \<Rightarrow> chatDraws \<Rightarrow> TokenCommand \<Rightarrow> UUID \<Rightarrow> string \<Rightarrow> chatTables idemTables \<Rightarrow> chatTables idemTables \<times> Issued \<times> chatError option" where
  "CreateToken svc r given actor requestKey s =
     (let command = normalizedCommand given; failed = (\<lambda>e. (s, \<lparr>issued_Token = None, issued_Secret = None\<rparr>, Some e)) in
      case validateTokenCreate command of
        Inl e \<Rightarrow> failed e
      | Inr _ \<Rightarrow>
          (let command = sortedCommand command in
           case tokenRequest svc actor requestKey ''chat_token.create'' (createPayload (chat_rfc3339 svc) command) of
             Inl e \<Rightarrow> failed e
           | Inr request \<Rightarrow> issueToken svc r command actor request s))"

section \<open>Revocation\<close>

definition validateSummary :: "Summary \<Rightarrow> chatError + unit" where
  "validateSummary v =
     (if sum_ID v = zeroUUID \<or> sum_CreatedByOperator v = zeroUUID \<or> sum_Prefix v = [] \<or> sum_Label v = [] \<or>
         sum_AgentCount v < 1 \<or> sum_AgentCount v > MaxAgentScopesPerToken \<or> sum_CreatedAt v = zeroTime \<or>
         sum_ExpiresAt v \<le> sum_CreatedAt v
      then Inl (ErrTokenStored ''stored chat token summary is invalid'') else Inr ())"

definition summaryFromToken :: "Token \<Rightarrow> chatError + Summary" where
  "summaryFromToken v =
     (let m = \<lparr>sum_ID = token_ID v, sum_Prefix = token_Prefix v, sum_Label = token_Label v,
          sum_CreatedByOperator = token_CreatedByOperator v, sum_AgentCount = length (token_AgentIDs v),
          sum_CreatedAt = token_CreatedAt v, sum_ExpiresAt = token_ExpiresAt v, sum_RevokedAt = token_RevokedAt v,
          sum_LastUsedAt = token_LastUsedAt v\<rparr> in
      bindE (validateSummary m) (\<lambda>_. Inr m))"

definition revokeToken :: "chatService \<Rightarrow> chatDraws \<Rightarrow> UUID \<Rightarrow> UUID \<Rightarrow> (chatTables, chatError, Result) txn" where
  "revokeToken svc r i actor s =
     bindE (load i s) (\<lambda>current.
       if token_RevokedAt current \<noteq> None then Inl ErrTokenConflict
       else bindE (updateToken i (\<lambda>row. if ct_revoked_at row = None then row\<lparr>ct_revoked_at := Some (draw_now r)\<rparr> else row) s) (\<lambda>s1.
         bindE (load i s1) (\<lambda>v.
         bindE (recordTokenChange svc r v actor ''chat_token.revoke'' ''chat_token.revoked'' (chat_events s1)) (\<lambda>e.
           Inr (s1\<lparr>chat_events := e\<rparr>, \<lparr>res_Type = ''chat_token:revoked'', res_ID = i\<rparr>)))))"

definition RevokeToken ::
  "chatService \<Rightarrow> chatDraws \<Rightarrow> UUID \<Rightarrow> UUID \<Rightarrow> string \<Rightarrow> (chatTables idemTables, chatError, Summary) action" where
  "RevokeToken svc r i actor requestKey s =
     (if i = zeroUUID then (s, Inl ErrInvalid)
      else case tokenRequest svc actor requestKey ''chat_token.revoke'' [(''token_id'', GString (uuidString i))] of
        Inl e \<Rightarrow> (s, Inl e)
      | Inr request \<Rightarrow>
          (case Execute request (draw_execute r) (revokeToken svc r i actor) s of
             Inl e \<Rightarrow> (s, Inl (tokenFailure e))
           | Inr (s1, result) \<Rightarrow>
               if res_Type result \<noteq> ''chat_token:revoked'' \<or> res_ID result \<noteq> i then (s, Inl ErrTokenIdempotency)
               else (case bindE (load i (other_tables s1)) summaryFromToken of
                   Inl e \<Rightarrow> (s, Inl e)
                 | Inr m \<Rightarrow> (s1, Inr m))))"

section \<open>Recognition\<close>

definition recognizeToken :: "chatDraws \<Rightarrow> string \<Rightarrow> (chatTables, chatError, Grant) txn" where
  "recognizeToken r digest s =
     (case find (\<lambda>row. ct_token_digest row = digest) (chat_access_tokens s) of
        None \<Rightarrow> Inl ErrUnauthorized
      | Some row \<Rightarrow>
          if ct_revoked_at row \<noteq> None \<or> ct_expires_at row \<le> draw_now r then Inl ErrUnauthorized
          else bindE (updateToken (ct_id row) (\<lambda>row. row\<lparr>ct_last_used_at :=
                Some (max (case ct_last_used_at row of None \<Rightarrow> ct_created_at row | Some t \<Rightarrow> t) (draw_now r))\<rparr>) s) (\<lambda>s1.
            if loadScopes (ct_id row) s1 = [] then Inl (ErrTokenStored ''stored chat token has no Agent scope'')
            else bindE (NewGrant (ct_id row) (loadScopes (ct_id row) s1)) (\<lambda>grant. Inr (s1, grant))))"

definition AuthenticateToken :: "chatService \<Rightarrow> chatDraws \<Rightarrow> string \<Rightarrow> (chatTables idemTables, chatError, Grant) action" where
  "AuthenticateToken svc r plaintext s =
     (if \<not> validSecret plaintext then (s, Inl ErrUnauthorized)
      else case recognizeToken r (chat_sha256 svc plaintext) (other_tables s) of
        Inl e \<Rightarrow> (s, Inl e)
      | Inr (d, grant) \<Rightarrow> (s\<lparr>other_tables := d\<rparr>, Inr grant))"

section \<open>The ledger\<close>

record PageCursor =
  cursor_CreatedAt :: gotime
  cursor_TokenID :: UUID

record Page =
  page_Summaries :: "Summary list"
  page_NextCursor :: "PageCursor option"

definition summaryOf :: "chatTables \<Rightarrow> ChatTokenRow \<Rightarrow> Summary" where
  "summaryOf s row = \<lparr>sum_ID = ct_id row, sum_Prefix = ct_token_prefix row, sum_Label = ct_label row,
     sum_CreatedByOperator = ct_created_by_operator_id row,
     sum_AgentCount = length (filter (\<lambda>x. fst x = ct_id row) (chat_access_token_agents s)),
     sum_CreatedAt = tokenTime (ct_created_at row), sum_ExpiresAt = tokenTime (ct_expires_at row),
     sum_RevokedAt = optionalTime (ct_revoked_at row), sum_LastUsedAt = optionalTime (ct_last_used_at row)\<rparr>"

fun scanSummaries :: "chatTables \<Rightarrow> ChatTokenRow list \<Rightarrow> chatError + Summary list" where
  "scanSummaries s [] = Inr []"
| "scanSummaries s (row # rows) =
     (let m = summaryOf s row in
      if sum_AgentCount m < 1 \<or> sum_AgentCount m > MaxAgentScopesPerToken
      then Inl (ErrTokenStored ''stored chat token scope count is invalid'')
      else bindE (validateSummary m) (\<lambda>_. bindE (scanSummaries s rows) (\<lambda>ms. Inr (m # ms))))"

text \<open>A cursor compares as a pair in the order of the ledger, newest first; it reaches the
  database in microseconds.\<close>

definition ledgerKey :: "ChatTokenRow \<Rightarrow> pgtime \<times> UUID" where
  "ledgerKey row = (ct_created_at row, ct_id row)"

definition tokenPage :: "PageCursor option \<Rightarrow> nat \<Rightarrow> chatTables \<Rightarrow> ChatTokenRow list" where
  "tokenPage after limit s = take limit (rev (sort_key ledgerKey
     (filter (\<lambda>row. case after of None \<Rightarrow> True | Some c \<Rightarrow> ledgerKey row < (cursor_CreatedAt c div 1000, cursor_TokenID c))
       (chat_access_tokens s))))"

definition ListTokens :: "PageCursor option \<Rightarrow> int \<Rightarrow> chatTables \<Rightarrow> chatError + Page" where
  "ListTokens after limit s =
     (if limit < 1 \<or> limit > maxPageSize then Inl ErrInvalid
      else if (case after of None \<Rightarrow> False | Some c \<Rightarrow> cursor_CreatedAt c = zeroTime \<or> cursor_TokenID c = zeroUUID) then Inl ErrInvalid
      else bindE (scanSummaries s (tokenPage after (Suc (nat limit)) s)) (\<lambda>summaries.
        let more = length summaries > nat limit; kept = (if more then take (nat limit) summaries else summaries) in
        Inr \<lparr>page_Summaries = kept,
             page_NextCursor = (if more then Some \<lparr>cursor_CreatedAt = sum_CreatedAt (last kept), cursor_TokenID = sum_ID (last kept)\<rparr> else None)\<rparr>))"

end
