(* ===== verification/ChatTokenProperties.thy ===== *)
theory ChatTokenProperties
  imports ChatTokens AuthProperties
begin

text \<open>
  What chat access tokens guarantee in every run of creations, revocations, recognitions and changes
  of the catalog: a secret is handed out once, it stands for exactly the agents it was created for
  until it is revoked or expires, and no other secret is recognized.
\<close>

section \<open>Runs\<close>

datatype chatCall =
    CreateCall TokenCommand UUID string
  | RevokeCall UUID UUID string
  | UseCall string
  | AgentsChanged "UUID list"

text \<open>The catalog changes freely, but an agent in a scope cannot be deleted.\<close>

fun perform :: "chatService \<Rightarrow> chatDraws \<times> chatCall \<Rightarrow> chatTables idemTables \<Rightarrow> chatTables idemTables" where
  "perform svc (r, CreateCall command actor key) s = fst (CreateToken svc r command actor key s)"
| "perform svc (r, RevokeCall i actor key) s = fst (RevokeToken svc r i actor key s)"
| "perform svc (r, UseCall plaintext) s = fst (AuthenticateToken svc r plaintext s)"
| "perform svc (r, AgentsChanged ids) s =
     (if list_all (\<lambda>x. snd x \<in> set ids) (chat_access_token_agents (other_tables s))
      then s\<lparr>other_tables := (other_tables s)\<lparr>agent_rows := ids\<rparr>\<rparr> else s)"

definition performAll :: "chatService \<Rightarrow> (chatDraws \<times> chatCall) list \<Rightarrow> chatTables idemTables \<Rightarrow> chatTables idemTables" where
  "performAll svc h s = fold (perform svc) h s"

lemma performAll_simps [simp]:
  "performAll svc [] s = s" "performAll svc (x # h) s = performAll svc h (perform svc x s)"
  "performAll svc (h @ h') s = performAll svc h' (performAll svc h s)"
  by (simp_all add: performAll_def)

section \<open>Statements\<close>

lemma insertScopes_ok:
  "insertScopes i ids s = Inr t \<Longrightarrow> distinct ids \<and>
    t = s\<lparr>chat_access_token_agents := chat_access_token_agents s @ map (Pair i) ids\<rparr> \<and>
    set ids \<subseteq> set (agent_rows s) \<and> (\<forall>a \<in> set ids. (i, a) \<notin> set (chat_access_token_agents s))"
proof (induction ids arbitrary: s)
  case (Cons a ids)
  have ok: "(i, a) \<notin> set (chat_access_token_agents s)" "a \<in> set (agent_rows s)"
    "insertScopes i ids (s\<lparr>chat_access_token_agents := chat_access_token_agents s @ [(i, a)]\<rparr>) = Inr t"
    using Cons.prems by (auto split: if_splits)
  from Cons.IH [OF ok(3)] ok(1,2) show ?case by auto
qed simp

lemma load_ok:
  assumes "load i s = Inr v"
  obtains row where "row \<in> set (chat_access_tokens s)" "ct_id row = i" "token_ID v = i" "token_AgentIDs v = loadScopes i s"
    "i \<noteq> zeroUUID" "loadScopes i s \<noteq> []" "token_RevokedAt v = optionalTime (ct_revoked_at row)"
    "token_ExpiresAt v = tokenTime (ct_expires_at row)" "find (\<lambda>row. ct_id row = i) (chat_access_tokens s) = Some row"
proof -
  from assms obtain row where row: "find (\<lambda>row. ct_id row = i) (chat_access_tokens s) = Some row"
    by (auto simp: load_def split: option.splits)
  then have "row \<in> set (chat_access_tokens s)" "ct_id row = i" using find_member by fast+
  then show thesis using that row assms by (auto simp: load_def Let_def split: if_splits)
qed

lemma load_events [simp]: "load i (s\<lparr>chat_events := e\<rparr>) = load i s"
  by (auto simp: load_def loadScopes_def split: option.splits)

text \<open>The row and the secret of a creation.\<close>

definition newSecret :: "chatDraws \<Rightarrow> string" where
  "newSecret r = secretPrefix @ rawEncode (draw_entropy r)"

definition newTokenRow :: "chatService \<Rightarrow> chatDraws \<Rightarrow> TokenCommand \<Rightarrow> UUID \<Rightarrow> ChatTokenRow" where
  "newTokenRow svc r command actor =
     \<lparr>ct_id = newTokenID (draw_id r), ct_token_digest = chat_sha256 svc (newSecret r),
      ct_token_prefix = secretPrefix @ take 8 (rawEncode (draw_entropy r)), ct_label = tcmd_Label command,
      ct_created_by_operator_id = actor, ct_created_at = draw_now r, ct_expires_at = tcmd_ExpiresAt command div 1000,
      ct_revoked_at = None, ct_last_used_at = None\<rparr>"

lemma newSecret_valid: "utf8Valid (newSecret r)" "newSecret r \<noteq> []"
proof -
  have "\<forall>c \<in> set (newSecret r). code c < 0x80" using rawEncode_set by (auto simp: newSecret_def secretPrefix_def)
  then show "utf8Valid (newSecret r)" by (auto simp: utf8Valid_def runes_all_ascii runeError_def)
qed (simp add: newSecret_def secretPrefix_def)

lemma tokenGenerate_new:
  "tokenGenerate svc (draw_entropy r) =
    Inr (SecretValue (newSecret r), secretPrefix @ take 8 (rawEncode (draw_entropy r)), chat_sha256 svc (newSecret r))"
  using newSecret_valid [of r] by (simp add: tokenGenerate_def NewSecretValue_def newSecret_def Let_def)

lemma createToken_ok:
  assumes "createToken svc r command actor (s, sec0) = Inr ((d, sec), result)"
  defines "i \<equiv> newTokenID (draw_id r)"
  shows "sec = Some (SecretValue (newSecret r))" "result = \<lparr>res_Type = ''chat_token:issued'', res_ID = i\<rparr>"
    "chat_access_tokens d = chat_access_tokens s @ [newTokenRow svc r command actor]"
    "chat_access_token_agents d = chat_access_token_agents s @ map (Pair i) (tcmd_AgentIDs command)"
    "agent_rows d = agent_rows s" "tokenRowOk (newTokenRow svc r command actor)"
    "i \<notin> ct_id ` set (chat_access_tokens s)" "chat_sha256 svc (newSecret r) \<notin> ct_token_digest ` set (chat_access_tokens s)"
    "i \<noteq> zeroUUID" "distinct (tcmd_AgentIDs command)"
    "set (tcmd_AgentIDs command) \<subseteq> set (agent_rows s)" "\<exists>v. load i d = Inr v"
proof -
  from assms(1) obtain s1 s2 v e where c: "insertToken (newTokenRow svc r command actor) s = Inr s1"
    "insertScopes i (tcmd_AgentIDs command) s1 = Inr s2" "load i s2 = Inr v" "d = s2\<lparr>chat_events := e\<rparr>"
    "sec = Some (SecretValue (newSecret r))" "result = \<lparr>res_Type = ''chat_token:issued'', res_ID = i\<rparr>"
    by (auto simp: createToken_def Let_def result_simps tokenGenerate_new newTokenRow_def i_def split: if_splits)
  from c(1) have t: "tokenRowOk (newTokenRow svc r command actor)" "i \<notin> ct_id ` set (chat_access_tokens s)"
    "chat_sha256 svc (newSecret r) \<notin> ct_token_digest ` set (chat_access_tokens s)"
    "s1 = s\<lparr>chat_access_tokens := chat_access_tokens s @ [newTokenRow svc r command actor]\<rparr>"
    by (auto simp: insertToken_def newTokenRow_def i_def list_ex_iff split: if_splits)
  note sc = insertScopes_ok [OF c(2)]
  show "sec = Some (SecretValue (newSecret r))" "result = \<lparr>res_Type = ''chat_token:issued'', res_ID = i\<rparr>"
    "chat_access_tokens d = chat_access_tokens s @ [newTokenRow svc r command actor]"
    "chat_access_token_agents d = chat_access_token_agents s @ map (Pair i) (tcmd_AgentIDs command)"
    "agent_rows d = agent_rows s" "tokenRowOk (newTokenRow svc r command actor)"
    "i \<notin> ct_id ` set (chat_access_tokens s)" "chat_sha256 svc (newSecret r) \<notin> ct_token_digest ` set (chat_access_tokens s)"
    "distinct (tcmd_AgentIDs command)" "set (tcmd_AgentIDs command) \<subseteq> set (agent_rows s)"
    using c(4-6) t sc by simp_all
  show "i \<noteq> zeroUUID" using c(3) by (rule load_ok)
  show "\<exists>v. load i d = Inr v" using c(3,4) by simp
qed

definition revokedRow :: "pgtime \<Rightarrow> ChatTokenRow \<Rightarrow> ChatTokenRow" where
  "revokedRow t row = (if ct_revoked_at row = None then row\<lparr>ct_revoked_at := Some t\<rparr> else row)"

lemma updateToken_ok:
  "updateToken i f s = Inr t \<longleftrightarrow> list_all tokenRowOk (map (\<lambda>row. if ct_id row = i then f row else row) (chat_access_tokens s)) \<and>
    t = s\<lparr>chat_access_tokens := map (\<lambda>row. if ct_id row = i then f row else row) (chat_access_tokens s)\<rparr>"
  by (auto simp: updateToken_def Let_def)

lemma revokeToken_ok:
  assumes "revokeToken svc r i actor s = Inr (d, result)"
  shows "result = \<lparr>res_Type = ''chat_token:revoked'', res_ID = i\<rparr>"
    "chat_access_tokens d = map (\<lambda>row. if ct_id row = i then revokedRow (draw_now r) row else row) (chat_access_tokens s)"
    "chat_access_token_agents d = chat_access_token_agents s" "agent_rows d = agent_rows s"
    "list_all tokenRowOk (chat_access_tokens d)"
  using assms unfolding revokedRow_def by (auto simp: revokeToken_def result_simps updateToken_ok split: if_splits)

definition usedRow :: "pgtime \<Rightarrow> ChatTokenRow \<Rightarrow> ChatTokenRow" where
  "usedRow t row = row\<lparr>ct_last_used_at :=
     Some (max (case ct_last_used_at row of None \<Rightarrow> ct_created_at row | Some u \<Rightarrow> u) t)\<rparr>"

section \<open>Requests\<close>

text \<open>A request that succeeds either finds its record and leaves the tables alone, or runs and
  records its result; records of other keys and live records stay.\<close>

lemma Execute_frame:
  assumes "Execute request now operation s = Inr (s1, result)"
  shows "set (idempotency_records s1) \<subseteq> set (idempotency_records s) \<union> {newRecord request now result}"
    and "rec' \<in> set (idempotency_records s) \<Longrightarrow> now < rec_expires_at rec' \<Longrightarrow> rec' \<in> set (idempotency_records s1)"
    and "other_tables s1 = other_tables s \<and> set (idempotency_records s1) \<subseteq> set (idempotency_records s) \<and>
        (\<exists>r \<in> set (idempotency_records s). result = \<lparr>res_Type = rec_result_type r, res_ID = rec_result_id r\<rparr>) \<or>
      operation (other_tables s) = Inr (other_tables s1, result) \<and> newRecord request now result \<in> set (idempotency_records s1)"
  using assms by (auto simp: Execute_def Let_def result_simps split: option.splits if_splits sum.splits dest!: find_SomeD)

lemma CreateToken_cases:
  assumes "CreateToken svc r given actor key s = (s1, issued, err)"
  defines "command \<equiv> sortedCommand (normalizedCommand given)"
  obtains (failed) "s1 = s" "err \<noteq> None" "issued_Secret issued = None"
    | (created) request v where "err = None" "issued = \<lparr>issued_Token = Some v, issued_Secret = Some (SecretValue (newSecret r))\<rparr>"
      "validateTokenCreate (normalizedCommand given) = Inr ()"
      "tokenRequest svc actor key ''chat_token.create'' (createPayload (chat_rfc3339 svc) command) = Inr request"
      "createToken svc r command actor (other_tables s, None) =
        Inr ((other_tables s1, Some (SecretValue (newSecret r))), \<lparr>res_Type = ''chat_token:issued'', res_ID = newTokenID (draw_id r)\<rparr>)"
      "load (newTokenID (draw_id r)) (other_tables s1) = Inr v"
      "Execute request (draw_execute r) (createToken svc r command actor)
         \<lparr>idempotency_records = idempotency_records s, other_tables = (other_tables s, None)\<rparr> =
       Inr (\<lparr>idempotency_records = idempotency_records s1, other_tables = (other_tables s1, Some (SecretValue (newSecret r)))\<rparr>,
         \<lparr>res_Type = ''chat_token:issued'', res_ID = newTokenID (draw_id r)\<rparr>)"
proof (cases "validateTokenCreate (normalizedCommand given)")
  case (Inl e)
  then show thesis using assms that(1) by (auto simp: CreateToken_def Let_def)
next
  case valid: (Inr u)
  show thesis
  proof (cases "tokenRequest svc actor key ''chat_token.create'' (createPayload (chat_rfc3339 svc) command)")
    case (Inl e)
    then show thesis using assms valid that(1) by (auto simp: CreateToken_def Let_def)
  next
    case (Inr request)
    let ?x = "\<lparr>idempotency_records = idempotency_records s, other_tables = (other_tables s, None)\<rparr>"
    have issue: "issueToken svc r command actor request s = (s1, issued, err)"
      using assms valid Inr by (simp add: CreateToken_def Let_def)
    show thesis
    proof (cases "Execute request (draw_execute r) (createToken svc r command actor) ?x")
      case (Inl e)
      then show thesis using issue that(1) by (auto simp: issueToken_def)
    next
      case ex: (Inr y)
      obtain x result where y: "y = (x, result)" by fastforce
      from Execute_frame(3) [OF ex [unfolded y]] show thesis
      proof (elim disjE conjE)
        assume "other_tables x = other_tables ?x"
        then have "snd (other_tables x) = None" by simp
        then show thesis using issue ex y that(1) by (auto simp: issueToken_def Let_def split: if_splits sum.splits)
      next
        assume run: "createToken svc r command actor (other_tables ?x) = Inr (other_tables x, result)"
        then have run': "createToken svc r command actor (other_tables s, None) = Inr ((fst (other_tables x), snd (other_tables x)), result)" by simp
        note c = createToken_ok(1,2) [OF run']
        obtain v where v: "load (newTokenID (draw_id r)) (fst (other_tables x)) = Inr v" using createToken_ok(12) [OF run'] by blast
        then have "s1 = \<lparr>idempotency_records = idempotency_records x, other_tables = fst (other_tables x)\<rparr>" "err = None"
          "issued = \<lparr>issued_Token = Some v, issued_Secret = Some (SecretValue (newSecret r))\<rparr>"
          using issue ex y c by (auto simp: issueToken_def Let_def)
        moreover from this have "x = \<lparr>idempotency_records = idempotency_records s1, other_tables = (other_tables s1, Some (SecretValue (newSecret r)))\<rparr>"
          using c(1) by (cases x) (simp add: prod_eq_iff)
        ultimately show thesis using that(2) [OF _ _ _ Inr] valid v run' ex y c by simp
      qed
    qed
  qed
qed

lemma RevokeToken_cases:
  assumes "RevokeToken svc r i actor key s = (s1, x)"
  obtains (failed) e where "s1 = s" "x = Inl e"
    | (replayed) m rec' where "x = Inr m" "other_tables s1 = other_tables s" "set (idempotency_records s1) \<subseteq> set (idempotency_records s)"
      "rec' \<in> set (idempotency_records s)" "rec_result_type rec' = ''chat_token:revoked''" "rec_result_id rec' = i"
    | (revoked) m where "x = Inr m" "revokeToken svc r i actor (other_tables s) = Inr (other_tables s1, \<lparr>res_Type = ''chat_token:revoked'', res_ID = i\<rparr>)"
      "i \<in> ct_id ` set (chat_access_tokens (other_tables s))"
proof (cases x)
  case (Inl e)
  then show thesis using assms that(1) by (auto simp: RevokeToken_def split: if_splits sum.splits)
next
  case (Inr m)
  then obtain request result where ex: "Execute request (draw_execute r) (revokeToken svc r i actor) s = Inr (s1, result)"
    "res_Type result = ''chat_token:revoked''" "res_ID result = i"
    using assms by (auto simp: RevokeToken_def split: if_splits sum.splits)
  from Execute_frame(3) [OF ex(1)] show thesis
  proof (elim disjE conjE bexE)
    fix rec' assume "other_tables s1 = other_tables s" "set (idempotency_records s1) \<subseteq> set (idempotency_records s)"
      "rec' \<in> set (idempotency_records s)" "result = \<lparr>res_Type = rec_result_type rec', res_ID = rec_result_id rec'\<rparr>"
    then show thesis using that(2) [OF Inr] ex(2,3) by simp
  next
    assume run: "revokeToken svc r i actor (other_tables s) = Inr (other_tables s1, result)"
    then obtain v where "load i (other_tables s) = Inr v" by (auto simp: revokeToken_def result_simps)
    then have "i \<in> ct_id ` set (chat_access_tokens (other_tables s))" by (rule load_ok) auto
    then show thesis using that(3) [OF Inr] run ex(2,3) by (cases result) simp
  qed
qed

lemma used_row_ok: "tokenRowOk row \<Longrightarrow> tokenRowOk (usedRow t row)"
  by (auto simp: tokenRowOk_def usedRow_def le_max_iff_disj split: option.splits)

lemma used_rows_ok:
  "list_all tokenRowOk rows \<Longrightarrow> list_all tokenRowOk (map (\<lambda>row. if ct_id row = i then usedRow t row else row) rows)"
  using used_row_ok by (auto simp: list_all_iff)

lemma AuthenticateToken_cases:
  assumes "AuthenticateToken svc r plaintext s = (s1, x)"
  obtains (refused) e where "s1 = s" "x = Inl e"
    | (recognized) row g where "x = Inr g" "validSecret plaintext" "row \<in> set (chat_access_tokens (other_tables s))"
      "ct_token_digest row = chat_sha256 svc plaintext" "ct_revoked_at row = None" "draw_now r < ct_expires_at row"
      "grant_TokenID g = ct_id row" "grant_agentIDs g = loadScopes (ct_id row) (other_tables s)"
      "s1 = s\<lparr>other_tables := (other_tables s)\<lparr>chat_access_tokens :=
         map (\<lambda>row'. if ct_id row' = ct_id row then usedRow (draw_now r) row' else row') (chat_access_tokens (other_tables s))\<rparr>\<rparr>"
      "list_all tokenRowOk (chat_access_tokens (other_tables s1))"
proof (cases x)
  case (Inl e)
  then show thesis using assms that(1) by (auto simp: AuthenticateToken_def split: if_splits sum.splits)
next
  case (Inr g)
  then obtain d where run: "validSecret plaintext" "recognizeToken r (chat_sha256 svc plaintext) (other_tables s) = Inr (d, g)"
    "s1 = s\<lparr>other_tables := d\<rparr>"
    using assms by (auto simp: AuthenticateToken_def split: if_splits sum.splits)
  then obtain row where row: "find (\<lambda>row. ct_token_digest row = chat_sha256 svc plaintext) (chat_access_tokens (other_tables s)) = Some row"
    by (auto simp: recognizeToken_def split: option.splits)
  then have mem: "row \<in> set (chat_access_tokens (other_tables s))" "ct_token_digest row = chat_sha256 svc plaintext"
    using find_member by fast+
  have scopes: "loadScopes i ((other_tables s)\<lparr>chat_access_tokens := rows\<rparr>) = loadScopes i (other_tables s)" for i rows
    by (simp add: loadScopes_def)
  from run(2) row have live: "ct_revoked_at row = None" "draw_now r < ct_expires_at row"
    and upd: "updateToken (ct_id row) (usedRow (draw_now r)) (other_tables s) = Inr d"
    and g: "NewGrant (ct_id row) (loadScopes (ct_id row) d) = Inr g"
    unfolding usedRow_def by (auto simp: recognizeToken_def result_simps split: if_splits)
  show thesis using that(2) [OF Inr run(1) mem live] upd g run(3)
    by (auto simp: updateToken_ok NewGrant_def scopes split: if_splits)
qed

section \<open>Invariant\<close>

definition revokedAt :: "UUID \<Rightarrow> chatTables \<Rightarrow> bool" where
  "revokedAt i d \<longleftrightarrow> list_ex (\<lambda>row. ct_id row = i \<and> ct_revoked_at row \<noteq> None) (chat_access_tokens d)"

definition chatInv :: "chatTables idemTables \<Rightarrow> bool" where
  "chatInv s \<longleftrightarrow> distinct (map ct_id (chat_access_tokens (other_tables s))) \<and>
     distinct (map ct_token_digest (chat_access_tokens (other_tables s))) \<and>
     list_all tokenRowOk (chat_access_tokens (other_tables s)) \<and>
     (\<forall>x \<in> set (chat_access_token_agents (other_tables s)). fst x \<in> ct_id ` set (chat_access_tokens (other_tables s))) \<and>
     (\<forall>r \<in> set (idempotency_records s). rec_result_type r = ''chat_token:revoked'' \<longrightarrow> revokedAt (rec_result_id r) (other_tables s))"

definition noTokens :: "chatTables idemTables \<Rightarrow> bool" where
  "noTokens s \<longleftrightarrow> idempotency_records s = [] \<and> chat_access_tokens (other_tables s) = [] \<and> chat_access_token_agents (other_tables s) = []"

lemma row_updates [simp]:
  "ct_id (revokedRow t row) = ct_id row" "ct_token_digest (revokedRow t row) = ct_token_digest row"
  "ct_expires_at (revokedRow t row) = ct_expires_at row" "\<exists>u. ct_revoked_at (revokedRow t row) = Some u"
  "ct_id (usedRow t row) = ct_id row" "ct_token_digest (usedRow t row) = ct_token_digest row"
  "ct_expires_at (usedRow t row) = ct_expires_at row" "ct_revoked_at (usedRow t row) = ct_revoked_at row"
  by (auto simp: revokedRow_def usedRow_def)

text \<open>What a call does to the tokens and the scopes.\<close>

definition revokes :: "chatService \<Rightarrow> chatDraws \<times> chatCall \<Rightarrow> chatTables idemTables \<Rightarrow> UUID \<Rightarrow> bool" where
  "revokes svc x s i =
     (case x of (r, RevokeCall j actor key) \<Rightarrow> j = i \<and> isOk (snd (RevokeToken svc r j actor key s)) | _ \<Rightarrow> False)"

inductive tokenEffect :: "chatService \<Rightarrow> chatDraws \<times> chatCall \<Rightarrow> chatTables idemTables \<Rightarrow> chatTables idemTables \<Rightarrow> bool" for svc where
  kept: "chat_access_tokens (other_tables t) = chat_access_tokens (other_tables s) \<Longrightarrow>
    chat_access_token_agents (other_tables t) = chat_access_token_agents (other_tables s) \<Longrightarrow>
    set (idempotency_records t) \<subseteq> set (idempotency_records s) \<Longrightarrow> (\<And>i. revokes svc x s i \<Longrightarrow>
      \<exists>r \<in> set (idempotency_records s). rec_result_type r = ''chat_token:revoked'' \<and> rec_result_id r = i) \<Longrightarrow> tokenEffect svc x s t"
| issued: "CreateToken svc r given actor key s = (t, \<lparr>issued_Token = Some v, issued_Secret = Some (SecretValue (newSecret r))\<rparr>, None) \<Longrightarrow>
    createToken svc r (sortedCommand (normalizedCommand given)) actor (other_tables s, None) =
      Inr ((other_tables t, Some (SecretValue (newSecret r))), \<lparr>res_Type = ''chat_token:issued'', res_ID = newTokenID (draw_id r)\<rparr>) \<Longrightarrow>
    validateTokenCreate (normalizedCommand given) = Inr () \<Longrightarrow>
    (\<And>rec'. rec' \<in> set (idempotency_records t) \<Longrightarrow> rec' \<in> set (idempotency_records s) \<or> rec_result_type rec' = ''chat_token:issued'') \<Longrightarrow>
    tokenEffect svc (r, CreateCall given actor key) s t"
| revoked: "chat_access_tokens (other_tables t) =
      map (\<lambda>row. if ct_id row = i then revokedRow (draw_now r) row else row) (chat_access_tokens (other_tables s)) \<Longrightarrow>
    chat_access_token_agents (other_tables t) = chat_access_token_agents (other_tables s) \<Longrightarrow>
    list_all tokenRowOk (chat_access_tokens (other_tables t)) \<Longrightarrow> i \<in> ct_id ` set (chat_access_tokens (other_tables s)) \<Longrightarrow>
    (\<And>rec'. rec' \<in> set (idempotency_records t) \<Longrightarrow> rec' \<in> set (idempotency_records s) \<or> rec_result_id rec' = i) \<Longrightarrow>
    isOk (snd (RevokeToken svc r i actor key s)) \<Longrightarrow> tokenEffect svc (r, RevokeCall i actor key) s t"
| used: "chat_access_tokens (other_tables t) =
      map (\<lambda>row. if ct_id row = i then usedRow (draw_now r) row else row) (chat_access_tokens (other_tables s)) \<Longrightarrow>
    chat_access_token_agents (other_tables t) = chat_access_token_agents (other_tables s) \<Longrightarrow>
    list_all tokenRowOk (chat_access_tokens (other_tables t)) \<Longrightarrow> idempotency_records t = idempotency_records s \<Longrightarrow>
    tokenEffect svc (r, UseCall plaintext) s t"

lemma newRecord_fields [simp]:
  "rec_result_type (newRecord request now result) = res_Type result" "rec_result_id (newRecord request now result) = res_ID result"
  by (simp_all add: newRecord_def)

lemma perform_effect: "tokenEffect svc x s (perform svc x s)"
proof (cases x)
  case (Pair r call)
  show ?thesis
  proof (cases call)
    case (CreateCall given actor key)
    obtain t issued err where run: "CreateToken svc r given actor key s = (t, issued, err)" by (metis prod_cases3)
    then show ?thesis
    proof (cases rule: CreateToken_cases)
      case failed
      then show ?thesis using Pair CreateCall run by (intro tokenEffect.kept) (auto simp: revokes_def)
    next
      case (created request v)
      have "tokenEffect svc (r, CreateCall given actor key) s t"
        using run created(1-3,5) Execute_frame(1) [OF created(7)] by (intro tokenEffect.issued) auto
      then show ?thesis using Pair CreateCall run by simp
    qed
  next
    case (RevokeCall i actor key)
    obtain t y where run: "RevokeToken svc r i actor key s = (t, y)" by fastforce
    have ok: "revokes svc x s j \<longleftrightarrow> j = i \<and> isOk y" for j using Pair RevokeCall run by (auto simp: revokes_def)
    from run show ?thesis
    proof (cases rule: RevokeToken_cases)
      case (failed e)
      then show ?thesis using Pair RevokeCall run ok by (intro tokenEffect.kept) auto
    next
      case (replayed m rec')
      then show ?thesis using Pair RevokeCall run ok by (intro tokenEffect.kept) auto
    next
      case (revoked m)
      note rv = revokeToken_ok [OF revoked(2)]
      have "rec' \<in> set (idempotency_records s) \<or> rec_result_id rec' = i" if "rec' \<in> set (idempotency_records t)" for rec'
        using that run revoked(1) by (auto simp: RevokeToken_def split: if_splits sum.splits dest!: Execute_frame(1))
      then show ?thesis using Pair RevokeCall run revoked(1,3) rv by (auto intro!: tokenEffect.revoked)
    qed
  next
    case (UseCall plaintext)
    obtain t y where run: "AuthenticateToken svc r plaintext s = (t, y)" by fastforce
    then show ?thesis
    proof (cases rule: AuthenticateToken_cases)
      case (refused e)
      then show ?thesis using Pair UseCall run by (intro tokenEffect.kept) (auto simp: revokes_def)
    next
      case (recognized row g)
      then show ?thesis using Pair UseCall run by (auto intro!: tokenEffect.used [where i = "ct_id row"])
    qed
  next
    case (AgentsChanged ids)
    then show ?thesis using Pair by (intro tokenEffect.kept) (auto simp: revokes_def)
  qed
qed

lemma map_ids [simp]:
  "ct_id \<circ> (\<lambda>row. if ct_id row = i then revokedRow t row else row) = ct_id"
  "ct_token_digest \<circ> (\<lambda>row. if ct_id row = i then revokedRow t row else row) = ct_token_digest"
  "ct_id \<circ> (\<lambda>row. if ct_id row = i then usedRow t row else row) = ct_id"
  "ct_token_digest \<circ> (\<lambda>row. if ct_id row = i then usedRow t row else row) = ct_token_digest"
  by (auto simp: fun_eq_iff)

lemma image_ids [simp]:
  "ct_id ` (\<lambda>row. if ct_id row = i then revokedRow t row else row) ` rows = ct_id ` rows"
  "ct_id ` (\<lambda>row. if ct_id row = i then usedRow t row else row) ` rows = ct_id ` rows"
  by (simp_all add: image_comp del: if_image_distrib)

lemma revokedAt_map:
  "(\<And>row. ct_id (f row) = ct_id row \<and> (ct_revoked_at row \<noteq> None \<longrightarrow> ct_revoked_at (f row) \<noteq> None)) \<Longrightarrow>
    chat_access_tokens d' = map f (chat_access_tokens d) \<Longrightarrow> revokedAt i d \<Longrightarrow> revokedAt i d'"
  by (auto simp: revokedAt_def list_ex_iff)

lemma effect_revokedAt:
  assumes "tokenEffect svc x s t" "revokedAt i (other_tables s)"
  shows "revokedAt i (other_tables t)"
  using assms
proof (cases rule: tokenEffect.cases)
  case kept
  then show ?thesis using assms(2) by (simp add: revokedAt_def)
next
  case (issued r given actor key v)
  then show ?thesis using assms(2) createToken_ok(3) [OF issued(3)] by (simp add: revokedAt_def)
next
  case (revoked j r actor key)
  from revokedAt_map [OF _ revoked(2) assms(2)] show ?thesis by (simp add: revokedRow_def)
next
  case (used j r plaintext)
  from revokedAt_map [OF _ used(2) assms(2)] show ?thesis by simp
qed

lemma effect_inv:
  assumes "tokenEffect svc x s t" "chatInv s"
  shows "chatInv t"
  using assms(1)
proof (cases rule: tokenEffect.cases)
  case kept
  then show ?thesis using assms(2) by (auto simp: chatInv_def revokedAt_def)
next
  case (issued r given actor key v)
  note c = createToken_ok [OF issued(3)]
  have "rec_result_type rec' = ''chat_token:revoked'' \<longrightarrow> revokedAt (rec_result_id rec') (other_tables t)"
    if "rec' \<in> set (idempotency_records t)" for rec'
    using issued(5) [OF that] assms(2) effect_revokedAt [OF assms(1)] by (auto simp: chatInv_def)
  then show ?thesis using assms(2) c(3,4,6-8) by (auto simp: chatInv_def newTokenRow_def)
next
  case (revoked i r actor key)
  obtain row where row: "row \<in> set (chat_access_tokens (other_tables s))" "ct_id row = i" using revoked(5) by blast
  then have "revokedRow (draw_now r) row \<in> set (chat_access_tokens (other_tables t))"
    unfolding revoked(2) set_map by (intro image_eqI [of _ _ row]) simp_all
  then have here: "revokedAt i (other_tables t)" using row(2) unfolding revokedAt_def list_ex_iff by (intro bexI [of _ "revokedRow (draw_now r) row"]) simp_all
  have "rec_result_type rec' = ''chat_token:revoked'' \<longrightarrow> revokedAt (rec_result_id rec') (other_tables t)"
    if "rec' \<in> set (idempotency_records t)" for rec'
    using revoked(6) [OF that] here assms(2) effect_revokedAt [OF assms(1)] by (auto simp: chatInv_def)
  then show ?thesis using assms(2) revoked(2-4) by (simp add: chatInv_def del: if_image_distrib)
next
  case (used i r plaintext)
  then show ?thesis using assms(2) effect_revokedAt [OF assms(1)] by (simp add: chatInv_def del: if_image_distrib)
qed

definition chatStep :: "chatService \<Rightarrow> chatTables idemTables \<Rightarrow> chatTables idemTables \<Rightarrow> bool" where
  "chatStep svc s t \<longleftrightarrow> (\<exists>x. t = perform svc x s)"

interpretation chat: inductive_invariant noTokens "chatStep svc" chatInv
proof unfold_locales
  show "chatInv s" if "noTokens s" for s using that by (simp add: noTokens_def chatInv_def)
  show "chatInv t" if "chatInv s" "chatStep svc s t" for s t
    using that by (auto simp: chatStep_def intro: effect_inv [OF perform_effect])
qed

lemma performAll_reach: "reach (chatStep svc) s (performAll svc h s)"
proof (induction h rule: rev_induct)
  case (snoc x h)
  have "chatStep svc (performAll svc h s) (performAll svc (h @ [x]) s)" unfolding chatStep_def by (intro exI [of _ x]) simp
  with snoc show ?case by (rule reach_step)
qed (simp add: reach_refl)

lemma chatInv_run: "noTokens s0 \<Longrightarrow> chatInv (performAll svc h s0)"
  by (rule chat.always [OF performAll_reach])

lemma perform_keys: "keysUnique s \<Longrightarrow> keysUnique (perform svc x s)"
proof (cases x)
  case (Pair r call)
  assume unique: "keysUnique s"
  show ?thesis
  proof (cases call)
    case (CreateCall given actor key)
    obtain t issued err where run: "CreateToken svc r given actor key s = (t, issued, err)" by (metis prod_cases3)
    then show ?thesis
    proof (cases rule: CreateToken_cases)
      case (created request v)
      from created(7) unique have "keysUnique \<lparr>idempotency_records = idempotency_records t,
          other_tables = (other_tables t, Some (SecretValue (newSecret r)))\<rparr>"
        by (auto elim!: Execute_ok simp: keysUnique_def)
      then show ?thesis using run Pair CreateCall by (simp add: keysUnique_def)
    qed (use unique run Pair CreateCall in simp)
  next
    case (RevokeCall i actor key)
    then show ?thesis using unique Pair
      by (auto simp: RevokeToken_def split: sum.splits elim!: Execute_ok)
  next
    case (UseCall plaintext)
    then show ?thesis using unique Pair by (auto simp: AuthenticateToken_def keysUnique_def split: sum.splits)
  next
    case (AgentsChanged ids)
    then show ?thesis using unique Pair by (auto simp: keysUnique_def)
  qed
qed

lemma run_keys: "keysUnique s \<Longrightarrow> keysUnique (performAll svc h s)"
  by (induction h arbitrary: s) (simp_all add: perform_keys)

section \<open>Tokens over a run\<close>

text \<open>Whether a call of a run revoked a token: it was a revocation that succeeded.\<close>

fun revokedIn :: "chatService \<Rightarrow> UUID \<Rightarrow> (chatDraws \<times> chatCall) list \<Rightarrow> chatTables idemTables \<Rightarrow> bool" where
  "revokedIn svc i [] s = False"
| "revokedIn svc i (x # h) s = (revokes svc x s i \<or> revokedIn svc i h (perform svc x s))"

lemma revokedIn_append: "revokedIn svc i (h @ h') s \<longleftrightarrow> revokedIn svc i h s \<or> revokedIn svc i h' (performAll svc h s)"
  by (induction h arbitrary: s) auto

definition sameToken :: "ChatTokenRow \<Rightarrow> ChatTokenRow \<Rightarrow> bool" where
  "sameToken a b \<longleftrightarrow> ct_id a = ct_id b \<and> ct_token_digest a = ct_token_digest b \<and> ct_expires_at a = ct_expires_at b"

lemma sameToken_refl [simp]: "sameToken row row"
  by (simp add: sameToken_def)

lemma revokes_simps [simp]:
  "\<not> revokes svc (r, CreateCall given actor key) s i" "\<not> revokes svc (r, UseCall p) s i" "\<not> revokes svc (r, AgentsChanged ids) s i"
  by (simp_all add: revokes_def)

lemma effect_row:
  assumes "tokenEffect svc x s t" "chatInv s" "row \<in> set (chat_access_tokens (other_tables s))"
  shows "\<exists>row' \<in> set (chat_access_tokens (other_tables t)). sameToken row row' \<and>
    (ct_revoked_at row' = None \<longleftrightarrow> ct_revoked_at row = None \<and> \<not> revokes svc x s (ct_id row))"
  using assms(1)
proof (cases rule: tokenEffect.cases)
  case kept
  have "ct_revoked_at row \<noteq> None" if "revokes svc x s (ct_id row)"
  proof -
    from kept(4) [OF that] assms(2) have "revokedAt (ct_id row) (other_tables s)" by (auto simp: chatInv_def)
    then obtain row2 where "row2 \<in> set (chat_access_tokens (other_tables s))" "ct_id row2 = ct_id row" "ct_revoked_at row2 \<noteq> None"
      by (auto simp: revokedAt_def list_ex_iff)
    moreover from this(1,2) have "row2 = row" using assms(2,3) by (auto simp: chatInv_def distinct_map inj_on_def)
    ultimately show ?thesis by simp
  qed
  then show ?thesis using kept(1) assms(3) by (intro bexI [of _ row]) auto
next
  case (issued r given actor key v)
  then show ?thesis using assms(3) createToken_ok(3) [OF issued(3)] by (intro bexI [of _ row]) auto
next
  case (revoked i r actor key)
  have "revokes svc x s (ct_id row) \<longleftrightarrow> ct_id row = i" using revoked(1,7) by (auto simp: revokes_def)
  then show ?thesis using revoked(2) assms(3)
    by (intro bexI [of _ "if ct_id row = i then revokedRow (draw_now r) row else row"]) (auto simp: sameToken_def revokedRow_def)
next
  case (used i r plaintext)
  then show ?thesis using assms(3)
    by (intro bexI [of _ "if ct_id row = i then usedRow (draw_now r) row else row"]) (auto simp: sameToken_def)
qed

lemma effect_scopes:
  assumes "tokenEffect svc x s t" "chatInv s" "i \<in> ct_id ` set (chat_access_tokens (other_tables s))"
  shows "loadScopes i (other_tables t) = loadScopes i (other_tables s)"
  using assms(1)
proof (cases rule: tokenEffect.cases)
  case (issued r given actor key v)
  note c = createToken_ok(4,7) [OF issued(3)]
  have "newTokenID (draw_id r) \<noteq> i" using c(2) assms(3) by auto
  then have none: "filter (\<lambda>x. fst x = i) (map (Pair (newTokenID (draw_id r))) ids) = []" for ids by (simp add: filter_empty_conv)
  show ?thesis by (simp add: loadScopes_def c(1) none)
qed (simp_all add: loadScopes_def)

lemma run_row:
  assumes "chatInv s" "row \<in> set (chat_access_tokens (other_tables s))"
  shows "\<exists>row' \<in> set (chat_access_tokens (other_tables (performAll svc h s))). sameToken row row' \<and>
    (ct_revoked_at row' = None \<longleftrightarrow> ct_revoked_at row = None \<and> \<not> revokedIn svc (ct_id row) h s) \<and>
    loadScopes (ct_id row) (other_tables (performAll svc h s)) = loadScopes (ct_id row) (other_tables s)"
  using assms
proof (induction h arbitrary: s row)
  case Nil
  then show ?case by (intro bexI [of _ row]) auto
next
  case (Cons x h)
  note effect = perform_effect [of svc x s]
  obtain row1 where row1: "row1 \<in> set (chat_access_tokens (other_tables (perform svc x s)))" "sameToken row row1"
    "ct_revoked_at row1 = None \<longleftrightarrow> ct_revoked_at row = None \<and> \<not> revokes svc x s (ct_id row)"
    using effect_row [OF effect Cons.prems] by (elim bexE conjE) (rule that)
  have i: "ct_id row1 = ct_id row" using row1(2) by (simp add: sameToken_def)
  obtain row2 where row2: "row2 \<in> set (chat_access_tokens (other_tables (performAll svc h (perform svc x s))))" "sameToken row1 row2"
    "ct_revoked_at row2 = None \<longleftrightarrow> ct_revoked_at row1 = None \<and> \<not> revokedIn svc (ct_id row1) h (perform svc x s)"
    "loadScopes (ct_id row1) (other_tables (performAll svc h (perform svc x s))) = loadScopes (ct_id row1) (other_tables (perform svc x s))"
    using Cons.IH [OF effect_inv [OF effect Cons.prems(1)] row1(1)] by (elim bexE conjE) (rule that)
  have "loadScopes (ct_id row) (other_tables (perform svc x s)) = loadScopes (ct_id row) (other_tables s)"
    using effect_scopes [OF effect Cons.prems(1)] Cons.prems(2) by blast
  then show ?case using row1(2,3) row2 i by (intro bexI [of _ row2]) (auto simp: sameToken_def)
qed

end
