(* ===== verification/ChatTokenTheorems.thy ===== *)
theory ChatTokenTheorems
  imports ChatTokenProperties Evaluation "HOL-Library.Multiset"
begin

text \<open>
  The properties of chat access tokens over all runs, with one run evaluated on concrete values.
\<close>

section \<open>Facts\<close>

lemma validSecret_new: "length (draw_entropy r) = 32 \<Longrightarrow> validSecret (newSecret r)"
  by (simp add: validSecret_def newSecret_def HasPrefix_def TrimPrefix_def)

lemma sort_sorted_command: "sort (sort_key f xs) = sort xs"
  by (rule properties_for_sort) simp_all

text \<open>The state right after a creation.\<close>

lemma created_row:
  assumes "CreateToken svc r given actor key s = (t, issued, None)" "chatInv s"
  obtains v where "issued = \<lparr>issued_Token = Some v, issued_Secret = Some (SecretValue (newSecret r))\<rparr>"
    "token_ID v = newTokenID (draw_id r)" "token_AgentIDs v = sort (tcmd_AgentIDs given)"
    "newTokenRow svc r (sortedCommand (normalizedCommand given)) actor \<in> set (chat_access_tokens (other_tables t))"
    "loadScopes (newTokenID (draw_id r)) (other_tables t) = sort (tcmd_AgentIDs given)"
    "newTokenID (draw_id r) \<noteq> zeroUUID" "tcmd_AgentIDs given \<noteq> []" "distinct (tcmd_AgentIDs given)" "zeroUUID \<notin> set (tcmd_AgentIDs given)"
    "chatInv t"
  using assms(1)
proof (cases rule: CreateToken_cases)
  case (created request v)
  note c = createToken_ok [OF created(5)]
  have ids: "tcmd_AgentIDs given \<noteq> []" "distinct (tcmd_AgentIDs given)" "zeroUUID \<notin> set (tcmd_AgentIDs given)"
    using created(3) by (auto simp: validateTokenCreate_def normalizedCommand_def split: if_splits)
  have "newTokenID (draw_id r) \<notin> fst ` set (chat_access_token_agents (other_tables s))"
    using assms(2) c(7) by (fastforce simp: chatInv_def)
  then have "filter (\<lambda>x. fst x = newTokenID (draw_id r)) (chat_access_token_agents (other_tables s)) = []"
    by (force simp: filter_empty_conv)
  then have scopes: "loadScopes (newTokenID (draw_id r)) (other_tables t) = sort (tcmd_AgentIDs given)"
    by (simp add: loadScopes_def c(4) filter_map comp_def sortedCommand_def normalizedCommand_def sort_sorted_command)
  from created(6) have v: "token_ID v = newTokenID (draw_id r)" "token_AgentIDs v = sort (tcmd_AgentIDs given)"
    using scopes by (auto elim: load_ok)
  have "chatInv t" using effect_inv [OF perform_effect [of svc "(r, CreateCall given actor key)" s] assms(2)] assms(1) by simp
  then show thesis using that [OF created(2) v _ scopes c(9) ids] c(3) by simp
qed simp

lemma AuthenticateToken_row:
  assumes "chatInv s" "row \<in> set (chat_access_tokens (other_tables s))" "ct_token_digest row = chat_sha256 svc p" "validSecret p"
    and "loadScopes (ct_id row) (other_tables s) = as" "as \<noteq> []" "distinct as" "zeroUUID \<notin> set as" "ct_id row \<noteq> zeroUUID"
  shows "snd (AuthenticateToken svc r p s) =
    (if ct_revoked_at row \<noteq> None \<or> ct_expires_at row \<le> draw_now r then Inl ErrUnauthorized
     else Inr \<lparr>grant_TokenID = ct_id row, grant_Subject = ''chat-token:'' @ uuidString (ct_id row), grant_agentIDs = as\<rparr>)"
proof -
  have only: "row2 = row" if "row2 \<in> set (chat_access_tokens (other_tables s))" "ct_token_digest row2 = chat_sha256 svc p" for row2
    using assms(1-3) that by (auto simp: chatInv_def distinct_map inj_on_def)
  have find: "find (\<lambda>row. ct_token_digest row = chat_sha256 svc p) (chat_access_tokens (other_tables s)) = Some row"
    by (rule find_only [OF assms(2)]) (simp_all add: assms(3) only)
  have rows: "list_all tokenRowOk (map (\<lambda>row'. if ct_id row' = ct_id row then usedRow (draw_now r) row' else row') (chat_access_tokens (other_tables s)))"
    using assms(1) by (intro used_rows_ok) (simp add: chatInv_def)
  have upd: "updateToken (ct_id row) (\<lambda>row. row\<lparr>ct_last_used_at :=
      Some (max (case ct_last_used_at row of None \<Rightarrow> ct_created_at row | Some t \<Rightarrow> t) (draw_now r))\<rparr>) (other_tables s) =
    Inr ((other_tables s)\<lparr>chat_access_tokens := map (\<lambda>row'. if ct_id row' = ct_id row then usedRow (draw_now r) row' else row') (chat_access_tokens (other_tables s))\<rparr>)"
    unfolding usedRow_def [symmetric] updateToken_ok using rows by simp
  have scopes: "loadScopes (ct_id row) ((other_tables s)\<lparr>chat_access_tokens := rows\<rparr>) = as" for rows
    using assms(5) by (simp add: loadScopes_def)
  show ?thesis using assms(4,6-9) by (simp add: AuthenticateToken_def recognizeToken_def find upd scopes NewGrant_def)
qed

lemma load_live:
  assumes "chatInv s" "row \<in> set (chat_access_tokens (other_tables s))" "ct_id row \<noteq> zeroUUID" "loadScopes (ct_id row) (other_tables s) \<noteq> []"
  shows "\<exists>v. load (ct_id row) (other_tables s) = Inr v"
proof -
  have find: "find (\<lambda>row'. ct_id row' = ct_id row) (chat_access_tokens (other_tables s)) = Some row"
    using assms(1,2) by (intro find_only) (auto simp: chatInv_def distinct_map inj_on_def)
  have "tokenRowOk row" using assms(1,2) by (auto simp: chatInv_def list_all_iff)
  then have "ct_label row \<noteq> []" "ct_token_prefix row \<noteq> []" "ct_created_at row < ct_expires_at row"
    by (auto simp: tokenRowOk_def textOk_def RuneCountInString_def)
  then show ?thesis using assms(3,4) by (simp add: load_def find tokenTime_def)
qed

section \<open>The life of a secret\<close>

lemma issued_life:
  assumes "noTokens s0" "CreateToken svc r0 given actor key (performAll svc h0 s0) = (s1, issued, None)"
    and "length (draw_entropy r0) = 32"
  shows "\<exists>v. issued = \<lparr>issued_Token = Some v, issued_Secret = Some (SecretValue (newSecret r0))\<rparr> \<and>
    (\<forall>h r. snd (AuthenticateToken svc r (newSecret r0) (performAll svc h s1)) =
      (if revokedIn svc (token_ID v) h s1 \<or> tcmd_ExpiresAt given div 1000 \<le> draw_now r then Inl ErrUnauthorized
       else Inr \<lparr>grant_TokenID = token_ID v, grant_Subject = ''chat-token:'' @ uuidString (token_ID v),
          grant_agentIDs = sort (tcmd_AgentIDs given)\<rparr>))"
proof -
  obtain v where c: "issued = \<lparr>issued_Token = Some v, issued_Secret = Some (SecretValue (newSecret r0))\<rparr>"
    "token_ID v = newTokenID (draw_id r0)"
    "newTokenRow svc r0 (sortedCommand (normalizedCommand given)) actor \<in> set (chat_access_tokens (other_tables s1))"
    "loadScopes (newTokenID (draw_id r0)) (other_tables s1) = sort (tcmd_AgentIDs given)"
    "newTokenID (draw_id r0) \<noteq> zeroUUID" "tcmd_AgentIDs given \<noteq> []" "distinct (tcmd_AgentIDs given)" "zeroUUID \<notin> set (tcmd_AgentIDs given)"
    "chatInv s1"
    by (rule created_row [OF assms(2) chatInv_run [OF assms(1)]])
  let ?row = "newTokenRow svc r0 (sortedCommand (normalizedCommand given)) actor"
  have later: "snd (AuthenticateToken svc r (newSecret r0) (performAll svc h s1)) =
      (if revokedIn svc (token_ID v) h s1 \<or> tcmd_ExpiresAt given div 1000 \<le> draw_now r then Inl ErrUnauthorized
       else Inr \<lparr>grant_TokenID = token_ID v, grant_Subject = ''chat-token:'' @ uuidString (token_ID v),
          grant_agentIDs = sort (tcmd_AgentIDs given)\<rparr>)" for h r
  proof -
    obtain row where row: "row \<in> set (chat_access_tokens (other_tables (performAll svc h s1)))" "sameToken ?row row"
      "ct_revoked_at row = None \<longleftrightarrow> ct_revoked_at ?row = None \<and> \<not> revokedIn svc (ct_id ?row) h s1"
      "loadScopes (ct_id ?row) (other_tables (performAll svc h s1)) = loadScopes (ct_id ?row) (other_tables s1)"
      using run_row [OF c(9,3), where svc = svc and h = h] by (elim bexE conjE) (rule that)
    have fields: "ct_id row = token_ID v" "ct_token_digest row = chat_sha256 svc (newSecret r0)"
      "ct_expires_at row = tcmd_ExpiresAt given div 1000" "ct_revoked_at row = None \<longleftrightarrow> \<not> revokedIn svc (token_ID v) h s1"
      using row(2,3) c(2) by (simp_all add: sameToken_def newTokenRow_def sortedCommand_def normalizedCommand_def)
    have inv: "chatInv (performAll svc h s1)" by (rule chat.kept [OF performAll_reach c(9)])
    have "loadScopes (ct_id row) (other_tables (performAll svc h s1)) = sort (tcmd_AgentIDs given)"
      using row(4) c(2,4) fields(1) by (simp add: newTokenRow_def)
    moreover have "sort (tcmd_AgentIDs given) \<noteq> []" using c(6) by (metis length_0_conv length_sort)
    ultimately show ?thesis using AuthenticateToken_row [OF inv row(1) fields(2) validSecret_new [OF assms(3)], of _ r] c(2,5-8) fields
      by auto
  qed
  then show ?thesis using c(1) by (intro exI [of _ v]) simp
qed

text \<open>
  C8. A secret that was handed out is recognized in every later state, with a grant for exactly the agents it was
  created for, until a revocation of its token succeeds or it expires; after that it is refused for good.
\<close>

theorem token_lifetime:
  assumes "noTokens s0" "CreateToken svc r0 given actor key (performAll svc h0 s0) = (s1, issued, None)"
    and "length (draw_entropy r0) = 32"
  shows "\<exists>v secret. issued = \<lparr>issued_Token = Some v, issued_Secret = Some secret\<rparr> \<and>
    (\<forall>h r. snd (AuthenticateToken svc r (Reveal secret) (performAll svc h s1)) =
      (if revokedIn svc (token_ID v) h s1 \<or> tcmd_ExpiresAt given div 1000 \<le> draw_now r then Inl ErrUnauthorized
       else Inr \<lparr>grant_TokenID = token_ID v, grant_Subject = ''chat-token:'' @ uuidString (token_ID v),
          grant_agentIDs = sort (tcmd_AgentIDs given)\<rparr>))"
proof -
  from issued_life [OF assms] obtain v where
    "issued = \<lparr>issued_Token = Some v, issued_Secret = Some (SecretValue (newSecret r0))\<rparr>"
    "\<forall>h r. snd (AuthenticateToken svc r (newSecret r0) (performAll svc h s1)) =
      (if revokedIn svc (token_ID v) h s1 \<or> tcmd_ExpiresAt given div 1000 \<le> draw_now r then Inl ErrUnauthorized
       else Inr \<lparr>grant_TokenID = token_ID v, grant_Subject = ''chat-token:'' @ uuidString (token_ID v),
          grant_agentIDs = sort (tcmd_AgentIDs given)\<rparr>)" by (elim exE conjE) (rule that)
  then show ?thesis by (intro exI [of _ v] exI [of _ "SecretValue (newSecret r0)"]) simp
qed

section \<open>One secret for one request\<close>

lemma perform_record:
  assumes "rec' \<in> set (idempotency_records s)" "draw_execute (fst x) < rec_expires_at rec'"
  shows "rec' \<in> set (idempotency_records (perform svc x s))"
proof (cases x)
  case (Pair r call)
  show ?thesis
  proof (cases call)
    case (CreateCall given actor key)
    obtain t issued err where run: "CreateToken svc r given actor key s = (t, issued, err)" by (metis prod_cases3)
    then show ?thesis
    proof (cases rule: CreateToken_cases)
      case (created request v)
      then show ?thesis using Execute_frame(2) [OF created(7), of rec'] assms run Pair CreateCall by simp
    qed (use assms run Pair CreateCall in simp)
  next
    case (RevokeCall i actor key)
    then show ?thesis using assms Pair Execute_frame(2) [where rec' = rec']
      by (auto simp: RevokeToken_def split: sum.splits)
  next
    case (UseCall plaintext)
    then show ?thesis using assms(1) Pair by (auto simp: AuthenticateToken_def split: sum.splits)
  next
    case (AgentsChanged ids)
    then show ?thesis using assms(1) Pair by auto
  qed
qed

lemma run_record:
  "rec' \<in> set (idempotency_records s) \<Longrightarrow> \<forall>x \<in> set h. draw_execute (fst x) < rec_expires_at rec' \<Longrightarrow>
    rec' \<in> set (idempotency_records (performAll svc h s))"
  by (induction h arbitrary: s) (simp_all add: perform_record)

lemma tokenRequest_fields:
  "tokenRequest svc actor key operation payload = Inr request \<Longrightarrow> req_Scope request = ''operator:'' @ uuidString actor \<and>
    req_Key request = key \<and> req_Operation request = operation \<and> req_TTL request = tokenIdempotencyTTL \<and> key \<noteq> []"
  by (auto simp: tokenRequest_def split: if_splits option.splits sum.splits list.splits)

text \<open>A request whose key has a live record does not run.\<close>

lemma CreateToken_recorded:
  assumes "keysUnique s" "rec' \<in> set (idempotency_records s)" "rec_scope rec' = ''operator:'' @ uuidString actor"
    "rec_request_key rec' = key" "draw_execute r < rec_expires_at rec'" "CreateToken svc r given actor key s = (t, issued, err)"
  shows "t = s \<and> issued_Secret issued = None \<and> err \<noteq> None"
  using assms(6)
proof (cases rule: CreateToken_cases)
  case (created request v)
  note req = tokenRequest_fields [OF created(4)]
  let ?x = "\<lparr>idempotency_records = idempotency_records s, other_tables = (other_tables s, None :: SecretValue option)\<rparr>"
  have valid: "requestValidate request = (Inr () :: chatError idemError + unit)"
    using created(7) by (auto simp: Execute_def result_simps)
  have "keysUnique ?x" "rec' \<in> set (idempotency_records ?x)" "sameKey request rec'"
    using assms(1-4) req by (simp_all add: keysUnique_def sameKey_def)
  from Execute_replay [OF this assms(5) valid] created(7) show ?thesis by (auto split: if_splits)
qed simp

lemma validate_same:
  assumes "sortedCommand (normalizedCommand a) = sortedCommand (normalizedCommand b)" "validateTokenCreate (normalizedCommand b) = Inr ()"
  shows "validateTokenCreate (normalizedCommand a) = Inr ()"
proof -
  have "sort_key uuidString (tcmd_AgentIDs a) = sort_key uuidString (tcmd_AgentIDs b)"
    "TrimFunc chatSpace (tcmd_Label a) = TrimFunc chatSpace (tcmd_Label b)" "tcmd_ExpiresAt a = tcmd_ExpiresAt b"
    using arg_cong [OF assms(1), of tcmd_AgentIDs] arg_cong [OF assms(1), of tcmd_Label] arg_cong [OF assms(1), of tcmd_ExpiresAt]
    by (simp_all add: sortedCommand_def normalizedCommand_def)
  moreover from this(1) have "mset (tcmd_AgentIDs a) = mset (tcmd_AgentIDs b)" by (metis mset_sort)
  ultimately show ?thesis using assms(2) unfolding validateTokenCreate_def normalizedCommand_def
    by (auto dest: mset_eq_setD mset_eq_length mset_eq_imp_distinct_iff split: if_splits)
qed

text \<open>A repetition of a request that has a live record finds its token.\<close>

lemma CreateToken_repeated:
  assumes same: "sortedCommand (normalizedCommand again) = sortedCommand (normalizedCommand given)"
    and valid: "validateTokenCreate (normalizedCommand given) = Inr ()"
    and req: "tokenRequest svc actor key ''chat_token.create'' (createPayload (chat_rfc3339 svc) (sortedCommand (normalizedCommand given))) = Inr request"
    and live: "newRecord request t \<lparr>res_Type = ''chat_token:issued'', res_ID = i\<rparr> \<in> set (idempotency_records s)" "keysUnique s"
      "draw_execute r < t + Microseconds tokenIdempotencyTTL"
    and load: "load i (other_tables s) = Inr w"
  shows "snd (snd (CreateToken svc r again actor key s)) = Some ErrSecretAlreadyIssued"
proof -
  let ?x = "\<lparr>idempotency_records = idempotency_records s, other_tables = (other_tables s, None :: SecretValue option)\<rparr>"
  let ?rec = "newRecord request t \<lparr>res_Type = ''chat_token:issued'', res_ID = i\<rparr>"
  note fields = tokenRequest_fields [OF req]
  have "requestValidate request = (Inr () :: chatError idemError + unit)"
    using fields by (simp add: requestValidate_def tokenIdempotencyTTL_def Microseconds_def)
  moreover have "sameKey request ?rec" "draw_execute r < rec_expires_at ?rec" using fields live(3) by (simp_all add: newRecord_def sameKey_def)
  moreover have "keysUnique ?x" "?rec \<in> set (idempotency_records ?x)" using live(1,2) by (simp_all add: keysUnique_def)
  ultimately obtain rs where ex: "Execute request (draw_execute r) (createToken svc r (sortedCommand (normalizedCommand given)) actor) ?x =
      Inr (\<lparr>idempotency_records = rs, other_tables = (other_tables s, None)\<rparr>, \<lparr>res_Type = ''chat_token:issued'', res_ID = i\<rparr>)"
    using Execute_replay [of ?x ?rec request "draw_execute r" "createToken svc r (sortedCommand (normalizedCommand given)) actor"]
    by (simp add: newRecord_def digestAccepted_def)
  show ?thesis by (simp add: CreateToken_def Let_def validate_same [OF same valid] same req issueToken_def ex load)
qed

lemma load_created:
  assumes "newTokenRow svc r given actor \<in> set (chat_access_tokens (other_tables s))"
    "loadScopes (newTokenID (draw_id r)) (other_tables s) = sort as" "newTokenID (draw_id r) \<noteq> zeroUUID" "as \<noteq> []" "chatInv s"
  shows "\<exists>w. load (newTokenID (draw_id r)) (other_tables (performAll svc h s)) = Inr w"
proof -
  obtain row where "row \<in> set (chat_access_tokens (other_tables (performAll svc h s)))" "sameToken (newTokenRow svc r given actor) row"
    "loadScopes (ct_id (newTokenRow svc r given actor)) (other_tables (performAll svc h s)) =
      loadScopes (ct_id (newTokenRow svc r given actor)) (other_tables s)"
    using run_row [OF assms(5,1), where svc = svc and h = h] by (elim bexE conjE) (rule that)
  then have row: "row \<in> set (chat_access_tokens (other_tables (performAll svc h s)))" "ct_id row = newTokenID (draw_id r)"
    "loadScopes (newTokenID (draw_id r)) (other_tables (performAll svc h s)) = sort as"
    using assms(2) by (simp_all add: sameToken_def newTokenRow_def)
  have "sort as \<noteq> []" using assms(4) by (metis length_0_conv length_sort)
  then show ?thesis using load_live [OF chat.kept [OF performAll_reach assms(5)] row(1)] row(2,3) assms(3) by auto
qed

text \<open>
  C10. A request key yields one secret: within a day of a creation every further creation of the same operator under the same
  key hands out none and changes nothing, whatever it asks for and whatever happened in between. A repetition
  of the same request is told that the secret was issued.
\<close>

theorem secret_issued_once:
  assumes "noTokens s0" "CreateToken svc r0 given actor key (performAll svc h0 s0) = (s1, issued, None)"
    and "\<forall>x \<in> set h. draw_execute (fst x) < draw_execute r0 + Microseconds tokenIdempotencyTTL"
      "draw_execute r < draw_execute r0 + Microseconds tokenIdempotencyTTL"
  shows "\<exists>answer e. CreateToken svc r again actor key (performAll svc h s1) = (performAll svc h s1, answer, Some e) \<and>
    issued_Secret answer = None \<and>
    (sortedCommand (normalizedCommand again) = sortedCommand (normalizedCommand given) \<longrightarrow> e = ErrSecretAlreadyIssued)"
proof -
  let ?s = "performAll svc h s1" and ?i = "newTokenID (draw_id r0)"
  obtain v where c: "newTokenRow svc r0 (sortedCommand (normalizedCommand given)) actor \<in> set (chat_access_tokens (other_tables s1))"
    "loadScopes ?i (other_tables s1) = sort (tcmd_AgentIDs given)" "?i \<noteq> zeroUUID" "tcmd_AgentIDs given \<noteq> []" "chatInv s1"
    by (rule created_row [OF assms(2) chatInv_run [OF assms(1)]])
  from assms(2) obtain request where valid: "validateTokenCreate (normalizedCommand given) = Inr ()"
    and req: "tokenRequest svc actor key ''chat_token.create'' (createPayload (chat_rfc3339 svc) (sortedCommand (normalizedCommand given))) = Inr request"
    and rec1: "newRecord request (draw_execute r0) \<lparr>res_Type = ''chat_token:issued'', res_ID = ?i\<rparr> \<in> set (idempotency_records s1)"
  proof (cases rule: CreateToken_cases)
    case (created request v)
    then show ?thesis using that [OF created(3,4)] Execute_frame(3) [OF created(7)] by auto
  qed simp
  let ?rec = "newRecord request (draw_execute r0) \<lparr>res_Type = ''chat_token:issued'', res_ID = ?i\<rparr>"
  note fields = tokenRequest_fields [OF req]
  have expires: "rec_expires_at ?rec = draw_execute r0 + Microseconds tokenIdempotencyTTL" using fields by (simp add: newRecord_def)
  have "keysUnique s0" using assms(1) by (simp add: noTokens_def keysUnique_def)
  then have "keysUnique (performAll svc (h0 @ (r0, CreateCall given actor key) # h) s0)" by (rule run_keys)
  then have unique: "keysUnique ?s" using assms(2) by simp
  have rec: "?rec \<in> set (idempotency_records ?s)" using rec1 assms(3) expires by (intro run_record) simp_all
  obtain answer err where run: "CreateToken svc r again actor key ?s = (?s, answer, err)" "issued_Secret answer = None" "err \<noteq> None"
    using CreateToken_recorded [OF unique rec, where actor = actor and key = key and r = r and given = again and svc = svc]
      fields assms(4) expires by (cases "CreateToken svc r again actor key ?s") (auto simp: newRecord_def)
  have "err = Some ErrSecretAlreadyIssued" if same: "sortedCommand (normalizedCommand again) = sortedCommand (normalizedCommand given)"
  proof -
    obtain w where w: "load ?i (other_tables ?s) = Inr w" using load_created [OF c] by blast
    show ?thesis using CreateToken_repeated [OF same valid req rec unique assms(4) w] run(1) by simp
  qed
  then show ?thesis using run by auto
qed

section \<open>No other secrets\<close>

lemma token_origin:
  assumes "noTokens s0" "row \<in> set (chat_access_tokens (other_tables (performAll svc h s0)))"
  shows "\<exists>pre r given actor key post v. h = pre @ (r, CreateCall given actor key) # post \<and>
    CreateToken svc r given actor key (performAll svc pre s0) = (performAll svc (pre @ [(r, CreateCall given actor key)]) s0,
      \<lparr>issued_Token = Some v, issued_Secret = Some (SecretValue (newSecret r))\<rparr>, None) \<and>
    token_ID v = ct_id row \<and> ct_token_digest row = chat_sha256 svc (newSecret r) \<and> ct_expires_at row = tcmd_ExpiresAt given div 1000 \<and>
    loadScopes (ct_id row) (other_tables (performAll svc h s0)) = sort (tcmd_AgentIDs given) \<and>
    (ct_revoked_at row = None \<longrightarrow> \<not> revokedIn svc (ct_id row) post (performAll svc (pre @ [(r, CreateCall given actor key)]) s0))"
  using assms(2)
proof (induction h arbitrary: row rule: rev_induct)
  case (snoc x h)
  let ?s = "performAll svc h s0" and ?t = "performAll svc (h @ [x]) s0"
  have inv: "chatInv ?s" "chatInv ?t" using chatInv_run [OF assms(1)] by blast+
  have effect: "tokenEffect svc x ?s ?t" using perform_effect by simp
  show ?case
  proof (cases "\<exists>old \<in> set (chat_access_tokens (other_tables ?s)). ct_id old = ct_id row")
    case True
    then obtain old where old: "old \<in> set (chat_access_tokens (other_tables ?s))" "ct_id old = ct_id row" by blast
    obtain row2 where row2: "row2 \<in> set (chat_access_tokens (other_tables ?t))" "sameToken old row2"
      "ct_revoked_at row2 = None \<longleftrightarrow> ct_revoked_at old = None \<and> \<not> revokes svc x ?s (ct_id old)"
      using effect_row [OF effect inv(1) old(1)] by (elim bexE conjE) (rule that)
    have "row2 = row" using inv(2) row2(1,2) snoc.prems old(2)
      unfolding chatInv_def distinct_map inj_on_def sameToken_def by metis
    then have same: "ct_token_digest row = ct_token_digest old" "ct_expires_at row = ct_expires_at old"
      "ct_revoked_at row = None \<longrightarrow> ct_revoked_at old = None \<and> \<not> revokes svc x ?s (ct_id row)"
      using row2(2,3) old(2) by (auto simp: sameToken_def)
    have scopes: "loadScopes (ct_id row) (other_tables ?t) = loadScopes (ct_id row) (other_tables ?s)"
      using effect_scopes [OF effect inv(1)] old by (metis image_eqI)
    from snoc.IH [OF old(1), unfolded old(2)] obtain pre r given actor key post v where
      "h = pre @ (r, CreateCall given actor key) # post"
      "CreateToken svc r given actor key (performAll svc pre s0) = (performAll svc (pre @ [(r, CreateCall given actor key)]) s0,
        \<lparr>issued_Token = Some v, issued_Secret = Some (SecretValue (newSecret r))\<rparr>, None)"
      "token_ID v = ct_id row" "ct_token_digest old = chat_sha256 svc (newSecret r)" "ct_expires_at old = tcmd_ExpiresAt given div 1000"
      "loadScopes (ct_id row) (other_tables ?s) = sort (tcmd_AgentIDs given)"
      "ct_revoked_at old = None \<longrightarrow> \<not> revokedIn svc (ct_id row) post (performAll svc (pre @ [(r, CreateCall given actor key)]) s0)"
      by (elim exE conjE) (rule that)
    then show ?thesis using same scopes
      by (intro exI [of _ pre] exI [of _ r] exI [of _ given] exI [of _ actor] exI [of _ key] exI [of _ "post @ [x]"] exI [of _ v])
        (simp add: revokedIn_append)
  next
    case False
    from effect show ?thesis
    proof (cases rule: tokenEffect.cases)
      case (issued r given actor key v)
      have row: "row = newTokenRow svc r (sortedCommand (normalizedCommand given)) actor"
        using createToken_ok(3) [OF issued(3)] snoc.prems False by auto
      have v: "token_ID v = newTokenID (draw_id r) \<and> loadScopes (newTokenID (draw_id r)) (other_tables ?t) = sort (tcmd_AgentIDs given)"
        by (rule created_row [OF issued(2) inv(1)]) simp
      show ?thesis
      proof (intro exI conjI impI)
        show "h @ [x] = h @ (r, CreateCall given actor key) # []" using issued(1) by simp
        show "CreateToken svc r given actor key ?s = (performAll svc (h @ [(r, CreateCall given actor key)]) s0,
            \<lparr>issued_Token = Some v, issued_Secret = Some (SecretValue (newSecret r))\<rparr>, None)"
          using issued(2) unfolding issued(1) .
        show "loadScopes (ct_id row) (other_tables ?t) = sort (tcmd_AgentIDs given)" using v by (simp only: row newTokenRow_def ChatTokenRow.simps)
      qed (simp_all add: row v newTokenRow_def sortedCommand_def normalizedCommand_def)
    next
      case (kept)
      then show ?thesis using False snoc.prems by auto
    next
      case (revoked i r actor key)
      then have "ct_id row \<in> ct_id ` set (chat_access_tokens (other_tables ?s))"
        using imageI [OF snoc.prems, of ct_id] by (simp del: if_image_distrib)
      then show ?thesis using False by auto
    next
      case (used i r p)
      then have "ct_id row \<in> ct_id ` set (chat_access_tokens (other_tables ?s))"
        using imageI [OF snoc.prems, of ct_id] by (simp del: if_image_distrib)
      then show ?thesis using False by auto
    qed
  qed
qed (use assms(1) in \<open>simp add: noTokens_def\<close>)

text \<open>
  C9. Whoever is granted access holds a secret that one creation of the run handed out: the presented text has the digest of that
  secret, the grant names its token and exactly the agents it was created for, no later revocation of the token
  succeeded, and it has not expired.
\<close>

theorem grant_was_issued:
  assumes "noTokens s0" "AuthenticateToken svc r plaintext (performAll svc h s0) = (s', Inr g)"
  shows "\<exists>pre r0 given actor key post v. h = pre @ (r0, CreateCall given actor key) # post \<and>
    snd (CreateToken svc r0 given actor key (performAll svc pre s0)) =
      (\<lparr>issued_Token = Some v, issued_Secret = Some (SecretValue (newSecret r0))\<rparr>, None) \<and>
    chat_sha256 svc plaintext = chat_sha256 svc (newSecret r0) \<and> grant_TokenID g = token_ID v \<and>
    grant_agentIDs g = sort (tcmd_AgentIDs given) \<and>
    \<not> revokedIn svc (token_ID v) post (performAll svc (pre @ [(r0, CreateCall given actor key)]) s0) \<and>
    draw_now r < tcmd_ExpiresAt given div 1000"
  using assms(2)
proof (cases rule: AuthenticateToken_cases)
  case (recognized row g')
  from token_origin [OF assms(1) recognized(3)] obtain pre r0 given actor key post v where
    o: "h = pre @ (r0, CreateCall given actor key) # post"
    "CreateToken svc r0 given actor key (performAll svc pre s0) = (performAll svc (pre @ [(r0, CreateCall given actor key)]) s0,
      \<lparr>issued_Token = Some v, issued_Secret = Some (SecretValue (newSecret r0))\<rparr>, None)"
    "token_ID v = ct_id row" "ct_token_digest row = chat_sha256 svc (newSecret r0)" "ct_expires_at row = tcmd_ExpiresAt given div 1000"
    "loadScopes (ct_id row) (other_tables (performAll svc h s0)) = sort (tcmd_AgentIDs given)"
    "ct_revoked_at row = None \<longrightarrow> \<not> revokedIn svc (ct_id row) post (performAll svc (pre @ [(r0, CreateCall given actor key)]) s0)"
    by (elim exE conjE) (rule that)
  have created: "snd (CreateToken svc r0 given actor key (performAll svc pre s0)) =
      (\<lparr>issued_Token = Some v, issued_Secret = Some (SecretValue (newSecret r0))\<rparr>, None)" by (simp only: o(2) snd_conv)
  have "g' = g" using recognized(1) by simp
  then show ?thesis using recognized(4-8) o(3-7) o(1) created
    by (intro exI [of _ pre] exI [of _ r0] exI [of _ given] exI [of _ actor] exI [of _ key] exI [of _ post] exI [of _ v] conjI)
      (simp_all del: performAll_simps)
qed simp

section \<open>One run\<close>

definition demoChatService :: chatService where
  "demoChatService = \<lparr>chat_vault = \<lparr>vault_activeID = ''k'', vault_keys = [\<lparr>key_id = ''k'', key_bytes = replicate 32 CHR ''k''\<rparr>],
      vault_byID = [''k'' \<mapsto> replicate 32 CHR ''k'']\<rparr>,
     chat_hmac = (\<lambda>_ _. replicate 32 0), chat_sha256 = (\<lambda>s. take 32 (drop 10 s @ replicate 32 CHR ''s'')), chat_rfc3339 = (\<lambda>_. ''then'')\<rparr>"

definition demoChat :: "chatTables idemTables" where
  "demoChat = \<lparr>idempotency_records = [], other_tables = \<lparr>chat_access_tokens = [], chat_access_token_agents = [],
     agent_rows = [replicate 16 1, replicate 16 2, replicate 16 3], operator_rows = [replicate 16 9],
     chat_events = \<lparr>log_rows = [], log_next = 1, pruned_through = 0, audit_rows = []\<rparr>\<rparr>\<rparr>"

definition demoChatDraws :: "pgtime \<Rightarrow> chatDraws" where
  "demoChatDraws t = \<lparr>draw_execute = t, draw_now = t, draw_audit = t, draw_event = t, draw_id = replicate 16 7,
     draw_entropy = replicate 32 CHR ''e'', draw_request = replicate 16 8\<rparr>"

definition demoCommand :: TokenCommand where
  "demoCommand = \<lparr>tcmd_Label = ''ci'', tcmd_AgentIDs = [replicate 16 2, replicate 16 1], tcmd_ExpiresAt = 90000\<rparr>"

definition demoIssued :: "chatTables idemTables \<times> Issued \<times> chatError option" where
  "demoIssued = CreateToken demoChatService (demoChatDraws 10) demoCommand (replicate 16 9) ''key'' demoChat"

lemma demo_noTokens: "noTokens demoChat"
  by (simp add: noTokens_def demoChat_def)

definition demoRow :: ChatTokenRow where
  "demoRow = newTokenRow demoChatService (demoChatDraws 10) (sortedCommand (normalizedCommand demoCommand)) (replicate 16 9)"

definition demoScoped :: chatTables where
  "demoScoped = (other_tables demoChat)\<lparr>chat_access_tokens := [demoRow],
     chat_access_token_agents := [(ct_id demoRow, replicate 16 1), (ct_id demoRow, replicate 16 2)]\<rparr>"

definition demoRecorded :: bool where
  "demoRecorded \<longleftrightarrow> (case load (ct_id demoRow) demoScoped of
     Inl _ \<Rightarrow> False
   | Inr v \<Rightarrow> isOk (recordTokenChange demoChatService (demoChatDraws 10) v (replicate 16 9) ''chat_token.create'' ''chat_token.created''
       (chat_events demoScoped)))"

lemma demo_operation:
  "\<exists>d. createToken demoChatService (demoChatDraws 10) (sortedCommand (normalizedCommand demoCommand)) (replicate 16 9) (other_tables demoChat, None) =
    Inr ((d, Some (SecretValue (newSecret (demoChatDraws 10)))), \<lparr>res_Type = ''chat_token:issued'', res_ID = ct_id demoRow\<rparr>)"
proof -
  have ids: "tcmd_AgentIDs (sortedCommand (normalizedCommand demoCommand)) = [replicate 16 1, replicate 16 2]" by code_simp
  have row: "tokenRowOk demoRow" by code_simp
  have "demoRecorded" by code_simp
  then obtain v e where v: "load (ct_id demoRow) demoScoped = Inr v"
    "recordTokenChange demoChatService (demoChatDraws 10) v (replicate 16 9) ''chat_token.create'' ''chat_token.created''
       (chat_events demoScoped) = Inr e"
    by (auto simp: demoRecorded_def isOk_def split: sum.splits)
  have insert: "insertToken demoRow (other_tables demoChat) = Inr ((other_tables demoChat)\<lparr>chat_access_tokens := [demoRow]\<rparr>)"
    using row by (simp add: insertToken_def demoChat_def demoRow_def newTokenRow_def)
  have scopes: "insertScopes (ct_id demoRow) [replicate 16 1, replicate 16 2] ((other_tables demoChat)\<lparr>chat_access_tokens := [demoRow]\<rparr>) = Inr demoScoped"
    by (simp add: demoScoped_def demoChat_def)
  have agents: "validateAgentScopes [replicate 16 1, replicate 16 2] (other_tables demoChat) = Inr ()" by code_simp
  have i: "newTokenID (draw_id (demoChatDraws 10)) = ct_id demoRow" by (simp add: demoRow_def newTokenRow_def)
  have late: "\<not> tcmd_ExpiresAt (sortedCommand (normalizedCommand demoCommand)) \<le> tokenTime (draw_now (demoChatDraws 10))" by code_simp
  have insert': "insertToken \<lparr>ct_id = ct_id demoRow, ct_token_digest = chat_sha256 demoChatService (newSecret (demoChatDraws 10)),
      ct_token_prefix = secretPrefix @ take 8 (rawEncode (draw_entropy (demoChatDraws 10))),
      ct_label = tcmd_Label (sortedCommand (normalizedCommand demoCommand)), ct_created_by_operator_id = replicate 16 9,
      ct_created_at = draw_now (demoChatDraws 10), ct_expires_at = tcmd_ExpiresAt (sortedCommand (normalizedCommand demoCommand)) div 1000,
      ct_revoked_at = None, ct_last_used_at = None\<rparr> (other_tables demoChat) = Inr ((other_tables demoChat)\<lparr>chat_access_tokens := [demoRow]\<rparr>)"
    using insert by (simp only: demoRow_def newTokenRow_def ChatTokenRow.simps)
  show ?thesis
    by (simp only: createToken_def Let_def fst_conv late if_False ids agents bindE_simps i tokenGenerate_new sum.case prod.case
        insert' scopes v) blast
qed

definition demoTokenRequest :: Request where
  "demoTokenRequest = \<lparr>req_Scope = ''operator:'' @ uuidString (replicate 16 9), req_Key = ''key'', req_Operation = ''chat_token.create'',
     req_Digest = replicate 32 0, req_AcceptedDigests = [], req_TTL = tokenIdempotencyTTL\<rparr>"

lemma demo_token_created:
  "CreateToken demoChatService (demoChatDraws 10) demoCommand (replicate 16 9) ''key'' (performAll demoChatService [] demoChat) =
    (fst demoIssued, fst (snd demoIssued), None)"
proof -
  have valid: "validateTokenCreate (normalizedCommand demoCommand) = Inr ()" by code_simp
  have request: "tokenRequest demoChatService (replicate 16 9) ''key'' ''chat_token.create''
      (createPayload (chat_rfc3339 demoChatService) (sortedCommand (normalizedCommand demoCommand))) = Inr demoTokenRequest" by code_simp
  obtain d where d: "createToken demoChatService (demoChatDraws 10) (sortedCommand (normalizedCommand demoCommand)) (replicate 16 9) (other_tables demoChat, None) =
    Inr ((d, Some (SecretValue (newSecret (demoChatDraws 10)))), \<lparr>res_Type = ''chat_token:issued'', res_ID = ct_id demoRow\<rparr>)"
    using demo_operation by blast
  have check: "requestValidate demoTokenRequest = (Inr () :: chatError idemError + unit)"
    by (simp add: requestValidate_def demoTokenRequest_def tokenIdempotencyTTL_def Microseconds_def)
  have run: "Execute demoTokenRequest t (createToken demoChatService (demoChatDraws 10) (sortedCommand (normalizedCommand demoCommand)) (replicate 16 9))
      \<lparr>idempotency_records = idempotency_records demoChat, other_tables = (other_tables demoChat, None)\<rparr> =
    Inr (\<lparr>idempotency_records = [newRecord demoTokenRequest t \<lparr>res_Type = ''chat_token:issued'', res_ID = ct_id demoRow\<rparr>],
        other_tables = (d, Some (SecretValue (newSecret (demoChatDraws 10))))\<rparr>, \<lparr>res_Type = ''chat_token:issued'', res_ID = ct_id demoRow\<rparr>)" for t
    using d by (simp add: Execute_def check) (simp add: demoChat_def)
  obtain w where "load (ct_id demoRow) d = Inr w" using createToken_ok(12) [OF d] by (auto simp: demoRow_def newTokenRow_def)
  then have "snd (snd demoIssued) = None"
    by (simp add: demoIssued_def CreateToken_def Let_def valid request issueToken_def run)
  then show ?thesis by (simp add: demoIssued_def prod_eq_iff)
qed

theorem token_lifetime_witness:
  "\<exists>secret g. issued_Secret (fst (snd demoIssued)) = Some secret \<and>
    snd (AuthenticateToken demoChatService (demoChatDraws 20) (Reveal secret) (fst demoIssued)) = Inr g \<and>
    grant_agentIDs g = [replicate 16 1, replicate 16 2] \<and>
    snd (AuthenticateToken demoChatService (demoChatDraws 90) (Reveal secret) (fst demoIssued)) = Inl ErrUnauthorized"
proof -
  have len: "length (draw_entropy (demoChatDraws 10)) = 32" by (simp add: demoChatDraws_def)
  obtain v secret where issued: "fst (snd demoIssued) = \<lparr>issued_Token = Some v, issued_Secret = Some secret\<rparr>"
    and life: "snd (AuthenticateToken demoChatService r (Reveal secret) (performAll demoChatService h (fst demoIssued))) =
      (if revokedIn demoChatService (token_ID v) h (fst demoIssued) \<or> tcmd_ExpiresAt demoCommand div 1000 \<le> draw_now r then Inl ErrUnauthorized
       else Inr \<lparr>grant_TokenID = token_ID v, grant_Subject = ''chat-token:'' @ uuidString (token_ID v),
          grant_agentIDs = sort (tcmd_AgentIDs demoCommand)\<rparr>)" for h r
    using token_lifetime [OF demo_noTokens demo_token_created len] by blast
  have "sort (tcmd_AgentIDs demoCommand) = [replicate 16 1, replicate 16 2]" by code_simp
  then show ?thesis using issued life [of "demoChatDraws 20" "[]"] life [of "demoChatDraws 90" "[]"]
    by (simp add: demoChatDraws_def demoCommand_def)
qed

theorem secret_issued_once_witness:
  "\<exists>answer. CreateToken demoChatService (demoChatDraws 30) demoCommand (replicate 16 9) ''key'' (fst demoIssued) =
    (fst demoIssued, answer, Some ErrSecretAlreadyIssued) \<and> issued_Secret answer = None"
proof -
  have times: "draw_execute (demoChatDraws 30) < draw_execute (demoChatDraws 10) + Microseconds tokenIdempotencyTTL"
    by (simp add: demoChatDraws_def tokenIdempotencyTTL_def Microseconds_def)
  show ?thesis using secret_issued_once [OF demo_noTokens demo_token_created _ times, of "[]" demoCommand] by auto
qed

theorem grant_was_issued_witness:
  "\<exists>g. snd (AuthenticateToken demoChatService (demoChatDraws 20) (newSecret (demoChatDraws 10))
      (performAll demoChatService [(demoChatDraws 10, CreateCall demoCommand (replicate 16 9) ''key'')] demoChat)) = Inr g \<and>
    grant_agentIDs g = sort (tcmd_AgentIDs demoCommand) \<and> draw_now (demoChatDraws 20) < 90"
proof -
  let ?h = "[(demoChatDraws 10, CreateCall demoCommand (replicate 16 9) ''key'')]"
  let ?a = "AuthenticateToken demoChatService (demoChatDraws 20) (newSecret (demoChatDraws 10)) (performAll demoChatService ?h demoChat)"
  have state: "performAll demoChatService ?h demoChat = fst demoIssued" by (simp add: demoIssued_def)
  have len: "length (draw_entropy (demoChatDraws 10)) = 32" by (simp add: demoChatDraws_def)
  obtain v where "fst (snd demoIssued) = \<lparr>issued_Token = Some v, issued_Secret = Some (SecretValue (newSecret (demoChatDraws 10)))\<rparr>"
    and life: "\<forall>h r. snd (AuthenticateToken demoChatService r (newSecret (demoChatDraws 10)) (performAll demoChatService h (fst demoIssued))) =
      (if revokedIn demoChatService (token_ID v) h (fst demoIssued) \<or> tcmd_ExpiresAt demoCommand div 1000 \<le> draw_now r then Inl ErrUnauthorized
       else Inr \<lparr>grant_TokenID = token_ID v, grant_Subject = ''chat-token:'' @ uuidString (token_ID v),
          grant_agentIDs = sort (tcmd_AgentIDs demoCommand)\<rparr>)"
    using issued_life [OF demo_noTokens demo_token_created len] by (elim exE conjE) (rule that)
  have "isOk (snd ?a)" using life [THEN spec [of _ "[]"], THEN spec [of _ "demoChatDraws 20"]]
    unfolding state by (simp add: demoChatDraws_def demoCommand_def)
  then obtain g where g: "?a = (fst ?a, Inr g)" by (cases "snd ?a") (auto simp: prod_eq_iff)
  from grant_was_issued [OF demo_noTokens g] obtain pre r0 given actor key post where h: "?h = pre @ (r0, CreateCall given actor key) # post"
    "grant_agentIDs g = sort (tcmd_AgentIDs given)" "draw_now (demoChatDraws 20) < tcmd_ExpiresAt given div 1000" by blast
  then have "given = demoCommand" by (cases pre) auto
  then show ?thesis using g h(2,3) by (intro exI [of _ g]) (simp add: prod_eq_iff demoCommand_def)
qed

end
