(* ===== verification/Spec2Isabelle.thy ===== *)
theory Spec2Isabelle
  imports JobProperties PoolProperties WorkerProperties NetProperties ModelBudget
    SourceFilter SourceFiles JobService SchemaProperties SessionTheorems
    EventProperties InvokeProperties AuthTheorems ChatTokenTheorems
begin

text \<open>
  \<^bold>\<open>The program.\<close> The repository is a documentation service in Go. An HTTP interface and a set of
  workers share a PostgreSQL database. Requests enqueue durable jobs; workers claim them under
  leases and run handlers; a handler that needs a language model borrows a slot of an isolated
  runtime, the \<^emph>\<open>capsule\<close>, and acts as its host: it relays model requests to a provider, runs the
  tools the provider calls, and takes over the result the provider submits. Sources are read
  through path filters and a network policy. This development models the parts that decide
  something: the job queue, the worker, the admission of model calls, request idempotency, stored
  credentials and the vault that encrypts them, the event stream, the slot pool, the whole host
  side of the capsule, the network policy and the source filters.

  \<^bold>\<open>Conventions.\<close> A Go function with an error result is a function into a sum, \<open>Inl\<close> the error
  (\<open>Prelude\<close>); a method with a receiver takes the state as its last argument and returns it with
  the result. A struct is a record, an enumeration a datatype. Go strings and byte slices are
  byte lists (\<open>string\<close>); what the code does with them is modelled from Go's documentation in
  \<open>GoStd\<close> (UTF-8, strings, paths, numbers) and \<open>GoJson\<close> (the encoder and the token decoder of
  \<^verbatim>\<open>encoding/json\<close>, \<^verbatim>\<open>strconv\<close>, with doubles as rationals rounded half to even). Integers
  that the code bounds far below their width are unbounded; addresses, UUID bytes and frame lengths are
  words. Code outside the repository is a parameter: the compiler of regular expressions, the
  parsers of \<^verbatim>\<open>net/url\<close> and \<^verbatim>\<open>net/netip\<close>, hashes, the authenticated cipher, the file system seen by the slot pool, job
  handlers, tool handlers, the provider and the network connection.

  \<^bold>\<open>The job queue\<close> (\<^verbatim>\<open>internal/jobs\<close>, \<^verbatim>\<open>internal/database/sqlc/jobs.sql.go\<close>). \<open>JobTypes\<close> has
  the types, \<open>JobStore\<close> the tables and the SQL statements as functions on them, which refuse what
  the columns of \<^verbatim>\<open>db/migrations/00001_baseline.sql\<close> refuse (\<open>Postgres\<close> has the rules: the length of
  a varchar, texts that are valid UTF-8 without NUL, jsonb), \<open>JobOps\<close> every store operation as a
  transaction, \<open>JobInvariant\<close> the well-formedness of the tables and its preservation, \<open>JobQueue\<close>
  the contracts of the operations under a permit. \<open>JobRuns\<close> interleaves all operations and edits of
  the model profiles as a step relation whose steps are commits: an operation reads its clock at any
  moment before it commits, so a claim may see a lease as expired that a heartbeat, committing
  after it, renews. Such a late heartbeat is the one behaviour that lets a concurrency limit be
  exceeded (\<open>JobProperties\<close> exhibits a run); \<open>timelyRun\<close> are the runs without one. The commits of
  two claims or admissions of model calls do not overlap, since both hold the admission lock of the
  database. \<open>JobRefinement\<close> refines the timely runs into a lock service with fencing tokens.
  \<open>JobProperties\<close> shows lease fencing, that claims respect live leases, concurrency limits and
  the shared admission of model calls, that claims recover expired work and take the earliest
  eligible job, and the outcome of each operation. The claim loop is proved to end, since every
  round but the last finishes a held row. The enqueue loop has one round for each interference of
  other transactions and a last one without; for a key that fits its column the last one returns.

  \<^bold>\<open>The worker\<close> (\<^verbatim>\<open>internal/worker\<close>). \<open>Worker\<close> models the configuration, the heartbeat and one
  iteration of the runner over any queue; \<open>WorkerQueue\<close> states as a locale what the runner relies
  on and interprets it on the job store; \<open>WorkerProperties\<close> shows that a superseded worker
  changes nothing and how outcomes are recorded.

  \<^bold>\<open>Idempotent requests\<close> (\<^verbatim>\<open>internal/idempotency\<close>): \<open>Idempotency\<close>. \<open>JobService\<close> composes them
  with the queue and the vault in the operator's cancellation (\<^verbatim>\<open>internal/jobs/service.go\<close>).

  \<^bold>\<open>Credentials\<close> (\<^verbatim>\<open>internal/security\<close>, \<^verbatim>\<open>internal/credentials\<close>). \<open>CredentialVault\<close> has the key
  ring, envelopes and keyed digests, with the cipher and the keyed hash as parameters; \<open>VaultProperties\<close>
  shows that rotation of keys loses nothing and that a ciphertext is bound to its credential, by
  the injective framing of \<open>ByteFrames\<close>. \<open>Credentials\<close> has creation, rotation and the reader over
  the tables; \<open>CredentialProperties\<close> states a versioned secret store as a locale and interprets it
  on them.

  \<^bold>\<open>Operators\<close> (\<^verbatim>\<open>internal/auth\<close>, \<^verbatim>\<open>internal/security/password.go\<close>, the guards of
  \<^verbatim>\<open>internal/api/auth.go\<close>). \<open>Passwords\<close> has stored passwords, \<open>Authentication\<close> the tables and each call
  of the service with the failures it can meet, \<open>AuthProperties\<close> the effect of every call and the invariant of
  all runs. \<open>AuthTheorems\<close> shows that there is one operator, who knew the bootstrap token, that a session
  lives until it is closed or expires and admits only writes with its CSRF token, that nobody else is
  recognized, and which passwords a login takes.

  \<^bold>\<open>Chat access tokens\<close> (\<^verbatim>\<open>internal/chattokens\<close>). \<open>ChatTokens\<close> has creation, revocation,
  recognition and the ledger over idempotent requests and events, \<open>ChatTokenProperties\<close> the effect of
  every call and the invariant of all runs; \<open>ChatTokenTheorems\<close> shows that a secret is handed out once, that
  it stands for exactly its agents until it is revoked or expires, and that no other secret is recognized.

  \<^bold>\<open>Events\<close> (\<^verbatim>\<open>internal/events\<close>, \<^verbatim>\<open>internal/api/events.go\<close>, the pruning step of
  \<^verbatim>\<open>internal/retention\<close>). \<open>EventStream\<close> has the log, its readers and the stream of one operator;
  \<open>EventProperties\<close> shows that the stream skips nothing it does not announce.

  \<^bold>\<open>The slot pool\<close> (\<^verbatim>\<open>internal/capsule/pool.go\<close>). \<open>SlotPool\<close> has each critical section of
  Acquire, Release, Start and Close; \<open>PoolRuns\<close> their interleaving by any number of callers;
  \<open>PoolProperties\<close> mutual exclusion, no lost waiter and completion of Close, and the lemmas on the socket topology.
  \<open>Transitions\<close> is the locale of inductive invariants that the state machines interpret.

  \<^bold>\<open>The capsule host\<close> (\<^verbatim>\<open>internal/capsule\<close>). \<open>CapsuleJson\<close> is the strict decoder and the
  canonical encoder of \<^verbatim>\<open>json.go\<close>; the fuel of its decoder is the depth left, and that of its
  two loops one more than the bytes left, which \<open>JsonText\<close> and \<open>CapsuleCodec\<close> show to suffice:
  decoding inverts encoding on exactly the values within the limits. \<open>CapsuleSchema\<close> compiles and
  applies JSON schemas, \<open>SchemaProperties\<close> equates that with reading the document directly.
  \<open>CapsuleWire\<close> is the protocol of \<^verbatim>\<open>wire.go\<close> and the limits of \<^verbatim>\<open>types.go\<close>,
  \<open>WireProperties\<close> its typing, round trip and byte budget. \<open>CapsuleSse\<close> reads the streamed
  answer of the provider (\<^verbatim>\<open>sse.go\<close>), \<open>CapsuleAttempt\<close> is the conversation (\<^verbatim>\<open>attempt.go\<close>),
  \<open>CapsuleSession\<close> the exchange with retries and the message loop (\<^verbatim>\<open>session.go\<close>), a
  terminating function because each round consumes input. \<open>SseProperties\<close>, \<open>AttemptProperties\<close>
  and \<open>SessionProperties\<close> build the invariant of a session from those of its parts;
  \<open>SessionBounds\<close> counts rounds, requests and bytes; \<open>SessionTheorems\<close> concludes what a capsule
  can make the host do and return, whatever it sends. \<open>CapsuleBinding\<close> compiles the provider a run
  has captured into a binding and normalizes it (\<^verbatim>\<open>types.go\<close>), \<open>CapsuleInvoke\<close> has factories, the
  start message and one invocation with its deferred clean-up over a record of the outside
  (\<^verbatim>\<open>session.go\<close>). \<open>BindingProperties\<close> shows that the options of a model cannot replace what the
  host decides and that the start message is accepted; \<open>InvokeProperties\<close> that an invocation is a run
  of a protocol automaton over credential, slot and connection, that it reports the usage it was
  charged, and, with \<open>CredentialProperties\<close>, that it uses the key that was captured. \<open>Evaluation\<close> and \<open>SessionExample\<close>
  run one session on concrete bytes. \<open>ModelBudget\<close> is \<^verbatim>\<open>internal/modelbudget\<close>.

  \<^bold>\<open>Sources and network\<close>. \<open>NetPolicy\<close> and \<open>NetProperties\<close> treat \<^verbatim>\<open>internal/safenet/policy.go\<close>,
  \<open>SourceFilter\<close> \<^verbatim>\<open>internal/sourcegit/filter.go\<close> with Go's \<^verbatim>\<open>path.Match\<close> for one segment, which
  takes the leftmost match of each chunk of a pattern, \<open>SourceFiles\<close>
  \<^verbatim>\<open>internal/sourcefiles/content.go\<close>.

  \<^bold>\<open>What is not modelled.\<close> HTTP handlers and their JSON shapes (\<^verbatim>\<open>internal/api\<close>), the Discord
  gateway, the stores that only issue SQL for one entity each (agents, providers, sources,
  documentation, knowledge bases, artifacts, operations), the web crawler and the
  Git transport, migrations, process wiring under \<^verbatim>\<open>cmd\<close>, the TypeScript capsule and the web
  interface: they are input and output around the parts above. Time enters as the value each
  statement or timer reads; the memory model of Go is not modelled, critical sections are steps.
\<close>

end
